(* ===== verification/Prelude.thy ===== *)
theory Prelude
  imports Complex_Main "HOL-Library.Multiset" "HOL-Library.List_Lexorder" "HOL-Library.Char_ord"
begin

text \<open>
  Shared vocabulary of the development: JavaScript strings, exceptions as values, JSON
  documents, the stable sort of \<open>Array.prototype.sort\<close> and the comparator contract its
  callers rely on.

  A JavaScript string is a list of code units. The model uses \<open>string\<close>, a list of
  \<open>char\<close>, so the code units are those below 256 (Latin-1). On them \<open>trim\<close>,
  \<open>toLowerCase\<close> and the relational operators are given exactly as ECMAScript defines them.
\<close>

named_theorems model_simps "equations that evaluate the model's operations"

section \<open>Exceptions as values\<close>

text \<open>A thrown \<open>Error\<close> is \<open>Inl\<close> of its message, a returned value is \<open>Inr\<close>.\<close>

type_synonym 'a result = "string + 'a"

fun rbind :: "'e + 'a \<Rightarrow> ('a \<Rightarrow> 'e + 'b) \<Rightarrow> 'e + 'b" where
  "rbind (Inl e) f = Inl e"
| "rbind (Inr x) f = f x"

lemma rbind_Inr_iff: "rbind m f = Inr y \<longleftrightarrow> (\<exists>x. m = Inr x \<and> f x = Inr y)"
  by (cases m) auto

lemma rbind_Inl_iff: "rbind m f = Inl e \<longleftrightarrow> m = Inl e \<or> (\<exists>x. m = Inr x \<and> f x = Inl e)"
  by (cases m) auto

lemma rbind_assoc: "rbind (rbind m f) g = rbind m (\<lambda>x. rbind (f x) g)"
  by (cases m) auto

definition is_ok :: "'e + 'a \<Rightarrow> bool" where
  "is_ok m = (case m of Inl _ \<Rightarrow> False | Inr _ \<Rightarrow> True)"

lemma is_ok_simps [simp]: "is_ok (Inr x)" "\<not> is_ok (Inl e)"
  by (simp_all add: is_ok_def)

text \<open>\<open>a ?? b\<close>\<close>

fun orElse :: "'a option \<Rightarrow> 'a option \<Rightarrow> 'a option" where
  "orElse None y = y"
| "orElse (Some x) y = Some x"

fun getOr :: "'a option \<Rightarrow> 'a \<Rightarrow> 'a" where
  "getOr None d = d"
| "getOr (Some x) d = x"

lemma getOr_orElse: "getOr (orElse x y) d = getOr x (getOr y d)"
  by (cases x) auto

section \<open>Strings\<close>

definition is_ws :: "char \<Rightarrow> bool" where
  "is_ws c \<longleftrightarrow> c \<in> set [CHR 0x09, CHR 0x0A, CHR 0x0B, CHR 0x0C, CHR 0x0D, CHR 0x20, CHR 0xA0]"

definition trim_start :: "string \<Rightarrow> string" where
  "trim_start s = dropWhile is_ws s"

definition js_trim :: "string \<Rightarrow> string" where
  "js_trim s = rev (trim_start (rev (trim_start s)))"

definition lower_char :: "char \<Rightarrow> char" where
  "lower_char c =
     (let n = (of_char c :: nat)
      in if 65 \<le> n \<and> n \<le> 90 \<or> 192 \<le> n \<and> n \<le> 222 \<and> n \<noteq> 215 then char_of (n + 32) else c)"

definition js_lower :: "string \<Rightarrow> string" where
  "js_lower s = map lower_char s"

definition starts_with :: "string \<Rightarrow> string \<Rightarrow> bool" where
  "starts_with p s \<longleftrightarrow> take (length p) s = p"

fun js_includes :: "string \<Rightarrow> string \<Rightarrow> bool" where
  "js_includes sub [] = (sub = [])"
| "js_includes sub (c # s) = (starts_with sub (c # s) \<or> js_includes sub s)"

fun join :: "string \<Rightarrow> string list \<Rightarrow> string" where
  "join sep [] = []"
| "join sep [x] = x"
| "join sep (x # xs) = x @ sep @ join sep xs"

definition is_digit :: "char \<Rightarrow> bool" where
  "is_digit c \<longleftrightarrow> CHR ''0'' \<le> c \<and> c \<le> CHR ''9''"

text \<open>\<open>JSON.stringify\<close> of a string: quotes, backslashes and control characters are escaped.\<close>

definition hex_digit :: "nat \<Rightarrow> char" where
  "hex_digit n = char_of (if n < 10 then 48 + n else 87 + n)"

definition json_escape :: "char \<Rightarrow> string" where
  "json_escape c =
     (let n = (of_char c :: nat)
      in if n = 34 \<or> n = 92 then [CHR 0x5C, c]
         else if n = 8 then [CHR 0x5C, CHR ''b'']
         else if n = 9 then [CHR 0x5C, CHR ''t'']
         else if n = 10 then [CHR 0x5C, CHR ''n'']
         else if n = 12 then [CHR 0x5C, CHR ''f'']
         else if n = 13 then [CHR 0x5C, CHR ''r'']
         else if n < 32 then [CHR 0x5C, CHR ''u'', CHR ''0'', CHR ''0'', hex_digit (n div 16), hex_digit (n mod 16)]
         else [c])"

definition json_string :: "string \<Rightarrow> string" where
  "json_string s = CHR 0x22 # concat (map json_escape s) @ [CHR 0x22]"

text \<open>\<open>String(n)\<close> of an integer.\<close>

fun nat_digits :: "nat \<Rightarrow> string" where
  "nat_digits n = (if n < 10 then [char_of (48 + n)] else nat_digits (n div 10) @ [char_of (48 + n mod 10)])"

declare nat_digits.simps [simp del]

definition int_text :: "int \<Rightarrow> string" where
  "int_text k = (if k < 0 then CHR ''-'' # nat_digits (nat (- k)) else nat_digits (nat k))"

lemma of_char_lower_char:
  "(of_char (lower_char c) :: nat) =
     (let n = of_char c in if 65 \<le> n \<and> n \<le> 90 \<or> 192 \<le> n \<and> n \<le> 222 \<and> n \<noteq> 215 then n + 32 else n)"
  by (auto simp: lower_char_def Let_def)

lemma lower_char_idem [simp]: "lower_char (lower_char c) = lower_char c"
  by (rule injD [OF inj_of_char [where 'a = nat]]) (auto simp: of_char_lower_char Let_def)

lemma js_lower_idem [simp]: "js_lower (js_lower s) = js_lower s"
  by (simp add: js_lower_def)

lemma js_lower_Nil [simp]: "js_lower [] = []"
  by (simp add: js_lower_def)

lemma js_lower_eq_Nil [simp]: "js_lower s = [] \<longleftrightarrow> s = []"
  by (simp add: js_lower_def)

lemma is_ws_lower_char [simp]: "is_ws (lower_char c) \<longleftrightarrow> is_ws c"
proof -
  have "is_ws c \<longleftrightarrow> (of_char c :: nat) \<in> {9, 10, 11, 12, 13, 32, 160}" for c
    by (simp add: is_ws_def flip: inj_eq [OF inj_of_char [where 'a = nat]])
  then show ?thesis by (auto simp: of_char_lower_char Let_def)
qed

lemma trim_start_lower: "trim_start (js_lower s) = js_lower (trim_start s)"
  by (induction s) (auto simp: trim_start_def js_lower_def)

lemma js_trim_lower: "js_trim (js_lower s) = js_lower (js_trim s)"
proof -
  have rev_lower: "rev (js_lower t) = js_lower (rev t)" for t
    by (simp add: js_lower_def rev_map)
  show ?thesis by (simp add: js_trim_def trim_start_lower rev_lower)
qed

lemma trim_start_idem [simp]: "trim_start (trim_start s) = trim_start s"
  by (simp add: trim_start_def)

lemma dropWhile_rev_dropWhile:
  "dropWhile P (rev (dropWhile P (rev (dropWhile P s)))) = rev (dropWhile P (rev (dropWhile P s)))"
proof (cases "dropWhile P s")
  case Nil
  then show ?thesis by (simp only:) simp
next
  case (Cons x xs)
  then have x: "\<not> P x" by (metis hd_dropWhile list.distinct(1) list.sel(1))
  obtain ys zs where split: "rev (x # xs) = ys @ zs" and zs: "zs = dropWhile P (rev (x # xs))"
    by (metis takeWhile_dropWhile_id)
  have "zs \<noteq> []"
    using x by (simp add: zs dropWhile_append)
  then obtain b where "rev zs = x # b"
    using split by (metis append_self_conv2 last_appendR last_snoc list.exhaust_sel
        rev.simps(2) rev_is_Nil_conv hd_rev)
  with x zs Cons show ?thesis by simp
qed

lemma js_trim_idem [simp]: "js_trim (js_trim s) = js_trim s"
  using dropWhile_rev_dropWhile [of is_ws s]
  by (simp add: js_trim_def trim_start_def)

lemma starts_with_append [simp]: "starts_with p (p @ s)"
  by (simp add: starts_with_def)

lemma starts_with_iff: "starts_with p s \<longleftrightarrow> (\<exists>t. s = p @ t)"
  by (metis append_take_drop_id starts_with_append starts_with_def)

section \<open>Sets of strings\<close>

text \<open>
  A \<open>Set\<close> iterates in insertion order; it is the list of its elements in that order, and
  inserting an element that is present keeps its place.
\<close>

definition set_add :: "'a \<Rightarrow> 'a list \<Rightarrow> 'a list" where
  "set_add x s = (if x \<in> set s then s else s @ [x])"

definition set_of_list :: "'a list \<Rightarrow> 'a list" where
  "set_of_list xs = foldl (\<lambda>s x. set_add x s) [] xs"

lemma foldl_set_add:
  "distinct s \<Longrightarrow> distinct (foldl (\<lambda>s x. set_add x s) s xs)
     \<and> set (foldl (\<lambda>s x. set_add x s) s xs) = set s \<union> set xs"
  by (induction xs arbitrary: s) (auto simp: set_add_def)

lemma set_of_list_distinct [simp]: "distinct (set_of_list xs)"
  using foldl_set_add [of "[]" xs] by (simp add: set_of_list_def)

lemma set_of_list_set [simp]: "set (set_of_list xs) = set xs"
  using foldl_set_add [of "[]" xs] by (simp add: set_of_list_def)

lemma foldl_set_add_distinct:
  "distinct (s @ xs) \<Longrightarrow> foldl (\<lambda>s x. set_add x s) s xs = s @ xs"
  by (induction xs arbitrary: s) (auto simp: set_add_def)

lemma set_of_list_id: "distinct xs \<Longrightarrow> set_of_list xs = xs"
  using foldl_set_add_distinct [of "[]" xs] by (simp add: set_of_list_def)

section \<open>JSON documents\<close>

text \<open>
  The values of \<open>JSON.parse\<close>. Numbers are rationals; an object keeps its members in order,
  with the last of two equal names winning, as \<open>JSON.parse\<close> does.
\<close>

datatype json =
    JNull
  | JBool bool
  | JNum rat
  | JStr string
  | JArr "json list"
  | JObj "(string \<times> json) list"

text \<open>\<open>o.k\<close>: \<open>None\<close> is \<open>undefined\<close>.\<close>

fun jget :: "json \<Rightarrow> string \<Rightarrow> json option" where
  "jget (JObj kvs) k = map_of (rev kvs) k"
| "jget _ k = None"

fun is_record :: "json \<Rightarrow> bool" where
  "is_record (JObj _) = True"
| "is_record _ = False"

fun jstring :: "json option \<Rightarrow> string option" where
  "jstring (Some (JStr s)) = Some s"
| "jstring _ = None"

fun jnumber :: "json option \<Rightarrow> rat option" where
  "jnumber (Some (JNum q)) = Some q"
| "jnumber _ = None"

fun jbool :: "json option \<Rightarrow> bool option" where
  "jbool (Some (JBool b)) = Some b"
| "jbool _ = None"

fun jlist :: "json option \<Rightarrow> json list option" where
  "jlist (Some (JArr xs)) = Some xs"
| "jlist _ = None"

lemma jstring_Some [simp]: "jstring v = Some s \<longleftrightarrow> v = Some (JStr s)"
  by (cases v rule: jstring.cases) auto

lemma jbool_Some [simp]: "jbool v = Some b \<longleftrightarrow> v = Some (JBool b)"
  by (cases v rule: jbool.cases) auto

lemma jnumber_Some [simp]: "jnumber v = Some q \<longleftrightarrow> v = Some (JNum q)"
  by (cases v rule: jnumber.cases) auto

lemma jlist_Some [simp]: "jlist v = Some xs \<longleftrightarrow> v = Some (JArr xs)"
  by (cases v rule: jlist.cases) auto

section \<open>Stable sorting with a comparator\<close>

text \<open>
  \<open>Array.prototype.sort\<close> is stable and, for a consistent comparator, its result is determined
  by the comparator; insertion from the right computes it.
\<close>

fun insert_by :: "('a \<Rightarrow> 'a \<Rightarrow> int) \<Rightarrow> 'a \<Rightarrow> 'a list \<Rightarrow> 'a list" where
  "insert_by cmp x [] = [x]"
| "insert_by cmp x (y # ys) = (if cmp x y \<le> 0 then x # y # ys else y # insert_by cmp x ys)"

definition js_sort :: "('a \<Rightarrow> 'a \<Rightarrow> int) \<Rightarrow> 'a list \<Rightarrow> 'a list" where
  "js_sort cmp xs = foldr (insert_by cmp) xs []"

lemma mset_insert_by [simp]: "mset (insert_by cmp x xs) = add_mset x (mset xs)"
  by (induction xs) auto

lemma mset_js_sort [simp]: "mset (js_sort cmp xs) = mset xs"
  by (induction xs) (auto simp: js_sort_def)

lemma set_js_sort [simp]: "set (js_sort cmp xs) = set xs"
  by (metis mset_js_sort set_mset_mset)

lemma length_js_sort [simp]: "length (js_sort cmp xs) = length xs"
  by (metis mset_js_sort size_mset)

text \<open>The contract a comparison function owes the sort: a total preorder.\<close>

locale comparator =
  fixes cmp :: "'a \<Rightarrow> 'a \<Rightarrow> int"
  assumes cmp_total: "cmp x y \<le> 0 \<or> cmp y x \<le> 0"
    and cmp_trans: "cmp x y \<le> 0 \<Longrightarrow> cmp y z \<le> 0 \<Longrightarrow> cmp x z \<le> 0"
begin

definition tied :: "'a \<Rightarrow> 'a \<Rightarrow> bool" where
  "tied x y \<longleftrightarrow> cmp x y \<le> 0 \<and> cmp y x \<le> 0"

lemma insert_by_ordered:
  "sorted_wrt (\<lambda>x y. cmp x y \<le> 0) xs \<Longrightarrow> sorted_wrt (\<lambda>x y. cmp x y \<le> 0) (insert_by cmp x xs)"
proof (induction xs)
  case Nil
  then show ?case by simp
next
  case (Cons y ys)
  have set_ins: "set (insert_by cmp x ys) = insert x (set ys)"
    by (metis mset_insert_by set_mset_add_mset_insert set_mset_mset)
  show ?case
  proof (cases "cmp x y \<le> 0")
    case True
    with Cons.prems show ?thesis by (auto intro: cmp_trans)
  next
    case False
    then have "cmp y x \<le> 0" using cmp_total by blast
    with Cons False set_ins show ?thesis by auto
  qed
qed

lemma sort_ordered: "sorted_wrt (\<lambda>x y. cmp x y \<le> 0) (js_sort cmp xs)"
  by (induction xs) (auto simp: js_sort_def intro: insert_by_ordered)

lemma filter_tied_insert_by:
  "filter (tied z) (insert_by cmp x xs) = (if tied z x then x # filter (tied z) xs else filter (tied z) xs)"
proof (induction xs)
  case Nil
  then show ?case by simp
next
  case (Cons y ys)
  have "\<not> (tied z x \<and> tied z y)" if "\<not> cmp x y \<le> 0"
    using that cmp_trans [of x z y] by (auto simp: tied_def)
  with Cons show ?case by auto
qed

lemma sort_stable: "filter (tied z) (js_sort cmp xs) = filter (tied z) xs"
  by (induction xs) (auto simp: js_sort_def filter_tied_insert_by)

lemma hd_sort_least: "y \<in> set xs \<Longrightarrow> cmp (hd (js_sort cmp xs)) y \<le> 0"
proof -
  assume y: "y \<in> set xs"
  then have "y \<in> set (js_sort cmp xs)" by simp
  with sort_ordered [of xs] show ?thesis
    by (cases "js_sort cmp xs") (use cmp_total in auto)
qed

end

text \<open>Comparing by a list of keys, each used where the earlier ones tie.\<close>

definition sgn_cmp :: "'a::linorder \<Rightarrow> 'a \<Rightarrow> int" where
  "sgn_cmp x y = (if x < y then -1 else if y < x then 1 else 0)"

definition then_cmp :: "('a \<Rightarrow> 'a \<Rightarrow> int) \<Rightarrow> ('a \<Rightarrow> 'a \<Rightarrow> int) \<Rightarrow> 'a \<Rightarrow> 'a \<Rightarrow> int" where
  "then_cmp f g x y = (if f x y \<noteq> 0 then f x y else g x y)"

lemma sgn_cmp_simps [simp]:
  "sgn_cmp x y \<le> 0 \<longleftrightarrow> x \<le> y" "sgn_cmp x y = 0 \<longleftrightarrow> x = y" "sgn_cmp x y < 0 \<longleftrightarrow> x < y"
  by (auto simp: sgn_cmp_def)

end
