(* ===== verification/Dates.thy ===== *)
theory Dates
  imports Prelude "HOL-Library.Monad_Syntax"
begin

text \<open>
  \<open>Date\<close> of ECMAScript: a time value is an \<open>int\<close> of milliseconds since the epoch. The
  proleptic Gregorian calendar arithmetic, \<open>Date.prototype.toISOString\<close> with its
  \<open>RangeError\<close>, and \<open>Date.parse\<close> on the date-time strings the standard specifies (a
  full date, alone or with a time to minutes, seconds or a fraction, and a zone). Other
  strings, on which the standard leaves the answer to the implementation, are \<open>None\<close>
  (\<open>NaN\<close>) here.
\<close>

section \<open>Calendar\<close>

definition leap :: "int \<Rightarrow> bool" where
  "leap y \<longleftrightarrow> (y mod 4 = 0 \<and> y mod 100 \<noteq> 0) \<or> y mod 400 = 0"

definition day_from_year :: "int \<Rightarrow> int" where
  "day_from_year y =
     365 * (y - 1970) + (y - 1969) div 4 - (y - 1901) div 100 + (y - 1601) div 400"

definition year_from_day :: "int \<Rightarrow> int" where
  "year_from_day d =
     (let e = 1970 + (400 * d) div 146097
      in if d < day_from_year e then e - 1 else if day_from_year (e + 1) \<le> d then e + 1 else e)"

definition month_start :: "bool \<Rightarrow> int \<Rightarrow> int" where
  "month_start lp m =
     (if m \<le> 1 then 0 else if m = 2 then 31
      else (if lp then 1 else 0) +
        (if m = 3 then 59 else if m = 4 then 90 else if m = 5 then 120 else if m = 6 then 151
         else if m = 7 then 181 else if m = 8 then 212 else if m = 9 then 243 else if m = 10 then 273
         else if m = 11 then 304 else if m = 12 then 334 else 365))"

definition month_of_yday :: "bool \<Rightarrow> int \<Rightarrow> int" where
  "month_of_yday lp n =
     (if n < month_start lp 2 then 1 else if n < month_start lp 3 then 2
      else if n < month_start lp 4 then 3 else if n < month_start lp 5 then 4
      else if n < month_start lp 6 then 5 else if n < month_start lp 7 then 6
      else if n < month_start lp 8 then 7 else if n < month_start lp 9 then 8
      else if n < month_start lp 10 then 9 else if n < month_start lp 11 then 10
      else if n < month_start lp 12 then 11 else 12)"

definition day_of_civil :: "int \<Rightarrow> int \<Rightarrow> int \<Rightarrow> int" where
  "day_of_civil y m d = day_from_year y + month_start (leap y) m + d - 1"

definition civil_of_day :: "int \<Rightarrow> int \<times> int \<times> int" where
  "civil_of_day n =
     (let y = year_from_day n; k = n - day_from_year y; m = month_of_yday (leap y) k
      in (y, m, k - month_start (leap y) m + 1))"

definition month_days :: "int \<Rightarrow> int \<Rightarrow> int" where
  "month_days y m = month_start (leap y) (m + 1) - month_start (leap y) m"

lemma div_bounds:
  "0 < (k::int) \<Longrightarrow> k * (n div k) \<le> n \<and> n < k * (n div k) + k"
  by (smt (verit) mult_div_mod_eq pos_mod_bound pos_mod_sign)

lemma day_from_year_bounds:
  "400 * day_from_year y \<le> 146097 * y - 287810501"
  "146097 * y - 287811596 \<le> 400 * day_from_year y"
  using div_bounds [of 4 "y - 1969"] div_bounds [of 100 "y - 1901"] div_bounds [of 400 "y - 1601"]
  by (simp_all add: day_from_year_def)

lemma year_from_day_correct:
  "day_from_year (year_from_day d) \<le> d \<and> d < day_from_year (year_from_day d + 1)"
proof -
  define e where "e = 1970 + (400 * d) div 146097"
  have e: "146097 * (e - 1970) \<le> 400 * d" "400 * d < 146097 * (e - 1970) + 146097"
    using div_bounds [of 146097 "400 * d"] by (simp_all add: e_def)
  have "day_from_year (e - 1) \<le> d" using e day_from_year_bounds(1) [of "e - 1"] by (simp add: algebra_simps)
  moreover have "d < day_from_year (e + 2)" using e day_from_year_bounds(2) [of "e + 2"] by (simp add: algebra_simps)
  ultimately show ?thesis
    by (auto simp: year_from_day_def Let_def e_def [symmetric] add.commute)
qed

lemma year_length: "day_from_year (y + 1) - day_from_year y = (if leap y then 366 else 365)"
proof -
  have step: "(n + 1) div k - n div k = (if (n + 1) mod k = 0 then 1 else 0)" if "1 < k" for n k :: int
  proof (cases "(n + 1) mod k = 0")
    case True
    then obtain q where q: "n + 1 = k * q" by (auto simp: mod_eq_0_iff_dvd)
    then have "n = k * (q - 1) + (k - 1)" by (simp add: algebra_simps)
    then have "n div k = q - 1" using that by (simp add: div_mult_self4)
    with q True that show ?thesis by simp
  next
    case False
    have "k * ((n + 1) div k) + (n + 1) mod k = n + 1" by (rule mult_div_mod_eq)
    moreover have "0 < (n + 1) mod k" using False that by (smt (verit) pos_mod_sign)
    moreover have "(n + 1) mod k < k" using that by simp
    ultimately have "n div k = (n + 1) div k"
      by (intro int_div_pos_eq [of n k "(n + 1) div k" "(n + 1) mod k - 1"]) linarith+
    with False show ?thesis by simp
  qed
  have m: "(y - 1969 + 1) mod 4 = y mod 4" "(y - 1901 + 1) mod 100 = y mod 100"
    "(y - 1601 + 1) mod 400 = y mod 400"
    using mod_mult_self2 [of y 4 "-492"] mod_mult_self2 [of y 100 "-19"] mod_mult_self2 [of y 400 "-4"]
    by simp_all
  have s4: "(y - 1969 + 1) div 4 - (y - 1969) div 4 = (if y mod 4 = 0 then 1 else 0)"
    using step [of 4 "y - 1969"] unfolding m by simp
  have s100: "(y - 1901 + 1) div 100 - (y - 1901) div 100 = (if y mod 100 = 0 then 1 else 0)"
    using step [of 100 "y - 1901"] unfolding m by simp
  have s400: "(y - 1601 + 1) div 400 - (y - 1601) div 400 = (if y mod 400 = 0 then 1 else 0)"
    using step [of 400 "y - 1601"] unfolding m by simp
  have imp: "y mod 400 = 0 \<Longrightarrow> y mod 100 = 0" "y mod 100 = 0 \<Longrightarrow> y mod 4 = 0"
    by (auto simp: mod_eq_0_iff_dvd intro: dvd_trans [of _ 400] dvd_trans [of _ 100])
  have "day_from_year (y + 1) - day_from_year y =
      365 + ((y - 1969 + 1) div 4 - (y - 1969) div 4) - ((y - 1901 + 1) div 100 - (y - 1901) div 100)
        + ((y - 1601 + 1) div 400 - (y - 1601) div 400)"
    by (simp add: day_from_year_def)
  also have "\<dots> = (if leap y then 366 else 365)"
    unfolding s4 s100 s400 leap_def using imp by (cases "y mod 4 = 0"; cases "y mod 100 = 0"; cases "y mod 400 = 0") simp_all
  finally show ?thesis .
qed

lemma yday_range:
  "0 \<le> d - day_from_year (year_from_day d) \<and>
   d - day_from_year (year_from_day d) < (if leap (year_from_day d) then 366 else 365)"
  using year_from_day_correct [of d] year_length [of "year_from_day d"] by linarith

lemma month_of_yday_range: "1 \<le> month_of_yday lp n \<and> month_of_yday lp n \<le> 12"
  by (simp add: month_of_yday_def)

lemma month_of_yday_correct:
  "0 \<le> n \<Longrightarrow> n < (if lp then 366 else 365) \<Longrightarrow>
   month_start lp (month_of_yday lp n) \<le> n \<and> n < month_start lp (month_of_yday lp n + 1)"
  by (cases lp) (auto simp: month_of_yday_def month_start_def)

text \<open>The calendar of a day number, and back.\<close>

lemma day_of_civil_of_day: "civil_of_day n = (y, m, d) \<Longrightarrow> day_of_civil y m d = n"
  by (auto simp: civil_of_day_def day_of_civil_def Let_def)

lemma civil_of_day_valid:
  "civil_of_day n = (y, m, d) \<Longrightarrow> 1 \<le> m \<and> m \<le> 12 \<and> 1 \<le> d \<and> d \<le> month_days y m"
  using yday_range [of n] month_of_yday_correct [of "n - day_from_year (year_from_day n)" "leap (year_from_day n)"]
    month_of_yday_range
  by (auto simp: civil_of_day_def month_days_def Let_def)

section \<open>Decimal fields\<close>

definition digit_char :: "int \<Rightarrow> char" where
  "digit_char k = char_of (48 + nat (k mod 10))"

definition digit_val :: "char \<Rightarrow> int" where
  "digit_val c = int (of_char c) - 48"

fun pad :: "nat \<Rightarrow> int \<Rightarrow> string" where
  "pad 0 n = []"
| "pad (Suc k) n = pad k (n div 10) @ [digit_char n]"

fun take_digits :: "nat \<Rightarrow> int \<Rightarrow> string \<Rightarrow> (int \<times> string) option" where
  "take_digits 0 a s = Some (a, s)"
| "take_digits (Suc k) a [] = None"
| "take_digits (Suc k) a (c # s) =
     (if is_digit c then take_digits k (10 * a + digit_val c) s else None)"

fun lit :: "char \<Rightarrow> string \<Rightarrow> string option" where
  "lit c [] = None"
| "lit c (x # s) = (if x = c then Some s else None)"

lemma is_digit_iff: "is_digit c \<longleftrightarrow> 48 \<le> (of_char c :: nat) \<and> (of_char c :: nat) \<le> 57"
  by (simp add: is_digit_def less_eq_char_def)

lemma digit_char_simps [simp]: "is_digit (digit_char k)" "digit_val (digit_char k) = k mod 10"
proof -
  have "nat (k mod 10) \<le> 9" by simp
  then have m: "(48 + nat (k mod 10)) mod 256 = 48 + nat (k mod 10)" by simp
  show "is_digit (digit_char k)" "digit_val (digit_char k) = k mod 10"
    using m by (simp_all add: is_digit_iff digit_char_def digit_val_def)
qed

lemma length_pad [simp]: "length (pad k n) = k"
  by (induction k arbitrary: n) auto

lemma pad_digits: "c \<in> set (pad k n) \<Longrightarrow> is_digit c"
  by (induction k arbitrary: n) auto

lemma take_digits_append:
  "take_digits (j + k) a s = (case take_digits j a s of None \<Rightarrow> None | Some (b, r) \<Rightarrow> take_digits k b r)"
  by (induction j a s rule: take_digits.induct) auto

lemma take_digits_pad: "take_digits k a (pad k n @ s) = Some (a * 10 ^ k + n mod 10 ^ k, s)"
proof (induction k arbitrary: a n s)
  case 0
  then show ?case by simp
next
  case (Suc k)
  have "n mod 10 ^ Suc k = 10 * (n div 10 mod 10 ^ k) + n mod 10"
    by (simp add: zmod_zmult2_eq)
  with Suc.IH [of a "n div 10" "digit_char n # s"] show ?case
    using take_digits_append [of k 1 a "pad k (n div 10) @ digit_char n # s"]
    by (simp add: algebra_simps)
qed

section \<open>toISOString and Date.parse\<close>

definition max_time :: int where
  "max_time = 8640000000000000"

definition iso_year :: "int \<Rightarrow> string" where
  "iso_year y =
     (if 0 \<le> y \<and> y \<le> 9999 then pad 4 y
      else (if y < 0 then ''-'' else ''+'') @ pad 6 \<bar>y\<bar>)"

definition iso_text :: "int \<Rightarrow> string" where
  "iso_text ms =
     (let (y, m, d) = civil_of_day (ms div 86400000); t = ms mod 86400000
      in iso_year y @ ''-'' @ pad 2 m @ ''-'' @ pad 2 d @ ''T'' @ pad 2 (t div 3600000) @ '':'' @
         pad 2 (t div 60000 mod 60) @ '':'' @ pad 2 (t div 1000 mod 60) @ ''.'' @
         pad 3 (t mod 1000) @ ''Z'')"

definition toISOString :: "int \<Rightarrow> string result" where
  "toISOString ms = (if max_time < \<bar>ms\<bar> then Inl ''Invalid time value'' else Inr (iso_text ms))"

definition parse_year :: "string \<Rightarrow> (int \<times> string) option" where
  "parse_year s =
     (case s of [] \<Rightarrow> None
      | c # r \<Rightarrow>
          if c = CHR ''+'' then take_digits 6 0 r
          else if c = CHR ''-'' then
            do { (y, r') \<leftarrow> take_digits 6 0 r; if y = 0 then None else Some (- y, r') }
          else take_digits 4 0 s)"

text \<open>Milliseconds of \<open>.d+\<close>: the first three digits, the rest is dropped.\<close>

definition parse_fraction :: "string \<Rightarrow> (int \<times> string) option" where
  "parse_fraction s =
     (case s of [] \<Rightarrow> Some (0, s)
      | c # r \<Rightarrow>
          if c \<noteq> CHR ''.'' then Some (0, s)
          else let ds = takeWhile is_digit r
               in if ds = [] then None
                  else do { (ms, _) \<leftarrow> take_digits 3 0 (take 3 (ds @ ''00''));
                            Some (ms, dropWhile is_digit r) })"

definition parse_seconds :: "string \<Rightarrow> (int \<times> string) option" where
  "parse_seconds s =
     (case s of [] \<Rightarrow> Some (0, s)
      | c # r \<Rightarrow>
          if c \<noteq> CHR '':'' then Some (0, s)
          else do { (sec, r1) \<leftarrow> take_digits 2 0 r; (ms, r2) \<leftarrow> parse_fraction r1;
                    if sec \<le> 59 then Some (1000 * sec + ms, r2) else None })"

definition parse_zone :: "string \<Rightarrow> int option" where
  "parse_zone s =
     (case s of [] \<Rightarrow> None
      | c # r \<Rightarrow>
          if c = CHR ''Z'' then (if r = [] then Some 0 else None)
          else if c = CHR ''+'' \<or> c = CHR ''-'' then
            do { (h, r1) \<leftarrow> take_digits 2 0 r; r2 \<leftarrow> lit CHR '':'' r1; (m, r3) \<leftarrow> take_digits 2 0 r2;
                 if h \<le> 23 \<and> m \<le> 59 \<and> r3 = []
                 then Some ((if c = CHR ''+'' then 1 else -1) * (h * 3600000 + m * 60000))
                 else None }
          else None)"

definition parse_time :: "string \<Rightarrow> int option" where
  "parse_time s =
     do { (h, r1) \<leftarrow> take_digits 2 0 s; r2 \<leftarrow> lit CHR '':'' r1; (m, r3) \<leftarrow> take_digits 2 0 r2;
          (sec, r4) \<leftarrow> parse_seconds r3; zone \<leftarrow> parse_zone r4;
          if m \<le> 59 \<and> (h \<le> 23 \<or> h = 24 \<and> m = 0 \<and> sec = 0)
          then Some (h * 3600000 + m * 60000 + sec - zone) else None }"

definition time_clip :: "int \<Rightarrow> int option" where
  "time_clip ms = (if max_time < \<bar>ms\<bar> then None else Some ms)"

definition date_parse :: "string \<Rightarrow> int option" where
  "date_parse s =
     do { (y, r1) \<leftarrow> parse_year s; r2 \<leftarrow> lit CHR ''-'' r1; (m, r3) \<leftarrow> take_digits 2 0 r2;
          r4 \<leftarrow> lit CHR ''-'' r3; (d, r5) \<leftarrow> take_digits 2 0 r4;
          if 1 \<le> m \<and> m \<le> 12 \<and> 1 \<le> d \<and> d \<le> month_days y m
          then case r5 of [] \<Rightarrow> time_clip (day_of_civil y m d * 86400000)
               | c # r \<Rightarrow> if c = CHR ''T''
                   then do { t \<leftarrow> parse_time r; time_clip (day_of_civil y m d * 86400000 + t) }
                   else None
          else None }"

lemma max_time_year:
  assumes "\<bar>ms\<bar> \<le> max_time"
  shows "\<bar>year_from_day (ms div 86400000)\<bar> \<le> 300000"
proof -
  define d where "d = ms div 86400000"
  have "86400000 * d \<le> ms" "ms < 86400000 * d + 86400000"
    using div_bounds [of 86400000 ms] by (simp_all add: d_def)
  with assms have "d \<le> 100000000" "- 100000001 \<le> d" by (simp_all add: max_time_def)
  note f = this year_from_day_correct [of d, THEN conjunct1] year_from_day_correct [of d, THEN conjunct2]
    day_from_year_bounds(1) [of "year_from_day d + 1"] day_from_year_bounds(2) [of "year_from_day d"]
  have "year_from_day d \<le> 300000" using f by (simp add: algebra_simps)
  moreover have "- 300000 \<le> year_from_day d" using f by (simp add: algebra_simps)
  ultimately show ?thesis by (simp add: d_def [symmetric])
qed

lemma parse_year_iso: "\<bar>y\<bar> \<le> 999999 \<Longrightarrow> parse_year (iso_year y @ s) = Some (y, s)"
proof (cases "0 \<le> y \<and> y \<le> 9999")
  case True
  obtain c r where cr: "pad 4 y @ s = c # r" "is_digit c"
    by (cases "pad 4 y") (use pad_digits [of _ 4 y] in \<open>auto dest: arg_cong [of _ _ length]\<close>)
  then have "c \<noteq> CHR ''+''" "c \<noteq> CHR ''-''" by (auto simp: is_digit_iff)
  with cr True show ?thesis
    using take_digits_pad [of 4 0 y s] by (simp add: parse_year_def iso_year_def)
next
  case False
  assume "\<bar>y\<bar> \<le> 999999"
  with False show ?thesis
    using take_digits_pad [of 6 0 "\<bar>y\<bar>" s] by (auto simp: parse_year_def iso_year_def)
qed

lemma parse_time_iso:
  assumes "0 \<le> t" "t < 86400000"
  shows "parse_time (pad 2 (t div 3600000) @ '':'' @ pad 2 (t div 60000 mod 60) @ '':'' @
    pad 2 (t div 1000 mod 60) @ ''.'' @ pad 3 (t mod 1000) @ ''Z'') = Some t"
proof -
  define h m sec ms where "h = t div 3600000" and "m = t div 60000 mod 60"
    and "sec = t div 1000 mod 60" and "ms = t mod 1000"
  have e: "t div 60000 = t div 1000 div 60" "t div 3600000 = t div 1000 div 60 div 60"
    by (simp_all flip: zdiv_zmult2_eq)
  have "60 * (t div 1000 div 60 div 60) + t div 1000 div 60 mod 60 = t div 1000 div 60"
    "60 * (t div 1000 div 60) + t div 1000 mod 60 = t div 1000"
    "1000 * (t div 1000) + t mod 1000 = t"
    by (rule mult_div_mod_eq)+
  then have t: "t = h * 3600000 + m * 60000 + (1000 * sec + ms)"
    unfolding h_def m_def sec_def ms_def e by linarith
  have r: "0 \<le> h" "h \<le> 23" "0 \<le> m" "m \<le> 59" "0 \<le> sec" "sec \<le> 59" "0 \<le> ms" "ms \<le> 999"
    using assms by (auto simp: h_def m_def sec_def ms_def div_bounds)
  have "takeWhile is_digit (pad 3 ms @ ''Z'') = pad 3 ms" "dropWhile is_digit (pad 3 ms @ ''Z'') = ''Z''"
    using pad_digits by (auto simp add: takeWhile_append2 dropWhile_append2 is_digit_iff)
  moreover have "pad 3 ms \<noteq> []" using length_pad [of 3 ms] by (metis list.size(3) numeral_3_eq_3 nat.distinct(1))
  ultimately have frac: "parse_fraction (''.'' @ pad 3 ms @ ''Z'') = Some (ms, ''Z'')"
    using take_digits_pad [of 3 0 ms "[]"] r by (simp add: parse_fraction_def)
  have secs: "parse_seconds ('':'' @ pad 2 sec @ ''.'' @ pad 3 ms @ ''Z'') = Some (1000 * sec + ms, ''Z'')"
    using take_digits_pad [of 2 0 sec "''.'' @ pad 3 ms @ ''Z''"] frac r by (simp add: parse_seconds_def)
  have "parse_time (pad 2 h @ '':'' @ pad 2 m @ '':'' @ pad 2 sec @ ''.'' @ pad 3 ms @ ''Z'') = Some t"
    using take_digits_pad [of 2 0 h "'':'' @ pad 2 m @ '':'' @ pad 2 sec @ ''.'' @ pad 3 ms @ ''Z''"]
      take_digits_pad [of 2 0 m "'':'' @ pad 2 sec @ ''.'' @ pad 3 ms @ ''Z''"] secs r t
    by (simp add: parse_time_def parse_zone_def)
  then show ?thesis by (simp only: h_def m_def sec_def ms_def)
qed

text \<open>A time printed by \<open>toISOString\<close> is read back by \<open>Date.parse\<close>.\<close>

lemma date_parse_iso_text:
  assumes "\<bar>ms\<bar> \<le> max_time"
  shows "date_parse (iso_text ms) = Some ms"
proof -
  obtain y m d where c: "civil_of_day (ms div 86400000) = (y, m, d)" by (cases "civil_of_day (ms div 86400000)")
  define t where "t = ms mod 86400000"
  have y: "\<bar>y\<bar> \<le> 999999" using max_time_year [OF assms] c by (auto simp: civil_of_day_def Let_def)
  have v: "1 \<le> m" "m \<le> 12" "1 \<le> d" "d \<le> month_days y m" using civil_of_day_valid [OF c] by auto
  then have d: "d \<le> 31" by (auto simp: month_days_def month_start_def split: if_splits)
  have t: "0 \<le> t" "t < 86400000" by (simp_all add: t_def)
  define clock where "clock = pad 2 (t div 3600000) @ '':'' @ pad 2 (t div 60000 mod 60) @ '':'' @
    pad 2 (t div 1000 mod 60) @ ''.'' @ pad 3 (t mod 1000) @ ''Z''"
  have clk: "parse_time clock = Some t" unfolding clock_def using t by (rule parse_time_iso)
  have sum: "day_of_civil y m d * 86400000 + t = ms"
    using day_of_civil_of_day [OF c] by (simp add: t_def)
  have "iso_text ms = iso_year y @ ''-'' @ pad 2 m @ ''-'' @ pad 2 d @ ''T'' @ clock"
    by (simp add: iso_text_def c t_def clock_def Let_def)
  moreover have "date_parse (iso_year y @ ''-'' @ pad 2 m @ ''-'' @ pad 2 d @ ''T'' @ clock) = Some ms"
    using parse_year_iso [OF y, of "''-'' @ pad 2 m @ ''-'' @ pad 2 d @ ''T'' @ clock"]
      take_digits_pad [of 2 0 m "''-'' @ pad 2 d @ ''T'' @ clock"]
      take_digits_pad [of 2 0 d "''T'' @ clock"] clk v d sum assms
    by (simp add: date_parse_def time_clip_def)
  ultimately show ?thesis by simp
qed

lemma date_parse_toISOString: "toISOString ms = Inr s \<Longrightarrow> date_parse s = Some ms"
  by (auto simp: toISOString_def date_parse_iso_text split: if_splits)

lemma toISOString_Inr: "toISOString ms = Inr s \<longleftrightarrow> \<bar>ms\<bar> \<le> max_time \<and> s = iso_text ms"
  by (auto simp: toISOString_def)

end
