(* ===== verification/Lifecycle.thy ===== *)
theory Lifecycle
  imports Dates
begin

text \<open>
  Workflow lifecycle and tracker normalisation of \<open>packages/core/src/workflow\<close>:
  \<open>lifecycle.ts\<close> (state matching, execution phase), \<open>normalization.ts\<close> (labels,
  RFC 3339 timestamps), \<open>issue-routable.ts\<close>, \<open>pickup-labels.ts\<close>,
  \<open>exit-classification.ts\<close> and \<open>issue-identity.ts\<close>, with the tracked issue of
  \<open>contracts/tracker-adapter.ts\<close> and the run phases of \<open>contracts/run-attempt-phase.ts\<close>.
\<close>

section \<open>Lifecycle configuration and state matching\<close>

record workflow_lifecycle =
  wl_stateFieldName :: string
  wl_activeStates :: "string list"
  wl_terminalStates :: "string list"
  wl_planningStates :: "string list"
  wl_requiredLabels :: "string list option"

definition DEFAULT_WORKFLOW_LIFECYCLE :: workflow_lifecycle where
  "DEFAULT_WORKFLOW_LIFECYCLE =
     \<lparr>wl_stateFieldName = ''Status'', wl_activeStates = [''Todo'', ''In Progress''],
      wl_terminalStates = [''Done''], wl_planningStates = [], wl_requiredLabels = Some []\<rparr>"

definition normalizeWorkflowState :: "string \<Rightarrow> string" where
  "normalizeWorkflowState state = js_lower (js_trim state)"

definition matchesWorkflowState :: "string \<Rightarrow> string list \<Rightarrow> bool" where
  "matchesWorkflowState state candidates =
     (let normalizedState = normalizeWorkflowState state
      in list_ex (\<lambda>candidate. normalizeWorkflowState candidate = normalizedState) candidates)"

definition isStateActive :: "string \<Rightarrow> workflow_lifecycle \<Rightarrow> bool" where
  "isStateActive state lifecycle = matchesWorkflowState state (wl_activeStates lifecycle)"

definition isStateTerminal :: "string \<Rightarrow> workflow_lifecycle \<Rightarrow> bool" where
  "isStateTerminal state lifecycle = matchesWorkflowState state (wl_terminalStates lifecycle)"

datatype execution_phase = Planning | HumanReview | Implementation | AwaitingMerge | PhaseCompleted

definition resolveWorkflowExecutionPhase ::
  "string option \<Rightarrow> string list \<Rightarrow> string list \<Rightarrow> execution_phase option" where
  "resolveWorkflowExecutionPhase issueState planningStates activeStates =
     (case issueState of
        None \<Rightarrow> None
      | Some s \<Rightarrow>
          if s = [] then None
          else if matchesWorkflowState s planningStates then Some Planning
          else if matchesWorkflowState s activeStates then Some Implementation
          else None)"

lemma normalizeWorkflowState_idem [simp]:
  "normalizeWorkflowState (normalizeWorkflowState s) = normalizeWorkflowState s"
  by (simp add: normalizeWorkflowState_def js_trim_lower)

lemma matchesWorkflowState_iff:
  "matchesWorkflowState s cs \<longleftrightarrow> normalizeWorkflowState s \<in> normalizeWorkflowState ` set cs"
  by (auto simp: matchesWorkflowState_def list_ex_iff image_iff) metis+

lemma matchesWorkflowState_mem [intro]: "s \<in> set cs \<Longrightarrow> matchesWorkflowState s cs"
  by (auto simp: matchesWorkflowState_iff)

lemma matchesWorkflowState_cong:
  "normalizeWorkflowState s = normalizeWorkflowState t \<Longrightarrow>
   matchesWorkflowState s cs = matchesWorkflowState t cs"
  by (simp add: matchesWorkflowState_iff)

section \<open>Session exits\<close>

datatype run_attempt_phase =
    PreparingWorkspace | BuildingPrompt | LaunchingAgent | InitializingSession | StreamingTurn
  | Finishing | PhaseSucceeded | PhaseFailed | PhaseTimedOut | PhaseStalled
  | CanceledByReconciliation

definition RUN_ATTEMPT_PHASES :: "(string \<times> run_attempt_phase) list" where
  "RUN_ATTEMPT_PHASES =
     [(''preparing_workspace'', PreparingWorkspace), (''building_prompt'', BuildingPrompt),
      (''launching_agent'', LaunchingAgent), (''initializing_session'', InitializingSession),
      (''streaming_turn'', StreamingTurn), (''finishing'', Finishing),
      (''succeeded'', PhaseSucceeded), (''failed'', PhaseFailed), (''timed_out'', PhaseTimedOut),
      (''stalled'', PhaseStalled), (''canceled_by_reconciliation'', CanceledByReconciliation)]"

definition isRunAttemptPhase :: "json \<Rightarrow> bool" where
  "isRunAttemptPhase value =
     (case value of JStr s \<Rightarrow> s \<in> set (map fst RUN_ATTEMPT_PHASES) | _ \<Rightarrow> False)"

datatype session_exit =
    UserInputRequired | BudgetExceeded | ConvergenceDetected | ExitCanceled | ExitTimeout
  | MaxTurnsReached | ExitCompleted | ExitError

definition classifySessionExit ::
  "run_attempt_phase option \<Rightarrow> bool \<Rightarrow> bool \<Rightarrow> bool \<Rightarrow> bool \<Rightarrow> session_exit" where
  "classifySessionExit runPhase userInputRequired budgetExceeded convergenceDetected maxTurnsReached =
     (if userInputRequired then UserInputRequired
      else if budgetExceeded then BudgetExceeded
      else if convergenceDetected then ConvergenceDetected
      else if runPhase = Some CanceledByReconciliation then ExitCanceled
      else if runPhase = Some PhaseTimedOut \<or> runPhase = Some PhaseStalled then ExitTimeout
      else if maxTurnsReached then MaxTurnsReached
      else if runPhase = Some PhaseSucceeded then ExitCompleted
      else ExitError)"

lemma classifySessionExit_completed_iff:
  "classifySessionExit p u b c m = ExitCompleted \<longleftrightarrow> p = Some PhaseSucceeded \<and> \<not> u \<and> \<not> b \<and> \<not> c \<and> \<not> m"
  by (auto simp: classifySessionExit_def)

section \<open>Label normalisation\<close>

definition normalize_label :: "json \<Rightarrow> string option" where
  "normalize_label v =
     (case v of
        JStr s \<Rightarrow> (let label = js_lower (js_trim s) in if label = [] then None else Some label)
      | _ \<Rightarrow> None)"

definition normalizeLabels :: "json list \<Rightarrow> string list" where
  "normalizeLabels xs = set_of_list (List.map_filter normalize_label xs)"

lemma normalize_label_Some:
  "normalize_label v = Some l \<longleftrightarrow> (\<exists>s. v = JStr s \<and> l = js_lower (js_trim s) \<and> l \<noteq> [])"
  by (cases v) (auto simp: normalize_label_def Let_def)

lemma set_normalizeLabels:
  "set (normalizeLabels xs) = {l. \<exists>s. JStr s \<in> set xs \<and> l = js_lower (js_trim s) \<and> l \<noteq> []}"
  by (auto simp: normalizeLabels_def map_filter_def normalize_label_Some image_iff)
    (force simp: normalize_label_def)+

lemma normalizeLabels_canonical:
  "l \<in> set (normalizeLabels xs) \<Longrightarrow> js_lower (js_trim l) = l \<and> l \<noteq> []"
  by (auto simp: set_normalizeLabels js_trim_lower)

lemma normalizeLabels_fixed:
  assumes "distinct ls" and "\<forall>l \<in> set ls. js_lower (js_trim l) = l \<and> l \<noteq> []"
  shows "normalizeLabels (map JStr ls) = ls"
proof -
  from assms(2) have "List.map_filter normalize_label (map JStr ls) = ls"
    by (induction ls) (auto simp: map_filter_def normalize_label_def Let_def)
  with assms(1) show ?thesis by (simp add: normalizeLabels_def set_of_list_id)
qed

section \<open>Tracked issues and routability\<close>

text \<open>
  The fields of \<open>TrackedIssue\<close> that scheduling reads. \<open>undefined\<close> and \<open>null\<close> are
  \<open>None\<close> wherever the code only tests with \<open>??\<close>.
\<close>

record tracked_issue =
  ti_id :: string
  ti_identifier :: string
  ti_title :: string
  ti_priority :: "rat option"
  ti_state :: string
  ti_labels :: "string list"
  ti_dispatchable :: bool
  ti_dispatchReason :: "string option"
  ti_createdAt :: "string option"
  ti_updatedAt :: "string option"
  ti_isArchived :: bool

record routability =
  rt_routable :: bool
  rt_reason :: "string option"

definition missing_required_labels :: "string list \<Rightarrow> string list \<Rightarrow> string list" where
  "missing_required_labels labels required =
     filter (\<lambda>label. let normalized = js_lower (js_trim label)
                    in normalized = [] \<or> normalized \<notin> set labels) required"

definition issueRoutable :: "tracked_issue \<Rightarrow> workflow_lifecycle \<Rightarrow> routability" where
  "issueRoutable issue lifecycle =
     (if \<not> ti_dispatchable issue
      then \<lparr>rt_routable = False,
            rt_reason = Some (getOr (ti_dispatchReason issue) ''Issue is not dispatchable.'')\<rparr>
      else let labels = normalizeLabels (map JStr (ti_labels issue));
               missingLabels = missing_required_labels labels (getOr (wl_requiredLabels lifecycle) [])
           in if missingLabels \<noteq> []
              then \<lparr>rt_routable = False,
                    rt_reason = Some (''Issue is missing required labels ('' @
                      join '', '' (map json_string missingLabels) @ '').'')\<rparr>
              else \<lparr>rt_routable = True, rt_reason = None\<rparr>)"

lemma issueRoutable_iff:
  "rt_routable (issueRoutable issue lifecycle) \<longleftrightarrow>
     ti_dispatchable issue \<and>
     (\<forall>l \<in> set (getOr (wl_requiredLabels lifecycle) []).
        js_lower (js_trim l) \<noteq> [] \<and>
        js_lower (js_trim l) \<in> set (normalizeLabels (map JStr (ti_labels issue))))"
  by (auto simp: issueRoutable_def missing_required_labels_def Let_def filter_empty_conv)

lemma issueRoutable_reason_iff:
  "rt_reason (issueRoutable issue lifecycle) = None \<longleftrightarrow> rt_routable (issueRoutable issue lifecycle)"
  by (auto simp: issueRoutable_def Let_def)

section \<open>Pickup labels\<close>

definition readLabelList :: "json option \<Rightarrow> string list" where
  "readLabelList value = (case value of Some (JArr xs) \<Rightarrow> normalizeLabels xs | _ \<Rightarrow> [])"

definition resolvePickupLabelDispatchReason :: "tracked_issue \<Rightarrow> json option \<Rightarrow> string option" where
  "resolvePickupLabelDispatchReason issue pickupLabels =
     (case pickupLabels of
        Some (JObj kvs) \<Rightarrow>
          (let incl = readLabelList (jget (JObj kvs) ''include'');
               excl = readLabelList (jget (JObj kvs) ''exclude'')
           in if incl = [] \<and> excl = [] then None
              else let labels = normalizeLabels (map JStr (ti_labels issue))
                   in case List.find (\<lambda>label. label \<in> set labels) excl of
                        Some excludedLabel \<Rightarrow>
                          Some (''Issue has excluded pickup label '' @ [CHR 0x22] @ excludedLabel @
                                [CHR 0x22] @ ''.'')
                      | None \<Rightarrow>
                          if incl = [] \<or> list_ex (\<lambda>label. label \<in> set labels) incl then None
                          else Some (''Issue is missing a required pickup label ('' @
                                     join '', '' incl @ '').''))
      | _ \<Rightarrow> None)"

definition filterIssuesByPickupLabels :: "tracked_issue list \<Rightarrow> json option \<Rightarrow> tracked_issue list" where
  "filterIssuesByPickupLabels issues pickupLabels =
     filter (\<lambda>issue. resolvePickupLabelDispatchReason issue pickupLabels = None) issues"

lemma resolvePickupLabelDispatchReason_None_iff:
  "resolvePickupLabelDispatchReason issue (Some (JObj kvs)) = None \<longleftrightarrow>
     (let labels = set (normalizeLabels (map JStr (ti_labels issue)));
          incl = readLabelList (jget (JObj kvs) ''include'');
          excl = readLabelList (jget (JObj kvs) ''exclude'')
      in set excl \<inter> labels = {} \<and> (incl = [] \<or> set incl \<inter> labels \<noteq> {}))"
proof -
  define labels incl excl where "labels = normalizeLabels (map JStr (ti_labels issue))"
    and "incl = readLabelList (jget (JObj kvs) ''include'')"
    and "excl = readLabelList (jget (JObj kvs) ''exclude'')"
  show ?thesis
  proof (cases "List.find (\<lambda>label. label \<in> set labels) excl")
    case None
    then have "set excl \<inter> set labels = {}" by (auto simp: find_None_iff)
    with None show ?thesis
      by (auto simp: resolvePickupLabelDispatchReason_def Let_def list_ex_iff
          labels_def [symmetric] incl_def [symmetric] excl_def [symmetric] simp del: jget.simps)
  next
    case (Some l)
    then have "l \<in> set excl \<inter> set labels" by (auto simp: find_Some_iff)
    then have "set excl \<inter> set labels \<noteq> {}" "excl \<noteq> []" by auto
    with Some show ?thesis
      by (auto simp: resolvePickupLabelDispatchReason_def Let_def
          labels_def [symmetric] incl_def [symmetric] excl_def [symmetric] simp del: jget.simps)
  qed
qed

section \<open>Tracker timestamps\<close>

text \<open>The case-insensitive match of \<open>RFC_3339_TIMESTAMP\<close>; its groups as numbers.\<close>

record rfc3339 =
  rfc_year :: int
  rfc_month :: int
  rfc_day :: int
  rfc_hour :: int
  rfc_minute :: int
  rfc_second :: int
  rfc_offset :: "(int \<times> int) option"

definition skip_fraction :: "string \<Rightarrow> string option" where
  "skip_fraction s =
     (case s of [] \<Rightarrow> Some s
      | c # r \<Rightarrow> if c \<noteq> CHR ''.'' then Some s
                 else if takeWhile is_digit r = [] then None else Some (dropWhile is_digit r))"

definition match_offset :: "string \<Rightarrow> (int \<times> int) option option" where
  "match_offset s =
     (case s of [] \<Rightarrow> None
      | c # r \<Rightarrow>
          if lower_char c = CHR ''z'' then (if r = [] then Some None else None)
          else if c = CHR ''+'' \<or> c = CHR ''-'' then
            do { (h, r1) \<leftarrow> take_digits 2 0 r; r2 \<leftarrow> lit CHR '':'' r1; (m, r3) \<leftarrow> take_digits 2 0 r2;
                 if r3 = [] then Some (Some (h, m)) else None }
          else None)"

definition lit_t :: "string \<Rightarrow> string option" where
  "lit_t s = (case s of [] \<Rightarrow> None | c # r \<Rightarrow> if lower_char c = CHR ''t'' then Some r else None)"

definition RFC_3339_TIMESTAMP :: "string \<Rightarrow> rfc3339 option" where
  "RFC_3339_TIMESTAMP s =
     do { (y, r) \<leftarrow> take_digits 4 0 s; r \<leftarrow> lit CHR ''-'' r;
          (mo, r) \<leftarrow> take_digits 2 0 r; r \<leftarrow> lit CHR ''-'' r;
          (d, r) \<leftarrow> take_digits 2 0 r; r \<leftarrow> lit_t r;
          (h, r) \<leftarrow> take_digits 2 0 r; r \<leftarrow> lit CHR '':'' r;
          (mi, r) \<leftarrow> take_digits 2 0 r; r \<leftarrow> lit CHR '':'' r;
          (sec, r) \<leftarrow> take_digits 2 0 r; r \<leftarrow> skip_fraction r;
          off \<leftarrow> match_offset r;
          Some \<lparr>rfc_year = y, rfc_month = mo, rfc_day = d, rfc_hour = h, rfc_minute = mi,
                rfc_second = sec, rfc_offset = off\<rparr> }"

text \<open>\<open>s.replace(a, b)\<close> with one-character strings: the first occurrence only.\<close>

fun replace_first :: "char \<Rightarrow> char \<Rightarrow> string \<Rightarrow> string" where
  "replace_first a b [] = []"
| "replace_first a b (c # s) = (if c = a then b # s else c # replace_first a b s)"

definition rfc_fields_ok :: "string \<Rightarrow> rfc3339 \<Rightarrow> bool" where
  "rfc_fields_ok value m =
     ((case date_parse (take 10 value @ ''T00:00:00.000Z'') of
         None \<Rightarrow> False
       | Some t \<Rightarrow> civil_of_day (t div 86400000) = (rfc_year m, rfc_month m, rfc_day m))
      \<and> rfc_hour m \<le> 23 \<and> rfc_minute m \<le> 59 \<and> rfc_second m \<le> 60
      \<and> (case rfc_offset m of None \<Rightarrow> True | Some (oh, om) \<Rightarrow> oh \<le> 23 \<and> om \<le> 59))"

text \<open>
  A leap second \<open>:60\<close>, always at offset 17 of a match, is read as \<open>:59\<close> and a second is
  added back. The result lies within the years 0 to 10000 (or a day before), so
  \<open>toISOString\<close> does not throw.
\<close>

definition parseTrackerTimestamp :: "json option \<Rightarrow> string option" where
  "parseTrackerTimestamp value =
     (case jstring value of
        None \<Rightarrow> None
      | Some s \<Rightarrow>
          (case RFC_3339_TIMESTAMP s of
             None \<Rightarrow> None
           | Some m \<Rightarrow>
               if \<not> rfc_fields_ok s m then None
               else let normalized = replace_first CHR ''z'' CHR ''Z'' (replace_first CHR ''t'' CHR ''T'' s);
                        leapt = (if rfc_second m = 60
                                 then take 17 normalized @ ''59'' @ drop 19 normalized else normalized)
                    in case date_parse leapt of
                         None \<Rightarrow> None
                       | Some t \<Rightarrow> Some (iso_text (if rfc_second m = 60 then t + 1000 else t))))"

lemma lower_char_TZ [simp]: "lower_char CHR ''T'' = CHR ''t''" "lower_char CHR ''Z'' = CHR ''z''"
  by code_simp+

lemma pad_zero [simp]: "pad 2 0 = ''00''" "pad 3 0 = ''000''"
  by code_simp+

lemma pad_no_letter [simp]: "CHR ''t'' \<notin> set (pad k n)" "CHR ''z'' \<notin> set (pad k n)"
  using pad_digits [of "CHR ''t''" k n] pad_digits [of "CHR ''z''" k n] by (auto simp: is_digit_iff)

lemma replace_first_absent: "a \<notin> set s \<Longrightarrow> replace_first a b s = s"
  by (induction s) auto

text \<open>The fields of a canonical timestamp, as \<open>toISOString\<close> prints them.\<close>

lemma iso_text_fields:
  fixes ms :: int
  defines "n \<equiv> ms div 86400000" and "t \<equiv> ms mod 86400000"
  assumes year: "0 \<le> year_from_day n" "year_from_day n \<le> 9999"
  obtains m d h mi sec frac where
    "civil_of_day n = (year_from_day n, m, d)" "1 \<le> m" "m \<le> 12" "1 \<le> d" "d \<le> 31"
    "0 \<le> h" "h \<le> 23" "0 \<le> mi" "mi \<le> 59" "0 \<le> sec" "sec \<le> 59"
    "iso_text ms = pad 4 (year_from_day n) @ ''-'' @ pad 2 m @ ''-'' @ pad 2 d @ ''T'' @ pad 2 h @ '':'' @
       pad 2 mi @ '':'' @ pad 2 sec @ ''.'' @ pad 3 frac @ ''Z''"
proof -
  obtain m d where c: "civil_of_day n = (year_from_day n, m, d)"
    by (simp add: civil_of_day_def Let_def)
  have v: "1 \<le> m" "m \<le> 12" "1 \<le> d" "d \<le> month_days (year_from_day n) m"
    using civil_of_day_valid [OF c] by auto
  then have d31: "d \<le> 31" by (auto simp: month_days_def month_start_def split: if_splits)
  have tb: "0 \<le> t" "t < 86400000" by (simp_all add: t_def)
  then have h: "0 \<le> t div 3600000" "t div 3600000 \<le> 23" by (simp_all add: div_bounds)
  have "iso_text ms = pad 4 (year_from_day n) @ ''-'' @ pad 2 m @ ''-'' @ pad 2 d @ ''T'' @
      pad 2 (t div 3600000) @ '':'' @ pad 2 (t div 60000 mod 60) @ '':'' @ pad 2 (t div 1000 mod 60) @
      ''.'' @ pad 3 (t mod 1000) @ ''Z''"
    using year c by (simp add: iso_text_def iso_year_def t_def n_def Let_def)
  from that [OF c v(1,2,3) d31 h _ _ _ _ this] show thesis by simp
qed

lemma parseTrackerTimestamp_iso_text:
  assumes ms: "\<bar>ms\<bar> \<le> max_time"
    and year: "0 \<le> year_from_day (ms div 86400000)" "year_from_day (ms div 86400000) \<le> 9999"
  shows "parseTrackerTimestamp (Some (JStr (iso_text ms))) = Some (iso_text ms)"
proof -
  define n where "n = ms div 86400000"
  obtain m d h mi sec frac where c: "civil_of_day n = (year_from_day n, m, d)"
    and r: "1 \<le> m" "m \<le> 12" "1 \<le> d" "d \<le> 31" "0 \<le> h" "h \<le> 23" "0 \<le> mi" "mi \<le> 59" "0 \<le> sec" "sec \<le> 59"
    and shape: "iso_text ms = pad 4 (year_from_day n) @ ''-'' @ pad 2 m @ ''-'' @ pad 2 d @ ''T'' @ pad 2 h @
       '':'' @ pad 2 mi @ '':'' @ pad 2 sec @ ''.'' @ pad 3 frac @ ''Z''"
    using iso_text_fields [of ms] year unfolding n_def by metis
  have frac: "skip_fraction (''.'' @ pad 3 frac @ ''Z'') = Some ''Z''"
  proof -
    have "takeWhile is_digit (pad 3 frac @ ''Z'') = pad 3 frac" "dropWhile is_digit (pad 3 frac @ ''Z'') = ''Z''"
      using pad_digits by (auto simp add: takeWhile_append2 dropWhile_append2 is_digit_iff)
    moreover have "pad 3 frac \<noteq> []" using length_pad [of 3 frac] by (metis list.size(3) zero_neq_numeral)
    ultimately show ?thesis by (simp add: skip_fraction_def)
  qed
  have matched: "RFC_3339_TIMESTAMP (iso_text ms) = Some \<lparr>rfc_year = year_from_day n, rfc_month = m, rfc_day = d,
      rfc_hour = h, rfc_minute = mi, rfc_second = sec, rfc_offset = None\<rparr>"
    unfolding shape RFC_3339_TIMESTAMP_def
    using r year frac by (simp add: take_digits_pad lit_t_def match_offset_def n_def [symmetric])
  have "iso_text (n * 86400000) = take 10 (iso_text ms) @ ''T00:00:00.000Z''"
    unfolding shape using c year by (simp add: iso_text_def iso_year_def n_def [symmetric])
  then have midnight: "date_parse (take 10 (iso_text ms) @ ''T00:00:00.000Z'') = Some (n * 86400000)"
  proof -
    have "86400000 * n \<le> ms" "ms < 86400000 * n + 86400000"
      using div_bounds [of 86400000 ms] by (simp_all add: n_def)
    with ms have "n * 86400000 \<le> max_time" "- max_time \<le> n * 86400000"
      by (simp_all add: max_time_def)
    then have "\<bar>n * 86400000\<bar> \<le> max_time" by linarith
    from date_parse_iso_text [OF this] show ?thesis
      using \<open>iso_text (n * 86400000) = _\<close> by simp
  qed
  have ok: "rfc_fields_ok (iso_text ms) \<lparr>rfc_year = year_from_day n, rfc_month = m, rfc_day = d,
      rfc_hour = h, rfc_minute = mi, rfc_second = sec, rfc_offset = None\<rparr>"
    using r c by (simp add: rfc_fields_ok_def midnight)
  have absent: "CHR ''t'' \<notin> set (iso_text ms)" "CHR ''z'' \<notin> set (iso_text ms)"
    unfolding shape by simp_all
  show ?thesis
    using matched ok r date_parse_iso_text [OF ms]
    by (simp add: parseTrackerTimestamp_def replace_first_absent absent Let_def)
qed

section \<open>Issue numbers\<close>

definition digits_value :: "string \<Rightarrow> int" where
  "digits_value ds = foldl (\<lambda>a c. 10 * a + digit_val c) 0 ds"

text \<open>\<open>/(?:^|#|\/)(\d{1,9})$/\<close>: the digits captured are the whole final run of digits.\<close>

definition extractIssueNumberFromIdentifier :: "string \<Rightarrow> int option" where
  "extractIssueNumberFromIdentifier identifier =
     (let s = js_trim identifier;
          run = rev (takeWhile is_digit (rev s));
          pre = dropWhile is_digit (rev s)
      in if 1 \<le> length run \<and> length run \<le> 9 \<and>
            (pre = [] \<or> hd pre = CHR ''#'' \<or> hd pre = CHR 0x2F)
         then Some (digits_value run) else None)"

fun split_slash :: "string \<Rightarrow> string list" where
  "split_slash [] = [[]]"
| "split_slash (c # s) =
     (if c = CHR 0x2F then [] # split_slash s
      else case split_slash s of seg # segs \<Rightarrow> (c # seg) # segs | [] \<Rightarrow> [[c]])"

text \<open>
  \<open>/(?:^|\/)(\d{1,9})(?=[-_\/]|$)/g\<close>: a match starts a slash-delimited segment and takes
  all its leading digits, since what follows them must not be a digit.
\<close>

definition segment_number :: "string \<Rightarrow> int option" where
  "segment_number seg =
     (let ds = takeWhile is_digit seg; rest = dropWhile is_digit seg
      in if 1 \<le> length ds \<and> length ds \<le> 9 \<and>
            (rest = [] \<or> hd rest = CHR ''-'' \<or> hd rest = CHR ''_'')
         then Some (digits_value ds) else None)"

definition extractIssueNumbersFromBranch :: "string \<Rightarrow> int list" where
  "extractIssueNumbersFromBranch branch =
     set_of_list (List.map_filter segment_number (split_slash branch))"

section \<open>Properties\<close>

text \<open>An issue for the concrete instances.\<close>

definition sample_issue :: "string \<Rightarrow> tracked_issue" where
  "sample_issue i =
     \<lparr>ti_id = i, ti_identifier = i, ti_title = ''t'', ti_priority = None, ti_state = ''Todo'',
      ti_labels = [], ti_dispatchable = True, ti_dispatchReason = None,
      ti_createdAt = None, ti_updatedAt = None, ti_isArchived = False\<rparr>"

lemma distinct_normalizeLabels [simp]: "distinct (normalizeLabels xs)"
  by (simp add: normalizeLabels_def)

text \<open>
  Matching a tracker state against a state list ignores letter case and surrounding white
  space on either side.
\<close>

theorem state_matching_ignores_case_and_space:
  "matchesWorkflowState (js_lower s) cs = matchesWorkflowState s cs \<and>
   matchesWorkflowState (js_trim s) cs = matchesWorkflowState s cs \<and>
   matchesWorkflowState s (map (js_lower \<circ> js_trim) cs) = matchesWorkflowState s cs"
  by (auto simp: matchesWorkflowState_iff normalizeWorkflowState_def image_comp comp_def js_trim_lower)

text \<open>
  Label normalisation keeps exactly the trimmed, lower-cased, non-empty strings of the
  payload, each once, and normalising the result again changes nothing.
\<close>

theorem label_normalisation_is_canonical:
  "distinct (normalizeLabels xs) \<and>
   set (normalizeLabels xs) = {l. \<exists>s. JStr s \<in> set xs \<and> l = js_lower (js_trim s) \<and> l \<noteq> []} \<and>
   normalizeLabels (map JStr (normalizeLabels xs)) = normalizeLabels xs"
proof (intro conjI)
  show "normalizeLabels (map JStr (normalizeLabels xs)) = normalizeLabels xs"
    by (rule normalizeLabels_fixed) (simp_all add: normalizeLabels_canonical)
qed (simp_all add: set_normalizeLabels)

text \<open>
  An issue is routable exactly when the tracker marks it dispatchable and it carries every
  required label up to case and surrounding space; a reason is reported exactly when it is not.
\<close>

theorem routable_iff_dispatchable_and_labelled:
  "(rt_routable (issueRoutable issue lifecycle) \<longleftrightarrow>
      ti_dispatchable issue \<and>
      set (map (js_lower \<circ> js_trim) (getOr (wl_requiredLabels lifecycle) []))
        \<subseteq> set (normalizeLabels (map JStr (ti_labels issue)))) \<and>
   (rt_reason (issueRoutable issue lifecycle) = None \<longleftrightarrow> rt_routable (issueRoutable issue lifecycle))"
  using normalizeLabels_canonical [of "[]" "map JStr (ti_labels issue)"]
  by (auto simp: issueRoutable_iff issueRoutable_reason_iff image_subset_iff)

text \<open>
  Pickup labels: an issue is picked up exactly when none of its labels is excluded and, if
  there is an include list, one of its labels is on it.
\<close>

theorem pickup_label_decision:
  "issue \<in> set (filterIssuesByPickupLabels issues (Some (JObj kvs))) \<longleftrightarrow>
     issue \<in> set issues \<and>
     set (readLabelList (jget (JObj kvs) ''exclude'')) \<inter> set (normalizeLabels (map JStr (ti_labels issue))) = {} \<and>
     (readLabelList (jget (JObj kvs) ''include'') = [] \<or>
      set (readLabelList (jget (JObj kvs) ''include'')) \<inter> set (normalizeLabels (map JStr (ti_labels issue))) \<noteq> {})"
  unfolding filterIssuesByPickupLabels_def by (auto simp: resolvePickupLabelDispatchReason_None_iff Let_def)

lemma pickup_label_decision_witness:
  "(sample_issue ''a'')\<lparr>ti_labels := ['' Ready'']\<rparr> \<in> set (filterIssuesByPickupLabels
     [sample_issue ''b'', (sample_issue ''a'')\<lparr>ti_labels := ['' Ready'']\<rparr>]
     (Some (JObj [(''include'', JArr [JStr ''ready'']), (''exclude'', JArr [JStr ''wip''])])))"
proof -
  have "normalizeLabels (map JStr ['' Ready'']) = [''ready'']"
    "readLabelList (Some (JArr [JStr ''ready''])) = [''ready'']"
    "readLabelList (Some (JArr [JStr ''wip''])) = [''wip'']" by code_simp+
  then show ?thesis by (subst pickup_label_decision) simp
qed

text \<open>
  A time stamp written by \<open>toISOString\<close> in a four-digit year is accepted by the tracker
  time stamp parser and returned unchanged.
\<close>

theorem tracker_timestamp_roundtrip:
  assumes "toISOString ms = Inr s"
    and "0 \<le> year_from_day (ms div 86400000)" and "year_from_day (ms div 86400000) \<le> 9999"
  shows "parseTrackerTimestamp (Some (JStr s)) = Some s"
  using assms by (simp add: toISOString_Inr parseTrackerTimestamp_iso_text)

lemma tracker_timestamp_roundtrip_witness:
  "parseTrackerTimestamp (Some (JStr ''1970-01-01T00:00:00.000Z'')) = Some ''1970-01-01T00:00:00.000Z''"
proof (rule tracker_timestamp_roundtrip [of 0])
  show "toISOString 0 = Inr ''1970-01-01T00:00:00.000Z''" by code_simp
  show "0 \<le> year_from_day (0 div 86400000)" "year_from_day (0 div 86400000) \<le> 9999" by code_simp+
qed

end
