(* ===== verification/Numbers.thy ===== *)
theory Numbers
  imports Lifecycle
begin

text \<open>
  \<open>Number(s)\<close> on strings and the number predicates of ECMAScript, over rationals. The result
  \<open>None\<close> stands for every value that is not finite (\<open>NaN\<close> and the infinities), which the
  program never distinguishes; the rounding of a literal to the nearest double is not modelled.
\<close>

definition hex_value :: "char \<Rightarrow> int option" where
  "hex_value c =
     (let l = lower_char c
      in if is_digit c then Some (digit_val c)
         else if CHR ''a'' \<le> l \<and> l \<le> CHR ''f'' then Some (int (of_char l) - 87) else None)"

fun radix_value :: "int \<Rightarrow> int \<Rightarrow> string \<Rightarrow> int option" where
  "radix_value b a [] = Some a"
| "radix_value b a (c # s) =
     (case hex_value c of None \<Rightarrow> None | Some d \<Rightarrow> if d < b then radix_value b (b * a + d) s else None)"

definition parse_exponent :: "string \<Rightarrow> int option" where
  "parse_exponent s =
     (case s of [] \<Rightarrow> Some 0
      | c # r \<Rightarrow>
          if c \<noteq> CHR ''e'' \<and> c \<noteq> CHR ''E'' then None
          else let neg = (r \<noteq> [] \<and> hd r = CHR ''-'');
                   ds = (if r \<noteq> [] \<and> (hd r = CHR ''-'' \<or> hd r = CHR ''+'') then tl r else r)
               in if ds = [] \<or> \<not> list_all is_digit ds then None
                  else Some (if neg then - digits_value ds else digits_value ds))"

definition scale10 :: "rat \<Rightarrow> int \<Rightarrow> rat" where
  "scale10 q e = (if 0 \<le> e then q * 10 ^ nat e else q / 10 ^ nat (- e))"

definition parse_unsigned :: "string \<Rightarrow> rat option" where
  "parse_unsigned s =
     (let ip = takeWhile is_digit s; r = dropWhile is_digit s;
          dotted = (r \<noteq> [] \<and> hd r = CHR ''.'');
          fp = (if dotted then takeWhile is_digit (tl r) else []);
          r2 = (if dotted then dropWhile is_digit (tl r) else r)
      in if ip = [] \<and> fp = [] then None
         else case parse_exponent r2 of None \<Rightarrow> None
              | Some e \<Rightarrow> Some (scale10 (of_int (digits_value (ip @ fp))) (e - int (length fp))))"

definition js_number :: "string \<Rightarrow> rat option" where
  "js_number text =
     (case js_trim text of
        [] \<Rightarrow> Some 0
      | [c] \<Rightarrow> parse_unsigned [c]
      | c # x # r \<Rightarrow>
          let l = lower_char x
          in if c = CHR ''0'' \<and> l \<in> {CHR ''x'', CHR ''o'', CHR ''b''}
             then (if r = [] then None
                   else map_option of_int
                     (radix_value (if l = CHR ''x'' then 16 else if l = CHR ''o'' then 8 else 2) 0 r))
             else if c = CHR ''-'' then map_option uminus (parse_unsigned (x # r))
             else if c = CHR ''+'' then parse_unsigned (x # r)
             else parse_unsigned (c # x # r))"

definition rat_is_int :: "rat \<Rightarrow> bool" where
  "rat_is_int q \<longleftrightarrow> of_int \<lfloor>q\<rfloor> = q"

definition max_safe :: int where
  "max_safe = 9007199254740991"

text \<open>\<open>Number.isInteger(x)\<close> and \<open>Number.isSafeInteger(x)\<close> with the integer itself.\<close>

definition as_integer :: "rat option \<Rightarrow> int option" where
  "as_integer v = (case v of None \<Rightarrow> None | Some q \<Rightarrow> if rat_is_int q then Some \<lfloor>q\<rfloor> else None)"

definition as_safe_integer :: "rat option \<Rightarrow> int option" where
  "as_safe_integer v =
     (case as_integer v of None \<Rightarrow> None | Some k \<Rightarrow> if \<bar>k\<bar> \<le> max_safe then Some k else None)"

lemma rat_is_int_of_int [simp]: "rat_is_int (of_int k)"
  by (simp add: rat_is_int_def)

lemma as_integer_of_int [simp]: "as_integer (Some (of_int k)) = Some k"
  by (simp add: as_integer_def)

lemma as_integer_Some: "as_integer v = Some k \<longleftrightarrow> v = Some (of_int k)"
  by (auto simp: as_integer_def rat_is_int_def split: option.splits)

text \<open>An environment: \<open>process.env\<close> with \<open>None\<close> for a name that is not set.\<close>

type_synonym environment = "string \<Rightarrow> string option"

definition env_number :: "environment \<Rightarrow> string \<Rightarrow> rat option" where
  "env_number env name = (case env name of None \<Rightarrow> None | Some s \<Rightarrow> js_number s)"

text \<open>\<open>Number.isInteger(parsed) && parsed > 0 ? parsed : fallback\<close>\<close>

definition positive_integer_or :: "int \<Rightarrow> rat option \<Rightarrow> int" where
  "positive_integer_or fallback v =
     (case as_integer v of None \<Rightarrow> fallback | Some k \<Rightarrow> if 0 < k then k else fallback)"

lemma positive_integer_or_pos: "0 < fallback \<Longrightarrow> 0 < positive_integer_or fallback v"
  by (simp add: positive_integer_or_def split: option.splits)

text \<open>Truthiness of a document: \<open>undefined\<close>, \<open>null\<close>, \<open>false\<close>, \<open>0\<close> and the empty string are falsy.\<close>

fun truthy :: "json option \<Rightarrow> bool" where
  "truthy None = False"
| "truthy (Some JNull) = False"
| "truthy (Some (JBool b)) = b"
| "truthy (Some (JNum q)) = (q \<noteq> 0)"
| "truthy (Some (JStr s)) = (s \<noteq> [])"
| "truthy (Some _) = True"

text \<open>\<open>v ?? w\<close> on a property read: \<open>undefined\<close> and \<open>null\<close> fall through.\<close>

fun nullish :: "json option \<Rightarrow> bool" where
  "nullish None = True"
| "nullish (Some JNull) = True"
| "nullish _ = False"

definition env_set :: "environment \<Rightarrow> string \<Rightarrow> bool" where
  "env_set env name = (case env name of None \<Rightarrow> False | Some s \<Rightarrow> s \<noteq> [])"

end
