(* ===== verification/Orchestration.thy ===== *)
theory Orchestration
  imports Lifecycle
begin

text \<open>
  The per-issue coordination record of \<open>packages/core/src/contracts/issue-orchestration.ts\<close>
  with its transition table and failure-retry suppression, and the record list of the
  orchestrator (\<open>upsertIssueOrchestration\<close>, \<open>releaseIssueOrchestration\<close> of
  \<open>packages/orchestrator/src/service.ts\<close>). The list is a finite map from issue to record;
  the locale \<open>issue_store\<close> states the laws its clients rely on.
\<close>

section \<open>States and transitions\<close>

text \<open>A persisted record can hold a state outside the catalogue: \<open>UnknownState\<close>.\<close>

datatype orch_state = Unclaimed | Claimed | Running | RetryQueued | Released | UnknownState string

fun orch_state_name :: "orch_state \<Rightarrow> string" where
  "orch_state_name Unclaimed = ''unclaimed''"
| "orch_state_name Claimed = ''claimed''"
| "orch_state_name Running = ''running''"
| "orch_state_name RetryQueued = ''retry_queued''"
| "orch_state_name Released = ''released''"
| "orch_state_name (UnknownState s) = s"

definition ISSUE_ORCHESTRATION_INITIAL_STATES :: "orch_state list" where
  "ISSUE_ORCHESTRATION_INITIAL_STATES = [Claimed, Running, RetryQueued]"

fun ISSUE_ORCHESTRATION_TRANSITIONS :: "orch_state \<Rightarrow> orch_state list option" where
  "ISSUE_ORCHESTRATION_TRANSITIONS Unclaimed = Some [Unclaimed, Claimed]"
| "ISSUE_ORCHESTRATION_TRANSITIONS Claimed = Some [Claimed, Running, RetryQueued, Released]"
| "ISSUE_ORCHESTRATION_TRANSITIONS Running = Some [Running, RetryQueued, Released]"
| "ISSUE_ORCHESTRATION_TRANSITIONS RetryQueued = Some [RetryQueued, Running, Released]"
| "ISSUE_ORCHESTRATION_TRANSITIONS Released = Some [Released, Claimed]"
| "ISSUE_ORCHESTRATION_TRANSITIONS (UnknownState _) = None"

fun assertIssueOrchestrationTransition :: "orch_state option \<Rightarrow> orch_state \<Rightarrow> unit result" where
  "assertIssueOrchestrationTransition None to_state =
     (if to_state \<notin> set ISSUE_ORCHESTRATION_INITIAL_STATES
      then Inl (''Invalid initial issue orchestration state: '' @ orch_state_name to_state) else Inr ())"
| "assertIssueOrchestrationTransition (Some from_state) to_state =
     (case ISSUE_ORCHESTRATION_TRANSITIONS from_state of
        None \<Rightarrow> Inl (''Unknown issue orchestration state: '' @ orch_state_name from_state)
      | Some allowed \<Rightarrow>
          if to_state \<notin> set allowed
          then Inl (''Invalid issue orchestration transition: '' @ orch_state_name from_state @ '' -> '' @
                    orch_state_name to_state)
          else Inr ())"

text \<open>The same table as a step relation between the state of a record before and after.\<close>

inductive orch_step :: "orch_state option \<Rightarrow> orch_state \<Rightarrow> bool" where
  initial: "s \<in> {Claimed, Running, RetryQueued} \<Longrightarrow> orch_step None s"
| stay: "s \<in> {Unclaimed, Claimed, Running, RetryQueued, Released} \<Longrightarrow> orch_step (Some s) s"
| claim: "s \<in> {Unclaimed, Released} \<Longrightarrow> orch_step (Some s) Claimed"
| dispatch: "s \<in> {Claimed, RetryQueued} \<Longrightarrow> orch_step (Some s) Running"
| queue_retry: "s \<in> {Claimed, Running} \<Longrightarrow> orch_step (Some s) RetryQueued"
| release: "s \<in> {Claimed, Running, RetryQueued} \<Longrightarrow> orch_step (Some s) Released"

inductive_cases orch_step_NoneE: "orch_step None s"
inductive_cases orch_step_ReleasedE: "orch_step (Some Released) s"
inductive_simps orch_step_None_simps: "orch_step None s"
inductive_simps orch_step_Some_simps: "orch_step (Some r) s"

lemma assert_iff_orch_step:
  "assertIssueOrchestrationTransition from_state to_state = Inr () \<longleftrightarrow> orch_step from_state to_state"
proof (cases from_state)
  case None
  then show ?thesis by (auto simp: orch_step_None_simps ISSUE_ORCHESTRATION_INITIAL_STATES_def)
next
  case (Some s)
  then show ?thesis by (cases s; cases to_state) (auto simp: orch_step_Some_simps)
qed

lemma assert_error_or_ok:
  "assertIssueOrchestrationTransition f t = Inr () \<or> (\<exists>e. assertIssueOrchestrationTransition f t = Inl e)"
  by (cases "assertIssueOrchestrationTransition f t") auto

section \<open>Records\<close>

record retry_entry =
  re_attempt :: int
  re_dueAt :: string
  re_error :: "string option"

text \<open>
  \<open>failureRetrySuppressedState\<close>: \<open>None\<close> is an absent field, \<open>Some None\<close> an explicit
  \<open>null\<close>.
\<close>

record issue_orch =
  io_issueId :: string
  io_identifier :: string
  io_workspaceKey :: string
  io_completedOnce :: bool
  io_failureRetryCount :: int
  io_failureRetrySuppressedState :: "string option option"
  io_state :: orch_state
  io_currentRunId :: "string option"
  io_retryEntry :: "retry_entry option"
  io_updatedAt :: string

definition resolveFailureRetrySuppressedState :: "issue_orch \<Rightarrow> string option \<Rightarrow> string option" where
  "resolveFailureRetrySuppressedState rcd legacy =
     (case io_failureRetrySuppressedState rcd of None \<Rightarrow> legacy | Some s \<Rightarrow> s)"

definition isFailureRetrySuppressedForState :: "issue_orch \<Rightarrow> string \<Rightarrow> string option \<Rightarrow> bool" where
  "isFailureRetrySuppressedForState rcd state legacy =
     (resolveFailureRetrySuppressedState rcd legacy = Some state)"

definition isFailureRetryRearmedForState :: "issue_orch \<Rightarrow> string \<Rightarrow> string option \<Rightarrow> bool" where
  "isFailureRetryRearmedForState rcd state legacy = (\<not> isFailureRetrySuppressedForState rcd state legacy)"

section \<open>The record list\<close>

text \<open>
  The argument of \<open>upsertIssueOrchestration\<close>: a record whose \<open>completedOnce\<close> and
  \<open>failureRetryCount\<close> may be absent.
\<close>

record orch_update =
  ou_issueId :: string
  ou_identifier :: string
  ou_workspaceKey :: string
  ou_completedOnce :: "bool option"
  ou_failureRetryCount :: "int option"
  ou_failureRetrySuppressedState :: "string option option"
  ou_state :: orch_state
  ou_currentRunId :: "string option"
  ou_retryEntry :: "retry_entry option"
  ou_updatedAt :: string

definition find_record :: "issue_orch list \<Rightarrow> string \<Rightarrow> issue_orch option" where
  "find_record rs i = List.find (\<lambda>r. io_issueId r = i) rs"

definition merged_record :: "issue_orch option \<Rightarrow> orch_update \<Rightarrow> issue_orch" where
  "merged_record existing u =
     \<lparr>io_issueId = ou_issueId u, io_identifier = ou_identifier u, io_workspaceKey = ou_workspaceKey u,
      io_completedOnce = getOr (orElse (ou_completedOnce u) (map_option io_completedOnce existing)) False,
      io_failureRetryCount =
        getOr (orElse (ou_failureRetryCount u) (map_option io_failureRetryCount existing)) 0,
      io_failureRetrySuppressedState =
        (case ou_failureRetrySuppressedState u of
           None \<Rightarrow> Some (case existing of None \<Rightarrow> None
                          | Some r \<Rightarrow> getOr (io_failureRetrySuppressedState r) None)
         | Some s \<Rightarrow> Some s),
      io_state = ou_state u, io_currentRunId = ou_currentRunId u, io_retryEntry = ou_retryEntry u,
      io_updatedAt = ou_updatedAt u\<rparr>"

definition upsertIssueOrchestration :: "issue_orch list \<Rightarrow> orch_update \<Rightarrow> issue_orch list result" where
  "upsertIssueOrchestration issueRecords nextRecord =
     (let existing = find_record issueRecords (ou_issueId nextRecord)
      in rbind (assertIssueOrchestrationTransition (map_option io_state existing) (ou_state nextRecord))
           (\<lambda>_. let r = merged_record existing nextRecord
                in Inr (case existing of
                          Some _ \<Rightarrow> map (\<lambda>candidate. if io_issueId candidate = ou_issueId nextRecord
                                                     then r else candidate) issueRecords
                        | None \<Rightarrow> issueRecords @ [r])))"

definition release_update :: "issue_orch \<Rightarrow> bool \<Rightarrow> string \<Rightarrow> orch_update" where
  "release_update r resetBudget nowText =
     \<lparr>ou_issueId = io_issueId r, ou_identifier = io_identifier r, ou_workspaceKey = io_workspaceKey r,
      ou_completedOnce = Some (io_completedOnce r),
      ou_failureRetryCount = Some (if resetBudget then 0 else io_failureRetryCount r),
      ou_failureRetrySuppressedState =
        Some (if resetBudget then None else getOr (io_failureRetrySuppressedState r) None),
      ou_state = Released, ou_currentRunId = None, ou_retryEntry = None, ou_updatedAt = nowText\<rparr>"

definition releaseIssueOrchestration ::
  "issue_orch list \<Rightarrow> string \<Rightarrow> int \<Rightarrow> bool \<Rightarrow> issue_orch list result" where
  "releaseIssueOrchestration issueRecords issueId now resetBudget =
     (case find_record issueRecords issueId of
        None \<Rightarrow> Inr issueRecords
      | Some r \<Rightarrow>
          rbind (toISOString now) (\<lambda>nowText.
            upsertIssueOrchestration issueRecords (release_update r resetBudget nowText)))"

section \<open>The record list as a map\<close>

definition store_ok :: "issue_orch list \<Rightarrow> bool" where
  "store_ok rs \<longleftrightarrow> distinct (map io_issueId rs)"

lemma find_record_Some_id: "find_record rs i = Some r \<Longrightarrow> io_issueId r = i \<and> r \<in> set rs"
  by (auto simp: find_record_def find_Some_iff)

lemma find_record_None_iff: "find_record rs i = None \<longleftrightarrow> i \<notin> io_issueId ` set rs"
  by (auto simp: find_record_def find_None_iff image_iff)

lemma find_record_append:
  "find_record (rs @ [r]) i =
     (case find_record rs i of Some x \<Rightarrow> Some x | None \<Rightarrow> if io_issueId r = i then Some r else None)"
  by (induction rs) (auto simp: find_record_def)

lemma find_record_map_replace:
  assumes "io_issueId r = k"
  shows "find_record (map (\<lambda>c. if io_issueId c = k then r else c) rs) i =
     (if i = k then map_option (\<lambda>_. r) (find_record rs k) else find_record rs i)"
  using assms by (induction rs) (auto simp: find_record_def)

lemma merged_record_simps [simp]:
  "io_issueId (merged_record e u) = ou_issueId u" "io_state (merged_record e u) = ou_state u"
  "io_currentRunId (merged_record e u) = ou_currentRunId u" "io_retryEntry (merged_record e u) = ou_retryEntry u"
  by (simp_all add: merged_record_def)

lemma upsert_Inr_iff:
  "upsertIssueOrchestration rs u = Inr rs' \<longleftrightarrow>
     orch_step (map_option io_state (find_record rs (ou_issueId u))) (ou_state u) \<and>
     rs' = (case find_record rs (ou_issueId u) of
              Some e \<Rightarrow> map (\<lambda>c. if io_issueId c = ou_issueId u then merged_record (Some e) u else c) rs
            | None \<Rightarrow> rs @ [merged_record None u])"
  by (auto simp: upsertIssueOrchestration_def Let_def rbind_Inr_iff assert_iff_orch_step split: option.splits)

lemma upsert_find:
  assumes "upsertIssueOrchestration rs u = Inr rs'"
  shows "find_record rs' i =
     (if i = ou_issueId u then Some (merged_record (find_record rs i) u) else find_record rs i)"
  using assms
  by (cases "find_record rs (ou_issueId u)")
    (auto simp: upsert_Inr_iff find_record_map_replace find_record_append split: option.splits)

lemma upsert_store_ok:
  assumes "upsertIssueOrchestration rs u = Inr rs'" and "store_ok rs"
  shows "store_ok rs'"
proof (cases "find_record rs (ou_issueId u)")
  case None
  with assms show ?thesis by (auto simp: upsert_Inr_iff store_ok_def find_record_None_iff)
next
  case (Some e)
  with assms(1) have rs': "rs' = map (\<lambda>c. if io_issueId c = ou_issueId u then merged_record (Some e) u else c) rs"
    by (simp add: upsert_Inr_iff)
  have "map io_issueId rs' = map io_issueId rs" unfolding rs' by (simp cong: map_cong)
  with assms(2) show ?thesis by (simp add: store_ok_def)
qed

lemma assert_error_iff:
  "(\<exists>e. assertIssueOrchestrationTransition f t = Inl e) \<longleftrightarrow> \<not> orch_step f t"
  by (cases "assertIssueOrchestrationTransition f t") (auto simp flip: assert_iff_orch_step)

lemma upsert_error_iff:
  "(\<exists>e. upsertIssueOrchestration rs u = Inl e) \<longleftrightarrow>
     \<not> orch_step (map_option io_state (find_record rs (ou_issueId u))) (ou_state u)"
  by (simp add: upsertIssueOrchestration_def Let_def rbind_Inl_iff flip: assert_error_iff)

section \<open>The contract of an issue store\<close>

text \<open>The states that a sequence of writes gives an issue, and whether each follows from the one before.\<close>

definition states_written :: "string \<Rightarrow> orch_update list \<Rightarrow> orch_state list" where
  "states_written i us = map ou_state (filter (\<lambda>u. ou_issueId u = i) us)"

fun orch_path :: "orch_state option \<Rightarrow> orch_state list \<Rightarrow> bool" where
  "orch_path s [] = True"
| "orch_path s (t # ts) = (orch_step s t \<and> orch_path (Some t) ts)"

lemma states_written_simps [simp]:
  "states_written i [] = []"
  "states_written i (u # us) = (if ou_issueId u = i then ou_state u # states_written i us else states_written i us)"
  by (simp_all add: states_written_def)

text \<open>
  What the scheduler relies on: a lookup after a successful write returns the written record,
  other issues are untouched, a write is legal only along \<open>orch_step\<close>, and the invariant is
  kept.
\<close>

locale issue_store =
  fixes look :: "'s \<Rightarrow> string \<Rightarrow> issue_orch option"
    and put :: "'s \<Rightarrow> orch_update \<Rightarrow> 's result"
    and valid :: "'s \<Rightarrow> bool"
  assumes write_look: "put s u = Inr s' \<Longrightarrow>
      look s' i = (if i = ou_issueId u then Some (merged_record (look s i) u) else look s i)"
    and write_legal: "put s u = Inr s' \<Longrightarrow> orch_step (map_option io_state (look s (ou_issueId u))) (ou_state u)"
    and write_total: "orch_step (map_option io_state (look s (ou_issueId u))) (ou_state u) \<Longrightarrow> \<exists>s'. put s u = Inr s'"
    and write_valid: "put s u = Inr s' \<Longrightarrow> valid s \<Longrightarrow> valid s'"
begin

fun writes :: "'s \<Rightarrow> orch_update list \<Rightarrow> 's result" where
  "writes s [] = Inr s"
| "writes s (u # us) = rbind (put s u) (\<lambda>s'. writes s' us)"

lemma writes_valid: "writes s us = Inr s' \<Longrightarrow> valid s \<Longrightarrow> valid s'"
  by (induction us arbitrary: s) (auto simp: rbind_Inr_iff dest: write_valid)

lemma writes_frame: "writes s us = Inr s' \<Longrightarrow> i \<notin> ou_issueId ` set us \<Longrightarrow> look s' i = look s i"
  by (induction us arbitrary: s) (auto simp: rbind_Inr_iff write_look)

lemma write_ok_iff: "is_ok (put s u) \<longleftrightarrow> orch_step (map_option io_state (look s (ou_issueId u))) (ou_state u)"
  by (cases "put s u") (use write_legal [of s u] write_total [of s u] in auto)

text \<open>A sequence of writes is accepted exactly if every write in it is a step from the one before it.\<close>

lemma writes_ok_iff:
  "is_ok (writes s us) \<longleftrightarrow> (\<forall>i. orch_path (map_option io_state (look s i)) (states_written i us))"
proof (induction us arbitrary: s)
  case (Cons u us)
  show ?case
  proof (cases "put s u")
    case (Inl e)
    then have "\<not> orch_step (map_option io_state (look s (ou_issueId u))) (ou_state u)" using write_ok_iff [of s u] by simp
    then have "\<not> orch_path (map_option io_state (look s (ou_issueId u))) (states_written (ou_issueId u) (u # us))" by simp
    with Inl show ?thesis by auto
  next
    case (Inr s1)
    then have step: "orch_step (map_option io_state (look s (ou_issueId u))) (ou_state u)" by (rule write_legal)
    have "orch_path (map_option io_state (look s1 i)) (states_written i us) \<longleftrightarrow>
        orch_path (map_option io_state (look s i)) (states_written i (u # us))" for i
      using step write_look [OF Inr, of i] by auto
    with Inr Cons.IH [of s1] show ?thesis by simp
  qed
qed simp

lemma writes_state:
  "writes s us = Inr s' \<Longrightarrow> map_option io_state (look s' i) =
     (if states_written i us = [] then map_option io_state (look s i) else Some (last (states_written i us)))"
proof (induction us arbitrary: s)
  case (Cons u us)
  then obtain s1 where s1: "put s u = Inr s1" "writes s1 us = Inr s'" by (auto simp: rbind_Inr_iff)
  from Cons.IH [OF s1(2)] write_look [OF s1(1), of i] show ?case by auto
qed simp

lemma written_run: "put s u = Inr s' \<Longrightarrow> map_option io_currentRunId (look s' (ou_issueId u)) = Some (ou_currentRunId u)"
  by (simp add: write_look)

lemma written_state: "put s u = Inr s' \<Longrightarrow> map_option io_state (look s' (ou_issueId u)) = Some (ou_state u)"
  by (simp add: write_look)

end

interpretation records: issue_store find_record upsertIssueOrchestration store_ok
proof unfold_locales
  fix s s' and u :: orch_update and i
  assume w: "upsertIssueOrchestration s u = Inr s'"
  then show "find_record s' i = (if i = ou_issueId u then Some (merged_record (find_record s i) u) else find_record s i)"
    by (rule upsert_find)
  from w show "orch_step (map_option io_state (find_record s (ou_issueId u))) (ou_state u)"
    by (simp add: upsert_Inr_iff)
  assume "store_ok s"
  with w show "store_ok s'" by (rule upsert_store_ok)
next
  fix s and u :: orch_update
  assume "orch_step (map_option io_state (find_record s (ou_issueId u))) (ou_state u)"
  then show "\<exists>s'. upsertIssueOrchestration s u = Inr s'" by (auto simp: upsert_Inr_iff)
qed

section \<open>Releasing an issue\<close>

lemma release_update_simps [simp]:
  "ou_issueId (release_update r b t) = io_issueId r" "ou_state (release_update r b t) = Released"
  "ou_currentRunId (release_update r b t) = None" "ou_retryEntry (release_update r b t) = None"
  by (simp_all add: release_update_def)

lemma release_Inr_cases:
  assumes "releaseIssueOrchestration rs i now b = Inr rs'"
  obtains "find_record rs i = None" "rs' = rs"
  | r where "find_record rs i = Some r" "\<bar>now\<bar> \<le> max_time"
      "upsertIssueOrchestration rs (release_update r b (iso_text now)) = Inr rs'"
  using assms by (cases "find_record rs i") (auto simp: releaseIssueOrchestration_def rbind_Inr_iff toISOString_Inr)

lemma release_find:
  assumes "releaseIssueOrchestration rs i now b = Inr rs'"
  shows "find_record rs' j =
     (if j = i then map_option (\<lambda>r. merged_record (Some r) (release_update r b (iso_text now))) (find_record rs i)
      else find_record rs j)"
  using assms
proof (cases rule: release_Inr_cases)
  case 1
  then show ?thesis by simp
next
  case (2 r)
  then have "io_issueId r = i" by (simp add: find_record_Some_id)
  with 2 records.write_look [OF 2(3), of j] show ?thesis by simp
qed

section \<open>Properties\<close>

text \<open>A record and an update for the concrete instances.\<close>

definition sample_record :: "string \<Rightarrow> orch_state \<Rightarrow> string option \<Rightarrow> issue_orch" where
  "sample_record i s run =
     \<lparr>io_issueId = i, io_identifier = i, io_workspaceKey = ''w'', io_completedOnce = False,
      io_failureRetryCount = 1, io_failureRetrySuppressedState = Some None, io_state = s,
      io_currentRunId = run, io_retryEntry = None, io_updatedAt = ''1970-01-01T00:00:00Z''\<rparr>"

definition sample_update :: "string \<Rightarrow> orch_state \<Rightarrow> string option \<Rightarrow> orch_update" where
  "sample_update i s run =
     \<lparr>ou_issueId = i, ou_identifier = i, ou_workspaceKey = ''w'', ou_completedOnce = None,
      ou_failureRetryCount = None, ou_failureRetrySuppressedState = None, ou_state = s,
      ou_currentRunId = run, ou_retryEntry = None, ou_updatedAt = ''1970-01-01T00:00:00Z''\<rparr>"

text \<open>
  The transition check accepts exactly the steps of the orchestration state machine, given
  as an inductive relation, and throws on every other pair.
\<close>

theorem transition_check_is_the_state_machine:
  "(assertIssueOrchestrationTransition f t = Inr () \<longleftrightarrow> orch_step f t) \<and>
   ((\<exists>e. assertIssueOrchestrationTransition f t = Inl e) \<longleftrightarrow> \<not> orch_step f t)"
  by (simp add: assert_iff_orch_step assert_error_iff)

text \<open>
  A write to the record list succeeds exactly when the machine allows the step; then a lookup
  of the written issue returns the merged record, every other issue is unchanged, and the list
  still holds one record per issue.
\<close>

theorem record_write_law:
  assumes "store_ok rs"
  shows "(is_ok (upsertIssueOrchestration rs u) \<longleftrightarrow>
            orch_step (map_option io_state (find_record rs (ou_issueId u))) (ou_state u)) \<and>
         (\<forall>rs'. upsertIssueOrchestration rs u = Inr rs' \<longrightarrow>
            store_ok rs' \<and> find_record rs' (ou_issueId u) = Some (merged_record (find_record rs (ou_issueId u)) u) \<and>
            (\<forall>i. i \<noteq> ou_issueId u \<longrightarrow> find_record rs' i = find_record rs i))"
proof -
  have "is_ok (upsertIssueOrchestration rs u) \<longleftrightarrow>
      orch_step (map_option io_state (find_record rs (ou_issueId u))) (ou_state u)"
    using upsert_error_iff [of rs u] by (cases "upsertIssueOrchestration rs u") auto
  with assms show ?thesis by (auto simp: records.write_look dest: records.write_valid)
qed

lemma record_write_law_witness:
  "store_ok [sample_record ''i'' Released None] \<and>
   is_ok (upsertIssueOrchestration [sample_record ''i'' Released None] (sample_update ''i'' Claimed None))"
proof
  show ok: "store_ok [sample_record ''i'' Released None]" by (simp add: store_ok_def)
  have "orch_step (map_option io_state (find_record [sample_record ''i'' Released None] (ou_issueId (sample_update ''i'' Claimed None))))
      (ou_state (sample_update ''i'' Claimed None))"
    by (simp add: assert_iff_orch_step [symmetric] find_record_def sample_record_def sample_update_def)
  with record_write_law [OF ok] show
    "is_ok (upsertIssueOrchestration [sample_record ''i'' Released None] (sample_update ''i'' Claimed None))" by blast
qed

text \<open>
  C3. A sequence of writes is accepted exactly when, for every issue, each state written for it is a
  step of the machine from the state before: a new record starts claimed, running or queued for
  retry, a released or unclaimed issue can only be claimed, only a claimed or queued one starts to
  run, only a claimed or running one is queued, and only these three are released. Then every issue
  is in the state written last, and an issue that no write names keeps its record.
\<close>

theorem write_histories_are_legal:
  "(is_ok (records.writes rs us) \<longleftrightarrow>
      (\<forall>i. orch_path (map_option io_state (find_record rs i)) (states_written i us))) \<and>
   (\<forall>rs'. records.writes rs us = Inr rs' \<longrightarrow>
      (\<forall>i. map_option io_state (find_record rs' i) =
             (if states_written i us = [] then map_option io_state (find_record rs i) else Some (last (states_written i us))) \<and>
           (i \<notin> ou_issueId ` set us \<longrightarrow> find_record rs' i = find_record rs i)))"
  using records.writes_ok_iff records.writes_state records.writes_frame by blast

lemma write_histories_are_legal_witness:
  "is_ok (records.writes [] [sample_update ''i'' Claimed None, sample_update ''i'' Running (Some ''r'')]) \<and>
   \<not> is_ok (records.writes [sample_record ''i'' Released None] [sample_update ''i'' Running (Some ''r'')])"
proof
  have "orch_path (map_option io_state (find_record [] i))
      (states_written i [sample_update ''i'' Claimed None, sample_update ''i'' Running (Some ''r'')])" for i
    by (simp add: find_record_def sample_update_def orch_step_None_simps orch_step_Some_simps)
  with write_histories_are_legal show
    "is_ok (records.writes [] [sample_update ''i'' Claimed None, sample_update ''i'' Running (Some ''r'')])" by blast
  have "\<not> orch_path (map_option io_state (find_record [sample_record ''i'' Released None] ''i''))
      (states_written ''i'' [sample_update ''i'' Running (Some ''r'')])"
    by (simp add: find_record_def sample_record_def sample_update_def orch_step_Some_simps)
  with write_histories_are_legal show
    "\<not> is_ok (records.writes [sample_record ''i'' Released None] [sample_update ''i'' Running (Some ''r'')])" by blast
qed

text \<open>
  Releasing an issue clears its run and its retry entry; the failure budget is kept, or set
  back to zero with its suppression lifted when the caller asks for it. Nothing else changes.
\<close>

theorem release_clears_the_claim:
  assumes "releaseIssueOrchestration rs i now resetBudget = Inr rs'" and "find_record rs i = Some r"
  shows "\<exists>r'. find_record rs' i = Some r' \<and> io_state r' = Released \<and> io_currentRunId r' = None \<and>
     io_retryEntry r' = None \<and> io_workspaceKey r' = io_workspaceKey r \<and> io_completedOnce r' = io_completedOnce r \<and>
     io_failureRetryCount r' = (if resetBudget then 0 else io_failureRetryCount r) \<and>
     io_failureRetrySuppressedState r' =
       Some (if resetBudget then None else getOr (io_failureRetrySuppressedState r) None) \<and>
     (\<forall>j. j \<noteq> i \<longrightarrow> find_record rs' j = find_record rs j)"
  using release_find [OF assms(1)] assms(2)
  by (auto simp: merged_record_def release_update_def dest: find_record_Some_id)

lemma release_clears_the_claim_witness:
  "\<exists>rs' r'. releaseIssueOrchestration [sample_record ''i'' Running (Some ''r'')] ''i'' 0 True = Inr rs' \<and>
     find_record rs' ''i'' = Some r' \<and> io_failureRetryCount r' = 0"
proof -
  let ?rs = "[sample_record ''i'' Running (Some ''r'')]"
  have found: "find_record ?rs ''i'' = Some (sample_record ''i'' Running (Some ''r''))"
    by (simp add: find_record_def sample_record_def)
  have "is_ok (releaseIssueOrchestration ?rs ''i'' 0 True)" by code_simp
  then obtain rs' where "releaseIssueOrchestration ?rs ''i'' 0 True = Inr rs'"
    by (cases "releaseIssueOrchestration ?rs ''i'' 0 True") auto
  with release_clears_the_claim [OF this found] show ?thesis by auto
qed

end
