(* ===== verification/Retry.thy ===== *)
theory Retry
  imports Orchestration
begin

text \<open>
  Retry policy and the pure decisions the orchestrator keeps between ticks:
  \<open>packages/core/src/orchestration/retry-policy.ts\<close> and
  \<open>packages/orchestrator/src/retained-decisions.ts\<close>. Delays are integers of milliseconds;
  the exponential delay is exact here, and the code's floating result differs from it only
  above \<open>2^53\<close>, where the cap applies to both.
\<close>

section \<open>Retry policy\<close>

record retry_policy =
  rp_baseDelayMs :: "int option"
  rp_maxDelayMs :: "int option"

definition DEFAULT_BASE_DELAY_MS :: int where "DEFAULT_BASE_DELAY_MS = 10000"
definition DEFAULT_MAX_DELAY_MS :: int where "DEFAULT_MAX_DELAY_MS = 300000"

definition calculateRetryDelay :: "int \<Rightarrow> retry_policy \<Rightarrow> int" where
  "calculateRetryDelay attempt options =
     (let baseDelayMs = getOr (rp_baseDelayMs options) DEFAULT_BASE_DELAY_MS;
          maxDelayMs = getOr (rp_maxDelayMs options) DEFAULT_MAX_DELAY_MS;
          normalizedAttempt = max 1 attempt;
          delay = baseDelayMs * 2 ^ nat (normalizedAttempt - 1)
      in min delay maxDelayMs)"

definition scheduleRetryAt :: "int \<Rightarrow> int \<Rightarrow> retry_policy \<Rightarrow> int" where
  "scheduleRetryAt now attempt options = now + calculateRetryDelay attempt options"

lemma calculateRetryDelay_le_max: "calculateRetryDelay a p \<le> getOr (rp_maxDelayMs p) DEFAULT_MAX_DELAY_MS"
  by (simp add: calculateRetryDelay_def Let_def)

lemma calculateRetryDelay_mono:
  assumes "0 \<le> getOr (rp_baseDelayMs p) DEFAULT_BASE_DELAY_MS" and "a \<le> b"
  shows "calculateRetryDelay a p \<le> calculateRetryDelay b p"
proof -
  have "(2::int) ^ nat (max 1 a - 1) \<le> 2 ^ nat (max 1 b - 1)"
    using assms(2) by (intro power_increasing) auto
  with assms(1) show ?thesis
    by (simp add: calculateRetryDelay_def Let_def min.coboundedI1 mult_left_mono)
qed

lemma calculateRetryDelay_pos:
  assumes "0 < getOr (rp_baseDelayMs p) DEFAULT_BASE_DELAY_MS" "0 < getOr (rp_maxDelayMs p) DEFAULT_MAX_DELAY_MS"
  shows "0 < calculateRetryDelay a p"
  using assms by (simp add: calculateRetryDelay_def Let_def)

section \<open>Finalization of a successful run\<close>

datatype unknown_reason = WorkflowUnavailable | TrackerItemMissing | TrackerReadFailed

datatype final_progress = ProgressActive | ProgressNonActionable | ProgressUnknown unknown_reason string

datatype finalization =
    CompleteRun
  | DeferFinalization int unknown_reason string
  | RecordExhaustedDeferral int unknown_reason string
  | RetryRun

fun decideFinalizationDisposition :: "final_progress option \<Rightarrow> int \<Rightarrow> int \<Rightarrow> finalization" where
  "decideFinalizationDisposition (Some ProgressNonActionable) current maxDeferrals = CompleteRun"
| "decideFinalizationDisposition (Some (ProgressUnknown reason err)) current maxDeferrals =
     (let consecutive = current + 1
      in if consecutive < maxDeferrals then DeferFinalization consecutive reason err
         else RecordExhaustedDeferral consecutive reason err)"
| "decideFinalizationDisposition _ current maxDeferrals = RetryRun"

text \<open>
  The deferral count a run carries through successive unknown reads: \<open>None\<close> once the
  decision stopped deferring.
\<close>

fun deferrals :: "int \<Rightarrow> int \<Rightarrow> (unknown_reason \<times> string) list \<Rightarrow> int option" where
  "deferrals maxDeferrals current [] = Some current"
| "deferrals maxDeferrals current ((reason, err) # reads) =
     (case decideFinalizationDisposition (Some (ProgressUnknown reason err)) current maxDeferrals of
        DeferFinalization n _ _ \<Rightarrow> deferrals maxDeferrals n reads
      | _ \<Rightarrow> None)"

lemma deferrals_Some_iff:
  "deferrals m c reads = Some n \<longleftrightarrow> n = c + int (length reads) \<and> (reads \<noteq> [] \<longrightarrow> n < m)"
proof (induction reads arbitrary: c)
  case Nil
  then show ?case by auto
next
  case (Cons x reads)
  obtain reason err where x: "x = (reason, err)" by (cases x)
  show ?case by (cases "reads = []") (auto simp: x Let_def Cons.IH)
qed

section \<open>Retry of a completed run\<close>

datatype retry_kind = ContinuationRetry | FailureRetry
datatype persisted_kind = PersistContinuation | PersistFailure | PersistRecovery

fun persist_kind :: "retry_kind \<Rightarrow> persisted_kind" where
  "persist_kind ContinuationRetry = PersistContinuation"
| "persist_kind FailureRetry = PersistFailure"

datatype retry_delay = DelayContinuation | DelayFailure

datatype completed_plan =
    SuppressCompleted (cp_attempt: int) (cp_failures: int)
  | RetryCompleted (cp_attempt: int) (cp_failures: int) (cp_kind: persisted_kind) (cp_delay: retry_delay)

definition planCompletedRunRetry :: "retry_kind \<Rightarrow> bool \<Rightarrow> int \<Rightarrow> int \<Rightarrow> int \<Rightarrow> completed_plan" where
  "planCompletedRunRetry retryKind recoveryPresent currentAttempt durableFailureCount maxFailureRetries =
     (let failureRetryCount = durableFailureCount + (if retryKind = FailureRetry then 1 else 0)
      in if retryKind = FailureRetry \<and> maxFailureRetries \<le> failureRetryCount
         then SuppressCompleted currentAttempt failureRetryCount
         else let kind = (if recoveryPresent then PersistRecovery else persist_kind retryKind);
                  attempt = (if kind = PersistContinuation then 1 else currentAttempt + 1)
              in if recoveryPresent \<or> retryKind = ContinuationRetry
                 then RetryCompleted attempt failureRetryCount kind DelayContinuation
                 else RetryCompleted attempt failureRetryCount kind DelayFailure)"

datatype resolved_delay =
    RdNone | RdContinuation | RdRetained | RdPoll | RdFailurePolicy | RdFailureFallback

record resolved_retry =
  rr_nextRetryAt :: "string option"
  rr_delayClass :: resolved_delay

definition failure_time :: "int \<Rightarrow> int \<Rightarrow> retry_policy option \<Rightarrow> int \<Rightarrow> int" where
  "failure_time now attempt retryPolicy defaultFailureBackoffMs =
     (case retryPolicy of Some p \<Rightarrow> scheduleRetryAt now attempt p
      | None \<Rightarrow> now + defaultFailureBackoffMs)"

definition failure_class :: "retry_policy option \<Rightarrow> resolved_delay" where
  "failure_class retryPolicy = (case retryPolicy of Some _ \<Rightarrow> RdFailurePolicy | None \<Rightarrow> RdFailureFallback)"

definition stamped :: "int \<Rightarrow> resolved_delay \<Rightarrow> resolved_retry result" where
  "stamped t cls = rbind (toISOString t) (\<lambda>s. Inr \<lparr>rr_nextRetryAt = Some s, rr_delayClass = cls\<rparr>)"

fun resolveCompletedRunRetry ::
  "completed_plan \<Rightarrow> int \<Rightarrow> retry_policy option \<Rightarrow> int \<Rightarrow> int \<Rightarrow> resolved_retry result" where
  "resolveCompletedRunRetry (SuppressCompleted _ _) now retryPolicy fallbackMs continuationMs =
     Inr \<lparr>rr_nextRetryAt = None, rr_delayClass = RdNone\<rparr>"
| "resolveCompletedRunRetry (RetryCompleted attempt _ _ DelayContinuation) now retryPolicy fallbackMs continuationMs =
     stamped (now + continuationMs) RdContinuation"
| "resolveCompletedRunRetry (RetryCompleted attempt _ _ DelayFailure) now retryPolicy fallbackMs continuationMs =
     stamped (failure_time now attempt retryPolicy fallbackMs) (failure_class retryPolicy)"

section \<open>Requeueing a retry\<close>

datatype requeue_delay = RqNone | RqRetained | RqPoll | RqFailure

record requeue_plan =
  rq_suppressed :: bool
  rq_attempt :: int
  rq_failureRetryCount :: int
  rq_retainedDueAt :: "string option"
  rq_delayClass :: requeue_delay

definition planRetryRequeue ::
  "int \<Rightarrow> int \<Rightarrow> int \<Rightarrow> bool \<Rightarrow> bool \<Rightarrow> string option \<Rightarrow> requeue_plan" where
  "planRetryRequeue currentAttempt durableFailureCount maxFailureRetries countFailure advanceAttempt retainedDueAt =
     (let attempt = currentAttempt + (if advanceAttempt then 1 else 0);
          failureRetryCount = durableFailureCount + (if countFailure then 1 else 0);
          suppressed = (countFailure \<and> maxFailureRetries \<le> failureRetryCount);
          plan = \<lparr>rq_suppressed = suppressed, rq_attempt = attempt, rq_failureRetryCount = failureRetryCount,
                  rq_retainedDueAt = None, rq_delayClass = RqNone\<rparr>
      in if suppressed then plan
         else if \<not> advanceAttempt \<and> retainedDueAt \<noteq> None
         then plan\<lparr>rq_retainedDueAt := retainedDueAt, rq_delayClass := RqRetained\<rparr>
         else if \<not> advanceAttempt then plan\<lparr>rq_delayClass := RqPoll\<rparr>
         else plan\<lparr>rq_delayClass := RqFailure\<rparr>)"

definition resolveRetryRequeue ::
  "requeue_plan \<Rightarrow> int \<Rightarrow> int option \<Rightarrow> retry_policy option \<Rightarrow> int \<Rightarrow> resolved_retry result" where
  "resolveRetryRequeue plan now pollIntervalMs retryPolicy defaultFailureBackoffMs =
     (case rq_delayClass plan of
        RqNone \<Rightarrow> Inr \<lparr>rr_nextRetryAt = None, rr_delayClass = RdNone\<rparr>
      | RqRetained \<Rightarrow> Inr \<lparr>rr_nextRetryAt = rq_retainedDueAt plan, rr_delayClass = RdRetained\<rparr>
      | RqPoll \<Rightarrow>
          (case pollIntervalMs of
             None \<Rightarrow> Inl ''poll interval is required for a poll retry''
           | Some ms \<Rightarrow> stamped (now + ms) RdPoll)
      | RqFailure \<Rightarrow>
          stamped (failure_time now (rq_attempt plan) retryPolicy defaultFailureBackoffMs)
            (failure_class retryPolicy))"

lemma stamped_Inr:
  "stamped t c = Inr r \<longleftrightarrow> \<bar>t\<bar> \<le> max_time \<and> r = \<lparr>rr_nextRetryAt = Some (iso_text t), rr_delayClass = c\<rparr>"
  by (auto simp: stamped_def rbind_Inr_iff toISOString_Inr)

section \<open>The failure budget\<close>

text \<open>
  Consecutive failures of one issue: each failed run is planned with the count the previous
  plan persisted. The result is the count after the failures that were granted a retry.
\<close>

fun consecutive_failures :: "int \<Rightarrow> nat \<Rightarrow> int \<Rightarrow> int \<Rightarrow> completed_plan" where
  "consecutive_failures m 0 attempt c = planCompletedRunRetry FailureRetry False attempt c m"
| "consecutive_failures m (Suc k) attempt c =
     (case planCompletedRunRetry FailureRetry False attempt c m of
        SuppressCompleted a f \<Rightarrow> SuppressCompleted a f
      | RetryCompleted a f _ _ \<Rightarrow> consecutive_failures m k a f)"

lemma plan_failure:
  "planCompletedRunRetry FailureRetry r a c m =
     (if m \<le> c + 1 then SuppressCompleted a (c + 1)
      else RetryCompleted (a + 1) (c + 1) (if r then PersistRecovery else PersistFailure)
             (if r then DelayContinuation else DelayFailure))"
  by (simp add: planCompletedRunRetry_def Let_def)

lemma consecutive_failures_eq:
  "consecutive_failures m k a c =
     (if m \<le> c + 1 then SuppressCompleted a (c + 1)
      else if m \<le> c + 1 + int k then SuppressCompleted (a + (m - c - 1)) m
      else RetryCompleted (a + 1 + int k) (c + 1 + int k) PersistFailure DelayFailure)"
  by (induction k arbitrary: a c) (auto simp: plan_failure)

section \<open>Properties\<close>

text \<open>
  The retry delay never exceeds the configured maximum, is positive when base and maximum
  are, and does not decrease from one attempt to the next.
\<close>

theorem retry_delay_is_bounded_and_monotone:
  assumes "0 < getOr (rp_baseDelayMs p) DEFAULT_BASE_DELAY_MS" and "0 < getOr (rp_maxDelayMs p) DEFAULT_MAX_DELAY_MS"
    and "a \<le> b"
  shows "0 < calculateRetryDelay a p \<and> calculateRetryDelay a p \<le> calculateRetryDelay b p \<and>
         calculateRetryDelay b p \<le> getOr (rp_maxDelayMs p) DEFAULT_MAX_DELAY_MS"
  using assms calculateRetryDelay_pos calculateRetryDelay_mono [OF _ assms(3)] calculateRetryDelay_le_max by simp

lemma retry_delay_is_bounded_and_monotone_witness:
  "calculateRetryDelay 1 \<lparr>rp_baseDelayMs = None, rp_maxDelayMs = None\<rparr>
     \<le> calculateRetryDelay 9 \<lparr>rp_baseDelayMs = None, rp_maxDelayMs = None\<rparr>"
  using retry_delay_is_bounded_and_monotone [of "\<lparr>rp_baseDelayMs = None, rp_maxDelayMs = None\<rparr>" 1 9]
  by (simp add: DEFAULT_BASE_DELAY_MS_def DEFAULT_MAX_DELAY_MS_def)

text \<open>
  The failure budget: \<open>k + 1\<close> failures in a row of an issue whose durable count was \<open>c\<close> are
  all granted a retry while the count stays below the maximum, each with the next attempt
  number; the failure that reaches the maximum is suppressed, and the count stops there.
\<close>

theorem failure_budget:
  "consecutive_failures maxRetries k attempt c =
     (if maxRetries \<le> c + 1 then SuppressCompleted attempt (c + 1)
      else if maxRetries \<le> c + 1 + int k then SuppressCompleted (attempt + (maxRetries - c - 1)) maxRetries
      else RetryCompleted (attempt + 1 + int k) (c + 1 + int k) PersistFailure DelayFailure)"
  by (rule consecutive_failures_eq)

text \<open>
  While the final state of the tracker stays unknown, finalization is deferred for as many
  consecutive reads as fit below the maximum and no more; the count records every one of them.
\<close>

theorem deferrals_are_bounded:
  "deferrals maxDeferrals current reads = Some n \<longleftrightarrow>
     n = current + int (length reads) \<and> (reads = [] \<or> n < maxDeferrals)"
  by (auto simp: deferrals_Some_iff)

end
