(* ===== verification/Eligibility.thy ===== *)
theory Eligibility
  imports Numbers Retry
begin

text \<open>
  Which issues may be dispatched and in which order: \<open>dispatch-eligibility.ts\<close> and the
  scheduling helpers of \<open>service.ts\<close> in \<open>packages/orchestrator/src\<close> (reconciliation order of
  runs, dispatch order of candidates, due retry reservations, adaptive polling, tracker
  progress). \<open>String.prototype.localeCompare\<close>, whose collation ECMAScript leaves to the
  host, is the parameter \<open>localeCompare\<close>; the locale \<open>comparator\<close> states what a sort needs of it.
\<close>

section \<open>Run records\<close>

datatype run_status =
  RunPending | RunStarting | RunRunning | RunRetrying | RunSucceeded | RunFailed | RunSuppressed

record retry_postponed =
  rpp_attempt :: int
  rpp_dueAt :: string
  rpp_reason :: string

record run_record =
  rn_runId :: string
  rn_issueId :: string
  rn_issueIdentifier :: string
  rn_issueState :: string
  rn_status :: run_status
  rn_updatedAt :: string
  rn_startedAt :: "string option"
  rn_completedAt :: "string option"
  rn_nextRetryAt :: "string option"
  rn_lastError :: "string option"
  rn_exit :: "session_exit option"
  rn_turnCount :: "int option"
  rn_cumulativeTurnCount :: "int option"
  rn_cumulativeRuntimeMs :: "int option"
  rn_progressConfirmedAt :: "string option"
  rn_progressConfirmedState :: "string option"
  rn_unpublishedWorktree :: bool
  rn_attempt :: int
  rn_processId :: "int option"
  rn_issueWorkspaceKey :: "string option"
  rn_runPhase :: "run_attempt_phase option"
  rn_retryKind :: "persisted_kind option"
  rn_retryPostponed :: "retry_postponed option"
  rn_issueSubjectId :: string
  rn_threadId :: "string option"
  rn_sessionThreadId :: "string option"
  rn_lastTurnSummary :: "string option"
  rn_lastEvent :: "string option"
  rn_lastEventAt :: "string option"
  rn_workerExitCode :: "int option"
  rn_workerExitSignal :: "string option"
  rn_finalizationDeferralCount :: "int option"
  rn_recovery :: "string option"

text \<open>\<open>parseTimestampMs\<close>, the same function in both files.\<close>

definition parseTimestampMs :: "string option \<Rightarrow> int option" where
  "parseTimestampMs value =
     (case value of None \<Rightarrow> None | Some s \<Rightarrow> if s = [] then None else date_parse s)"

section \<open>Candidate eligibility\<close>

datatype ineligible = NotDispatchable | InactiveState | NotRoutable

definition isIssueCandidateEligibleWithReason ::
  "tracked_issue \<Rightarrow> workflow_lifecycle \<Rightarrow> bool \<times> ineligible option" where
  "isIssueCandidateEligibleWithReason issue lifecycle =
     (if \<not> ti_dispatchable issue then (False, Some NotDispatchable)
      else if \<not> isStateActive (ti_state issue) lifecycle then (False, Some InactiveState)
      else if \<not> rt_routable (issueRoutable issue lifecycle) then (False, Some NotRoutable)
      else (True, None))"

fun isIssueOrchestrationClaimedState :: "orch_state \<Rightarrow> bool" where
  "isIssueOrchestrationClaimedState s = (s = Claimed \<or> s = Running \<or> s = RetryQueued)"

fun isActiveRunRecordStatus :: "run_status \<Rightarrow> bool" where
  "isActiveRunRecordStatus s = (s = RunPending \<or> s = RunStarting \<or> s = RunRunning \<or> s = RunRetrying)"

section \<open>Convergence locks\<close>

definition DEFAULT_CONVERGENCE_LOCK_TTL_MS :: int where
  "DEFAULT_CONVERGENCE_LOCK_TTL_MS = 24 * 60 * 60 * 1000"

definition resolveConvergenceLockTtlMs :: "environment \<Rightarrow> int" where
  "resolveConvergenceLockTtlMs env =
     positive_integer_or DEFAULT_CONVERGENCE_LOCK_TTL_MS (env_number env ''SYMPHONY_CONVERGENCE_LOCK_TTL_MS'')"

text \<open>Descending by update time; an unreadable time is \<open>-Infinity\<close>, and two of them tie.\<close>

definition updated_desc :: "run_record \<Rightarrow> run_record \<Rightarrow> int" where
  "updated_desc l r =
     (case (parseTimestampMs (Some (rn_updatedAt l)), parseTimestampMs (Some (rn_updatedAt r))) of
        (Some a, Some b) \<Rightarrow> b - a
      | (Some a, None) \<Rightarrow> -1
      | (None, Some b) \<Rightarrow> 1
      | (None, None) \<Rightarrow> 0)"

definition latestRunForIssue :: "run_record list \<Rightarrow> string \<Rightarrow> run_record option" where
  "latestRunForIssue runs issueId =
     (case js_sort updated_desc (filter (\<lambda>run. rn_issueId run = issueId) runs) of
        [] \<Rightarrow> None | r # _ \<Rightarrow> Some r)"

definition parseConvergenceTimestampMs :: "string option \<Rightarrow> int result" where
  "parseConvergenceTimestampMs value =
     (case value of
        None \<Rightarrow> Inl ''Convergence lock timestamp is missing; refusing to apply a silent fallback.''
      | Some s \<Rightarrow>
          if s = [] then Inl ''Convergence lock timestamp is missing; refusing to apply a silent fallback.''
          else case date_parse s of
                 None \<Rightarrow> Inl (''Convergence lock timestamp is invalid: '' @ json_string s)
               | Some t \<Rightarrow> Inr t)"

record lock_status =
  lk_run :: "run_record option"
  lk_expired :: bool

definition no_lock :: lock_status where
  "no_lock = \<lparr>lk_run = None, lk_expired = False\<rparr>"

definition getConvergenceLockStatus ::
  "run_record list \<Rightarrow> string \<Rightarrow> string \<Rightarrow> string option \<Rightarrow> int \<Rightarrow> int \<Rightarrow> lock_status result" where
  "getConvergenceLockStatus runs issueId issueState issueUpdatedAt nowMs ttlMs =
     (case latestRunForIssue runs issueId of
        None \<Rightarrow> Inr no_lock
      | Some latestRun \<Rightarrow>
          if rn_exit latestRun \<noteq> Some ConvergenceDetected \<or> rn_issueState latestRun \<noteq> issueState
          then Inr no_lock
          else rbind (parseConvergenceTimestampMs
                        (orElse (rn_completedAt latestRun) (Some (rn_updatedAt latestRun)))) (\<lambda>convergedAtMs.
               rbind (case issueUpdatedAt of
                        None \<Rightarrow> Inr None
                      | Some s \<Rightarrow> if s = [] then Inr None
                                  else rbind (parseConvergenceTimestampMs (Some s)) (\<lambda>t. Inr (Some t)))
                     (\<lambda>issueUpdatedAtMs.
                 case issueUpdatedAtMs of
                   Some u \<Rightarrow>
                     if convergedAtMs < u then Inr no_lock
                     else Inr \<lparr>lk_run = Some latestRun, lk_expired = (ttlMs \<le> nowMs - convergedAtMs)\<rparr>
                 | None \<Rightarrow> Inr \<lparr>lk_run = Some latestRun, lk_expired = (ttlMs \<le> nowMs - convergedAtMs)\<rparr>)))"

section \<open>Retry reservations and reconciliation order\<close>

definition isDueRetryReservation :: "issue_orch \<Rightarrow> int \<Rightarrow> bool" where
  "isDueRetryReservation r now =
     (if io_state r \<noteq> RetryQueued \<or> io_currentRunId r = None then False
      else case parseTimestampMs (map_option re_dueAt (io_retryEntry r)) of
             None \<Rightarrow> False
           | Some dueAtMs \<Rightarrow> dueAtMs \<le> now)"

definition run_due :: "run_record \<Rightarrow> int option" where
  "run_due run = (if rn_status run = RunRetrying then parseTimestampMs (rn_nextRetryAt run) else None)"

definition is_due :: "int \<Rightarrow> run_record \<Rightarrow> bool" where
  "is_due nowMs run = (case run_due run of None \<Rightarrow> False | Some t \<Rightarrow> t \<le> nowMs)"

definition reconcile_cmp :: "int \<Rightarrow> nat \<times> run_record \<Rightarrow> nat \<times> run_record \<Rightarrow> int" where
  "reconcile_cmp nowMs l r =
     (if is_due nowMs (snd l) \<noteq> is_due nowMs (snd r) then (if is_due nowMs (snd l) then 1 else -1)
      else if \<not> is_due nowMs (snd l) then int (fst l) - int (fst r)
      else if run_due (snd l) \<noteq> run_due (snd r)
      then getOr (run_due (snd l)) 0 - getOr (run_due (snd r)) 0
      else if rn_issueIdentifier (snd l) \<noteq> rn_issueIdentifier (snd r)
      then (if rn_issueIdentifier (snd l) < rn_issueIdentifier (snd r) then -1 else 1)
      else if rn_runId (snd l) = rn_runId (snd r) then 0
      else if rn_runId (snd l) < rn_runId (snd r) then -1 else 1)"

definition sortRunsForReconciliation :: "run_record list \<Rightarrow> int \<Rightarrow> run_record list" where
  "sortRunsForReconciliation activeRuns nowMs =
     map snd (js_sort (reconcile_cmp nowMs) (zip [0..<length activeRuns] activeRuns))"

text \<open>The order as a lexicographic key: not-due runs by position, then due runs by time, issue and run.\<close>

lemma reconcile_cmp_due:
  "is_due n (snd l) \<Longrightarrow> is_due n (snd r) \<Longrightarrow>
   reconcile_cmp n l r \<le> 0 \<longleftrightarrow>
     (the (run_due (snd l)), rn_issueIdentifier (snd l), rn_runId (snd l))
       \<in> {k. k = (the (run_due (snd r)), rn_issueIdentifier (snd r), rn_runId (snd r)) \<or>
            fst k < the (run_due (snd r)) \<or> fst k = the (run_due (snd r)) \<and>
            (fst (snd k) < rn_issueIdentifier (snd r) \<or> fst (snd k) = rn_issueIdentifier (snd r) \<and>
             snd (snd k) < rn_runId (snd r))}"
  by (auto simp: reconcile_cmp_def is_due_def split: option.splits)

interpretation reconcile: comparator "reconcile_cmp n" for n
proof unfold_locales
  fix x y z :: "nat \<times> run_record"
  show "reconcile_cmp n x y \<le> 0 \<or> reconcile_cmp n y x \<le> 0"
    by (auto simp: reconcile_cmp_def is_due_def split: option.splits)
  show "reconcile_cmp n x y \<le> 0 \<Longrightarrow> reconcile_cmp n y z \<le> 0 \<Longrightarrow> reconcile_cmp n x z \<le> 0"
  proof (cases "is_due n (snd x) \<and> is_due n (snd y) \<and> is_due n (snd z)")
    case True
    moreover assume "reconcile_cmp n x y \<le> 0" "reconcile_cmp n y z \<le> 0"
    ultimately show ?thesis by (auto simp: reconcile_cmp_due intro: less_trans)
  next
    case False
    moreover assume "reconcile_cmp n x y \<le> 0" "reconcile_cmp n y z \<le> 0"
    ultimately show ?thesis by (auto simp: reconcile_cmp_def split: if_splits)
  qed
qed

text \<open>A run for the concrete instances.\<close>

definition sample_run :: "tracked_issue \<Rightarrow> run_record" where
  "sample_run issue =
     \<lparr>rn_runId = ''run'', rn_issueId = ti_id issue, rn_issueIdentifier = ti_identifier issue,
      rn_issueState = ti_state issue, rn_status = RunStarting, rn_updatedAt = ''1970-01-01T00:00:00Z'',
      rn_startedAt = None, rn_completedAt = None, rn_nextRetryAt = None, rn_lastError = None,
      rn_exit = None, rn_turnCount = None, rn_cumulativeTurnCount = None, rn_cumulativeRuntimeMs = None,
      rn_progressConfirmedAt = None, rn_progressConfirmedState = None, rn_unpublishedWorktree = False,
      rn_attempt = 1, rn_processId = Some 1, rn_issueWorkspaceKey = None, rn_runPhase = None,
      rn_retryKind = None, rn_retryPostponed = None, rn_issueSubjectId = ti_id issue, rn_threadId = None,
      rn_sessionThreadId = None, rn_lastTurnSummary = None, rn_lastEvent = None, rn_lastEventAt = None,
      rn_workerExitCode = None, rn_workerExitSignal = None, rn_finalizationDeferralCount = None,
      rn_recovery = None\<rparr>"

section \<open>Properties\<close>

text \<open>
  A convergence lock holds an issue only through its latest run: that run ended by detecting
  convergence in the issue's present state and the issue was not updated since; the lock counts
  as expired exactly when the time to live has passed.
\<close>

theorem convergence_lock_conditions:
  assumes "getConvergenceLockStatus runs i state updatedAt now ttl = Inr lock" and "lk_run lock = Some run"
  shows "latestRunForIssue runs i = Some run \<and> rn_exit run = Some ConvergenceDetected \<and> rn_issueState run = state \<and>
     (\<exists>t. parseConvergenceTimestampMs (orElse (rn_completedAt run) (Some (rn_updatedAt run))) = Inr t \<and>
          (lk_expired lock \<longleftrightarrow> ttl \<le> now - t) \<and>
          (\<forall>s u. updatedAt = Some s \<longrightarrow> s \<noteq> [] \<longrightarrow> parseConvergenceTimestampMs (Some s) = Inr u \<longrightarrow> u \<le> t))"
  using assms
  by (auto simp: getConvergenceLockStatus_def rbind_Inr_iff no_lock_def split: option.splits if_splits)

definition converged_run :: run_record where
  "converged_run = (sample_run (sample_issue ''i''))\<lparr>rn_exit := Some ConvergenceDetected\<rparr>"

lemma convergence_lock_conditions_witness:
  "latestRunForIssue [converged_run] ''i'' = Some converged_run \<and> rn_issueState converged_run = ''Todo''"
proof -
  have "(case getConvergenceLockStatus [converged_run] ''i'' ''Todo'' None 500 1000 of
      Inr l \<Rightarrow> lk_run l = Some converged_run | Inl _ \<Rightarrow> False)" by code_simp
  then obtain l where "getConvergenceLockStatus [converged_run] ''i'' ''Todo'' None 500 1000 = Inr l"
    "lk_run l = Some converged_run" by (auto split: sum.splits)
  from convergence_lock_conditions [OF this] show ?thesis by blast
qed

lemma sort_splits:
  assumes "sorted_wrt (\<lambda>x y. reconcile_cmp n x y \<le> 0) ps"
  shows "ps = filter (\<lambda>p. \<not> is_due n (snd p)) ps @ filter (\<lambda>p. is_due n (snd p)) ps"
  using assms
proof (induction ps)
  case (Cons p ps)
  show ?case
  proof (cases "is_due n (snd p)")
    case True
    have "is_due n (snd q)" if "q \<in> set ps" for q
      using Cons.prems that True by (auto simp: reconcile_cmp_def split: if_splits)
    then have "filter (\<lambda>p. \<not> is_due n (snd p)) ps = []" by (simp add: filter_empty_conv)
    with True show ?thesis by (metis (no_types, lifting) Cons.IH Cons.prems append_Nil filter.simps(2) sorted_wrt.simps(2))
  next
    case False
    with Cons show ?thesis by simp
  qed
qed simp

lemma map_snd_zip_upt: "map snd (zip [0..<length xs] xs) = xs"
  by simp

lemma filter_not_due:
  "filter (\<lambda>p. \<not> is_due n (snd p)) (js_sort (reconcile_cmp n) (zip [0..<length runs] runs)) =
   filter (\<lambda>p. \<not> is_due n (snd p)) (zip [0..<length runs] runs)"
proof -
  let ?zs = "zip [0..<length runs] runs" and ?P = "\<lambda>p. \<not> is_due n (snd p)"
  let ?ps = "js_sort (reconcile_cmp n) ?zs"
  have "sorted_wrt (\<lambda>x y. reconcile_cmp n x y \<le> 0) (filter ?P ?ps)"
    by (intro sorted_wrt_filter reconcile.sort_ordered)
  then have "sorted_wrt (\<lambda>x y. fst x \<le> fst y) (filter ?P ?ps)"
    by (rule sorted_wrt_mono_rel [rotated]) (auto simp: reconcile_cmp_def)
  then have sorted: "sorted (map fst (filter ?P ?ps))" by (simp add: sorted_map)
  have fst: "map fst ?zs = [0..<length runs]" by simp
  have "distinct (map fst ?zs)" "sorted (map fst ?zs)" by (simp_all only: fst distinct_upt sorted_upt)
  then have dz: "distinct (map fst (filter ?P ?zs))" "sorted (map fst (filter ?P ?zs))"
    by (simp_all add: distinct_map_filter sorted_filter)
  have "mset (filter ?P ?ps) = mset (filter ?P ?zs)" by simp
  then have "mset (map fst (filter ?P ?ps)) = mset (map fst (filter ?P ?zs))" by (simp only: mset_map)
  then have dp: "distinct (map fst (filter ?P ?ps))" using dz(1) mset_eq_imp_distinct_iff by blast
  have inj: "inj_on fst (set ?zs)" using \<open>distinct (map fst ?zs)\<close> by (simp only: distinct_map)
  show ?thesis
    by (rule map_sorted_distinct_set_unique [where f = fst])
       (use inj sorted dp dz in \<open>auto intro: inj_on_subset\<close>)
qed

lemma sortRuns_filter:
  "filter P (sortRunsForReconciliation runs now) =
     map snd (filter (P \<circ> snd) (js_sort (reconcile_cmp now) (zip [0..<length runs] runs)))"
  by (simp add: sortRunsForReconciliation_def filter_map comp_def)

text \<open>
  Reconciliation visits every active run once: first the runs that are not due retries, in
  their given order, then the due retries, earliest due time first.
\<close>

theorem reconciliation_order:
  "mset (sortRunsForReconciliation runs now) = mset runs \<and>
   sortRunsForReconciliation runs now =
     filter (\<lambda>r. \<not> is_due now r) runs @ filter (is_due now) (sortRunsForReconciliation runs now) \<and>
   sorted (map (\<lambda>r. getOr (run_due r) 0) (filter (is_due now) (sortRunsForReconciliation runs now)))"
proof -
  let ?zs = "zip [0..<length runs] runs"
  let ?ps = "js_sort (reconcile_cmp now) ?zs"
  have ordered: "sorted_wrt (\<lambda>x y. reconcile_cmp now x y \<le> 0) ?ps" by (rule reconcile.sort_ordered)
  have "mset (sortRunsForReconciliation runs now) = image_mset snd (mset ?zs)"
    by (simp add: sortRunsForReconciliation_def)
  also have "\<dots> = mset runs" by (metis map_snd_zip_upt mset_map)
  finally have perm: "mset (sortRunsForReconciliation runs now) = mset runs" .
  have "map snd (filter (\<lambda>p. \<not> is_due now (snd p)) ?zs) = filter (\<lambda>r. \<not> is_due now r) runs"
    by (subst (2) map_snd_zip_upt [of runs, symmetric]) (simp only: filter_map comp_def)
  with sort_splits [OF ordered] filter_not_due [of now runs] have split:
    "sortRunsForReconciliation runs now =
       filter (\<lambda>r. \<not> is_due now r) runs @ filter (is_due now) (sortRunsForReconciliation runs now)"
    unfolding sortRuns_filter by (metis (no_types, lifting) comp_def filter_cong map_append sortRunsForReconciliation_def)
  have "sorted_wrt (\<lambda>x y. reconcile_cmp now x y \<le> 0) (filter (is_due now \<circ> snd) ?ps)"
    by (intro sorted_wrt_filter ordered)
  then have "sorted_wrt (\<lambda>x y. getOr (run_due (snd x)) 0 \<le> getOr (run_due (snd y)) 0) (filter (is_due now \<circ> snd) ?ps)"
    by (rule sorted_wrt_mono_rel [rotated]) (auto simp: reconcile_cmp_def split: if_splits)
  then have "sorted (map (\<lambda>r. getOr (run_due r) 0) (filter (is_due now) (sortRunsForReconciliation runs now)))"
    unfolding sortRuns_filter by (simp add: sorted_map sorted_wrt_map)
  with perm split show ?thesis by blast
qed

end
