(* ===== verification/Scheduling.thy ===== *)
theory Scheduling
  imports Eligibility
begin

text \<open>
  The pure scheduling helpers at the end of \<open>packages/orchestrator/src/service.ts\<close>: dispatch
  order, latest runs, adaptive polling from rate limits, tracker progress and state reads,
  retry suppression and the cumulative counters a run carries between sessions.
\<close>

section \<open>Dispatch order\<close>

text \<open>
  \<open>createdAt\<close> keys are canonical timestamps, compared like identifiers with
  \<open>localeCompare\<close>.
\<close>

definition priority_cmp :: "tracked_issue \<Rightarrow> tracked_issue \<Rightarrow> int" where
  "priority_cmp a b =
     (case (ti_priority a, ti_priority b) of
        (Some p, Some q) \<Rightarrow> sgn_cmp p q
      | (None, Some _) \<Rightarrow> 1
      | (Some _, None) \<Rightarrow> -1
      | (None, None) \<Rightarrow> 0)"

definition created_key :: "tracked_issue \<Rightarrow> string option" where
  "created_key issue = parseTrackerTimestamp (map_option JStr (ti_createdAt issue))"

definition created_cmp :: "(string \<Rightarrow> string \<Rightarrow> int) \<Rightarrow> tracked_issue \<Rightarrow> tracked_issue \<Rightarrow> int" where
  "created_cmp localeCompare a b =
     (if created_key a = created_key b then 0
      else case (created_key a, created_key b) of
             (Some s, Some t) \<Rightarrow> localeCompare s t
           | (None, _) \<Rightarrow> 1
           | (Some _, None) \<Rightarrow> -1)"

definition dispatch_cmp :: "(string \<Rightarrow> string \<Rightarrow> int) \<Rightarrow> tracked_issue \<Rightarrow> tracked_issue \<Rightarrow> int" where
  "dispatch_cmp localeCompare a b =
     (if ti_priority a \<noteq> ti_priority b then priority_cmp a b
      else if created_key a \<noteq> created_key b then created_cmp localeCompare a b
      else localeCompare (ti_identifier a) (ti_identifier b))"

definition sortCandidatesForDispatch ::
  "(string \<Rightarrow> string \<Rightarrow> int) \<Rightarrow> tracked_issue list \<Rightarrow> tracked_issue list" where
  "sortCandidatesForDispatch localeCompare candidates = js_sort (dispatch_cmp localeCompare) candidates"

lemma dispatch_cmp_same_priority:
  assumes "ti_priority a = ti_priority b"
  shows "dispatch_cmp lc a b =
    (case created_key a of
       Some s \<Rightarrow> (case created_key b of
                    Some t \<Rightarrow> (if s \<noteq> t then lc s t else lc (ti_identifier a) (ti_identifier b))
                  | None \<Rightarrow> -1)
     | None \<Rightarrow> (case created_key b of Some t \<Rightarrow> 1 | None \<Rightarrow> lc (ti_identifier a) (ti_identifier b)))"
  using assms by (simp add: dispatch_cmp_def created_cmp_def split: option.splits)

text \<open>What the code relies on of \<open>localeCompare\<close>: a total order up to ties of equal strings.\<close>

locale collation = comparator localeCompare
  for localeCompare :: "string \<Rightarrow> string \<Rightarrow> int" +
  assumes collation_antisym: "localeCompare s t \<le> 0 \<Longrightarrow> localeCompare t s \<le> 0 \<Longrightarrow> s = t"
begin

lemma dispatch_total: "dispatch_cmp localeCompare a b \<le> 0 \<or> dispatch_cmp localeCompare b a \<le> 0"
  using cmp_total
  by (auto simp: dispatch_cmp_def priority_cmp_def created_cmp_def split: option.splits)

lemma lex_trans:
  assumes "(if s \<noteq> t then localeCompare s t else localeCompare i j) \<le> 0"
    and "(if t \<noteq> u then localeCompare t u else localeCompare j k) \<le> 0"
  shows "(if s \<noteq> u then localeCompare s u else localeCompare i k) \<le> 0"
proof (cases "s = t \<or> t = u")
  case True
  with assms show ?thesis by (auto intro: cmp_trans split: if_splits)
next
  case False
  with assms have st: "localeCompare s t \<le> 0" "localeCompare t u \<le> 0" by simp_all
  then have su: "localeCompare s u \<le> 0" by (rule cmp_trans)
  have "s \<noteq> u" using st False collation_antisym by blast
  with su show ?thesis by simp
qed

lemma dispatch_trans:
  "dispatch_cmp localeCompare a b \<le> 0 \<Longrightarrow> dispatch_cmp localeCompare b c \<le> 0 \<Longrightarrow>
   dispatch_cmp localeCompare a c \<le> 0"
proof (cases "ti_priority a = ti_priority b \<and> ti_priority b = ti_priority c")
  case True
  moreover assume "dispatch_cmp localeCompare a b \<le> 0" "dispatch_cmp localeCompare b c \<le> 0"
  ultimately show ?thesis
    by (cases "created_key a"; cases "created_key b"; cases "created_key c")
      (simp_all only: dispatch_cmp_same_priority option.case,
       (erule (1) lex_trans | erule (1) cmp_trans | simp)+)
next
  case False
  moreover assume "dispatch_cmp localeCompare a b \<le> 0" "dispatch_cmp localeCompare b c \<le> 0"
  ultimately show ?thesis
    by (auto simp: dispatch_cmp_def priority_cmp_def split: option.splits if_splits)
qed

sublocale dispatch_order: comparator "dispatch_cmp localeCompare"
  by unfold_locales (use dispatch_total dispatch_trans in blast)+

end

text \<open>Code-unit order is such a collation.\<close>

interpretation code_units: collation "sgn_cmp :: string \<Rightarrow> string \<Rightarrow> int"
  by unfold_locales auto

section \<open>Latest runs\<close>

definition newer_run :: "run_record \<Rightarrow> run_record \<Rightarrow> bool" where
  "newer_run run existing =
     (case parseTimestampMs (Some (rn_updatedAt run)) of
        None \<Rightarrow> False
      | Some t \<Rightarrow> (case parseTimestampMs (Some (rn_updatedAt existing)) of None \<Rightarrow> True | Some u \<Rightarrow> u < t))"

fun buildLatestRunMap :: "run_record list \<Rightarrow> (string \<rightharpoonup> run_record) \<Rightarrow> (string \<rightharpoonup> run_record)" where
  "buildLatestRunMap [] latest = latest"
| "buildLatestRunMap (run # runs) latest =
     buildLatestRunMap runs
       (case latest (rn_issueId run) of
          None \<Rightarrow> latest(rn_issueId run \<mapsto> run)
        | Some existing \<Rightarrow> if newer_run run existing then latest(rn_issueId run \<mapsto> run) else latest)"

definition buildLatestRunMapByIssueId :: "run_record list \<Rightarrow> (string \<rightharpoonup> run_record)" where
  "buildLatestRunMapByIssueId runs = buildLatestRunMap runs Map.empty"

text \<open>The map's entry is the first run of the issue that no other run of it is newer than.\<close>

fun newest_of :: "run_record option \<Rightarrow> run_record list \<Rightarrow> run_record option" where
  "newest_of acc [] = acc"
| "newest_of None (r # rs) = newest_of (Some r) rs"
| "newest_of (Some e) (r # rs) = newest_of (Some (if newer_run r e then r else e)) rs"

lemma buildLatestRunMap_newest:
  "buildLatestRunMap runs latest i = newest_of (latest i) (filter (\<lambda>r. rn_issueId r = i) runs)"
  by (induction runs arbitrary: latest) (auto split: option.splits)

lemma newer_run_trans: "\<not> newer_run a b \<Longrightarrow> \<not> newer_run b c \<Longrightarrow> \<not> newer_run a c"
  by (auto simp: newer_run_def split: option.splits)

lemma newer_run_asym: "newer_run a b \<Longrightarrow> \<not> newer_run b a"
  by (auto simp: newer_run_def split: option.splits)

lemma newest_of_greatest:
  "newest_of acc rs = Some r \<Longrightarrow>
   (\<forall>x \<in> set rs. \<not> newer_run x r) \<and> (\<forall>e. acc = Some e \<longrightarrow> \<not> newer_run e r)
     \<and> (r \<in> set rs \<or> acc = Some r)"
proof (induction acc rs rule: newest_of.induct)
  case (1 acc)
  then show ?case by (auto simp: newer_run_def split: option.splits)
next
  case (2 r' rs)
  then show ?case by auto
next
  case (3 e r' rs)
  show ?case
  proof (cases "newer_run r' e")
    case True
    with 3 have "(\<forall>x \<in> set rs. \<not> newer_run x r) \<and> \<not> newer_run r' r \<and> (r \<in> set rs \<or> r' = r)" by auto
    moreover have "\<not> newer_run e r' " using True by (rule newer_run_asym)
    ultimately show ?thesis using newer_run_trans by auto
  next
    case False
    with 3 have "(\<forall>x \<in> set rs. \<not> newer_run x r) \<and> \<not> newer_run e r \<and> (r \<in> set rs \<or> e = r)" by auto
    with False newer_run_trans show ?thesis by auto
  qed
qed

section \<open>Rate limits and polling\<close>

definition DEFAULT_POLL_INTERVAL_MS :: rat where "DEFAULT_POLL_INTERVAL_MS = 30000"
definition MIN_POLL_INTERVAL_MS :: rat where "MIN_POLL_INTERVAL_MS = 1000"
definition MAX_POLL_INTERVAL_MS :: rat where "MAX_POLL_INTERVAL_MS = 300000"
definition MAX_ADAPTIVE_POLL_INTERVAL_MULTIPLIER :: rat where "MAX_ADAPTIVE_POLL_INTERVAL_MULTIPLIER = 10"

definition clampPollInterval :: "rat \<Rightarrow> rat" where
  "clampPollInterval intervalMs = min MAX_POLL_INTERVAL_MS (max MIN_POLL_INTERVAL_MS intervalMs)"

definition parseFiniteNumber :: "json option \<Rightarrow> rat option" where
  "parseFiniteNumber value =
     (case value of
        Some (JNum q) \<Rightarrow> Some q
      | Some (JStr s) \<Rightarrow> if js_trim s = [] then None else js_number s
      | _ \<Rightarrow> None)"

definition extractRateLimitRatio :: "json \<Rightarrow> rat option" where
  "extractRateLimitRatio rateLimits =
     (if \<not> is_record rateLimits then None
      else case (parseFiniteNumber (jget rateLimits ''limit''), parseFiniteNumber (jget rateLimits ''remaining'')) of
             (Some limit, Some remaining) \<Rightarrow>
               if limit \<le> 0 \<or> remaining < 0 then None else Some (remaining / limit)
           | _ \<Rightarrow> None)"

definition isTrackerGraphqlRateLimits :: "json \<Rightarrow> bool" where
  "isTrackerGraphqlRateLimits rateLimits =
     (if \<not> is_record rateLimits \<or>
         jget rateLimits ''source'' \<noteq> Some (JStr ''github'') \<and> jget rateLimits ''source'' \<noteq> Some (JStr ''linear'')
      then False
      else nullish (jget rateLimits ''resource'') \<or> jget rateLimits ''resource'' = Some (JStr ''graphql''))"

definition isLowRateLimit :: "json \<Rightarrow> rat \<Rightarrow> bool" where
  "isLowRateLimit rateLimits threshold =
     (case extractRateLimitRatio rateLimits of None \<Rightarrow> False | Some ratio \<Rightarrow> ratio < threshold)"

definition resolveAdaptivePollIntervalMs :: "rat option \<Rightarrow> json \<Rightarrow> rat" where
  "resolveAdaptivePollIntervalMs basePollIntervalMs rateLimits =
     (case basePollIntervalMs of
        None \<Rightarrow> DEFAULT_POLL_INTERVAL_MS
      | Some base \<Rightarrow>
          if base \<le> 0 then DEFAULT_POLL_INTERVAL_MS
          else case extractRateLimitRatio rateLimits of
                 None \<Rightarrow> base
               | Some ratio \<Rightarrow>
                   if 1 / 2 < ratio then base
                   else if ratio \<le> 0 then base * MAX_ADAPTIVE_POLL_INTERVAL_MULTIPLIER
                   else of_int \<lceil>base * min MAX_ADAPTIVE_POLL_INTERVAL_MULTIPLIER (max 1 (1 / 2 / ratio))\<rceil>)"

text \<open>A rate-limit error carries its limits and an optional time to retry at.\<close>

datatype tracker_error = TrackerRateLimitError "json option" "string option" | OtherError

definition resolveDispatchSuppressedUntil :: "tracker_error \<Rightarrow> json \<Rightarrow> string option" where
  "resolveDispatchSuppressedUntil err rateLimits =
     (case err of
        OtherError \<Rightarrow> None
      | TrackerRateLimitError _ retryAt \<Rightarrow>
          if retryAt \<noteq> None \<and> retryAt \<noteq> Some [] then retryAt
          else if isTrackerGraphqlRateLimits rateLimits then jstring (jget rateLimits ''resetAt'') else None)"

definition readNonNegativeNumber :: "json option \<Rightarrow> rat" where
  "readNonNegativeNumber value = (case value of Some (JNum q) \<Rightarrow> if 0 \<le> q then q else 0 | _ \<Rightarrow> 0)"

type_synonym query_costs = "(string \<times> (rat \<times> rat)) list"

text \<open>\<open>queryCosts[operation] = previous + value\<close>; a new operation is appended.\<close>

fun add_cost :: "string \<Rightarrow> rat \<times> rat \<Rightarrow> query_costs \<Rightarrow> query_costs" where
  "add_cost k (n, c) [] = [(k, (n, c))]"
| "add_cost k (n, c) ((k', (n', c')) # cs) =
     (if k = k' then (k', (n' + n, c' + c)) # cs else (k', (n', c')) # add_cost k (n, c) cs)"

fun add_costs :: "(string \<times> json) list \<Rightarrow> query_costs \<Rightarrow> query_costs" where
  "add_costs [] acc = acc"
| "add_costs ((k, v) # kvs) acc =
     add_costs kvs
       (if is_record v
        then add_cost k (readNonNegativeNumber (jget v ''requestCount''), readNonNegativeNumber (jget v ''cost'')) acc
        else acc)"

definition costs_of :: "json \<Rightarrow> query_costs \<Rightarrow> query_costs" where
  "costs_of rateLimit acc =
     (case jget rateLimit ''queryCosts'' of Some (JObj kvs) \<Rightarrow> add_costs kvs acc | _ \<Rightarrow> acc)"

definition cost_json :: "rat \<times> rat \<Rightarrow> json" where
  "cost_json c = JObj [(''requestCount'', JNum (fst c)), (''cost'', JNum (snd c))]"

definition mergeTrackerRateLimits :: "json list \<Rightarrow> json option" where
  "mergeTrackerRateLimits rateLimits =
     (case filter isTrackerGraphqlRateLimits rateLimits of
        [] \<Rightarrow> None
      | [r] \<Rightarrow> Some r
      | r # s # rs \<Rightarrow>
          let ls = r # s # rs;
              cycleCost = sum_list (map (\<lambda>l. readNonNegativeNumber (jget l ''cycleCost'')) ls);
              queryCosts = foldl (\<lambda>acc l. costs_of l acc) [] ls
          in Some (case last ls of
                     JObj kvs \<Rightarrow>
                       JObj (kvs @ [(''cycleCost'', JNum cycleCost),
                                    (''queryCosts'', JObj (map (\<lambda>(k, c). (k, cost_json c)) queryCosts))])
                   | j \<Rightarrow> j))"

section \<open>Properties\<close>

text \<open>
  Under any consistent collation, candidates are dispatched in non-decreasing order of
  priority (missing last), creation time and identifier; the sort loses and invents none, and
  candidates that tie keep the tracker's order.
\<close>

theorem dispatch_order_is_sorted_and_stable:
  assumes "collation localeCompare"
  shows "mset (sortCandidatesForDispatch localeCompare issues) = mset issues \<and>
    sorted_wrt (\<lambda>a b. dispatch_cmp localeCompare a b \<le> 0) (sortCandidatesForDispatch localeCompare issues) \<and>
    filter (\<lambda>x. dispatch_cmp localeCompare z x \<le> 0 \<and> dispatch_cmp localeCompare x z \<le> 0)
        (sortCandidatesForDispatch localeCompare issues) =
      filter (\<lambda>x. dispatch_cmp localeCompare z x \<le> 0 \<and> dispatch_cmp localeCompare x z \<le> 0) issues"
proof -
  have cmp: "comparator (dispatch_cmp localeCompare)"
    by (rule comparator.intro [OF collation.dispatch_total [OF assms] collation.dispatch_trans [OF assms]])
  have tied: "comparator.tied (dispatch_cmp localeCompare) z =
      (\<lambda>x. dispatch_cmp localeCompare z x \<le> 0 \<and> dispatch_cmp localeCompare x z \<le> 0)"
    by (rule ext) (rule comparator.tied_def [OF cmp])
  show ?thesis unfolding sortCandidatesForDispatch_def
    using comparator.sort_ordered [OF cmp, of issues] comparator.sort_stable [OF cmp, of z issues, unfolded tied]
    by (simp only: mset_js_sort simp_thms)
qed

lemma dispatch_order_is_sorted_and_stable_witness:
  "mset (sortCandidatesForDispatch sgn_cmp [sample_issue ''b'', sample_issue ''a'']) = {#sample_issue ''a'', sample_issue ''b''#} \<and>
   sortCandidatesForDispatch sgn_cmp [sample_issue ''b'', sample_issue ''a''] = [sample_issue ''a'', sample_issue ''b'']"
proof
  show "mset (sortCandidatesForDispatch sgn_cmp [sample_issue ''b'', sample_issue ''a'']) = {#sample_issue ''a'', sample_issue ''b''#}"
    using dispatch_order_is_sorted_and_stable [OF code_units.collation_axioms, of "[sample_issue ''b'', sample_issue ''a'']"]
    by (simp add: add_mset_commute)
  show "sortCandidatesForDispatch sgn_cmp [sample_issue ''b'', sample_issue ''a''] = [sample_issue ''a'', sample_issue ''b'']"
    by code_simp
qed

text \<open>
  The latest-run map holds, for every issue with a run, a run of that issue that no other
  run of it is newer than, and nothing for other issues.
\<close>

theorem latest_run_map_holds_the_newest:
  "(buildLatestRunMapByIssueId runs i = None \<longleftrightarrow> i \<notin> rn_issueId ` set runs) \<and>
   (\<forall>r. buildLatestRunMapByIssueId runs i = Some r \<longrightarrow>
      r \<in> set runs \<and> rn_issueId r = i \<and> (\<forall>q \<in> set runs. rn_issueId q = i \<longrightarrow> \<not> newer_run q r))"
proof -
  let ?rs = "filter (\<lambda>r. rn_issueId r = i) runs"
  have m: "buildLatestRunMapByIssueId runs i = newest_of None ?rs"
    by (simp add: buildLatestRunMapByIssueId_def buildLatestRunMap_newest)
  have some: "newest_of (Some e) xs \<noteq> None" for e xs
    by (induction xs arbitrary: e) auto
  have "newest_of None ?rs = None \<longleftrightarrow> ?rs = []"
    using some by (cases ?rs) auto
  then have "buildLatestRunMapByIssueId runs i = None \<longleftrightarrow> i \<notin> rn_issueId ` set runs"
    unfolding m by (auto simp: filter_empty_conv)
  moreover have "r \<in> set runs \<and> rn_issueId r = i \<and> (\<forall>q \<in> set runs. rn_issueId q = i \<longrightarrow> \<not> newer_run q r)"
    if "buildLatestRunMapByIssueId runs i = Some r" for r
    using newest_of_greatest [OF that [unfolded m]] by auto
  ultimately show ?thesis by blast
qed

lemma latest_run_map_holds_the_newest_witness:
  "buildLatestRunMapByIssueId [sample_run (sample_issue ''i'')] ''j'' = None \<and>
   rn_issueId (sample_run (sample_issue ''i'')) = ''i''"
proof -
  have "rn_issueId (sample_run (sample_issue ''i'')) = ''i''" by (simp add: sample_run_def sample_issue_def)
  with latest_run_map_holds_the_newest [of "[sample_run (sample_issue ''i'')]" "''j''"] show ?thesis by simp
qed

text \<open>
  The adaptive poll interval never polls faster than the base interval and never slows down
  by more than the factor ten, rounded up to a millisecond; with more than half of the rate
  limit left it is the base interval.
\<close>

theorem adaptive_poll_is_bounded:
  assumes "0 < base"
  shows "base \<le> resolveAdaptivePollIntervalMs (Some base) limits \<and>
    resolveAdaptivePollIntervalMs (Some base) limits < base * MAX_ADAPTIVE_POLL_INTERVAL_MULTIPLIER + 1 \<and>
    (\<forall>ratio. extractRateLimitRatio limits = Some ratio \<longrightarrow> 1 / 2 < ratio \<longrightarrow>
       resolveAdaptivePollIntervalMs (Some base) limits = base)"
proof (cases "extractRateLimitRatio limits")
  case None
  with assms show ?thesis by (simp add: resolveAdaptivePollIntervalMs_def MAX_ADAPTIVE_POLL_INTERVAL_MULTIPLIER_def)
next
  case (Some ratio)
  define f where "f = min (10 :: rat) (max 1 (1 / 2 / ratio))"
  have "1 \<le> f" "f \<le> 10" by (simp_all add: f_def)
  with assms have "base \<le> base * f" "base * f \<le> base * 10" by simp_all
  moreover have "base * f \<le> of_int \<lceil>base * f\<rceil>" "of_int \<lceil>base * f\<rceil> < base * f + 1"
    using ceiling_correct [of "base * f"] by linarith+
  ultimately have "base \<le> of_int \<lceil>base * f\<rceil>" "of_int \<lceil>base * f\<rceil> < base * 10 + 1" by linarith+
  with assms Some show ?thesis
    by (auto simp: resolveAdaptivePollIntervalMs_def MAX_ADAPTIVE_POLL_INTERVAL_MULTIPLIER_def f_def)
qed

lemma adaptive_poll_is_bounded_witness:
  "resolveAdaptivePollIntervalMs (Some 30000) (JObj [(''limit'', JNum 100), (''remaining'', JNum 60)]) = 30000"
proof -
  have "extractRateLimitRatio (JObj [(''limit'', JNum 100), (''remaining'', JNum 60)]) = Some (3 / 5)"
    by (simp add: extractRateLimitRatio_def parseFiniteNumber_def)
  moreover have all: "\<forall>ratio. extractRateLimitRatio (JObj [(''limit'', JNum 100), (''remaining'', JNum 60)]) = Some ratio \<longrightarrow>
      1 / 2 < ratio \<longrightarrow>
      resolveAdaptivePollIntervalMs (Some 30000) (JObj [(''limit'', JNum 100), (''remaining'', JNum 60)]) = 30000"
    by (rule adaptive_poll_is_bounded [THEN conjunct2, THEN conjunct2]) simp
  ultimately show ?thesis using all [rule_format, of "3 / 5"] by simp
qed

end
