(* ===== verification/Dispatch.thy ===== *)
theory Dispatch
  imports Scheduling "HOL-Library.Sublist"
begin

text \<open>
  The dispatch phase of \<open>OrchestratorService.reconcileProject\<close>
  (\<open>packages/orchestrator/src/service.ts\<close>): capacity, the filter of unscheduled candidates,
  and the loop that claims an issue, starts its worker and records the outcome. The worker
  start and the workflow settings it reads are the fields of \<open>dispatch_env\<close>; what the loop
  writes to the store and the event log is the list \<open>ds_effects\<close>.
\<close>

section \<open>Failure budgets of candidates\<close>

definition MAX_FAILURE_RETRIES_EXCEEDED_REASON :: string where
  "MAX_FAILURE_RETRIES_EXCEEDED_REASON = ''max_failure_retries_exceeded''"

definition FAILURE_RETRY_REARM_HINT :: string where
  "FAILURE_RETRY_REARM_HINT =
     ''Manual intervention required: change the tracker state to re-arm retries.''"

definition legacyFailureRetrySuppressedState :: "run_record option \<Rightarrow> string option" where
  "legacyFailureRetrySuppressedState latestRun =
     (case latestRun of
        None \<Rightarrow> None
      | Some r \<Rightarrow>
          if rn_status r = RunSuppressed \<and>
             (case rn_lastError r of None \<Rightarrow> False
              | Some e \<Rightarrow> js_includes MAX_FAILURE_RETRIES_EXCEEDED_REASON e)
          then Some (rn_issueState r) else None)"

definition isFailureRetryRearmedIssue :: "tracked_issue \<Rightarrow> issue_orch option \<Rightarrow> run_record option \<Rightarrow> bool" where
  "isFailureRetryRearmedIssue issue issueRecord latestRun =
     (case issueRecord of
        None \<Rightarrow> False
      | Some r \<Rightarrow> isFailureRetryRearmedForState r (ti_state issue) (legacyFailureRetrySuppressedState latestRun))"

definition record_for_issue :: "issue_orch list \<Rightarrow> tracked_issue \<Rightarrow> issue_orch option" where
  "record_for_issue rs issue =
     List.find (\<lambda>r. io_issueId r = ti_id issue \<or> io_identifier r = ti_identifier issue) rs"

definition isFailureRetrySuppressedIssue ::
  "int \<Rightarrow> tracked_issue \<Rightarrow> issue_orch list \<Rightarrow> run_record option \<Rightarrow> bool" where
  "isFailureRetrySuppressedIssue maxFailureRetries issue issueRecords latestRun =
     (case record_for_issue issueRecords issue of
        None \<Rightarrow> False
      | Some r \<Rightarrow>
          if io_failureRetryCount r \<le> 0 then False
          else if io_failureRetryCount r < maxFailureRetries then False
          else \<not> isFailureRetryRearmedIssue issue (Some r) latestRun)"

definition isGitTransportFailureError :: "string option \<Rightarrow> bool" where
  "isGitTransportFailureError err =
     (case err of None \<Rightarrow> False | Some e \<Rightarrow> starts_with ''git_transport_failed:'' e)"

definition formatMaxFailureRetrySuppression :: "run_record option \<Rightarrow> int \<Rightarrow> int \<Rightarrow> string option \<Rightarrow> string" where
  "formatMaxFailureRetrySuppression run failureRetryCount maxFailureRetries detail =
     (let suppressionDetail = join '' ''
            ([''Run suppressed: '' @ MAX_FAILURE_RETRIES_EXCEEDED_REASON @ ''.'',
              ''failureRetryCount='' @ int_text failureRetryCount @ ''.'',
              ''maxFailureRetries='' @ int_text maxFailureRetries @ ''.'',
              FAILURE_RETRY_REARM_HINT] @ (case detail of None \<Rightarrow> [] | Some d \<Rightarrow> [d]))
      in case run of
           None \<Rightarrow> suppressionDetail
         | Some r \<Rightarrow>
             if isGitTransportFailureError (rn_lastError r)
             then getOr (rn_lastError r) [] @ '' ('' @ suppressionDetail @ '')''
             else suppressionDetail)"

section \<open>Capacity\<close>

text \<open>A record that holds a worker slot.\<close>

definition holds_slot :: "issue_orch \<Rightarrow> bool" where
  "holds_slot r \<longleftrightarrow>
     isIssueOrchestrationClaimedState (io_state r) \<and> (io_state r \<noteq> RetryQueued \<or> io_currentRunId r \<noteq> None)"

definition currentlyActive :: "issue_orch list \<Rightarrow> nat" where
  "currentlyActive issueRecords = length (filter holds_slot issueRecords)"

definition availableSlots :: "int \<Rightarrow> issue_orch list \<Rightarrow> int" where
  "availableSlots concurrency issueRecords = max 0 (concurrency - int (currentlyActive issueRecords))"

text \<open>The slot test when a due retry fires; due reservations themselves are not counted.\<close>

definition hasRetryDispatchSlot :: "int \<Rightarrow> string \<Rightarrow> issue_orch list \<Rightarrow> int \<Rightarrow> bool" where
  "hasRetryDispatchSlot concurrency runId issueRecords now =
     (let claimed = length (filter (\<lambda>r. holds_slot r \<and> \<not> isDueRetryReservation r now) issueRecords);
          retryAlreadyClaimsSlot = list_ex (\<lambda>r. io_currentRunId r = Some runId \<and>
             isIssueOrchestrationClaimedState (io_state r) \<and> \<not> isDueRetryReservation r now) issueRecords
      in int claimed + (if retryAlreadyClaimsSlot then 0 else 1) \<le> concurrency)"

section \<open>Unscheduled candidates\<close>

definition already_scheduled :: "issue_orch list \<Rightarrow> tracked_issue \<Rightarrow> bool" where
  "already_scheduled issueRecords issue = list_ex (\<lambda>r. io_issueId r = ti_id issue \<and> holds_slot r) issueRecords"

text \<open>The candidates that remain, and the expired convergence locks met on the way.\<close>

fun unscheduledCandidates ::
  "run_record list \<Rightarrow> issue_orch list \<Rightarrow> int \<Rightarrow> int \<Rightarrow> tracked_issue list \<Rightarrow>
     (tracked_issue list \<times> (string \<times> run_record) list) result" where
  "unscheduledCandidates runs issueRecords now ttlMs [] = Inr ([], [])"
| "unscheduledCandidates runs issueRecords now ttlMs (issue # issues) =
     rbind (getConvergenceLockStatus runs (ti_id issue) (ti_state issue) (ti_updatedAt issue) now ttlMs) (\<lambda>lock.
     rbind (unscheduledCandidates runs issueRecords now ttlMs issues) (\<lambda>(kept, expired).
       let expired' = (case lk_run lock of
                         Some r \<Rightarrow> if lk_expired lock then (ti_id issue, r) # expired else expired
                       | None \<Rightarrow> expired)
       in if \<not> lk_expired lock \<and> lk_run lock \<noteq> None then Inr (kept, expired')
          else if already_scheduled issueRecords issue then Inr (kept, expired')
          else Inr (issue # kept, expired')))"

fun activeByState_of :: "run_record list \<Rightarrow> (string \<Rightarrow> nat)" where
  "activeByState_of [] = (\<lambda>_. 0)"
| "activeByState_of (run # runs) =
     (let m = activeByState_of runs; s = normalizeWorkflowState (rn_issueState run) in m(s := Suc (m s)))"

section \<open>The dispatch loop\<close>

text \<open>
  \<open>startRun\<close>: it calls \<open>onPrepared\<close> with the run before it spawns the worker, then returns
  the run, or throws before or after that call.
\<close>

datatype start_outcome =
    Started run_record
  | CredentialMissing string
  | StartThrew "run_record option" bool string

record dispatch_env =
  de_now :: int
  de_maxFailureRetries :: "tracked_issue \<Rightarrow> int"
  de_retryPolicy :: "tracked_issue \<Rightarrow> retry_policy option"
  de_backoffMs :: int
  de_stateLimit :: "string \<Rightarrow> int option"
  de_latestRun :: "string \<Rightarrow> run_record option"
  de_shuttingDown :: "tracked_issue \<Rightarrow> bool"
  de_preferredKey :: "tracked_issue \<Rightarrow> string"
  de_workspaceKey :: "tracked_issue \<Rightarrow> string option"
  de_expiredLock :: "string \<Rightarrow> run_record option"
  de_lockEventLogged :: "string \<Rightarrow> bool"
  de_start :: "tracked_issue \<Rightarrow> int option \<Rightarrow> start_outcome"

datatype effect =
    SaveRecords "issue_orch list"
  | SaveRun run_record
  | RunEvent string string
  | PublishBranch string
  | SignalRun string
  | CleanupWorkspace string

record dispatch_state =
  ds_records :: "issue_orch list"
  ds_slots :: int
  ds_activeByState :: "string \<Rightarrow> nat"
  ds_dispatched :: nat
  ds_skipped :: nat
  ds_lastError :: "string option"
  ds_warnings :: "string list"
  ds_started :: "(tracked_issue \<times> run_record) list"
  ds_effects :: "effect list"

definition put_records :: "dispatch_state \<Rightarrow> issue_orch list \<Rightarrow> dispatch_state" where
  "put_records st rs = st\<lparr>ds_records := rs, ds_effects := ds_effects st @ [SaveRecords rs]\<rparr>"

definition add_effect :: "effect \<Rightarrow> dispatch_state \<Rightarrow> dispatch_state" where
  "add_effect fx st = st\<lparr>ds_effects := ds_effects st @ [fx]\<rparr>"

text \<open>Whether the loop passes the issue over, with the error it notes.\<close>

datatype gate = GateReady | GatePass | GateInvalidDueAt string

definition candidate_gate :: "dispatch_env \<Rightarrow> dispatch_state \<Rightarrow> tracked_issue \<Rightarrow> gate" where
  "candidate_gate env st issue =
     (let existing = record_for_issue (ds_records st) issue;
          entry = (case existing of None \<Rightarrow> None | Some r \<Rightarrow> io_retryEntry r);
          timing = (case entry of
                      None \<Rightarrow> GateReady
                    | Some e \<Rightarrow>
                        (case parseTimestampMs (Some (re_dueAt e)) of
                           None \<Rightarrow> GateInvalidDueAt (re_dueAt e)
                         | Some t \<Rightarrow> if de_now env < t then GatePass else GateReady));
          normalizedState = normalizeWorkflowState (ti_state issue)
      in if timing \<noteq> GateReady then timing
         else if isFailureRetrySuppressedIssue (de_maxFailureRetries env issue) issue (ds_records st)
                   (de_latestRun env (ti_id issue)) then GatePass
         else case de_stateLimit env normalizedState of
                None \<Rightarrow> GateReady
              | Some limit \<Rightarrow>
                  if limit \<le> int (ds_activeByState st normalizedState) then GatePass else GateReady)"

definition claim_update :: "dispatch_env \<Rightarrow> string \<Rightarrow> tracked_issue \<Rightarrow> issue_orch option \<Rightarrow> string \<Rightarrow> orch_update" where
  "claim_update env nowText issue existing key =
     (let rearmed = isFailureRetryRearmedIssue issue existing (de_latestRun env (ti_id issue))
      in \<lparr>ou_issueId = ti_id issue, ou_identifier = ti_identifier issue, ou_workspaceKey = key,
          ou_completedOnce = None,
          ou_failureRetryCount =
            Some (if rearmed then 0 else getOr (map_option io_failureRetryCount existing) 0),
          ou_failureRetrySuppressedState =
            Some (if rearmed then None
                  else case existing of None \<Rightarrow> None | Some r \<Rightarrow> getOr (io_failureRetrySuppressedState r) None),
          ou_state = (if map_option io_state existing = Some RetryQueued then RetryQueued else Claimed),
          ou_currentRunId = None, ou_retryEntry = None, ou_updatedAt = nowText\<rparr>)"

definition running_update :: "string \<Rightarrow> run_record \<Rightarrow> string \<Rightarrow> orch_update" where
  "running_update nowText run preferredKey =
     \<lparr>ou_issueId = rn_issueId run, ou_identifier = rn_issueIdentifier run,
      ou_workspaceKey = getOr (rn_issueWorkspaceKey run) preferredKey, ou_completedOnce = None,
      ou_failureRetryCount = None, ou_failureRetrySuppressedState = None, ou_state = Running,
      ou_currentRunId = Some (rn_runId run), ou_retryEntry = None, ou_updatedAt = nowText\<rparr>"

definition unstarted_update ::
  "string \<Rightarrow> tracked_issue \<Rightarrow> string \<Rightarrow> int option \<Rightarrow> string option option \<Rightarrow> bool \<Rightarrow> retry_entry option \<Rightarrow> orch_update" where
  "unstarted_update nowText issue key failures suppressedState queued entry =
     \<lparr>ou_issueId = ti_id issue, ou_identifier = ti_identifier issue, ou_workspaceKey = key,
      ou_completedOnce = None, ou_failureRetryCount = failures,
      ou_failureRetrySuppressedState = suppressedState,
      ou_state = (if queued then RetryQueued else Released), ou_currentRunId = None,
      ou_retryEntry = entry, ou_updatedAt = nowText\<rparr>"

definition prepare_run :: "dispatch_env \<Rightarrow> string \<Rightarrow> tracked_issue \<Rightarrow> run_record \<Rightarrow> dispatch_state \<Rightarrow> dispatch_state result" where
  "prepare_run env nowText issue candidate st =
     rbind (upsertIssueOrchestration (ds_records st) (running_update nowText candidate (de_preferredKey env issue)))
       (\<lambda>rs. Inr (put_records (add_effect (SaveRun candidate) st) rs))"

definition finish_started :: "dispatch_env \<Rightarrow> string \<Rightarrow> tracked_issue \<Rightarrow> run_record \<Rightarrow> dispatch_state \<Rightarrow> dispatch_state result" where
  "finish_started env nowText issue run st =
     rbind (prepare_run env nowText issue run st) (\<lambda>st1.
     rbind (upsertIssueOrchestration (ds_records st1) (running_update nowText run (de_preferredKey env issue))) (\<lambda>rs.
       let normalizedState = normalizeWorkflowState (ti_state issue);
           st2 = put_records (add_effect (SaveRun run) st1) rs;
           st3 = add_effect (RunEvent (rn_runId run) ''run-dispatched'')
                   (add_effect (RunEvent (rn_runId run) ''tracker.list'') st2)
       in Inr (st3\<lparr>ds_dispatched := Suc (ds_dispatched st3), ds_slots := ds_slots st3 - 1,
                   ds_started := ds_started st3 @ [(issue, run)],
                   ds_activeByState := (ds_activeByState st3)
                     (normalizedState := Suc (ds_activeByState st3 normalizedState))\<rparr>)))"

definition finish_credential ::
  "string \<Rightarrow> tracked_issue \<Rightarrow> issue_orch option \<Rightarrow> string \<Rightarrow> string \<Rightarrow> dispatch_state \<Rightarrow> dispatch_state result" where
  "finish_credential nowText issue existing key warning st =
     (let entry = (case existing of None \<Rightarrow> None | Some r \<Rightarrow> io_retryEntry r)
      in rbind (upsertIssueOrchestration (ds_records st)
                  (unstarted_update nowText issue key None None (entry \<noteq> None) entry))
           (\<lambda>rs. Inr (put_records (st\<lparr>ds_warnings := ds_warnings st @ [warning],
                                      ds_skipped := Suc (ds_skipped st)\<rparr>) rs)))"

definition finish_threw ::
  "dispatch_env \<Rightarrow> string \<Rightarrow> tracked_issue \<Rightarrow> issue_orch option \<Rightarrow> string \<Rightarrow> run_record option \<Rightarrow> bool \<Rightarrow> string \<Rightarrow>
     dispatch_state \<Rightarrow> dispatch_state result" where
  "finish_threw env nowText issue existing key prepared nonRetryable errorDetail st =
     (let errorMessage = ''Worker spawn failed: '' @ errorDetail;
          entry = (case existing of None \<Rightarrow> None | Some r \<Rightarrow> io_retryEntry r);
          retryAttempt = getOr (map_option re_attempt entry) 0 + 1;
          maxFailureRetries = de_maxFailureRetries env issue;
          priorFailureRetryCount =
            (case existing of Some r \<Rightarrow> if entry \<noteq> None then io_failureRetryCount r else 0 | None \<Rightarrow> 0);
          failureRetryCount = (if nonRetryable then maxFailureRetries else priorFailureRetryCount + 1);
          retrySuppressed = (maxFailureRetries \<le> failureRetryCount);
          suppressionError = formatMaxFailureRetrySuppression (de_latestRun env (ti_id issue)) failureRetryCount
                               maxFailureRetries (Some errorMessage);
          st1 = st\<lparr>ds_lastError := Some errorMessage\<rparr>;
          st2 = (case prepared of
                   None \<Rightarrow> st1
                 | Some run \<Rightarrow> add_effect (SaveRun (run\<lparr>
                       rn_status := if retrySuppressed then RunSuppressed else RunFailed,
                       rn_completedAt := Some nowText, rn_updatedAt := nowText,
                       rn_lastError := Some (if retrySuppressed then suppressionError else errorMessage)\<rparr>)) st1)
      in rbind (if retrySuppressed then Inr None
                else rbind (toISOString (failure_time (de_now env) retryAttempt (de_retryPolicy env issue)
                                           (de_backoffMs env))) (\<lambda>t. Inr (Some t))) (\<lambda>retryDueAt.
         rbind (upsertIssueOrchestration (ds_records st2)
                  (unstarted_update nowText issue key (Some failureRetryCount)
                     (Some (if retrySuppressed then Some (ti_state issue)
                            else case existing of None \<Rightarrow> None
                                 | Some r \<Rightarrow> getOr (io_failureRetrySuppressedState r) None))
                     (\<not> retrySuppressed)
                     (map_option (\<lambda>dueAt. \<lparr>re_attempt = retryAttempt, re_dueAt = dueAt,
                                            re_error = Some errorMessage\<rparr>) retryDueAt)))
           (\<lambda>rs. Inr (put_records st2 rs))))"

definition lock_event :: "dispatch_env \<Rightarrow> tracked_issue \<Rightarrow> dispatch_state \<Rightarrow> dispatch_state" where
  "lock_event env issue st =
     (case de_expiredLock env (ti_id issue) of
        None \<Rightarrow> st
      | Some r \<Rightarrow>
          if de_lockEventLogged env (rn_runId r) then st
          else add_effect (RunEvent (rn_runId r) ''convergence-lock-expired'') st)"

definition dispatch_candidate :: "dispatch_env \<Rightarrow> tracked_issue \<Rightarrow> dispatch_state \<Rightarrow> dispatch_state result" where
  "dispatch_candidate env issue st =
     (case candidate_gate env st issue of
        GatePass \<Rightarrow> Inr st
      | GateInvalidDueAt dueAt \<Rightarrow>
          Inr (st\<lparr>ds_lastError := Some (''Invalid retry dueAt for '' @ ti_identifier issue @ '': '' @ dueAt)\<rparr>)
      | GateReady \<Rightarrow>
          let existing = record_for_issue (ds_records st) issue;
              entry = (case existing of None \<Rightarrow> None | Some r \<Rightarrow> io_retryEntry r);
              key = getOr (orElse (de_workspaceKey env issue) (map_option io_workspaceKey existing))
                      (de_preferredKey env issue)
          in rbind (toISOString (de_now env)) (\<lambda>nowText.
             rbind (upsertIssueOrchestration (ds_records st) (claim_update env nowText issue existing key)) (\<lambda>rs.
               let st1 = put_records (lock_event env issue st) rs
               in case de_start env issue (map_option re_attempt entry) of
                    Started run \<Rightarrow> finish_started env nowText issue run st1
                  | CredentialMissing warning \<Rightarrow> finish_credential nowText issue existing key warning st1
                  | StartThrew prepared nonRetryable detail \<Rightarrow>
                      rbind (case prepared of None \<Rightarrow> Inr st1 | Some run \<Rightarrow> prepare_run env nowText issue run st1)
                        (\<lambda>st2. finish_threw env nowText issue existing key prepared nonRetryable detail st2))))"

fun dispatch_loop :: "dispatch_env \<Rightarrow> tracked_issue list \<Rightarrow> dispatch_state \<Rightarrow> dispatch_state result" where
  "dispatch_loop env [] st = Inr st"
| "dispatch_loop env (issue # issues) st =
     (if de_shuttingDown env issue then Inr st
      else if ds_slots st \<le> 0 then Inr st
      else rbind (dispatch_candidate env issue st) (\<lambda>st'. dispatch_loop env issues st'))"

definition dispatch_phase ::
  "dispatch_env \<Rightarrow> (string \<Rightarrow> string \<Rightarrow> int) \<Rightarrow> int \<Rightarrow> int \<Rightarrow> run_record list \<Rightarrow> run_record list \<Rightarrow>
     issue_orch list \<Rightarrow> tracked_issue list \<Rightarrow> dispatch_state result" where
  "dispatch_phase env localeCompare concurrency ttlMs runs activeRuns issueRecords actionable =
     rbind (unscheduledCandidates runs issueRecords (de_now env) ttlMs actionable) (\<lambda>(candidates, expired).
       dispatch_loop
         (env\<lparr>de_latestRun := buildLatestRunMapByIssueId runs, de_expiredLock := map_of (rev expired)\<rparr>)
         (sortCandidatesForDispatch localeCompare candidates)
         \<lparr>ds_records = issueRecords, ds_slots = availableSlots concurrency issueRecords,
          ds_activeByState = activeByState_of activeRuns, ds_dispatched = 0, ds_skipped = 0,
          ds_lastError = None, ds_warnings = [], ds_started = [], ds_effects = []\<rparr>)"

section \<open>Slots as a set of issues\<close>

definition slot_issues :: "issue_orch list \<Rightarrow> string set" where
  "slot_issues rs = io_issueId ` set (filter holds_slot rs)"

lemma card_slot_issues: "store_ok rs \<Longrightarrow> card (slot_issues rs) = currentlyActive rs"
proof -
  assume "store_ok rs"
  then have "distinct (map io_issueId (filter holds_slot rs))"
    by (auto simp: store_ok_def distinct_map inj_on_def)
  from distinct_card [OF this] show ?thesis by (simp add: slot_issues_def currentlyActive_def)
qed

lemma store_ok_find: "store_ok rs \<Longrightarrow> r \<in> set rs \<Longrightarrow> find_record rs (io_issueId r) = Some r"
  by (induction rs) (auto simp: store_ok_def find_record_def)

lemma slot_issues_iff:
  "store_ok rs \<Longrightarrow> i \<in> slot_issues rs \<longleftrightarrow> (\<exists>r. find_record rs i = Some r \<and> holds_slot r)"
  by (auto simp: slot_issues_def store_ok_find dest: find_record_Some_id)

lemma finite_slot_issues [simp]: "finite (slot_issues rs)"
  by (simp add: slot_issues_def)

lemma upsert_slot_issues:
  assumes "upsertIssueOrchestration rs u = Inr rs'" and "store_ok rs"
  shows "slot_issues rs' \<subseteq> (if ou_state u \<in> {Claimed, Running} \<or> ou_state u = RetryQueued \<and> ou_currentRunId u \<noteq> None
           then insert (ou_issueId u) (slot_issues rs) else slot_issues rs - {ou_issueId u})"
proof
  fix i
  assume "i \<in> slot_issues rs'"
  with records.write_valid [OF assms] obtain r where r: "find_record rs' i = Some r" "holds_slot r"
    by (auto simp: slot_issues_iff)
  show "i \<in> (if ou_state u \<in> {Claimed, Running} \<or> ou_state u = RetryQueued \<and> ou_currentRunId u \<noteq> None
           then insert (ou_issueId u) (slot_issues rs) else slot_issues rs - {ou_issueId u})"
  proof (cases "i = ou_issueId u")
    case True
    with r(1) records.write_look [OF assms(1), of i]
    have "r = merged_record (find_record rs i) u" by (simp add: Let_def)
    with r(2) True show ?thesis
      by (auto simp: holds_slot_def merged_record_def split: if_splits)
  next
    case False
    with r records.write_look [OF assms(1), of i] assms(2) show ?thesis by (auto simp: slot_issues_iff)
  qed
qed

section \<open>One candidate\<close>

definition start_coherent :: "dispatch_env \<Rightarrow> bool" where
  "start_coherent env \<longleftrightarrow>
     (\<forall>issue attempt run.
        (de_start env issue attempt = Started run \<or>
         (\<exists>n d. de_start env issue attempt = StartThrew (Some run) n d)) \<longrightarrow>
        rn_issueId run = ti_id issue \<and> rn_issueIdentifier run = ti_identifier issue)"

text \<open>The fields a step leaves alone unless it starts a run.\<close>

definition same_counters :: "dispatch_state \<Rightarrow> dispatch_state \<Rightarrow> bool" where
  "same_counters st st' \<longleftrightarrow>
     ds_slots st' = ds_slots st \<and> ds_dispatched st' = ds_dispatched st \<and>
     ds_activeByState st' = ds_activeByState st \<and> ds_started st' = ds_started st"

lemma put_records_simps [simp]:
  "ds_records (put_records st rs) = rs" "ds_slots (put_records st rs) = ds_slots st"
  "ds_dispatched (put_records st rs) = ds_dispatched st" "ds_started (put_records st rs) = ds_started st"
  "ds_activeByState (put_records st rs) = ds_activeByState st"
  by (simp_all add: put_records_def)

lemma add_effect_simps [simp]:
  "ds_records (add_effect fx st) = ds_records st" "ds_slots (add_effect fx st) = ds_slots st"
  "ds_dispatched (add_effect fx st) = ds_dispatched st" "ds_started (add_effect fx st) = ds_started st"
  "ds_activeByState (add_effect fx st) = ds_activeByState st"
  by (simp_all add: add_effect_def)

lemma lock_event_simps [simp]:
  "ds_records (lock_event env issue st) = ds_records st" "ds_slots (lock_event env issue st) = ds_slots st"
  "ds_dispatched (lock_event env issue st) = ds_dispatched st" "ds_started (lock_event env issue st) = ds_started st"
  "ds_activeByState (lock_event env issue st) = ds_activeByState st"
  by (simp_all add: lock_event_def split: option.splits)

lemma claim_update_simps [simp]: "ou_issueId (claim_update env t issue ex key) = ti_id issue"
  "ou_currentRunId (claim_update env t issue ex key) = None"
  by (simp_all add: claim_update_def Let_def)

lemma running_update_simps [simp]: "ou_issueId (running_update t run key) = rn_issueId run"
  "ou_state (running_update t run key) = Running" "ou_currentRunId (running_update t run key) = Some (rn_runId run)"
  by (simp_all add: running_update_def)

lemma unstarted_update_simps [simp]: "ou_issueId (unstarted_update t issue key f s q e) = ti_id issue"
  "ou_currentRunId (unstarted_update t issue key f s q e) = None"
  "ou_state (unstarted_update t issue key f s q e) = (if q then RetryQueued else Released)"
  by (simp_all add: unstarted_update_def)

text \<open>An issue that does not start holds no slot afterwards, whatever was written in between.\<close>

definition step_ok :: "string \<Rightarrow> dispatch_state \<Rightarrow> dispatch_state \<Rightarrow> bool" where
  "step_ok i st st' \<longleftrightarrow>
     same_counters st st' \<and> (store_ok (ds_records st) \<longrightarrow> store_ok (ds_records st') \<and>
       slot_issues (ds_records st') \<subseteq> insert i (slot_issues (ds_records st)))"

lemma step_ok_refl [simp]: "step_ok i st st"
  by (auto simp: step_ok_def same_counters_def)

lemma step_ok_trans: "step_ok i a b \<Longrightarrow> step_ok i b c \<Longrightarrow> step_ok i a c"
  by (auto simp: step_ok_def same_counters_def)

lemma put_step_ok:
  assumes "upsertIssueOrchestration (ds_records st) u = Inr rs" and "ou_issueId u = i"
    and "same_counters st st'" and "ds_records st' = rs"
  shows "step_ok i st st'"
  using assms upsert_slot_issues [OF assms(1)] records.write_valid [OF assms(1)]
  by (fastforce simp: step_ok_def split: if_splits)

lemma prepare_run_ok:
  "prepare_run env t issue run st = Inr st' \<Longrightarrow> rn_issueId run = i \<Longrightarrow> step_ok i st st'"
  by (auto simp: prepare_run_def rbind_Inr_iff same_counters_def intro!: put_step_ok)

lemma unstarted_no_slot:
  assumes "upsertIssueOrchestration rs (unstarted_update t issue key f s q e) = Inr rs'" and "store_ok rs"
  shows "ti_id issue \<notin> slot_issues rs'"
  using upsert_slot_issues [OF assms] by (auto split: if_splits)

lemma finish_credential_ok:
  assumes "finish_credential t issue ex key w st = Inr st'"
  shows "step_ok (ti_id issue) st st'" and "store_ok (ds_records st) \<Longrightarrow> ti_id issue \<notin> slot_issues (ds_records st')"
  using assms
  by (auto simp: finish_credential_def Let_def rbind_Inr_iff same_counters_def intro!: put_step_ok dest: unstarted_no_slot)

lemma finish_threw_ok:
  assumes "finish_threw env t issue ex key p n d st = Inr st'"
  shows "step_ok (ti_id issue) st st'" and "store_ok (ds_records st) \<Longrightarrow> ti_id issue \<notin> slot_issues (ds_records st')"
proof -
  obtain fx err f s q e rs where
    rs: "upsertIssueOrchestration (ds_records st) (unstarted_update t issue key f s q e) = Inr rs"
    and st': "ds_records st' = rs" "same_counters st st'"
    using assms
    by (cases p) (auto simp: finish_threw_def Let_def rbind_Inr_iff same_counters_def)
  from rs st' show "step_ok (ti_id issue) st st'" by (intro put_step_ok) auto
  from rs st' show "store_ok (ds_records st) \<Longrightarrow> ti_id issue \<notin> slot_issues (ds_records st')"
    by (auto dest: unstarted_no_slot)
qed

text \<open>The outcome of a candidate: passed over, not started, or started.\<close>

lemma dispatch_candidate_outcome:
  assumes step: "dispatch_candidate env issue st = Inr st'" and coh: "start_coherent env"
    and ok: "store_ok (ds_records st)"
  obtains (not_started) "same_counters st st'" "store_ok (ds_records st')"
      "slot_issues (ds_records st') \<subseteq> slot_issues (ds_records st)"
  | (started) run where "candidate_gate env st issue = GateReady" "store_ok (ds_records st')"
      "slot_issues (ds_records st') \<subseteq> insert (ti_id issue) (slot_issues (ds_records st))"
      "ds_slots st' = ds_slots st - 1" "ds_dispatched st' = Suc (ds_dispatched st)"
      "ds_started st' = ds_started st @ [(issue, run)]"
      "ds_activeByState st' = (ds_activeByState st)(normalizeWorkflowState (ti_state issue) :=
         Suc (ds_activeByState st (normalizeWorkflowState (ti_state issue))))"
proof (cases "candidate_gate env st issue")
  case GateReady
  let ?i = "ti_id issue"
  let ?ex = "record_for_issue (ds_records st) issue"
  let ?key = "getOr (orElse (de_workspaceKey env issue) (map_option io_workspaceKey ?ex)) (de_preferredKey env issue)"
  let ?att = "map_option re_attempt (case ?ex of None \<Rightarrow> None | Some r \<Rightarrow> io_retryEntry r)"
  obtain t rs where rs: "upsertIssueOrchestration (ds_records st) (claim_update env t issue ?ex ?key) = Inr rs"
    and fin: "(case de_start env issue ?att of
        Started run \<Rightarrow> finish_started env t issue run (put_records (lock_event env issue st) rs)
      | CredentialMissing w \<Rightarrow> finish_credential t issue ?ex ?key w (put_records (lock_event env issue st) rs)
      | StartThrew p n d \<Rightarrow>
          rbind (case p of None \<Rightarrow> Inr (put_records (lock_event env issue st) rs)
                 | Some run \<Rightarrow> prepare_run env t issue run (put_records (lock_event env issue st) rs))
            (\<lambda>st2. finish_threw env t issue ?ex ?key p n d st2)) = Inr st'"
    using step GateReady by (auto simp: dispatch_candidate_def Let_def rbind_Inr_iff)
  define st1 where "st1 = put_records (lock_event env issue st) rs"
  have st1: "step_ok ?i st st1"
    by (rule put_step_ok [OF rs]) (simp_all add: st1_def same_counters_def)
  have gone: thesis if "step_ok ?i st1 st2" "step_ok ?i st2 st'" "store_ok (ds_records st2) \<Longrightarrow> ?i \<notin> slot_issues (ds_records st')" for st2
  proof -
    have all: "step_ok ?i st st2" "step_ok ?i st st'" using that st1 step_ok_trans by blast+
    with ok that(3) have "?i \<notin> slot_issues (ds_records st')" by (simp add: step_ok_def)
    with all(2) ok show thesis by (intro not_started) (auto simp: step_ok_def)
  qed
  show ?thesis
  proof (cases "de_start env issue ?att")
    case (Started run)
    with coh have run: "rn_issueId run = ?i" by (auto simp: start_coherent_def)
    obtain st2 rs2 where st2: "prepare_run env t issue run st1 = Inr st2"
      and rs2: "upsertIssueOrchestration (ds_records st2) (running_update t run (de_preferredKey env issue)) = Inr rs2"
      and st': "ds_records st' = rs2" "ds_slots st' = ds_slots st2 - 1" "ds_dispatched st' = Suc (ds_dispatched st2)"
        "ds_started st' = ds_started st2 @ [(issue, run)]"
        "ds_activeByState st' = (ds_activeByState st2)(normalizeWorkflowState (ti_state issue) :=
           Suc (ds_activeByState st2 (normalizeWorkflowState (ti_state issue))))"
      using fin Started by (auto simp: finish_started_def Let_def rbind_Inr_iff st1_def)
    have ok2: "step_ok ?i st st2" using st1 prepare_run_ok [OF st2 run] by (rule step_ok_trans)
    have put: "step_ok ?i st2 (put_records st2 rs2)"
      by (rule put_step_ok [OF rs2]) (simp_all add: run same_counters_def)
    from ok2 have "same_counters st st2" by (simp add: step_ok_def)
    moreover from step_ok_trans [OF ok2 put] have "step_ok ?i st (put_records st2 rs2)" .
    ultimately have "step_ok ?i st (put_records st2 rs2)" "same_counters st st2" by simp_all
    with ok st' GateReady show ?thesis
      by (intro started [of run]) (auto simp: step_ok_def same_counters_def)
  next
    case (CredentialMissing w)
    with fin have "finish_credential t issue ?ex ?key w st1 = Inr st'" by (simp add: st1_def)
    from gone [of st1] finish_credential_ok [OF this] show ?thesis by simp
  next
    case (StartThrew p n d)
    with fin obtain st2 where st2: "(case p of None \<Rightarrow> Inr st1 | Some run \<Rightarrow> prepare_run env t issue run st1) = Inr st2"
      and thr: "finish_threw env t issue ?ex ?key p n d st2 = Inr st'"
      unfolding st1_def by (simp add: rbind_Inr_iff) blast
    have "step_ok ?i st1 st2"
    proof (cases p)
      case None
      with st2 show ?thesis by simp
    next
      case (Some run)
      with coh StartThrew have "rn_issueId run = ?i" unfolding start_coherent_def by blast
      with st2 Some show ?thesis by (simp add: prepare_run_ok)
    qed
    from gone [OF this] finish_threw_ok [OF thr] show ?thesis by simp
  qed
next
  case GatePass
  with step ok show ?thesis by (intro not_started) (auto simp: dispatch_candidate_def same_counters_def)
next
  case (GateInvalidDueAt e)
  with step ok show ?thesis by (intro not_started) (auto simp: dispatch_candidate_def same_counters_def)
qed
section \<open>The whole loop\<close>

text \<open>The issues started by the loop for the state \<open>s\<close>.\<close>

definition started_in :: "string \<Rightarrow> (tracked_issue \<times> run_record) list \<Rightarrow> nat" where
  "started_in s xs = length (filter (\<lambda>p. normalizeWorkflowState (ti_state (fst p)) = s) xs)"

definition loop_ok :: "dispatch_env \<Rightarrow> tracked_issue list \<Rightarrow> dispatch_state \<Rightarrow> dispatch_state \<Rightarrow> bool" where
  "loop_ok env issues st st' \<longleftrightarrow>
     store_ok (ds_records st') \<and> 0 \<le> ds_slots st' \<and>
     (\<exists>new. ds_started st' = ds_started st @ new \<and> subseq (map fst new) issues \<and>
        ds_slots st' = ds_slots st - int (length new) \<and>
        ds_dispatched st' = ds_dispatched st + length new \<and>
        slot_issues (ds_records st') \<subseteq> slot_issues (ds_records st) \<union> ti_id ` fst ` set new \<and>
        (\<forall>s. ds_activeByState st' s = ds_activeByState st s + started_in s new \<and>
             (\<forall>limit. de_stateLimit env s = Some limit \<longrightarrow>
                int (ds_activeByState st' s) \<le> max (int (ds_activeByState st s)) limit)))"

lemma loop_ok_refl: "store_ok (ds_records st) \<Longrightarrow> 0 \<le> ds_slots st \<Longrightarrow> loop_ok env issues st st"
  by (auto simp: loop_ok_def started_in_def intro!: exI [of _ "[]"])

lemma gate_state_limit:
  "candidate_gate env st issue = GateReady \<Longrightarrow>
   de_stateLimit env (normalizeWorkflowState (ti_state issue)) = Some limit \<Longrightarrow>
   int (ds_activeByState st (normalizeWorkflowState (ti_state issue))) < limit"
  by (simp add: candidate_gate_def Let_def split: if_splits)

lemma loop_ok_skip:
  assumes "loop_ok env issues st1 st'" and "same_counters st st1"
    and "slot_issues (ds_records st1) \<subseteq> slot_issues (ds_records st)"
  shows "loop_ok env (issue # issues) st st'"
  using assms unfolding loop_ok_def same_counters_def by (fastforce intro: list_emb_Cons)

lemma loop_ok_started:
  assumes "loop_ok env issues st1 st'" and gate: "candidate_gate env st issue = GateReady"
    and "slot_issues (ds_records st1) \<subseteq> insert (ti_id issue) (slot_issues (ds_records st))"
    and "ds_slots st1 = ds_slots st - 1" and "ds_dispatched st1 = Suc (ds_dispatched st)"
    and "ds_started st1 = ds_started st @ [(issue, run)]"
    and active: "ds_activeByState st1 = (ds_activeByState st)(normalizeWorkflowState (ti_state issue) :=
         Suc (ds_activeByState st (normalizeWorkflowState (ti_state issue))))"
  shows "loop_ok env (issue # issues) st st'"
proof -
  from assms(1) obtain new where new: "ds_started st' = ds_started st1 @ new" "subseq (map fst new) issues"
      "ds_slots st' = ds_slots st1 - int (length new)" "ds_dispatched st' = ds_dispatched st1 + length new"
      "slot_issues (ds_records st') \<subseteq> slot_issues (ds_records st1) \<union> ti_id ` fst ` set new"
    and act: "\<And>s. ds_activeByState st' s = ds_activeByState st1 s + started_in s new"
    and lim: "\<And>s limit. de_stateLimit env s = Some limit \<Longrightarrow>
        int (ds_activeByState st' s) \<le> max (int (ds_activeByState st1 s)) limit"
    and rest: "store_ok (ds_records st')" "0 \<le> ds_slots st'"
    unfolding loop_ok_def by blast
  have "int (ds_activeByState st' s) \<le> max (int (ds_activeByState st s)) limit"
    if "de_stateLimit env s = Some limit" for s limit
    using lim [OF that] gate_state_limit [OF gate, of limit] that active by (auto split: if_splits)
  moreover have "ds_activeByState st' s = ds_activeByState st s + started_in s ((issue, run) # new)" for s
    using act [of s] active by (simp add: started_in_def)
  ultimately show ?thesis using new rest assms(3-6)
    unfolding loop_ok_def by (intro conjI exI [of _ "(issue, run) # new"]) auto
qed

lemma dispatch_loop_ok:
  "dispatch_loop env issues st = Inr st' \<Longrightarrow> start_coherent env \<Longrightarrow> store_ok (ds_records st) \<Longrightarrow>
   0 \<le> ds_slots st \<Longrightarrow> loop_ok env issues st st'"
proof (induction issues arbitrary: st)
  case Nil
  then show ?case by (simp add: loop_ok_refl)
next
  case (Cons issue issues)
  show ?case
  proof (cases "de_shuttingDown env issue \<or> ds_slots st \<le> 0")
    case True
    with Cons.prems show ?thesis by (auto simp: loop_ok_refl split: if_splits)
  next
    case False
    with Cons.prems(1) obtain st1 where
      st1: "dispatch_candidate env issue st = Inr st1" and rest: "dispatch_loop env issues st1 = Inr st'"
      by (auto simp: rbind_Inr_iff)
    from st1 Cons.prems(2,3) show ?thesis
    proof (cases rule: dispatch_candidate_outcome)
      case not_started
      from not_started(1) False have "0 \<le> ds_slots st1" by (simp add: same_counters_def)
      with Cons.IH [OF rest Cons.prems(2) not_started(2)] have "loop_ok env issues st1 st'" .
      from loop_ok_skip [OF this not_started(1,3)] show ?thesis .
    next
      case (started run)
      from started(4) False have "0 \<le> ds_slots st1" by simp
      with Cons.IH [OF rest Cons.prems(2) started(2)] have "loop_ok env issues st1 st'" .
      from loop_ok_started [OF this started(1,3-7)] show ?thesis .
    qed
  qed
qed
section \<open>The phase\<close>

lemma unscheduled_kept:
  "unscheduledCandidates runs recs now ttl issues = Inr (kept, expired) \<Longrightarrow>
   subseq kept issues \<and>
   (\<forall>i \<in> set kept. ti_id i \<notin> slot_issues recs \<and>
      (\<exists>lock. getConvergenceLockStatus runs (ti_id i) (ti_state i) (ti_updatedAt i) now ttl = Inr lock \<and>
              (lk_run lock = None \<or> lk_expired lock)))"
proof (induction issues arbitrary: kept expired)
  case (Cons issue issues)
  from Cons.prems obtain lock kept' expired' where
    lock: "getConvergenceLockStatus runs (ti_id issue) (ti_state issue) (ti_updatedAt issue) now ttl = Inr lock"
    and rest: "unscheduledCandidates runs recs now ttl issues = Inr (kept', expired')"
    by (auto simp: rbind_Inr_iff)
  show ?case
  proof (cases "(\<not> lk_expired lock \<and> lk_run lock \<noteq> None) \<or> already_scheduled recs issue")
    case True
    with Cons.prems lock rest have "kept = kept'" by (auto simp: Let_def split: if_splits)
    with Cons.IH [OF rest] show ?thesis by (simp add: list_emb_Cons)
  next
    case False
    with Cons.prems lock rest have "kept = issue # kept'" by (auto simp: Let_def split: if_splits)
    moreover from False have "ti_id issue \<notin> slot_issues recs"
      by (auto simp: already_scheduled_def list_ex_iff slot_issues_def)
    ultimately show ?thesis using Cons.IH [OF rest] False lock by auto
  qed
qed simp

definition initial_state :: "int \<Rightarrow> run_record list \<Rightarrow> issue_orch list \<Rightarrow> dispatch_state" where
  "initial_state concurrency activeRuns issueRecords =
     \<lparr>ds_records = issueRecords, ds_slots = availableSlots concurrency issueRecords,
      ds_activeByState = activeByState_of activeRuns, ds_dispatched = 0, ds_skipped = 0,
      ds_lastError = None, ds_warnings = [], ds_started = [], ds_effects = []\<rparr>"

lemma initial_state_simps [simp]:
  "ds_records (initial_state c a rs) = rs" "ds_slots (initial_state c a rs) = availableSlots c rs"
  "ds_activeByState (initial_state c a rs) = activeByState_of a" "ds_dispatched (initial_state c a rs) = 0"
  "ds_started (initial_state c a rs) = []"
  by (simp_all add: initial_state_def)

lemma dispatch_phase_cases:
  assumes "dispatch_phase env lc c ttl runs activeRuns recs issues = Inr st" and "start_coherent env"
    and "store_ok recs"
  obtains kept expired env' where "unscheduledCandidates runs recs (de_now env) ttl issues = Inr (kept, expired)"
    and "loop_ok env' (sortCandidatesForDispatch lc kept) (initial_state c activeRuns recs) st"
    and "de_stateLimit env' = de_stateLimit env"
proof -
  from assms(1) obtain kept expired where
    kept: "unscheduledCandidates runs recs (de_now env) ttl issues = Inr (kept, expired)" and
    loop: "dispatch_loop (env\<lparr>de_latestRun := buildLatestRunMapByIssueId runs, de_expiredLock := map_of (rev expired)\<rparr>)
             (sortCandidatesForDispatch lc kept) (initial_state c activeRuns recs) = Inr st"
    by (auto simp: dispatch_phase_def rbind_Inr_iff initial_state_def)
  from assms(2) have "start_coherent (env\<lparr>de_latestRun := buildLatestRunMapByIssueId runs, de_expiredLock := map_of (rev expired)\<rparr>)"
    by (simp add: start_coherent_def)
  with dispatch_loop_ok [OF loop] assms(3)
  have "loop_ok (env\<lparr>de_latestRun := buildLatestRunMapByIssueId runs, de_expiredLock := map_of (rev expired)\<rparr>)
          (sortCandidatesForDispatch lc kept) (initial_state c activeRuns recs) st"
    by (simp add: availableSlots_def)
  with kept show thesis by (rule that) simp
qed


text \<open>
  C2. A dispatch phase never claims more slots than the project's concurrency (issues already
  active above it stay), every dispatched run uses exactly one slot, and the slots left never
  go below zero.
\<close>

theorem dispatch_respects_concurrency:
  assumes "dispatch_phase env lc c ttl runs activeRuns recs issues = Inr st"
    and "start_coherent env" and "store_ok recs"
  shows "int (currentlyActive (ds_records st)) \<le> max c (int (currentlyActive recs)) \<and>
     ds_slots st + int (ds_dispatched st) = availableSlots c recs \<and> 0 \<le> ds_slots st"
proof -
  from assms obtain kept expired env' where
    "loop_ok env' (sortCandidatesForDispatch lc kept) (initial_state c activeRuns recs) st"
    by (rule dispatch_phase_cases)
  then have new: "store_ok (ds_records st)" "0 \<le> ds_slots st"
      "ds_slots st = availableSlots c recs - int (length (ds_started st))" "ds_dispatched st = length (ds_started st)"
      "slot_issues (ds_records st) \<subseteq> slot_issues recs \<union> ti_id ` fst ` set (ds_started st)"
    unfolding loop_ok_def by simp_all
  let ?new = "ds_started st"
  have "card (slot_issues (ds_records st)) \<le> card (slot_issues recs \<union> ti_id ` fst ` set ?new)"
    using new(5) by (intro card_mono) auto
  also have "\<dots> \<le> card (slot_issues recs) + card (ti_id ` fst ` set ?new)" by (rule card_Un_le)
  also have "card (ti_id ` fst ` set ?new) \<le> length ?new"
    using card_image_le [of "set ?new" "ti_id \<circ> fst"] card_length [of ?new] by (simp add: image_comp)
  finally have "currentlyActive (ds_records st) \<le> currentlyActive recs + length ?new"
    using new(1) assms(3) by (simp add: card_slot_issues)
  with new(2,3,4) show ?thesis by (auto simp: availableSlots_def)
qed

text \<open>
  C10. A per-state limit holds through the whole phase: the runs counted for a state are those
  active before plus the issues started in it, and never exceed the limit unless they did before.
\<close>

theorem dispatch_respects_state_limits:
  assumes "dispatch_phase env lc c ttl runs activeRuns recs issues = Inr st"
    and "start_coherent env" and "store_ok recs" and "de_stateLimit env s = Some limit"
  shows "ds_activeByState st s = activeByState_of activeRuns s + started_in s (ds_started st) \<and>
         int (ds_activeByState st s) \<le> max (int (activeByState_of activeRuns s)) limit"
proof -
  from assms(1-3) obtain kept expired env' where
    loop: "loop_ok env' (sortCandidatesForDispatch lc kept) (initial_state c activeRuns recs) st"
    and "de_stateLimit env' = de_stateLimit env"
    by (rule dispatch_phase_cases)
  from loop have "ds_activeByState st s = activeByState_of activeRuns s + started_in s (ds_started st) \<and>
      (\<forall>limit. de_stateLimit env' s = Some limit \<longrightarrow>
         int (ds_activeByState st s) \<le> max (int (activeByState_of activeRuns s)) limit)"
    unfolding loop_ok_def initial_state_simps append_Nil by blast
  with assms(4) \<open>de_stateLimit env' = de_stateLimit env\<close> show ?thesis by metis
qed

text \<open>
  C9. The issues a phase starts are, in order, a subsequence of the sorted candidates; none of
  them held a slot before, and none was under a convergence lock that had not expired.
\<close>

theorem dispatch_order_and_filter:
  assumes "dispatch_phase env lc c ttl runs activeRuns recs issues = Inr st"
    and "start_coherent env" and "store_ok recs"
  shows "\<exists>kept. subseq kept issues \<and> subseq (map fst (ds_started st)) (sortCandidatesForDispatch lc kept) \<and>
     (\<forall>i \<in> fst ` set (ds_started st). ti_id i \<notin> slot_issues recs \<and>
        (\<exists>lock. getConvergenceLockStatus runs (ti_id i) (ti_state i) (ti_updatedAt i) (de_now env) ttl = Inr lock \<and>
                (lk_run lock = None \<or> lk_expired lock)))"
proof -
  from assms(1-3) obtain kept expired env' where
    kept: "unscheduledCandidates runs recs (de_now env) ttl issues = Inr (kept, expired)" and
    loop: "loop_ok env' (sortCandidatesForDispatch lc kept) (initial_state c activeRuns recs) st"
    by (rule dispatch_phase_cases)
  from loop have sub: "subseq (map fst (ds_started st)) (sortCandidatesForDispatch lc kept)"
    unfolding loop_ok_def by simp
  then have "fst ` set (ds_started st) \<subseteq> set kept"
    by (force simp: sortCandidatesForDispatch_def dest: list_emb_set)
  with unscheduled_kept [OF kept] sub show ?thesis by blast
qed

definition sample_dispatcher :: dispatch_env where
  "sample_dispatcher =
     \<lparr>de_now = 0, de_maxFailureRetries = (\<lambda>_. 3), de_retryPolicy = (\<lambda>_. None), de_backoffMs = 1000,
      de_stateLimit = (\<lambda>s. if s = ''todo'' then Some 1 else None), de_latestRun = (\<lambda>_. None),
      de_shuttingDown = (\<lambda>_. False), de_preferredKey = ti_identifier, de_workspaceKey = (\<lambda>_. None),
      de_expiredLock = (\<lambda>_. None), de_lockEventLogged = (\<lambda>_. False),
      de_start = (\<lambda>issue _. Started (sample_run issue))\<rparr>"
definition sample_phase :: "dispatch_state result" where
  "sample_phase = dispatch_phase sample_dispatcher (\<lambda>a b. sgn_cmp a b) 5 1000 [] [] [] [sample_issue ''b'', sample_issue ''a'']"

lemma sample_phase_value:
  "case sample_phase of Inr st \<Rightarrow> map (ti_id \<circ> fst) (ds_started st) = [''a''] \<and> ds_slots st = 4 \<and>
     ds_activeByState st ''todo'' = 1 | Inl _ \<Rightarrow> False"
  by code_simp

lemma sample_phase_runs:
  obtains st where "dispatch_phase sample_dispatcher sgn_cmp 5 1000 [] [] [] [sample_issue ''b'', sample_issue ''a''] = Inr st"
    "map (ti_id \<circ> fst) (ds_started st) = [''a'']" "ds_slots st = 4" "ds_activeByState st ''todo'' = 1"
  using sample_phase_value by (cases sample_phase) (auto simp: sample_phase_def)

lemma sample_dispatcher_coherent: "start_coherent sample_dispatcher" "store_ok []"
  by (auto simp: start_coherent_def sample_dispatcher_def sample_run_def store_ok_def)

lemma dispatch_respects_concurrency_witness:
  "\<exists>st. dispatch_phase sample_dispatcher sgn_cmp 5 1000 [] [] [] [sample_issue ''b'', sample_issue ''a''] = Inr st \<and>
     currentlyActive (ds_records st) \<le> 5 \<and> ds_slots st = 4 \<and> ds_dispatched st = 1"
proof -
  obtain st where st: "dispatch_phase sample_dispatcher sgn_cmp 5 1000 [] [] [] [sample_issue ''b'', sample_issue ''a''] = Inr st"
    "ds_slots st = 4" by (rule sample_phase_runs)
  from dispatch_respects_concurrency [OF st(1) sample_dispatcher_coherent] st show ?thesis
    by (simp add: currentlyActive_def availableSlots_def)
qed

lemma dispatch_respects_state_limits_witness:
  "\<exists>st. dispatch_phase sample_dispatcher sgn_cmp 5 1000 [] [] [] [sample_issue ''b'', sample_issue ''a''] = Inr st \<and>
     started_in ''todo'' (ds_started st) = 1"
proof -
  obtain st where st: "dispatch_phase sample_dispatcher sgn_cmp 5 1000 [] [] [] [sample_issue ''b'', sample_issue ''a''] = Inr st"
    "ds_activeByState st ''todo'' = 1" by (rule sample_phase_runs)
  have "de_stateLimit sample_dispatcher ''todo'' = Some 1" by (simp add: sample_dispatcher_def)
  from dispatch_respects_state_limits [OF st(1) sample_dispatcher_coherent this] st show ?thesis by simp
qed

lemma dispatch_order_and_filter_witness:
  "\<exists>st kept. dispatch_phase sample_dispatcher sgn_cmp 5 1000 [] [] [] [sample_issue ''b'', sample_issue ''a''] = Inr st \<and>
     map (ti_id \<circ> fst) (ds_started st) = [''a''] \<and> subseq (map fst (ds_started st)) (sortCandidatesForDispatch sgn_cmp kept)"
proof -
  obtain st where st: "dispatch_phase sample_dispatcher sgn_cmp 5 1000 [] [] [] [sample_issue ''b'', sample_issue ''a''] = Inr st"
    "map (ti_id \<circ> fst) (ds_started st) = [''a'']" by (rule sample_phase_runs)
  obtain kept where "subseq (map fst (ds_started st)) (sortCandidatesForDispatch sgn_cmp kept)"
    using dispatch_order_and_filter [OF st(1) sample_dispatcher_coherent] by auto
  with st show ?thesis by (intro exI [of _ st] exI [of _ kept]) simp
qed

end
