(* ===== verification/Reconcile.thy ===== *)
theory Reconcile
  imports Dispatch
begin

text \<open>
  Reconciliation of one active run: \<open>OrchestratorService.reconcileRun\<close> of
  \<open>packages/orchestrator/src/service.ts\<close> with the methods it calls (the retry restart
  decision, release, requeue, restart and its failure handler). What the code reads from the
  outside (processes, the tracker, the workflow file, the worker start, git) are the fields of
  \<open>reconcile_env\<close>; what it writes is the list of effects of the outcome.
\<close>

section \<open>Accounting of a run\<close>

definition nonempty :: "string option \<Rightarrow> bool" where
  "nonempty v \<longleftrightarrow> v \<noteq> None \<and> v \<noteq> Some []"

definition resolvePersistedCumulativeTurnCount :: "run_record \<Rightarrow> int" where
  "resolvePersistedCumulativeTurnCount run = getOr (orElse (rn_cumulativeTurnCount run) (rn_turnCount run)) 0"

definition resolveCumulativeRuntimeMs :: "run_record option \<Rightarrow> int" where
  "resolveCumulativeRuntimeMs run =
     (case run of
        None \<Rightarrow> 0
      | Some r \<Rightarrow>
          let accumulated = getOr (rn_cumulativeRuntimeMs r) 0
          in if \<not> nonempty (rn_startedAt r) then accumulated
             else case (parseTimestampMs (rn_startedAt r),
                        parseTimestampMs (orElse (rn_completedAt r) (Some (rn_updatedAt r)))) of
                    (Some startedAtMs, Some endedAtMs) \<Rightarrow> accumulated + max 0 (endedAtMs - startedAtMs)
                  | _ \<Rightarrow> accumulated)"

definition resolveCumulativeTurnCount :: "run_record \<Rightarrow> int option \<Rightarrow> int" where
  "resolveCumulativeTurnCount run turnCount =
     (let carriedTotal = resolvePersistedCumulativeTurnCount run
      in case turnCount of
           None \<Rightarrow> carriedTotal
         | Some n \<Rightarrow> max 0 (carriedTotal - getOr (rn_turnCount run) 0) + n)"

definition isTerminalTurnEvent :: "string option \<Rightarrow> bool" where
  "isTerminalTurnEvent event \<longleftrightarrow>
     event = Some ''turn/completed'' \<or> event = Some ''turn/failed'' \<or> event = Some ''turn/cancelled''"

definition trimmed :: "string option \<Rightarrow> string option" where
  "trimmed v = (case v of None \<Rightarrow> None | Some s \<Rightarrow> if js_trim s = [] then None else Some (js_trim s))"

definition resolveLastTurnSummaryCandidate :: "string option \<Rightarrow> string option \<Rightarrow> string option" where
  "resolveLastTurnSummaryCandidate event lastError =
     orElse (trimmed lastError) (if isTerminalTurnEvent event then event else None)"

definition resolveLastTurnSummary :: "string option \<Rightarrow> string option \<Rightarrow> string option" where
  "resolveLastTurnSummary existing candidate = orElse (trimmed candidate) existing"

definition isGitTransportFailure :: "run_record \<Rightarrow> bool" where
  "isGitTransportFailure run = isGitTransportFailureError (rn_lastError run)"

definition unpublishedGitWorkReason :: "run_record \<Rightarrow> string option" where
  "unpublishedGitWorkReason r =
     (if isGitTransportFailureError (rn_lastError r) then Some ''git_transport_failed''
      else if rn_unpublishedWorktree r then Some ''git_unpublished_worktree'' else None)"

definition hasUnpublishedGitWork :: "run_record \<Rightarrow> bool" where
  "hasUnpublishedGitWork run = (unpublishedGitWorkReason run \<noteq> None)"

section \<open>What the worker left\<close>

record worker_info =
  wi_threadId :: "string option"
  wi_turnCount :: "int option"
  wi_exit :: "session_exit option"
  wi_lastError :: "string option"
  wi_lastEvent :: "string option"
  wi_lastEventAt :: "string option"
  wi_runPhase :: "run_attempt_phase option"
  wi_exitCode :: "int option"
  wi_exitSignal :: "string option"

text \<open>The stored record, where there is one, and the exit code and signal seen by the host.\<close>

definition fetchWorkerRunInfo ::
  "run_record \<Rightarrow> run_record option \<Rightarrow> (int option \<times> string option) option \<Rightarrow> worker_info" where
  "fetchWorkerRunInfo run stored pendingExit =
     (let latestRun = getOr stored run;
          pendingCode = (case pendingExit of None \<Rightarrow> None | Some (c, _) \<Rightarrow> c);
          pendingSignal = (case pendingExit of None \<Rightarrow> None | Some (_, s) \<Rightarrow> s)
      in \<lparr>wi_threadId = orElse (rn_threadId latestRun) (rn_sessionThreadId latestRun),
          wi_turnCount = rn_turnCount latestRun, wi_exit = rn_exit latestRun,
          wi_lastError = rn_lastError latestRun, wi_lastEvent = rn_lastEvent latestRun,
          wi_lastEventAt = rn_lastEventAt latestRun, wi_runPhase = rn_runPhase latestRun,
          wi_exitCode = orElse pendingCode (rn_workerExitCode latestRun),
          wi_exitSignal = orElse pendingSignal (rn_workerExitSignal latestRun)\<rparr>)"

definition run_with_tokens :: "run_record \<Rightarrow> worker_info \<Rightarrow> run_record" where
  "run_with_tokens run wi =
     run\<lparr>rn_processId := None, rn_exit := wi_exit wi,
         rn_sessionThreadId := orElse (wi_threadId wi) (rn_sessionThreadId run),
         rn_threadId := orElse (wi_threadId wi) (rn_threadId run),
         rn_cumulativeTurnCount := Some (resolveCumulativeTurnCount run (wi_turnCount wi)),
         rn_lastEvent := orElse (wi_lastEvent wi) (rn_lastEvent run),
         rn_lastTurnSummary := resolveLastTurnSummary (rn_lastTurnSummary run)
           (resolveLastTurnSummaryCandidate (wi_lastEvent wi) (wi_lastError wi)),
         rn_lastEventAt := orElse (wi_lastEventAt wi) (rn_lastEventAt run),
         rn_runPhase := orElse (wi_runPhase wi) (rn_runPhase run),
         rn_workerExitCode := wi_exitCode wi, rn_workerExitSignal := wi_exitSignal wi,
         rn_lastError := orElse (wi_lastError wi) (orElse (rn_lastError run)
           (if nonempty (wi_exitSignal wi) then Some (''worker terminated by '' @ getOr (wi_exitSignal wi) [])
            else None))\<rparr>"

section \<open>Reading the tracker\<close>

datatype workflow_read = WfThrew string | WfUnusable | WfUsable workflow_lifecycle
datatype tracker_read = TrThrew string | TrIssues "tracked_issue list"

definition find_issue :: "tracked_issue list \<Rightarrow> string \<Rightarrow> tracked_issue option" where
  "find_issue issues subjectId = List.find (\<lambda>i. ti_id i = subjectId) issues"

datatype restart_action =
    Restart tracked_issue
  | ReleaseRetry "tracked_issue option" bool "string option"
  | RequeueRetry string

definition resolveRetryRestartAction :: "workflow_read \<Rightarrow> tracker_read \<Rightarrow> run_record \<Rightarrow> restart_action" where
  "resolveRetryRestartAction workflow tracker run =
     (case workflow of
        WfThrew e \<Rightarrow> RequeueRetry (''retry refresh failed: '' @ e)
      | WfUnusable \<Rightarrow> RequeueRetry ''retry refresh failed: workflow policy unavailable''
      | WfUsable lifecycle \<Rightarrow>
          (case tracker of
             TrThrew e \<Rightarrow> RequeueRetry (''retry refresh failed: '' @ e)
           | TrIssues issues \<Rightarrow>
               (case find_issue issues (rn_issueSubjectId run) of
                  None \<Rightarrow> ReleaseRetry None False None
                | Some issue \<Rightarrow>
                    if isStateTerminal (ti_state issue) lifecycle then ReleaseRetry (Some issue) True None
                    else case isIssueCandidateEligibleWithReason issue lifecycle of
                           (True, _) \<Rightarrow> Restart issue
                         | (False, reason) \<Rightarrow> ReleaseRetry (Some issue) False
                             (if reason = Some NotRoutable
                              then Some (''Retry canceled because the active tracker issue is not routable: '' @
                                getOr (rt_reason (issueRoutable issue lifecycle)) ''no reason was provided'')
                              else None))))"

definition classifyCurrentTrackerProgress ::
  "workflow_read \<Rightarrow> tracker_read \<Rightarrow> run_record \<Rightarrow> bool \<Rightarrow> final_progress" where
  "classifyCurrentTrackerProgress workflow tracker run requireMatchingTerminalState =
     (case workflow of
        WfThrew e \<Rightarrow> ProgressUnknown TrackerReadFailed
          (''Final tracker state unavailable: tracker read failed: '' @ e)
      | WfUnusable \<Rightarrow> ProgressUnknown WorkflowUnavailable
          ''Final tracker state unavailable: workflow policy could not be loaded.''
      | WfUsable lifecycle \<Rightarrow>
          (case tracker of
             TrThrew e \<Rightarrow> ProgressUnknown TrackerReadFailed
               (''Final tracker state unavailable: tracker read failed: '' @ e)
           | TrIssues issues \<Rightarrow>
               (case find_issue issues (rn_issueSubjectId run) of
                  None \<Rightarrow> ProgressUnknown TrackerItemMissing
                    (''Final tracker state unavailable: canonical tracker item '' @ rn_issueSubjectId run @
                     '' was not returned.'')
                | Some issue \<Rightarrow>
                    let matchesConfirmedTerminalState =
                          (isStateTerminal (ti_state issue) lifecycle \<and>
                           (case rn_progressConfirmedState run of
                              None \<Rightarrow> False | Some s \<Rightarrow> matchesWorkflowState s [ti_state issue]))
                    in if ti_dispatchable issue \<and> matchesWorkflowState (ti_state issue) (wl_activeStates lifecycle) \<or>
                          requireMatchingTerminalState \<and> \<not> matchesConfirmedTerminalState
                       then ProgressActive else ProgressNonActionable)))"

definition isIssueCandidateEligible :: "tracked_issue \<Rightarrow> workflow_lifecycle \<Rightarrow> bool" where
  "isIssueCandidateEligible issue lifecycle =
     (if ti_isArchived issue then False else fst (isIssueCandidateEligibleWithReason issue lifecycle))"

text \<open>\<open>classifyRetryKind\<close>: the candidate list is read before the workflow.\<close>

definition classifyRetryKind :: "workflow_read \<Rightarrow> tracker_read \<Rightarrow> run_record \<Rightarrow> retry_kind" where
  "classifyRetryKind workflow candidates run =
     (case candidates of
        TrThrew _ \<Rightarrow> FailureRetry
      | TrIssues issues \<Rightarrow>
          (case List.find (\<lambda>i. ti_identifier i = rn_issueIdentifier run) issues of
             None \<Rightarrow> FailureRetry
           | Some issue \<Rightarrow>
               (case workflow of
                  WfUsable lifecycle \<Rightarrow>
                    if isIssueCandidateEligible issue lifecycle then ContinuationRetry
                    else FailureRetry
                | _ \<Rightarrow> FailureRetry)))"


section \<open>The environment and the outcome\<close>

text \<open>
  \<open>rc_hookFault\<close> is the message of an invalid hook path, \<open>rc_recovery\<close> the recovery context of a
  dirty workspace, \<open>rc_trackerRecovery\<close> whether a converged issue was moved back to a retryable
  state and the state it then has.
\<close>

record reconcile_env =
  rc_now :: int
  rc_liveOwner :: bool
  rc_processRunning :: bool
  rc_stored :: "run_record option"
  rc_pendingExit :: "(int option \<times> string option) option"
  rc_retryPolicy :: "retry_policy option"
  rc_stallTimeoutMs :: "int option"
  rc_backoffMs :: int
  rc_maxFailureRetries :: int
  rc_concurrency :: int
  rc_pollIntervalMs :: int
  rc_hookFault :: "string option"
  rc_workflow :: workflow_read
  rc_tracker :: tracker_read
  rc_candidates :: tracker_read
  rc_recovery :: "string option"
  rc_trackerRecovery :: "bool \<times> string option"
  rc_start :: start_outcome
  rc_workspaceKey :: string

record reconcile_outcome =
  ro_records :: "issue_orch list"
  ro_recovered :: bool
  ro_lastError :: "string option"
  ro_warnings :: "string list"
  ro_effects :: "effect list"

definition outcome :: "issue_orch list \<Rightarrow> effect list \<Rightarrow> reconcile_outcome" where
  "outcome rs fx =
     \<lparr>ro_records = rs, ro_recovered = False, ro_lastError = None, ro_warnings = [], ro_effects = fx\<rparr>"

definition after_effects :: "effect list \<Rightarrow> reconcile_outcome result \<Rightarrow> reconcile_outcome result" where
  "after_effects fx m = rbind m (\<lambda>out. Inr (out\<lparr>ro_effects := fx @ ro_effects out\<rparr>))"

definition run_workspace_key :: "reconcile_env \<Rightarrow> run_record \<Rightarrow> string" where
  "run_workspace_key env run = getOr (rn_issueWorkspaceKey run) (rc_workspaceKey env)"

text \<open>The update that ties the issue of a run to a state.\<close>

definition run_update ::
  "reconcile_env \<Rightarrow> string \<Rightarrow> run_record \<Rightarrow> orch_state \<Rightarrow> string option \<Rightarrow> retry_entry option \<Rightarrow>
     bool option \<Rightarrow> int option \<Rightarrow> string option option \<Rightarrow> orch_update" where
  "run_update env nowText run state currentRunId entry completedOnce failures suppressedState =
     \<lparr>ou_issueId = rn_issueId run, ou_identifier = rn_issueIdentifier run,
      ou_workspaceKey = run_workspace_key env run, ou_completedOnce = completedOnce,
      ou_failureRetryCount = failures, ou_failureRetrySuppressedState = suppressedState, ou_state = state,
      ou_currentRunId = currentRunId, ou_retryEntry = entry, ou_updatedAt = nowText\<rparr>"

definition record_of_run :: "issue_orch list \<Rightarrow> run_record \<Rightarrow> issue_orch option" where
  "record_of_run rs run =
     List.find (\<lambda>r. io_issueId r = rn_issueId run \<or> io_identifier r = rn_issueIdentifier run) rs"

definition entry_of :: "issue_orch option \<Rightarrow> retry_entry option" where
  "entry_of record = (case record of None \<Rightarrow> None | Some r \<Rightarrow> io_retryEntry r)"

definition kept_suppressed_state :: "issue_orch option \<Rightarrow> string option" where
  "kept_suppressed_state record =
     (case record of None \<Rightarrow> None | Some r \<Rightarrow> getOr (io_failureRetrySuppressedState r) None)"

definition releaseRunIssueOrchestration ::
  "reconcile_env \<Rightarrow> issue_orch list \<Rightarrow> run_record \<Rightarrow> bool \<Rightarrow> (issue_orch list \<times> effect list) result" where
  "releaseRunIssueOrchestration env rs run resetBudget =
     (if rc_liveOwner env then Inr (rs, [RunEvent (rn_runId run) ''run-ownership-skipped''])
      else rbind (releaseIssueOrchestration rs (rn_issueId run) (rc_now env) resetBudget) (\<lambda>rs'. Inr (rs', [])))"

section \<open>Giving a retry up, postponing it, restarting it\<close>

definition releaseRetryingRun ::
  "reconcile_env \<Rightarrow> run_record \<Rightarrow> issue_orch list \<Rightarrow> string option \<Rightarrow> reconcile_outcome result" where
  "releaseRetryingRun env run rs reason =
     rbind (toISOString (rc_now env)) (\<lambda>nowText.
       let gitTransportFailed = isGitTransportFailure run;
           suppressedRun = run\<lparr>rn_status := RunSuppressed, rn_processId := None, rn_completedAt := Some nowText,
             rn_updatedAt := nowText, rn_nextRetryAt := None,
             rn_runPhase := Some (if gitTransportFailed then PhaseFailed else CanceledByReconciliation),
             rn_lastError := (if gitTransportFailed then rn_lastError run
               else Some (getOr reason ''Retry canceled because the tracker issue is no longer actionable.''))\<rparr>
       in rbind (releaseRunIssueOrchestration env rs run False) (\<lambda>(rs', fx).
            Inr (outcome rs' (SaveRun suppressedRun # fx))))"

definition requeueRetryingRun ::
  "reconcile_env \<Rightarrow> run_record \<Rightarrow> issue_orch list \<Rightarrow> string \<Rightarrow> bool \<Rightarrow> bool \<Rightarrow> reconcile_outcome result" where
  "requeueRetryingRun env run rs err countFailure advanceAttempt =
     (let issueRecord = record_of_run rs run;
          queuedDueAt = map_option re_dueAt (entry_of issueRecord);
          retainedDueAt = (if \<not> advanceAttempt \<and> queuedDueAt \<noteq> None \<and> parseTimestampMs queuedDueAt \<noteq> None
                           then queuedDueAt else None);
          plan = planRetryRequeue (getOr (map_option re_attempt (entry_of issueRecord)) (rn_attempt run))
                   (getOr (map_option io_failureRetryCount issueRecord) 0) (rc_maxFailureRetries env)
                   countFailure advanceAttempt retainedDueAt
      in rbind (resolveRetryRequeue plan (rc_now env)
                  (if rq_delayClass plan = RqPoll then Some (rc_pollIntervalMs env) else None)
                  (if rq_delayClass plan = RqFailure then rc_retryPolicy env else None) (rc_backoffMs env)) (\<lambda>resolved.
         rbind (toISOString (rc_now env)) (\<lambda>nowText.
           let attempt = rq_attempt plan;
               dueAt = rr_nextRetryAt resolved;
               lastError =
                 (if rq_suppressed plan
                  then Some (formatMaxFailureRetrySuppression (Some run) (rq_failureRetryCount plan)
                               (rc_maxFailureRetries env) (Some err))
                  else if \<not> advanceAttempt
                  then Some (getOr (orElse (case entry_of issueRecord of None \<Rightarrow> None | Some e \<Rightarrow> re_error e)
                                      (rn_lastError run)) err)
                  else Some err);
               sessionEndedAt = getOr (rn_completedAt run) nowText;
               postponedRetry = (if \<not> advanceAttempt \<and> nonempty dueAt
                 then Some \<lparr>rpp_attempt = attempt, rpp_dueAt = getOr dueAt [], rpp_reason = err\<rparr> else None);
               shouldEmit = (postponedRetry \<noteq> None \<and> rn_retryPostponed run \<noteq> postponedRetry);
               updatedRun = run\<lparr>rn_status := if rq_suppressed plan then RunSuppressed else RunRetrying,
                 rn_attempt := attempt, rn_processId := None, rn_updatedAt := nowText, rn_startedAt := None,
                 rn_completedAt := Some sessionEndedAt,
                 rn_cumulativeRuntimeMs :=
                   Some (resolveCumulativeRuntimeMs (Some (run\<lparr>rn_completedAt := Some sessionEndedAt\<rparr>))),
                 rn_nextRetryAt := dueAt,
                 rn_retryKind := if rq_suppressed plan then None
                                 else Some (getOr (rn_retryKind run) PersistFailure),
                 rn_lastError := lastError,
                 rn_retryPostponed := if shouldEmit then rn_retryPostponed run else postponedRetry\<rparr>
           in rbind (upsertIssueOrchestration rs (run_update env nowText run
                  (if rq_suppressed plan then Released else RetryQueued)
                  (if rq_suppressed plan then None else Some (rn_runId run))
                  (if nonempty dueAt
                   then Some \<lparr>re_attempt = attempt, re_dueAt = getOr dueAt [], re_error = lastError\<rparr> else None)
                  None (Some (rq_failureRetryCount plan))
                  (Some (if rq_suppressed plan then Some (rn_issueState run) else kept_suppressed_state issueRecord))))
                (\<lambda>rs'. Inr (outcome rs' ([SaveRun updatedRun] @
                   (if shouldEmit then [RunEvent (rn_runId run) ''retry-postponed'',
                                        SaveRun (updatedRun\<lparr>rn_retryPostponed := postponedRetry\<rparr>)] else [])))))))"


definition handleRestartRunFailure ::
  "reconcile_env \<Rightarrow> run_record \<Rightarrow> issue_orch list \<Rightarrow> bool \<Rightarrow> string \<Rightarrow> run_record option \<Rightarrow> run_record \<Rightarrow>
     reconcile_outcome result" where
  "handleRestartRunFailure env run rs nonRetryable detail preparedRun supersededRun =
     (let errorMessage = ''Run restart failed: '' @ detail;
          existing = record_of_run rs run;
          retryAttempt = getOr (map_option re_attempt (entry_of existing)) (rn_attempt run) + 1;
          maxFailureRetries = rc_maxFailureRetries env;
          failureRetryCount = (if nonRetryable then maxFailureRetries
                               else getOr (map_option io_failureRetryCount existing) 0 + 1);
          retrySuppressed = (maxFailureRetries \<le> failureRetryCount);
          suppressionError = formatMaxFailureRetrySuppression (Some run) failureRetryCount maxFailureRetries
                               (Some errorMessage);
          failed = (\<lambda>r. r\<lparr>rn_status := if retrySuppressed then RunSuppressed else RunFailed,
                           rn_lastError := Some (if retrySuppressed then suppressionError else errorMessage)\<rparr>)
      in rbind (toISOString (rc_now env)) (\<lambda>nowText.
         rbind (if retrySuppressed then Inr None
                else rbind (toISOString (failure_time (rc_now env) retryAttempt (rc_retryPolicy env)
                                           (rc_backoffMs env))) (\<lambda>t. Inr (Some t))) (\<lambda>retryDueAt.
           let saves = (case preparedRun of
                  Some p \<Rightarrow>
                    SaveRun (failed (p\<lparr>rn_completedAt := Some nowText, rn_updatedAt := nowText,
                                      rn_nextRetryAt := None, rn_retryKind := None\<rparr>)) #
                    (if retrySuppressed then [SaveRun (failed supersededRun)] else [])
                | None \<Rightarrow> [SaveRun (failed supersededRun)])
           in rbind (upsertIssueOrchestration rs (run_update env nowText run
                  (if retrySuppressed then Released else RetryQueued) None
                  (map_option (\<lambda>t. \<lparr>re_attempt = retryAttempt, re_dueAt = t, re_error = Some errorMessage\<rparr>) retryDueAt)
                  None (Some failureRetryCount)
                  (Some (if retrySuppressed then Some (rn_issueState run) else kept_suppressed_state existing))))
                (\<lambda>rs'. Inr \<lparr>ro_records = rs', ro_recovered = False, ro_lastError = Some errorMessage,
                   ro_warnings = [],
                   ro_effects = saves @ [SaveRecords rs', RunEvent (rn_runId run) ''run-restart-failed'']\<rparr>))))"

text \<open>
  \<open>restartRun\<close> with the handler that \<open>reconcileProject\<close>, its only caller, puts around it. The
  worker start calls \<open>onPrepared\<close> with the run it is about to spawn; an error thrown there
  fails the start.
\<close>

definition prepare_restart ::
  "reconcile_env \<Rightarrow> string \<Rightarrow> issue_orch list \<Rightarrow> run_record \<Rightarrow> issue_orch list result" where
  "prepare_restart env nowText rs candidate =
     upsertIssueOrchestration rs
       (run_update env nowText candidate Running (Some (rn_runId candidate)) None None None None)"

definition recovered_record :: "run_record \<Rightarrow> run_record \<Rightarrow> run_record" where
  "recovered_record run restarted =
     restarted\<lparr>rn_attempt := rn_attempt run, rn_retryKind := Some (getOr (rn_retryKind run) PersistRecovery),
       rn_issueWorkspaceKey := rn_issueWorkspaceKey run, rn_threadId := None,
       rn_cumulativeTurnCount := Some (resolvePersistedCumulativeTurnCount run),
       rn_lastTurnSummary := rn_lastTurnSummary run, rn_turnCount := Some 0\<rparr>"

definition restartRun :: "reconcile_env \<Rightarrow> run_record \<Rightarrow> issue_orch list \<Rightarrow> reconcile_outcome result" where
  "restartRun env run rs =
     rbind (toISOString (rc_now env)) (\<lambda>nowText.
       let superseded = run\<lparr>rn_status := RunFailed, rn_processId := None, rn_completedAt := Some nowText,
             rn_updatedAt := nowText, rn_nextRetryAt := None, rn_retryKind := None,
             rn_lastError := Some ''Superseded by recovered run.''\<rparr>;
           prepared_effects = (\<lambda>candidate rs1. [SaveRun superseded, SaveRun candidate, SaveRecords rs1])
       in case rc_start env of
            CredentialMissing warning \<Rightarrow>
              after_effects [SaveRun superseded]
                (rbind (requeueRetryingRun env run rs warning False False) (\<lambda>out.
                   Inr (out\<lparr>ro_warnings := [warning]\<rparr>)))
          | StartThrew None nonRetryable detail \<Rightarrow>
              after_effects [SaveRun superseded]
                (handleRestartRunFailure env run rs nonRetryable detail None superseded)
          | StartThrew (Some candidate) nonRetryable detail \<Rightarrow>
              (case prepare_restart env nowText rs candidate of
                 Inl e \<Rightarrow> after_effects [SaveRun superseded]
                   (handleRestartRunFailure env run rs False e (Some candidate) superseded)
               | Inr rs1 \<Rightarrow> after_effects (prepared_effects candidate rs1)
                   (handleRestartRunFailure env run rs1 nonRetryable detail (Some candidate) superseded))
          | Started candidate \<Rightarrow>
              (case prepare_restart env nowText rs candidate of
                 Inl e \<Rightarrow> after_effects [SaveRun superseded]
                   (handleRestartRunFailure env run rs False e (Some candidate) superseded)
               | Inr rs1 \<Rightarrow>
                   let recovered = recovered_record run candidate
                   in rbind (prepare_restart env nowText rs1 recovered) (\<lambda>rs2.
                        Inr \<lparr>ro_records = rs2, ro_recovered = True, ro_lastError = None, ro_warnings = [],
                             ro_effects = prepared_effects candidate rs1 @
                               [SaveRun recovered, SaveRecords rs1,
                                RunEvent (rn_runId run) ''run-recovered'']\<rparr>)))"

section \<open>Reconciling one run\<close>

definition STUCK_WORKER_TIMEOUT_MS :: int where
  "STUCK_WORKER_TIMEOUT_MS = 30 * 60 * 1000"

definition MAX_FINALIZATION_DEFERRALS :: int where
  "MAX_FINALIZATION_DEFERRALS = 3"

definition CONTINUATION_RETRY_DELAY_MS :: int where
  "CONTINUATION_RETRY_DELAY_MS = 1000"

definition superseded_by :: "issue_orch list \<Rightarrow> run_record \<Rightarrow> string option" where
  "superseded_by rs run =
     (case find_record rs (rn_issueId run) of
        None \<Rightarrow> None
      | Some r \<Rightarrow> if nonempty (io_currentRunId r) \<and> io_currentRunId r \<noteq> Some (rn_runId run)
                  then io_currentRunId r else None)"

definition reconcile_superseded ::
  "reconcile_env \<Rightarrow> run_record \<Rightarrow> issue_orch list \<Rightarrow> string \<Rightarrow> reconcile_outcome result" where
  "reconcile_superseded env run rs current =
     (if rc_liveOwner env then Inr (outcome rs [RunEvent (rn_runId run) ''run-ownership-skipped''])
      else rbind (toISOString (rc_now env)) (\<lambda>nowText.
        Inr (outcome rs ([PublishBranch (rn_runId run)] @
          (if rc_processRunning env then [SignalRun (rn_runId run)] else []) @
          [SaveRun (run\<lparr>rn_status := RunFailed, rn_processId := None, rn_completedAt := Some nowText,
             rn_updatedAt := nowText, rn_nextRetryAt := None, rn_retryKind := None,
             rn_lastError := Some (''worker_lease_lost: run_not_current; superseded by current run '' @
               current @ ''.'')\<rparr>),
           RunEvent (rn_runId run) ''run-suppressed'']))))"

text \<open>The last activity is older than the workflow's stall timeout, or than the fallback.\<close>

definition is_stalled :: "reconcile_env \<Rightarrow> run_record \<Rightarrow> bool" where
  "is_stalled env run =
     (case parseTimestampMs (orElse (rn_lastEventAt run) (rn_startedAt run)) of
        None \<Rightarrow> False
      | Some t \<Rightarrow>
          let elapsed = rc_now env - t
          in (case rc_stallTimeoutMs env of None \<Rightarrow> False | Some timeout \<Rightarrow> 0 < timeout \<and> timeout < elapsed) \<or>
             STUCK_WORKER_TIMEOUT_MS < elapsed)"

definition reconcile_running ::
  "reconcile_env \<Rightarrow> run_record \<Rightarrow> issue_orch list \<Rightarrow> reconcile_outcome result" where
  "reconcile_running env run rs =
     rbind (toISOString (rc_now env)) (\<lambda>nowText.
     rbind (upsertIssueOrchestration rs
              (run_update env nowText run Running (Some (rn_runId run)) None None None None)) (\<lambda>rs'.
       Inr (outcome rs' [SaveRun (run\<lparr>rn_status := RunRunning, rn_updatedAt := nowText\<rparr>)])))"

text \<open>A run that waits for its retry.\<close>

definition retry_not_due :: "reconcile_env \<Rightarrow> run_record \<Rightarrow> bool" where
  "retry_not_due env run =
     (case rn_nextRetryAt run of
        None \<Rightarrow> False
      | Some s \<Rightarrow> (case date_parse s of None \<Rightarrow> False | Some t \<Rightarrow> rc_now env < t))"

definition reconcile_retry ::
  "reconcile_env \<Rightarrow> run_record \<Rightarrow> run_record \<Rightarrow> issue_orch list \<Rightarrow> reconcile_outcome result" where
  "reconcile_retry env run runWithTokens rs =
     (if retry_not_due env run then Inr (outcome rs [])
      else case rc_hookFault env of
        Some fault \<Rightarrow> Inr ((outcome rs [])\<lparr>ro_lastError := Some fault\<rparr>)
      | None \<Rightarrow>
          (case resolveRetryRestartAction (rc_workflow env) (rc_tracker env) run of
             RequeueRetry e \<Rightarrow> requeueRetryingRun env runWithTokens rs e True True
           | ReleaseRetry issue terminal reason \<Rightarrow>
               after_effects
                 (case issue of
                    None \<Rightarrow> []
                  | Some i \<Rightarrow> if terminal \<and> \<not> hasUnpublishedGitWork runWithTokens
                              then [CleanupWorkspace (ti_id i)] else [])
                 (releaseRetryingRun env
                    (case issue of None \<Rightarrow> runWithTokens
                     | Some i \<Rightarrow> runWithTokens\<lparr>rn_issueState := ti_state i\<rparr>) rs reason)
           | Restart issue \<Rightarrow>
               if \<not> hasRetryDispatchSlot (rc_concurrency env) (rn_runId run) rs (rc_now env)
               then requeueRetryingRun env runWithTokens rs ''no available orchestrator slots'' False False
               else restartRun env run rs))"


text \<open>A run whose worker has ended: the final read of the tracker, if the run claims progress.\<close>

definition final_tracker_progress :: "reconcile_env \<Rightarrow> run_record \<Rightarrow> final_progress option" where
  "final_tracker_progress env runWithTokens =
     (let gitTransportFailed = isGitTransportFailure runWithTokens;
          classified =
            (if (rn_runPhase runWithTokens = Some PhaseSucceeded \<or> gitTransportFailed) \<and>
                nonempty (rn_progressConfirmedAt runWithTokens)
             then Some (classifyCurrentTrackerProgress (rc_workflow env) (rc_tracker env) runWithTokens
                          gitTransportFailed)
             else None)
      in case classified of
           Some (ProgressUnknown _ _) \<Rightarrow> if gitTransportFailed then None else classified
         | _ \<Rightarrow> classified)"

definition is_unknown_progress :: "final_progress option \<Rightarrow> bool" where
  "is_unknown_progress p = (case p of Some (ProgressUnknown _ _) \<Rightarrow> True | _ \<Rightarrow> False)"

definition ended_run :: "string \<Rightarrow> run_record \<Rightarrow> run_status \<Rightarrow> run_record" where
  "ended_run nowText run status =
     run\<lparr>rn_status := status, rn_processId := None, rn_completedAt := Some nowText, rn_updatedAt := nowText,
         rn_nextRetryAt := None, rn_retryKind := None\<rparr>"

definition complete_run ::
  "reconcile_env \<Rightarrow> string \<Rightarrow> run_record \<Rightarrow> run_record \<Rightarrow> issue_orch list \<Rightarrow> reconcile_outcome result" where
  "complete_run env nowText run runWithTokens rs =
     rbind (releaseRunIssueOrchestration env rs run True) (\<lambda>(rs', fx).
       Inr (outcome rs' (SaveRun ((ended_run nowText runWithTokens RunSucceeded)\<lparr>
              rn_finalizationDeferralCount := Some 0, rn_runPhase := Some PhaseSucceeded,
              rn_lastError := None\<rparr>) # fx)))"

definition release_converged ::
  "reconcile_env \<Rightarrow> string \<Rightarrow> run_record \<Rightarrow> run_record \<Rightarrow> issue_orch list \<Rightarrow> reconcile_outcome result" where
  "release_converged env nowText run runWithTokens rs =
     rbind (releaseRunIssueOrchestration env rs run False) (\<lambda>(rs', fx).
       Inr (outcome rs' (SaveRun ((ended_run nowText runWithTokens RunFailed)\<lparr>
              rn_issueState := getOr (snd (rc_trackerRecovery env)) (rn_issueState runWithTokens),
              rn_runPhase := Some (getOr (rn_runPhase runWithTokens) PhaseFailed)\<rparr>) # fx)))"

definition suppress_run ::
  "reconcile_env \<Rightarrow> string \<Rightarrow> run_record \<Rightarrow> run_record \<Rightarrow> issue_orch list \<Rightarrow> string option \<Rightarrow> int \<Rightarrow>
     reconcile_outcome result" where
  "suppress_run env nowText run runWithTokens rs recovery failureRetryCount =
     rbind (upsertIssueOrchestration rs
              (run_update env nowText run Released None None None (Some failureRetryCount)
                 (Some (Some (rn_issueState run))))) (\<lambda>rs'.
       Inr (outcome rs'
         [SaveRun ((ended_run nowText runWithTokens RunSuppressed)\<lparr>
            rn_finalizationDeferralCount := Some 0,
            rn_runPhase := Some (getOr (rn_runPhase runWithTokens) PhaseFailed),
            rn_lastError := Some (formatMaxFailureRetrySuppression (Some runWithTokens) failureRetryCount
                                    (rc_maxFailureRetries env) None),
            rn_recovery := recovery\<rparr>),
          RunEvent (rn_runId run) ''run-suppressed'']))"

definition retry_error ::
  "bool \<Rightarrow> string option \<Rightarrow> retry_kind \<Rightarrow> final_progress option \<Rightarrow> run_record \<Rightarrow> string option" where
  "retry_error convergenceDetected recovery retryKind progress runWithTokens =
     (if convergenceDetected
      then Some (getOr (rn_lastError runWithTokens) ''convergence_detected: repeated non-productive turns'')
      else if recovery \<noteq> None \<or> retryKind = ContinuationRetry then None
      else case progress of
             Some (ProgressUnknown _ e) \<Rightarrow> Some e
           | _ \<Rightarrow> Some (getOr (rn_lastError runWithTokens) ''Worker process exited unexpectedly.''))"

definition retry_run ::
  "reconcile_env \<Rightarrow> string \<Rightarrow> run_record \<Rightarrow> run_record \<Rightarrow> issue_orch list \<Rightarrow> string option \<Rightarrow> retry_kind \<Rightarrow>
     completed_plan \<Rightarrow> string \<Rightarrow> string option \<Rightarrow> reconcile_outcome result" where
  "retry_run env nowText run runWithTokens rs recovery retryKind plan nextRetryAt lastError =
     rbind (upsertIssueOrchestration rs
              (run_update env nowText run RetryQueued (Some (rn_runId run))
                 (Some \<lparr>re_attempt = cp_attempt plan, re_dueAt = nextRetryAt, re_error = lastError\<rparr>)
                 (if retryKind = ContinuationRetry then Some True else None) (Some (cp_failures plan)) None)) (\<lambda>rs'.
       Inr (outcome rs'
         [SaveRun (runWithTokens\<lparr>rn_finalizationDeferralCount := Some 0, rn_status := RunRetrying,
            rn_attempt := cp_attempt plan, rn_processId := None, rn_updatedAt := nowText, rn_startedAt := None,
            rn_completedAt := Some nowText,
            rn_cumulativeRuntimeMs :=
              Some (resolveCumulativeRuntimeMs (Some (runWithTokens\<lparr>rn_completedAt := Some nowText\<rparr>))),
            rn_nextRetryAt := Some nextRetryAt, rn_retryKind := Some (cp_kind plan),
            rn_threadId := orElse (rn_threadId runWithTokens) (orElse (rn_sessionThreadId runWithTokens)
              (orElse (rn_threadId run) (rn_sessionThreadId run))),
            rn_cumulativeTurnCount :=
              Some (getOr (orElse (rn_cumulativeTurnCount runWithTokens) (rn_cumulativeTurnCount run)) 0),
            rn_lastTurnSummary := orElse (rn_lastTurnSummary runWithTokens) (rn_lastTurnSummary run),
            rn_runPhase := Some (getOr (rn_runPhase runWithTokens) PhaseFailed),
            rn_lastError := lastError, rn_recovery := recovery\<rparr>),
          RunEvent (rn_runId run) ''run-retried'']))"

definition abnormal_exit :: "worker_info \<Rightarrow> run_record \<Rightarrow> bool" where
  "abnormal_exit wi runWithTokens \<longleftrightarrow>
     wi_exit wi \<noteq> Some UserInputRequired \<and>
     (isGitTransportFailure runWithTokens \<or>
      (rn_workerExitCode runWithTokens \<noteq> None \<and> rn_workerExitCode runWithTokens \<noteq> Some 0) \<or>
      rn_workerExitSignal runWithTokens \<noteq> None \<or> rn_runPhase runWithTokens = Some PhaseFailed)"

text \<open>The retry decision for a run that did not complete.\<close>

definition reconcile_incomplete ::
  "reconcile_env \<Rightarrow> string \<Rightarrow> worker_info \<Rightarrow> run_record \<Rightarrow> run_record \<Rightarrow> issue_orch list \<Rightarrow> final_progress option \<Rightarrow>
     reconcile_outcome result" where
  "reconcile_incomplete env nowText wi run runWithTokens rs progress =
     (let recovery = (if is_unknown_progress progress then None else rc_recovery env);
          convergenceDetected = (wi_exit wi = Some ConvergenceDetected)
      in if convergenceDetected \<and> recovery = None \<and> fst (rc_trackerRecovery env)
         then release_converged env nowText run runWithTokens rs
         else let retryKind =
                    (if abnormal_exit wi runWithTokens \<or> convergenceDetected \<or> is_unknown_progress progress
                     then FailureRetry
                     else classifyRetryKind (rc_workflow env) (rc_candidates env) run);
                  plan = planCompletedRunRetry retryKind (recovery \<noteq> None) (rn_attempt runWithTokens)
                           (getOr (map_option io_failureRetryCount (find_record rs (rn_issueId run))) 0)
                           (rc_maxFailureRetries env)
              in rbind (resolveCompletedRunRetry plan (rc_now env) (rc_retryPolicy env) (rc_backoffMs env)
                          CONTINUATION_RETRY_DELAY_MS) (\<lambda>resolved.
                 case rr_nextRetryAt resolved of
                   None \<Rightarrow> suppress_run env nowText run runWithTokens rs recovery (cp_failures plan)
                 | Some nextRetryAt \<Rightarrow>
                     retry_run env nowText run runWithTokens rs recovery retryKind plan nextRetryAt
                       (retry_error convergenceDetected recovery retryKind progress runWithTokens)))"

definition reconcile_ended ::
  "reconcile_env \<Rightarrow> worker_info \<Rightarrow> run_record \<Rightarrow> run_record \<Rightarrow> issue_orch list \<Rightarrow> reconcile_outcome result" where
  "reconcile_ended env wi run runWithTokens rs =
     rbind (toISOString (rc_now env)) (\<lambda>nowText.
       let progress = final_tracker_progress env runWithTokens;
           deferred = (\<lambda>n. [SaveRun (runWithTokens\<lparr>rn_finalizationDeferralCount := Some n, rn_updatedAt := nowText\<rparr>),
                            RunEvent (rn_runId run) ''run-finalization-deferred''])
       in case decideFinalizationDisposition progress (getOr (rn_finalizationDeferralCount runWithTokens) 0)
                 MAX_FINALIZATION_DEFERRALS of
            DeferFinalization n _ _ \<Rightarrow> Inr (outcome rs (deferred n))
          | RecordExhaustedDeferral n _ _ \<Rightarrow>
              after_effects (deferred n) (reconcile_incomplete env nowText wi run runWithTokens rs progress)
          | CompleteRun \<Rightarrow> complete_run env nowText run runWithTokens rs
          | RetryRun \<Rightarrow> reconcile_incomplete env nowText wi run runWithTokens rs progress)"

definition reconcile_stopped ::
  "reconcile_env \<Rightarrow> run_record \<Rightarrow> issue_orch list \<Rightarrow> reconcile_outcome result" where
  "reconcile_stopped env run rs =
     (let wi = fetchWorkerRunInfo run (rc_stored env) (rc_pendingExit env);
          runWithTokens = run_with_tokens run wi
      in after_effects (if nonempty (wi_lastError wi) then [RunEvent (rn_runId run) ''worker-error''] else [])
           (if rn_status run = RunRetrying \<and> nonempty (rn_nextRetryAt run)
            then reconcile_retry env run runWithTokens rs
            else reconcile_ended env wi run runWithTokens rs))"

definition reconcileRun :: "reconcile_env \<Rightarrow> run_record \<Rightarrow> issue_orch list \<Rightarrow> reconcile_outcome result" where
  "reconcileRun env run rs =
     (case superseded_by rs run of
        Some current \<Rightarrow> reconcile_superseded env run rs current
      | None \<Rightarrow>
          if \<not> rc_processRunning env then reconcile_stopped env run rs
          else if \<not> is_stalled env run then reconcile_running env run rs
          else if rc_liveOwner env
          then Inr (outcome rs [RunEvent (rn_runId run) ''run-ownership-skipped''])
          else after_effects [PublishBranch (rn_runId run), SignalRun (rn_runId run)]
                 (reconcile_stopped env run rs))"

section \<open>A reconciliation writes one issue\<close>

text \<open>The records differ by a sequence of legal writes to one issue.\<close>

definition touches :: "string \<Rightarrow> issue_orch list \<Rightarrow> issue_orch list \<Rightarrow> bool" where
  "touches i rs rs' \<longleftrightarrow> (\<exists>us. records.writes rs us = Inr rs' \<and> (\<forall>u \<in> set us. ou_issueId u = i))"

lemma writes_append: "records.writes s (us @ vs) = rbind (records.writes s us) (\<lambda>s'. records.writes s' vs)"
  by (induction us arbitrary: s) (auto simp: rbind_assoc)

lemma touches_refl [simp, intro]: "touches i rs rs"
  unfolding touches_def by (intro exI [of _ "[]"]) simp

lemma touches_trans: "touches i rs rs1 \<Longrightarrow> touches i rs1 rs2 \<Longrightarrow> touches i rs rs2"
  unfolding touches_def by (elim exE conjE, rule_tac x = "us @ usa" in exI) (auto simp: writes_append)

lemma touches_upsert: "upsertIssueOrchestration rs u = Inr rs' \<Longrightarrow> ou_issueId u = i \<Longrightarrow> touches i rs rs'"
  unfolding touches_def by (intro exI [of _ "[u]"]) simp

lemma touches_release: "releaseIssueOrchestration rs i now b = Inr rs' \<Longrightarrow> touches i rs rs'"
  by (auto simp: releaseIssueOrchestration_def rbind_Inr_iff release_update_def
      dest: find_record_Some_id intro!: touches_upsert split: option.splits)

lemma touches_frame: "touches i rs rs' \<Longrightarrow> j \<noteq> i \<Longrightarrow> find_record rs' j = find_record rs j"
  unfolding touches_def by (elim exE conjE) (rule records.writes_frame, auto)

lemma touches_valid: "touches i rs rs' \<Longrightarrow> store_ok rs \<Longrightarrow> store_ok rs'"
  unfolding touches_def by (elim exE conjE) (rule records.writes_valid)

lemma outcome_simps [simp]: "ro_records (outcome rs fx) = rs" "ro_recovered (outcome rs fx) = False"
  "ro_lastError (outcome rs fx) = None" "ro_effects (outcome rs fx) = fx"
  by (simp_all add: outcome_def)

lemma run_update_simps [simp]:
  "ou_issueId (run_update env t run st c e d f s) = rn_issueId run" "ou_state (run_update env t run st c e d f s) = st"
  "ou_currentRunId (run_update env t run st c e d f s) = c" "ou_retryEntry (run_update env t run st c e d f s) = e"
  "ou_failureRetryCount (run_update env t run st c e d f s) = f"
  "ou_failureRetrySuppressedState (run_update env t run st c e d f s) = s"
  "ou_identifier (run_update env t run st c e d f s) = rn_issueIdentifier run"
  by (simp_all add: run_update_def)

text \<open>An operation on a run whose outcome only writes the run's issue.\<close>

definition writes_only :: "string \<Rightarrow> issue_orch list \<Rightarrow> reconcile_outcome result \<Rightarrow> bool" where
  "writes_only i rs m \<longleftrightarrow> (\<forall>out. m = Inr out \<longrightarrow> touches i rs (ro_records out))"

lemma writes_only_after [simp]: "writes_only i rs (after_effects fx m) \<longleftrightarrow> writes_only i rs m"
  by (cases m) (auto simp: writes_only_def after_effects_def)

lemma writes_only_rbind: "(\<And>x. m = Inr x \<Longrightarrow> writes_only i rs (f x)) \<Longrightarrow> writes_only i rs (rbind m f)"
  by (cases m) (auto simp: writes_only_def)

lemma writes_only_Inl [simp]: "writes_only i rs (Inl e)"
  by (simp add: writes_only_def)

lemma writes_only_same [simp]: "ro_records out = rs \<Longrightarrow> writes_only i rs (Inr out)"
  by (auto simp: writes_only_def)

lemma writes_only_upsert:
  "ou_issueId u = i \<Longrightarrow> (\<And>rs'. ro_records (f rs') = rs') \<Longrightarrow>
   writes_only i rs (rbind (upsertIssueOrchestration rs u) (\<lambda>rs'. Inr (f rs')))"
  by (auto simp: writes_only_def rbind_Inr_iff intro: touches_upsert)

lemma writes_only_trans: "touches i rs rs1 \<Longrightarrow> writes_only i rs1 m \<Longrightarrow> writes_only i rs m"
  unfolding writes_only_def by (blast intro: touches_trans)

lemma release_run_touches:
  "releaseRunIssueOrchestration env rs run b = Inr (rs', fx) \<Longrightarrow> touches (rn_issueId run) rs rs'"
  by (auto simp: releaseRunIssueOrchestration_def rbind_Inr_iff split: if_splits intro: touches_release)

lemma writes_only_release:
  "(\<And>rs' fx. ro_records (f (rs', fx)) = rs') \<Longrightarrow>
   writes_only (rn_issueId run) rs (rbind (releaseRunIssueOrchestration env rs run b) (\<lambda>p. Inr (f p)))"
  by (auto simp: writes_only_def rbind_Inr_iff dest: release_run_touches)

lemma releaseRetryingRun_writes: "writes_only (rn_issueId run) rs (releaseRetryingRun env run rs reason)"
  unfolding releaseRetryingRun_def Let_def
  by (intro writes_only_rbind) (auto simp: writes_only_def dest: release_run_touches)

lemma requeueRetryingRun_writes: "writes_only (rn_issueId run) rs (requeueRetryingRun env run rs e c a)"
  unfolding requeueRetryingRun_def Let_def by (intro writes_only_rbind writes_only_upsert) simp_all

lemma handleRestartRunFailure_writes: "writes_only (rn_issueId run) rs (handleRestartRunFailure env run rs n d p s)"
  unfolding handleRestartRunFailure_def Let_def by (intro writes_only_rbind writes_only_upsert) simp_all

definition start_for :: "run_record \<Rightarrow> start_outcome \<Rightarrow> bool" where
  "start_for run s \<longleftrightarrow>
     (case s of Started r \<Rightarrow> rn_issueId r = rn_issueId run | StartThrew (Some r) _ _ \<Rightarrow> rn_issueId r = rn_issueId run
      | _ \<Rightarrow> True)"

lemma prepare_restart_touches:
  "prepare_restart env t rs candidate = Inr rs1 \<Longrightarrow> rn_issueId candidate = i \<Longrightarrow> touches i rs rs1"
  by (auto simp: prepare_restart_def intro: touches_upsert)

lemma requeue_warning_writes:
  "writes_only (rn_issueId run) rs (rbind (requeueRetryingRun env run rs w c a) (\<lambda>out. Inr (out\<lparr>ro_warnings := ws\<rparr>)))"
  using requeueRetryingRun_writes [of run rs env w c a]
  by (cases "requeueRetryingRun env run rs w c a") (auto simp: writes_only_def)

lemma restartRun_writes:
  assumes "start_for run (rc_start env)"
  shows "writes_only (rn_issueId run) rs (restartRun env run rs)"
proof (cases "rc_start env")
  case (CredentialMissing w)
  then show ?thesis
    unfolding restartRun_def Let_def by (intro writes_only_rbind) (simp add: requeue_warning_writes)
next
  case (StartThrew p n d)
  show ?thesis
  proof (cases p)
    case None
    with StartThrew show ?thesis
      unfolding restartRun_def Let_def by (intro writes_only_rbind) (simp add: handleRestartRunFailure_writes)
  next
    case (Some r)
    with StartThrew assms have r: "rn_issueId r = rn_issueId run" by (simp add: start_for_def)
    have failed: "writes_only (rn_issueId run) rs (case prepare_restart env t rs r of
        Inl e \<Rightarrow> after_effects (fx e) (handleRestartRunFailure env run rs False e (Some r) s)
      | Inr rs1 \<Rightarrow> after_effects (gx rs1) (handleRestartRunFailure env run rs1 n d (Some r) s))" for t s fx gx
      by (cases "prepare_restart env t rs r")
         (auto simp: handleRestartRunFailure_writes r
           intro: writes_only_trans [OF prepare_restart_touches handleRestartRunFailure_writes])
    show ?thesis unfolding restartRun_def Let_def StartThrew Some
      by (rule writes_only_rbind) (simp only: start_outcome.case option.case failed)
  qed
next
  case (Started r)
  with assms have r: "rn_issueId r = rn_issueId run" by (simp add: start_for_def)
  have started: "writes_only (rn_issueId run) rs (case prepare_restart env t rs r of
        Inl e \<Rightarrow> after_effects (fx e) (handleRestartRunFailure env run rs False e (Some r) s)
      | Inr rs1 \<Rightarrow> rbind (prepare_restart env t rs1 (recovered_record run r)) (\<lambda>rs2. Inr (out rs1 rs2)))"
    if "\<And>rs1 rs2. ro_records (out rs1 rs2) = rs2" for t s fx out
  proof (cases "prepare_restart env t rs r")
    case (Inl e)
    then show ?thesis by (simp add: handleRestartRunFailure_writes)
  next
    case (Inr rs1)
    have "writes_only (rn_issueId run) rs1 (rbind (prepare_restart env t rs1 (recovered_record run r)) (\<lambda>rs2. Inr (out rs1 rs2)))"
      by (auto simp: writes_only_def rbind_Inr_iff that recovered_record_def r intro: prepare_restart_touches)
    with Inr show ?thesis by (auto intro: writes_only_trans [OF prepare_restart_touches [OF Inr r]])
  qed
  show ?thesis unfolding restartRun_def Let_def Started
    by (rule writes_only_rbind) (simp only: start_outcome.case, rule started, simp)
qed

lemma run_with_tokens_id [simp]: "rn_issueId (run_with_tokens run wi) = rn_issueId run"
  by (simp add: run_with_tokens_def)

lemma reconcile_retry_writes:
  assumes "start_for run (rc_start env)" and "rn_issueId rwt = rn_issueId run"
  shows "writes_only (rn_issueId run) rs (reconcile_retry env run rwt rs)"
proof -
  have requeue: "writes_only (rn_issueId run) rs (requeueRetryingRun env rwt rs e c a)" for e c a
    using requeueRetryingRun_writes [of rwt rs env e c a] assms(2) by simp
  have release: "writes_only (rn_issueId run) rs (releaseRetryingRun env r rs reason)"
    if "rn_issueId r = rn_issueId run" for r reason
    using releaseRetryingRun_writes [of r rs env reason] that by simp
  show ?thesis
    using assms by (auto simp: reconcile_retry_def requeue release restartRun_writes split: option.split restart_action.split)
qed

lemma reconcile_incomplete_writes:
  "writes_only (rn_issueId run) rs (reconcile_incomplete env t wi run rwt rs progress)"
proof -
  have "writes_only (rn_issueId run) rs (release_converged env t run rwt rs)"
    unfolding release_converged_def
    by (auto simp: writes_only_def rbind_Inr_iff dest: release_run_touches)
  moreover have "writes_only (rn_issueId run) rs (suppress_run env t run rwt rs r n)" for r n
    unfolding suppress_run_def by (rule writes_only_upsert) simp_all
  moreover have "writes_only (rn_issueId run) rs (retry_run env t run rwt rs r k plan next e)" for r k plan "next" e
    unfolding retry_run_def by (rule writes_only_upsert) simp_all
  ultimately show ?thesis
    by (auto simp: reconcile_incomplete_def Let_def split: option.split intro!: writes_only_rbind)
qed

lemma reconcile_ended_writes: "writes_only (rn_issueId run) rs (reconcile_ended env wi run rwt rs)"
proof -
  have "writes_only (rn_issueId run) rs (complete_run env t run rwt rs)" for t
    unfolding complete_run_def by (auto simp: writes_only_def rbind_Inr_iff dest: release_run_touches)
  then show ?thesis
    by (auto simp: reconcile_ended_def Let_def reconcile_incomplete_writes split: finalization.split intro!: writes_only_rbind)
qed

lemma reconcile_stopped_writes:
  "start_for run (rc_start env) \<Longrightarrow> writes_only (rn_issueId run) rs (reconcile_stopped env run rs)"
  by (simp add: reconcile_stopped_def Let_def reconcile_retry_writes reconcile_ended_writes)

lemma reconcileRun_writes:
  assumes "start_for run (rc_start env)"
  shows "writes_only (rn_issueId run) rs (reconcileRun env run rs)"
proof -
  have "writes_only (rn_issueId run) rs (reconcile_superseded env run rs c)" for c
    by (auto simp: reconcile_superseded_def intro!: writes_only_rbind)
  moreover have "writes_only (rn_issueId run) rs (reconcile_running env run rs)"
    unfolding reconcile_running_def by (intro writes_only_rbind writes_only_upsert) simp_all
  ultimately show ?thesis
    by (simp add: reconcileRun_def reconcile_stopped_writes [OF assms] split: option.split)
qed

section \<open>What a reconciliation changes\<close>

text \<open>
  C6. Reconciling a run writes only the record of the run's issue and keeps the record list
  well-formed. The list it leaves is the result of a sequence of writes for that issue, each of which
  takes the record one step of the orchestration state machine from where the one before left it.
\<close>

theorem reconcile_frame:
  assumes "reconcileRun env run rs = Inr out" and "start_for run (rc_start env)" and "store_ok rs"
  shows "store_ok (ro_records out) \<and>
    (\<forall>j. j \<noteq> rn_issueId run \<longrightarrow> find_record (ro_records out) j = find_record rs j) \<and>
    (\<exists>us. (\<forall>u \<in> set us. ou_issueId u = rn_issueId run) \<and> records.writes rs us = Inr (ro_records out) \<and>
       orch_path (map_option io_state (find_record rs (rn_issueId run))) (map ou_state us) \<and>
       map_option io_state (find_record (ro_records out) (rn_issueId run)) =
         (if us = [] then map_option io_state (find_record rs (rn_issueId run)) else Some (ou_state (last us))))"
proof -
  from reconcileRun_writes [OF assms(2), of rs] assms(1) have t: "touches (rn_issueId run) rs (ro_records out)"
    by (simp add: writes_only_def)
  then obtain us where us: "records.writes rs us = Inr (ro_records out)" "\<forall>u \<in> set us. ou_issueId u = rn_issueId run"
    unfolding touches_def by blast
  from us(2) have "states_written (rn_issueId run) us = map ou_state us" by (simp add: states_written_def)
  with us records.writes_ok_iff [of rs us] records.writes_state [OF us(1), of "rn_issueId run"]
  have "orch_path (map_option io_state (find_record rs (rn_issueId run))) (map ou_state us) \<and>
      map_option io_state (find_record (ro_records out) (rn_issueId run)) =
        (if us = [] then map_option io_state (find_record rs (rn_issueId run)) else Some (ou_state (last us)))"
    by (auto simp: last_map dest: spec [of _ "rn_issueId run"])
  with us touches_frame [OF t] touches_valid [OF t assms(3)] show ?thesis by blast
qed

section \<open>Which runs are restarted\<close>

definition no_recovery :: "reconcile_outcome result \<Rightarrow> bool" where
  "no_recovery m \<longleftrightarrow> (\<forall>out. m = Inr out \<longrightarrow> \<not> ro_recovered out)"

lemma no_recovery_simps [simp]:
  "no_recovery (after_effects fx m) = no_recovery m" "no_recovery (Inl e)"
  "no_recovery (Inr out) = (\<not> ro_recovered out)"
  by (cases m; auto simp: no_recovery_def after_effects_def)+

lemma no_recovery_rbind: "(\<And>x. no_recovery (f x)) \<Longrightarrow> no_recovery (rbind m f)"
  by (cases m) (auto simp: no_recovery_def)

lemma requeue_no_recovery [simp]: "no_recovery (requeueRetryingRun env run rs e c a)"
  unfolding requeueRetryingRun_def Let_def by (intro no_recovery_rbind) simp

lemma release_no_recovery [simp]: "no_recovery (releaseRetryingRun env run rs reason)"
  unfolding releaseRetryingRun_def Let_def by (intro no_recovery_rbind) (simp split: prod.split)

lemma incomplete_no_recovery [simp]: "no_recovery (reconcile_incomplete env t wi run rwt rs p)"
proof -
  have "no_recovery (release_converged env t run rwt rs)" "no_recovery (suppress_run env t run rwt rs r n)"
    "no_recovery (retry_run env t run rwt rs r k plan due e)" for r n k plan due e
    unfolding release_converged_def suppress_run_def retry_run_def
    by (auto intro!: no_recovery_rbind split: prod.split)
  then show ?thesis
    by (auto simp: reconcile_incomplete_def Let_def split: option.split intro!: no_recovery_rbind)
qed

lemma ended_no_recovery [simp]: "no_recovery (reconcile_ended env wi run rwt rs)"
proof -
  have "no_recovery (complete_run env t run rwt rs)" for t
    unfolding complete_run_def by (auto intro!: no_recovery_rbind split: prod.split)
  then show ?thesis
    by (auto simp: reconcile_ended_def Let_def split: finalization.split intro!: no_recovery_rbind)
qed

lemma superseded_no_recovery [simp]: "no_recovery (reconcile_superseded env run rs c)"
  by (auto simp: reconcile_superseded_def intro!: no_recovery_rbind)

lemma running_no_recovery [simp]: "no_recovery (reconcile_running env run rs)"
  by (auto simp: reconcile_running_def intro!: no_recovery_rbind)

text \<open>When a reconciliation restarts a worker.\<close>

definition may_restart :: "reconcile_env \<Rightarrow> run_record \<Rightarrow> issue_orch list \<Rightarrow> bool" where
  "may_restart env run rs \<longleftrightarrow>
     rn_status run = RunRetrying \<and> \<not> retry_not_due env run \<and> superseded_by rs run = None \<and>
     hasRetryDispatchSlot (rc_concurrency env) (rn_runId run) rs (rc_now env) \<and>
     (\<exists>lifecycle issues issue. rc_workflow env = WfUsable lifecycle \<and> rc_tracker env = TrIssues issues \<and>
        find_issue issues (rn_issueSubjectId run) = Some issue \<and>
        \<not> isStateTerminal (ti_state issue) lifecycle \<and> isStateActive (ti_state issue) lifecycle \<and>
        rt_routable (issueRoutable issue lifecycle))"

lemma resolveRetryRestartAction_Restart:
  "resolveRetryRestartAction w tr run = Restart issue \<Longrightarrow>
   \<exists>lifecycle issues. w = WfUsable lifecycle \<and> tr = TrIssues issues \<and>
        find_issue issues (rn_issueSubjectId run) = Some issue \<and>
        \<not> isStateTerminal (ti_state issue) lifecycle \<and> isStateActive (ti_state issue) lifecycle \<and>
        rt_routable (issueRoutable issue lifecycle)"
  by (auto simp: resolveRetryRestartAction_def isIssueCandidateEligibleWithReason_def
      split: workflow_read.splits tracker_read.splits option.splits if_splits)

lemma reconcile_retry_recovers:
  assumes "reconcile_retry env run rwt rs = Inr out" and "ro_recovered out"
  shows "\<not> retry_not_due env run \<and> hasRetryDispatchSlot (rc_concurrency env) (rn_runId run) rs (rc_now env) \<and>
    (\<exists>issue. resolveRetryRestartAction (rc_workflow env) (rc_tracker env) run = Restart issue)"
proof (rule ccontr)
  assume "\<not> ?thesis"
  then have "no_recovery (reconcile_retry env run rwt rs)"
    by (auto simp: reconcile_retry_def split: option.split restart_action.split)
  with assms show False by (simp add: no_recovery_def)
qed

text \<open>
  C4. A worker is restarted only for a retry that is due, of a run that no other run of the issue
  superseded, when a dispatch slot is free, and when the tracker was read in the same
  reconciliation and shows the issue active, not terminal and routable.
\<close>

theorem restart_requires_eligibility:
  assumes "reconcileRun env run rs = Inr out" and "ro_recovered out"
  shows "may_restart env run rs"
proof -
  let ?wi = "fetchWorkerRunInfo run (rc_stored env) (rc_pendingExit env)"
  have none: "superseded_by rs run = None"
  proof (rule ccontr)
    assume "superseded_by rs run \<noteq> None"
    then have "no_recovery (reconcileRun env run rs)" by (auto simp: reconcileRun_def)
    with assms show False by (simp add: no_recovery_def)
  qed
  have "rn_status run = RunRetrying \<and> (\<exists>out'. reconcile_retry env run (run_with_tokens run ?wi) rs = Inr out' \<and> ro_recovered out')"
  proof (rule ccontr)
    assume no: "\<not> ?thesis"
    then have "no_recovery (reconcile_stopped env run rs)"
      by (auto simp: reconcile_stopped_def Let_def) (auto simp: no_recovery_def)
    then have "no_recovery (reconcileRun env run rs)" by (simp add: reconcileRun_def none)
    with assms show False by (simp add: no_recovery_def)
  qed
  with none reconcile_retry_recovers resolveRetryRestartAction_Restart show ?thesis
    unfolding may_restart_def by blast
qed

text \<open>
  A run that lost its issue to another run changes no record and restarts nothing; it is
  saved as failed and nothing else is saved, unless another live service owns it.
\<close>

theorem superseded_run_is_inert:
  assumes "reconcileRun env run rs = Inr out" and "superseded_by rs run = Some current"
  shows "ro_records out = rs \<and> \<not> ro_recovered out \<and>
    (\<forall>r. SaveRun r \<in> set (ro_effects out) \<longrightarrow> rn_runId r = rn_runId run \<and> rn_status r = RunFailed) \<and>
    (\<not> rc_liveOwner env \<longrightarrow> (\<exists>r. SaveRun r \<in> set (ro_effects out)))"
  using assms by (auto simp: reconcileRun_def reconcile_superseded_def rbind_Inr_iff split: if_splits)

section \<open>An exhausted failure budget\<close>

lemma incomplete_exhausted:
  assumes "reconcile_incomplete env t wi run rwt rs progress = Inr out"
    and "abnormal_exit wi rwt" and "wi_exit wi \<noteq> Some ConvergenceDetected"
    and "find_record rs (rn_issueId run) = Some r" and "rc_maxFailureRetries env \<le> io_failureRetryCount r + 1"
  shows "\<exists>r'. find_record (ro_records out) (rn_issueId run) = Some r' \<and> io_state r' = Released \<and>
     io_retryEntry r' = None \<and> io_failureRetryCount r' = io_failureRetryCount r + 1 \<and>
     io_failureRetrySuppressedState r' = Some (Some (rn_issueState run)) \<and> io_identifier r' = rn_issueIdentifier run"
proof -
  let ?rec = "if is_unknown_progress progress then None else rc_recovery env"
  have plan: "planCompletedRunRetry FailureRetry b a (io_failureRetryCount r) (rc_maxFailureRetries env) =
      SuppressCompleted a (io_failureRetryCount r + 1)" for a b
    using assms(5) by (simp add: plan_failure)
  from assms(1) have "suppress_run env t run rwt rs ?rec (io_failureRetryCount r + 1) = Inr out"
    using assms(2-4) by (simp add: reconcile_incomplete_def Let_def plan)
  then show ?thesis
    by (auto simp: suppress_run_def rbind_Inr_iff merged_record_def records.write_look)
qed

lemma find_unique_record:
  assumes "store_ok rs" and "find_record rs (ti_id issue) = Some r"
    and "\<forall>q \<in> set rs. io_identifier q = ti_identifier issue \<longrightarrow> io_issueId q = ti_id issue"
  shows "record_for_issue rs issue = Some r"
proof -
  have "record_for_issue rs issue = List.find (\<lambda>q. io_issueId q = ti_id issue) rs"
    unfolding record_for_issue_def by (rule find_cong) (use assms(3) in auto)
  with assms(2) show ?thesis by (simp add: find_record_def)
qed

text \<open>
  C7. Reconciliation and dispatch agree on an exhausted failure budget: on the records that
  reconciliation leaves after the abnormal exit that uses up the budget, the dispatch phase passes
  over the issue if it is still in the state in which the run failed.
\<close>

theorem exhausted_issue_is_not_redispatched:
  assumes "reconcile_incomplete env t wi run rwt rs progress = Inr out"
    and "abnormal_exit wi rwt" and "wi_exit wi \<noteq> Some ConvergenceDetected" and "store_ok rs"
    and "find_record rs (rn_issueId run) = Some r" and "rc_maxFailureRetries env \<le> io_failureRetryCount r + 1"
    and "0 \<le> io_failureRetryCount r"
    and issue: "ti_id issue = rn_issueId run" "ti_state issue = rn_issueState run"
    and unique: "\<forall>q \<in> set (ro_records out). io_identifier q = ti_identifier issue \<longrightarrow> io_issueId q = ti_id issue"
    and st: "ds_records st = ro_records out" "de_maxFailureRetries denv issue = rc_maxFailureRetries env"
  shows "dispatch_candidate denv issue st = Inr st"
proof -
  from incomplete_exhausted [OF assms(1-3,5,6)] obtain r' where r':
    "find_record (ro_records out) (ti_id issue) = Some r'" "io_retryEntry r' = None"
    "io_failureRetryCount r' = io_failureRetryCount r + 1"
    "io_failureRetrySuppressedState r' = Some (Some (rn_issueState run))" using issue(1) by auto
  have "writes_only (rn_issueId run) rs (reconcile_incomplete env t wi run rwt rs progress)"
    by (rule reconcile_incomplete_writes)
  with assms(1,4) have "store_ok (ro_records out)" by (auto simp: writes_only_def dest: touches_valid)
  from find_unique_record [OF this r'(1) unique] have rec: "record_for_issue (ds_records st) issue = Some r'"
    by (simp add: st)
  have "isFailureRetrySuppressedIssue (de_maxFailureRetries denv issue) issue (ds_records st) latest" for latest
    using r' assms(6,7) issue(2)
    by (auto simp: isFailureRetrySuppressedIssue_def rec st(2) isFailureRetryRearmedIssue_def isFailureRetryRearmedForState_def
        isFailureRetrySuppressedForState_def resolveFailureRetrySuppressedState_def)
  then have "candidate_gate denv st issue = GatePass"
    by (simp add: candidate_gate_def rec r')
  then show ?thesis by (simp add: dispatch_candidate_def)
qed

section \<open>A postponed retry\<close>

text \<open>
  A retry postponed for want of a slot keeps its place: the attempt, the due time and the
  failure count of the queue entry are unchanged, and the run stays the issue's current run.
\<close>

theorem postponed_retry_keeps_its_place:
  assumes "requeueRetryingRun env run rs reason False False = Inr out"
    and "record_of_run rs run = Some r" and "io_issueId r = rn_issueId run" and "io_retryEntry r = Some e"
    and "parseTimestampMs (Some (re_dueAt e)) \<noteq> None"
  shows "\<exists>r' e'. find_record (ro_records out) (rn_issueId run) = Some r' \<and> io_state r' = RetryQueued \<and>
     io_currentRunId r' = Some (rn_runId run) \<and> io_failureRetryCount r' = io_failureRetryCount r \<and>
     io_retryEntry r' = Some e' \<and> re_attempt e' = re_attempt e \<and> re_dueAt e' = re_dueAt e"
  using assms
  by (auto simp: requeueRetryingRun_def Let_def rbind_Inr_iff planRetryRequeue_def resolveRetryRequeue_def entry_of_def
      records.write_look merged_record_def parseTimestampMs_def nonempty_def)

section \<open>Sample reconciliations\<close>

definition sample_reconcile_env :: reconcile_env where
  "sample_reconcile_env =
     \<lparr>rc_now = 0, rc_liveOwner = False, rc_processRunning = False, rc_stored = None, rc_pendingExit = None,
      rc_retryPolicy = None, rc_stallTimeoutMs = None, rc_backoffMs = 1000, rc_maxFailureRetries = 2,
      rc_concurrency = 2, rc_pollIntervalMs = 30000, rc_hookFault = None,
      rc_workflow = WfUsable DEFAULT_WORKFLOW_LIFECYCLE, rc_tracker = TrIssues [sample_issue ''a''],
      rc_candidates = TrIssues [sample_issue ''a''], rc_recovery = None, rc_trackerRecovery = (False, None),
      rc_start = Started ((sample_run (sample_issue ''a''))\<lparr>rn_runId := ''run2''\<rparr>), rc_workspaceKey = ''w''\<rparr>"

definition sample_retrying :: run_record where
  "sample_retrying = (sample_run (sample_issue ''a''))\<lparr>rn_status := RunRetrying,
     rn_nextRetryAt := Some ''1970-01-01T00:00:00.000Z''\<rparr>"

definition sample_entry :: retry_entry where
  "sample_entry = \<lparr>re_attempt = 2, re_dueAt = ''1970-01-01T00:00:00.000Z'', re_error = None\<rparr>"

definition sample_queued :: issue_orch where
  "sample_queued = (sample_record ''a'' RetryQueued (Some ''run''))\<lparr>io_retryEntry := Some sample_entry\<rparr>"

definition sample_restart :: "reconcile_outcome result" where
  "sample_restart = reconcileRun sample_reconcile_env sample_retrying [sample_queued]"

lemma sample_restart_value:
  "case sample_restart of Inl _ \<Rightarrow> False | Inr out \<Rightarrow> ro_recovered out"
  by code_simp

definition sample_failed :: worker_info where
  "sample_failed = fetchWorkerRunInfo (sample_run (sample_issue ''a'')) None (Some (Some 1, None))"

definition sample_exhausted :: "reconcile_outcome result" where
  "sample_exhausted = reconcile_incomplete sample_reconcile_env ''t'' sample_failed (sample_run (sample_issue ''a''))
     (run_with_tokens (sample_run (sample_issue ''a'')) sample_failed) [sample_record ''a'' Running (Some ''run'')] None"

lemma sample_exhausted_value:
  "case sample_exhausted of Inl _ \<Rightarrow> False | Inr out \<Rightarrow> length (ro_records out) = 1 \<and>  map io_issueId (ro_records out) = [''a'']"
  by code_simp


lemma sample_restart_runs:
  obtains out where "reconcileRun sample_reconcile_env sample_retrying [sample_queued] = Inr out" "ro_recovered out"
  using sample_restart_value by (cases sample_restart) (auto simp: sample_restart_def)

lemma sample_reconcile_ok: "start_for sample_retrying (rc_start sample_reconcile_env)" "store_ok [sample_queued]"
  by (simp_all add: start_for_def sample_reconcile_env_def sample_retrying_def sample_run_def store_ok_def)

lemma reconcile_frame_witness:
  "\<exists>out. reconcileRun sample_reconcile_env sample_retrying [sample_queued] = Inr out \<and> store_ok (ro_records out)"
proof -
  obtain out where out: "reconcileRun sample_reconcile_env sample_retrying [sample_queued] = Inr out"
    by (rule sample_restart_runs)
  from reconcile_frame [OF this sample_reconcile_ok] out show ?thesis by blast
qed

lemma restart_requires_eligibility_witness: "may_restart sample_reconcile_env sample_retrying [sample_queued]"
proof -
  obtain out where "reconcileRun sample_reconcile_env sample_retrying [sample_queued] = Inr out" "ro_recovered out"
    by (rule sample_restart_runs)
  then show ?thesis by (rule restart_requires_eligibility)
qed

definition sample_superseded :: "reconcile_outcome result" where
  "sample_superseded =
     reconcileRun sample_reconcile_env sample_retrying [sample_record ''a'' Running (Some ''other'')]"

lemma sample_superseded_value:
  "is_ok sample_superseded"
  "superseded_by [sample_record ''a'' Running (Some ''other'')] sample_retrying = Some ''other''"
  by code_simp+

lemma superseded_run_is_inert_witness:
  "\<exists>out. reconcileRun sample_reconcile_env sample_retrying [sample_record ''a'' Running (Some ''other'')] = Inr out \<and>
     ro_records out = [sample_record ''a'' Running (Some ''other'')] \<and> (\<exists>r. SaveRun r \<in> set (ro_effects out))"
proof -
  obtain out where
    out: "reconcileRun sample_reconcile_env sample_retrying [sample_record ''a'' Running (Some ''other'')] = Inr out"
    using sample_superseded_value(1) by (cases sample_superseded) (auto simp: sample_superseded_def)
  have "\<not> rc_liveOwner sample_reconcile_env" by (simp add: sample_reconcile_env_def)
  with superseded_run_is_inert [OF out sample_superseded_value(2)] out show ?thesis by blast
qed

definition sample_dispatch_env :: dispatch_env where
  "sample_dispatch_env = sample_dispatcher\<lparr>de_maxFailureRetries := (\<lambda>_. 2)\<rparr>"

lemma exhausted_issue_is_not_redispatched_witness:
  "\<exists>out. sample_exhausted = Inr out \<and>
     (let st = initial_state 5 [] (ro_records out) in dispatch_candidate sample_dispatch_env (sample_issue ''a'') st = Inr st)"
proof -
  obtain out where out: "sample_exhausted = Inr out" and ids: "map io_issueId (ro_records out) = [''a'']"
    using sample_exhausted_value by (auto split: sum.splits)
  let ?r = "sample_record ''a'' Running (Some ''run'')" and ?run = "sample_run (sample_issue ''a'')"
  have abnormal: "abnormal_exit sample_failed (run_with_tokens ?run sample_failed)"
    "wi_exit sample_failed \<noteq> Some ConvergenceDetected" by code_simp+
  have rec: "find_record [?r] (rn_issueId ?run) = Some ?r" "store_ok [?r]"
    by (simp_all add: find_record_def sample_record_def sample_run_def sample_issue_def store_ok_def)
  have limits: "rc_maxFailureRetries sample_reconcile_env \<le> io_failureRetryCount ?r + 1" "0 \<le> io_failureRetryCount ?r"
    by (simp_all add: sample_reconcile_env_def sample_record_def)
  have issue: "ti_id (sample_issue ''a'') = rn_issueId ?run" "ti_state (sample_issue ''a'') = rn_issueState ?run"
    by (simp_all add: sample_run_def)
  have unique: "\<forall>q \<in> set (ro_records out). io_identifier q = ti_identifier (sample_issue ''a'') \<longrightarrow> io_issueId q = ti_id (sample_issue ''a'')"
    using ids by (auto simp: sample_issue_def map_eq_Cons_conv)
  have st: "ds_records (initial_state 5 [] (ro_records out)) = ro_records out"
    "de_maxFailureRetries sample_dispatch_env (sample_issue ''a'') = rc_maxFailureRetries sample_reconcile_env"
    by (simp_all add: initial_state_def sample_dispatch_env_def sample_dispatcher_def sample_reconcile_env_def)
  from exhausted_issue_is_not_redispatched [OF out [unfolded sample_exhausted_def] abnormal rec(2,1) limits issue unique st]
  show ?thesis unfolding Let_def by (intro exI [of _ out] conjI out)
qed

definition sample_postponed :: "reconcile_outcome result" where
  "sample_postponed = requeueRetryingRun sample_reconcile_env sample_retrying [sample_queued] ''no slot'' False False"

lemma sample_postponed_value:
  "is_ok sample_postponed" "record_of_run [sample_queued] sample_retrying = Some sample_queued"
  "parseTimestampMs (Some (re_dueAt sample_entry)) \<noteq> None"
  by code_simp+

lemma postponed_retry_keeps_its_place_witness:
  "\<exists>out r' e'. sample_postponed = Inr out \<and> find_record (ro_records out) ''a'' = Some r' \<and> io_retryEntry r' = Some e' \<and>
     re_attempt e' = 2"
proof -
  obtain out where out: "sample_postponed = Inr out"
    using sample_postponed_value(1) by (auto simp: is_ok_def split: sum.splits)
  have "io_issueId sample_queued = rn_issueId sample_retrying" "io_retryEntry sample_queued = Some sample_entry"
    "rn_issueId sample_retrying = ''a''" "re_attempt sample_entry = 2"
    by (simp_all add: sample_queued_def sample_record_def sample_retrying_def sample_run_def sample_issue_def sample_entry_def)
  with postponed_retry_keeps_its_place [OF out [unfolded sample_postponed_def] sample_postponed_value(2) _ _ sample_postponed_value(3)] out
  show ?thesis by auto
qed

end
