(* ===== verification/Tick.thy ===== *)
theory Tick
  imports Reconcile
begin

text \<open>
  The reconciliation half of a tick, \<open>OrchestratorService.reconcileProject\<close> of
  \<open>packages/orchestrator/src/service.ts\<close>: the choice of the current run of every issue
  (\<open>selectCurrentRunsForReconciliation\<close>) and the loop over the active runs.
\<close>

section \<open>The current run of an issue\<close>

text \<open>Live runs first, then the most recent activity, then the run id.\<close>

definition run_activity :: "run_record \<Rightarrow> int option" where
  "run_activity r = parseTimestampMs (orElse (rn_lastEventAt r) (Some (rn_updatedAt r)))"

definition selection_cmp ::
  "(string \<Rightarrow> string \<Rightarrow> int) \<Rightarrow> (run_record \<Rightarrow> bool) \<Rightarrow> run_record \<Rightarrow> run_record \<Rightarrow> int" where
  "selection_cmp localeCompare live l r =
     (if live l \<noteq> live r then (if live l then -1 else 1)
      else if run_activity l \<noteq> run_activity r
      then (case (run_activity l, run_activity r) of
              (Some a, Some b) \<Rightarrow> b - a
            | (None, _) \<Rightarrow> 1
            | (_, None) \<Rightarrow> -1)
      else localeCompare (rn_runId l) (rn_runId r))"

definition runs_of_issue :: "run_record list \<Rightarrow> string \<Rightarrow> run_record list" where
  "runs_of_issue activeRuns i = filter (\<lambda>r. rn_issueId r = i) activeRuns"

definition has_current_run :: "issue_orch list \<Rightarrow> run_record list \<Rightarrow> string \<Rightarrow> bool" where
  "has_current_run rs activeRuns i =
     (case find_record rs i of
        None \<Rightarrow> False
      | Some r \<Rightarrow> nonempty (io_currentRunId r) \<and>
                  list_ex (\<lambda>q. io_currentRunId r = Some (rn_runId q)) (runs_of_issue activeRuns i))"

definition selection_update :: "(run_record \<Rightarrow> string) \<Rightarrow> string \<Rightarrow> issue_orch option \<Rightarrow> run_record \<Rightarrow> bool \<Rightarrow> orch_update" where
  "selection_update workspaceKey nowText issueRecord run isLive =
     \<lparr>ou_issueId = rn_issueId run, ou_identifier = rn_issueIdentifier run,
      ou_workspaceKey = getOr (orElse (rn_issueWorkspaceKey run) (map_option io_workspaceKey issueRecord))
                          (workspaceKey run),
      ou_completedOnce = None, ou_failureRetryCount = None, ou_failureRetrySuppressedState = None,
      ou_state = getOr (map_option io_state issueRecord)
                   (if isLive \<or> rn_status run \<noteq> RunRetrying then Running else RetryQueued),
      ou_currentRunId = Some (rn_runId run), ou_retryEntry = entry_of issueRecord, ou_updatedAt = nowText\<rparr>"

definition select_issue ::
  "(string \<Rightarrow> string \<Rightarrow> int) \<Rightarrow> (run_record \<Rightarrow> bool) \<Rightarrow> (run_record \<Rightarrow> string) \<Rightarrow> int \<Rightarrow> run_record list \<Rightarrow> string \<Rightarrow>
     issue_orch list \<Rightarrow> issue_orch list result" where
  "select_issue localeCompare live workspaceKey now activeRuns i rs =
     (if has_current_run rs activeRuns i then Inr rs
      else case js_sort (selection_cmp localeCompare live) (runs_of_issue activeRuns i) of
             [] \<Rightarrow> Inr rs
           | run # _ \<Rightarrow>
               rbind (toISOString now) (\<lambda>nowText.
                 upsertIssueOrchestration rs
                   (selection_update workspaceKey nowText (find_record rs i) run (live run))))"

fun select_issues ::
  "(string \<Rightarrow> string \<Rightarrow> int) \<Rightarrow> (run_record \<Rightarrow> bool) \<Rightarrow> (run_record \<Rightarrow> string) \<Rightarrow> int \<Rightarrow> run_record list \<Rightarrow> string list \<Rightarrow>
     issue_orch list \<Rightarrow> issue_orch list result" where
  "select_issues localeCompare live workspaceKey now activeRuns [] rs = Inr rs"
| "select_issues localeCompare live workspaceKey now activeRuns (i # is) rs =
     rbind (select_issue localeCompare live workspaceKey now activeRuns i rs)
       (select_issues localeCompare live workspaceKey now activeRuns is)"

definition selectCurrentRunsForReconciliation ::
  "(string \<Rightarrow> string \<Rightarrow> int) \<Rightarrow> (run_record \<Rightarrow> bool) \<Rightarrow> (run_record \<Rightarrow> string) \<Rightarrow> int \<Rightarrow> run_record list \<Rightarrow>
     issue_orch list \<Rightarrow> issue_orch list result" where
  "selectCurrentRunsForReconciliation localeCompare live workspaceKey now activeRuns rs =
     select_issues localeCompare live workspaceKey now activeRuns (set_of_list (map rn_issueId activeRuns)) rs"

section \<open>The loop over active runs\<close>

record tick_state =
  tk_records :: "issue_orch list"
  tk_lastError :: "string option"
  tk_warnings :: "string list"
  tk_recovered :: nat
  tk_effects :: "effect list"

definition tick_step :: "(run_record \<Rightarrow> reconcile_env) \<Rightarrow> run_record \<Rightarrow> tick_state \<Rightarrow> tick_state result" where
  "tick_step env run st =
     rbind (reconcileRun (env run) run (tk_records st)) (\<lambda>out.
       Inr \<lparr>tk_records = ro_records out, tk_lastError = orElse (ro_lastError out) (tk_lastError st),
            tk_warnings = tk_warnings st @ ro_warnings out,
            tk_recovered = tk_recovered st + (if ro_recovered out then 1 else 0),
            tk_effects = tk_effects st @ ro_effects out\<rparr>)"

fun tick_runs :: "(run_record \<Rightarrow> reconcile_env) \<Rightarrow> run_record list \<Rightarrow> tick_state \<Rightarrow> tick_state result" where
  "tick_runs env [] st = Inr st"
| "tick_runs env (run # runs) st = rbind (tick_step env run st) (tick_runs env runs)"

definition reconcile_active ::
  "(string \<Rightarrow> string \<Rightarrow> int) \<Rightarrow> (run_record \<Rightarrow> bool) \<Rightarrow> (run_record \<Rightarrow> string) \<Rightarrow> int \<Rightarrow> (run_record \<Rightarrow> reconcile_env) \<Rightarrow>
     run_record list \<Rightarrow> issue_orch list \<Rightarrow> tick_state result" where
  "reconcile_active localeCompare live workspaceKey now env allRuns rs =
     (let activeRuns = filter (\<lambda>r. isActiveRunRecordStatus (rn_status r)) allRuns
      in rbind (selectCurrentRunsForReconciliation localeCompare live workspaceKey now activeRuns rs) (\<lambda>rs1.
           tick_runs env (sortRunsForReconciliation activeRuns now)
             \<lparr>tk_records = rs1, tk_lastError = None, tk_warnings = [], tk_recovered = 0, tk_effects = []\<rparr>))"

section \<open>Every active issue has a current run\<close>

lemma selection_update_simps [simp]:
  "ou_issueId (selection_update k t rec run l) = rn_issueId run"
  "ou_currentRunId (selection_update k t rec run l) = Some (rn_runId run)"
  by (simp_all add: selection_update_def)

lemma has_current_run_cong:
  "find_record rs' i = find_record rs i \<Longrightarrow> has_current_run rs' activeRuns i = has_current_run rs activeRuns i"
  by (simp add: has_current_run_def)

lemma select_issue_touches: "select_issue lc live k now runs i rs = Inr rs' \<Longrightarrow> touches i rs rs'"
proof (cases "js_sort (selection_cmp lc live) (runs_of_issue runs i)")
  case (Cons run rest)
  then have "run \<in> set (runs_of_issue runs i)" by (metis list.set_intros(1) set_js_sort)
  then have "rn_issueId run = i" by (simp add: runs_of_issue_def)
  with Cons show "select_issue lc live k now runs i rs = Inr rs' \<Longrightarrow> ?thesis"
    by (auto simp: select_issue_def rbind_Inr_iff split: if_splits intro: touches_upsert)
qed (auto simp: select_issue_def split: if_splits)

lemma select_issue_current:
  assumes "select_issue lc live k now runs i rs = Inr rs'" and "runs_of_issue runs i \<noteq> []"
    and "\<forall>r \<in> set runs. rn_runId r \<noteq> []"
  shows "has_current_run rs' runs i"
proof (cases "has_current_run rs runs i")
  case True
  with assms(1) show ?thesis by (simp add: select_issue_def)
next
  case False
  obtain run rest where run: "js_sort (selection_cmp lc live) (runs_of_issue runs i) = run # rest"
    using assms(2) by (metis list.exhaust length_0_conv length_js_sort)
  then have "run \<in> set (runs_of_issue runs i)" by (metis list.set_intros(1) set_js_sort)
  then have r: "rn_issueId run = i" "run \<in> set runs" by (auto simp: runs_of_issue_def)
  from assms(1) False run obtain t where
    "upsertIssueOrchestration rs (selection_update k t (find_record rs i) run (live run)) = Inr rs'"
    by (auto simp: select_issue_def rbind_Inr_iff)
  from records.write_look [OF this, of i] r(1) assms(3) r(2) \<open>run \<in> set (runs_of_issue runs i)\<close>
  show ?thesis by (auto simp: has_current_run_def merged_record_def nonempty_def list_ex_iff)
qed

lemma select_issues_current:
  assumes "select_issues lc live k now runs is rs = Inr rs'" and "distinct is"
    and "\<forall>i \<in> set is. runs_of_issue runs i \<noteq> []" and "\<forall>r \<in> set runs. rn_runId r \<noteq> []"
  shows "(\<forall>i \<in> set is. has_current_run rs' runs i) \<and> (\<forall>j. j \<notin> set is \<longrightarrow> find_record rs' j = find_record rs j) \<and>
         (store_ok rs \<longrightarrow> store_ok rs')"
  using assms
proof (induction "is" arbitrary: rs)
  case Nil
  then show ?case by simp
next
  case (Cons i "is")
  then obtain rs1 where rs1: "select_issue lc live k now runs i rs = Inr rs1"
    and rest: "select_issues lc live k now runs is rs1 = Inr rs'" by (auto simp: rbind_Inr_iff)
  note t = select_issue_touches [OF rs1]
  from Cons.prems have p: "distinct is" "\<forall>i \<in> set is. runs_of_issue runs i \<noteq> []" "\<forall>r \<in> set runs. rn_runId r \<noteq> []"
    by simp_all
  from Cons.IH [OF rest p] have IH: "\<forall>i \<in> set is. has_current_run rs' runs i"
    "\<forall>j. j \<notin> set is \<longrightarrow> find_record rs' j = find_record rs1 j" "store_ok rs1 \<longrightarrow> store_ok rs'" by blast+
  from Cons.prems(3,4) have "runs_of_issue runs i \<noteq> []" "\<forall>r \<in> set runs. rn_runId r \<noteq> []" by simp_all
  from select_issue_current [OF rs1 this] have current: "has_current_run rs1 runs i" .
  from IH(2) Cons.prems(2) have "find_record rs' i = find_record rs1 i" by simp
  from has_current_run_cong [OF this] current have "has_current_run rs' runs i" by simp
  moreover have "find_record rs' j = find_record rs j" if "j \<notin> set (i # is)" for j
    using that IH(2) touches_frame [OF t, of j] by simp
  moreover have "store_ok rs \<longrightarrow> store_ok rs'" using touches_valid [OF t] IH(3) by blast
  ultimately show ?case using IH(1) by auto
qed

lemma selection_current_runs:
  assumes "selectCurrentRunsForReconciliation lc live k now runs rs = Inr rs'" and "\<forall>r \<in> set runs. rn_runId r \<noteq> []"
    and "store_ok rs"
  shows "store_ok rs' \<and>
    (\<forall>run \<in> set runs. \<exists>q \<in> set runs. rn_issueId q = rn_issueId run \<and> superseded_by rs' q = None \<and>
       (\<forall>q' \<in> set runs. rn_issueId q' = rn_issueId run \<longrightarrow> rn_runId q' \<noteq> rn_runId q \<longrightarrow>
          superseded_by rs' q' = Some (rn_runId q))) \<and>
    (\<forall>j. j \<notin> rn_issueId ` set runs \<longrightarrow> find_record rs' j = find_record rs j)"
proof -
  have all: "(\<forall>i \<in> rn_issueId ` set runs. has_current_run rs' runs i) \<and>
      (\<forall>j. j \<notin> rn_issueId ` set runs \<longrightarrow> find_record rs' j = find_record rs j) \<and> (store_ok rs \<longrightarrow> store_ok rs')"
    using select_issues_current [OF assms(1) [unfolded selectCurrentRunsForReconciliation_def] _ _ assms(2)]
    by (fastforce simp: runs_of_issue_def filter_empty_conv)
  have "\<exists>q \<in> set runs. rn_issueId q = i \<and> superseded_by rs' q = None \<and>
       (\<forall>q' \<in> set runs. rn_issueId q' = i \<longrightarrow> rn_runId q' \<noteq> rn_runId q \<longrightarrow> superseded_by rs' q' = Some (rn_runId q))"
    if "has_current_run rs' runs i" for i
  proof -
    from that obtain r q where "find_record rs' i = Some r" "io_currentRunId r = Some (rn_runId q)"
      "q \<in> set runs" "rn_issueId q = i"
      by (auto simp: has_current_run_def runs_of_issue_def list_ex_iff split: option.splits)
    with assms(2) show ?thesis
      by (intro bexI [of _ q]) (auto simp: superseded_by_def nonempty_def)
  qed
  with all assms(3) show ?thesis by blast
qed

section \<open>One worker per issue\<close>

definition recovers_via :: "(issue_orch list \<Rightarrow> bool) \<Rightarrow> reconcile_outcome result \<Rightarrow> bool" where
  "recovers_via P m \<longleftrightarrow> (\<forall>out. m = Inr out \<longrightarrow> ro_recovered out \<longrightarrow> P (ro_records out))"

lemma recovers_via_none: "no_recovery m \<Longrightarrow> recovers_via P m"
  by (simp add: no_recovery_def recovers_via_def)

lemma recovers_via_rbind: "(\<And>x. recovers_via P (f x)) \<Longrightarrow> recovers_via P (rbind m f)"
  by (cases m) (auto simp: recovers_via_def)

lemma recovers_via_after [simp]: "recovers_via P (after_effects fx m) = recovers_via P m"
  by (cases m) (auto simp: recovers_via_def after_effects_def)

lemma reconcileRun_recovers_via:
  assumes "recovers_via P (restartRun env run rs)"
  shows "recovers_via P (reconcileRun env run rs)"
proof -
  have "recovers_via P (reconcile_retry env run rwt rs)" for rwt
    using assms by (auto simp: reconcile_retry_def recovers_via_none split: option.split restart_action.split)
  then have "recovers_via P (reconcile_stopped env run rs)"
    by (simp add: reconcile_stopped_def Let_def recovers_via_none)
  then show ?thesis by (simp add: reconcileRun_def recovers_via_none split: option.split)
qed

lemma handleRestartRunFailure_no_recovery [simp]: "no_recovery (handleRestartRunFailure env run rs n d p s)"
  unfolding handleRestartRunFailure_def Let_def by (intro no_recovery_rbind) simp

lemma restartRun_current:
  assumes "rc_start env = Started r"
  shows "recovers_via (\<lambda>rs'. \<exists>q. find_record rs' (rn_issueId r) = Some q \<and> io_currentRunId q = Some (rn_runId r))
           (restartRun env run rs)"
proof -
  have written: "\<exists>q. find_record rs' (rn_issueId r) = Some q \<and> io_currentRunId q = Some (rn_runId r)"
    if "prepare_restart env t rs1 (recovered_record run r) = Inr rs'" for t rs1 rs'
    using that by (auto simp: prepare_restart_def recovered_record_def records.write_look merged_record_def)
  have "recovers_via (\<lambda>rs'. \<exists>q. find_record rs' (rn_issueId r) = Some q \<and> io_currentRunId q = Some (rn_runId r))
      (case prepare_restart env t rs r of
         Inl e \<Rightarrow> after_effects (fx e) (handleRestartRunFailure env run rs False e (Some r) s)
       | Inr rs1 \<Rightarrow> rbind (prepare_restart env t rs1 (recovered_record run r)) (\<lambda>rs2. Inr (out rs1 rs2)))"
    if "\<And>rs1 rs2. ro_records (out rs1 rs2) = rs2" for t s fx out
  proof (cases "prepare_restart env t rs r")
    case (Inl e)
    then show ?thesis by (simp add: recovers_via_none)
  next
    case (Inr rs1)
    then show ?thesis by (auto simp: recovers_via_def rbind_Inr_iff that dest: written)
  qed
  then show ?thesis unfolding restartRun_def Let_def assms
    by (intro recovers_via_rbind) simp
qed

text \<open>
  Once a reconciliation has restarted the worker of an issue, every other run of that issue
  counts as superseded by the restarted one, so none of them is restarted in its place.
\<close>

theorem restart_excludes_other_runs:
  assumes "reconcileRun env run rs = Inr out" and "ro_recovered out" and "rc_start env = Started r"
    and "rn_issueId r = rn_issueId run" and "rn_runId r \<noteq> []"
    and "rn_issueId other = rn_issueId run" and "rn_runId other \<noteq> rn_runId r"
  shows "superseded_by (ro_records out) other = Some (rn_runId r)"
proof -
  from reconcileRun_recovers_via [OF restartRun_current [OF assms(3)]] assms(1,2) obtain q where
    "find_record (ro_records out) (rn_issueId r) = Some q" "io_currentRunId q = Some (rn_runId r)"
    unfolding recovers_via_def by blast
  with assms(4-7) show ?thesis by (simp add: superseded_by_def nonempty_def)
qed

lemma set_sortRuns: "set (sortRunsForReconciliation runs now) = set runs"
  by (auto simp: sortRunsForReconciliation_def set_zip image_iff) (metis in_set_conv_nth)

section \<open>The whole loop\<close>

lemma tick_runs_frame:
  assumes "tick_runs env runs st = Inr st'" and "\<forall>run \<in> set runs. start_for run (rc_start (env run))"
    and "store_ok (tk_records st)"
  shows "store_ok (tk_records st') \<and>
     (\<forall>j. j \<notin> rn_issueId ` set runs \<longrightarrow> find_record (tk_records st') j = find_record (tk_records st) j)"
  using assms
proof (induction runs arbitrary: st)
  case Nil
  then show ?case by simp
next
  case (Cons run runs)
  then obtain st1 where step: "tick_step env run st = Inr st1" and rest: "tick_runs env runs st1 = Inr st'"
    by (auto simp: rbind_Inr_iff)
  from step obtain out where out: "reconcileRun (env run) run (tk_records st) = Inr out"
    and st1: "tk_records st1 = ro_records out"
    by (auto simp: tick_step_def rbind_Inr_iff)
  have "writes_only (rn_issueId run) (tk_records st) (reconcileRun (env run) run (tk_records st))"
    using Cons.prems(2) by (intro reconcileRun_writes) simp
  with out have t: "touches (rn_issueId run) (tk_records st) (ro_records out)" by (simp add: writes_only_def)
  from Cons.IH [OF rest] Cons.prems(2) touches_valid [OF t Cons.prems(3)] st1 touches_frame [OF t]
  show ?case by auto
qed

text \<open>
  The reconciliation half of a tick keeps the record list well-formed and leaves the record of
  every issue without an active run as it was.
\<close>

theorem tick_frame:
  assumes "reconcile_active lc live k now env allRuns rs = Inr st" and "store_ok rs"
    and "\<forall>run \<in> set allRuns. rn_runId run \<noteq> [] \<and> start_for run (rc_start (env run))"
    and "\<forall>run \<in> set allRuns. rn_issueId run = j \<longrightarrow> \<not> isActiveRunRecordStatus (rn_status run)"
  shows "store_ok (tk_records st) \<and> find_record (tk_records st) j = find_record rs j"
proof -
  let ?active = "filter (\<lambda>r. isActiveRunRecordStatus (rn_status r)) allRuns"
  from assms(1) obtain rs1 where
    sel: "selectCurrentRunsForReconciliation lc live k now ?active rs = Inr rs1" and
    run: "tick_runs env (sortRunsForReconciliation ?active now)
            \<lparr>tk_records = rs1, tk_lastError = None, tk_warnings = [], tk_recovered = 0, tk_effects = []\<rparr> = Inr st"
    by (auto simp: reconcile_active_def Let_def rbind_Inr_iff)
  have j: "j \<notin> rn_issueId ` set ?active" using assms(4) by auto
  from selection_current_runs [OF sel _ assms(2)] assms(3) j
  have "store_ok rs1" "find_record rs1 j = find_record rs j" by auto
  with tick_runs_frame [OF run] assms(3) j show ?thesis by (auto simp: set_sortRuns)
qed

section \<open>A live run of a released issue\<close>

text \<open>
  C40. A run whose worker is alive while the record of its issue is released without a current run
  makes its reconciliation throw: the running state is written without a claim, which the state
  machine refuses.
\<close>

theorem live_run_of_released_issue_throws:
  assumes "find_record rs (rn_issueId run) = Some r" and "io_state r = Released" and "io_currentRunId r = None"
    and "rc_processRunning env" and "\<not> is_stalled env run" and "\<bar>rc_now env\<bar> \<le> max_time"
  shows "reconcileRun env run rs = Inl ''Invalid issue orchestration transition: released -> running''"
proof -
  have "superseded_by rs run = None" using assms(1,3) by (simp add: superseded_by_def nonempty_def)
  moreover have "toISOString (rc_now env) = Inr (iso_text (rc_now env))" using assms(6) by (simp add: toISOString_Inr)
  ultimately show ?thesis using assms
    by (simp add: reconcileRun_def reconcile_running_def upsertIssueOrchestration_def)
qed

text \<open>
  C8. The selection before the loop gives every issue with active runs exactly one run that is not
  superseded among its active runs, all the others are superseded by it, and no other issue's
  record changes.
\<close>

theorem selection_gives_current_runs:
  assumes "selectCurrentRunsForReconciliation lc live k now runs rs = Inr rs'" and "\<forall>r \<in> set runs. rn_runId r \<noteq> []"
    and "store_ok rs"
  shows "store_ok rs' \<and>
    (\<forall>run \<in> set runs. \<exists>q \<in> set runs. rn_issueId q = rn_issueId run \<and> superseded_by rs' q = None \<and>
       (\<forall>q' \<in> set runs. rn_issueId q' = rn_issueId run \<longrightarrow> rn_runId q' \<noteq> rn_runId q \<longrightarrow>
          superseded_by rs' q' = Some (rn_runId q))) \<and>
    (\<forall>j. j \<notin> rn_issueId ` set runs \<longrightarrow> find_record rs' j = find_record rs j)"
  using assms by (rule selection_current_runs)

section \<open>Sample ticks\<close>

definition sample_reconcilable :: "issue_orch list result" where
  "sample_reconcilable = selectCurrentRunsForReconciliation sgn_cmp (\<lambda>_. False) (\<lambda>_. ''w'') 0
     [sample_retrying, sample_retrying\<lparr>rn_runId := ''run1''\<rparr>] []"

lemma sample_reconcilable_value: "is_ok sample_reconcilable"
  by code_simp

lemma selection_gives_current_runs_witness:
  "\<exists>rs' q. sample_reconcilable = Inr rs' \<and> rn_issueId q = ''a'' \<and> superseded_by rs' q = None"
proof -
  obtain rs' where rs': "sample_reconcilable = Inr rs'"
    using sample_reconcilable_value by (auto simp: is_ok_def split: sum.splits)
  have ids: "\<forall>r \<in> set [sample_retrying, sample_retrying\<lparr>rn_runId := ''run1''\<rparr>]. rn_runId r \<noteq> []"
    "rn_issueId sample_retrying = ''a''" "store_ok []"
    by (simp_all add: sample_retrying_def sample_run_def sample_issue_def store_ok_def)
  have "sample_retrying \<in> set [sample_retrying, sample_retrying\<lparr>rn_runId := ''run1''\<rparr>]" by simp
  with selection_gives_current_runs [OF rs' [unfolded sample_reconcilable_def] ids(1,3)] ids(2) rs' show ?thesis by metis
qed

lemma restart_excludes_other_runs_witness:
  "\<exists>out. reconcileRun sample_reconcile_env sample_retrying [sample_queued] = Inr out \<and>
     superseded_by (ro_records out) sample_retrying = Some ''run2''"
proof -
  obtain out where out: "reconcileRun sample_reconcile_env sample_retrying [sample_queued] = Inr out" "ro_recovered out"
    by (rule sample_restart_runs)
  have "rc_start sample_reconcile_env = Started ((sample_run (sample_issue ''a''))\<lparr>rn_runId := ''run2''\<rparr>)"
    by (simp add: sample_reconcile_env_def)
  from restart_excludes_other_runs [OF out this, of sample_retrying] out show ?thesis
    by (simp add: sample_retrying_def sample_run_def)
qed

definition sample_tick :: "tick_state result" where
  "sample_tick = reconcile_active sgn_cmp (\<lambda>_. False) (\<lambda>_. ''w'') 0 (\<lambda>_. sample_reconcile_env) [sample_retrying]
     [sample_queued, sample_record ''b'' Released None]"

lemma sample_tick_value: "is_ok sample_tick"
  by code_simp

lemma tick_frame_witness:
  "\<exists>st. sample_tick = Inr st \<and> find_record (tk_records st) ''b'' = Some (sample_record ''b'' Released None)"
proof -
  obtain st where st: "sample_tick = Inr st"
    using sample_tick_value by (auto simp: is_ok_def split: sum.splits)
  have "store_ok [sample_queued, sample_record ''b'' Released None]"
    "\<forall>run \<in> set [sample_retrying]. rn_runId run \<noteq> [] \<and> start_for run (rc_start sample_reconcile_env)"
    "\<forall>run \<in> set [sample_retrying]. rn_issueId run = ''b'' \<longrightarrow> \<not> isActiveRunRecordStatus (rn_status run)"
    using sample_reconcile_ok
    by (simp_all add: store_ok_def sample_queued_def sample_record_def sample_retrying_def sample_run_def sample_issue_def)
  from tick_frame [OF st [unfolded sample_tick_def] this]
  have "find_record (tk_records st) ''b'' = Some (sample_record ''b'' Released None)"
    by (simp add: find_record_def sample_queued_def sample_record_def)
  then show ?thesis by (intro exI [of _ st] conjI st)
qed

lemma live_run_of_released_issue_throws_witness:
  "reconcileRun (sample_reconcile_env\<lparr>rc_processRunning := True\<rparr>) (sample_run (sample_issue ''a''))
     [sample_record ''a'' Released None] = Inl ''Invalid issue orchestration transition: released -> running''"
proof (rule live_run_of_released_issue_throws)
  show "find_record [sample_record ''a'' Released None] (rn_issueId (sample_run (sample_issue ''a''))) =
      Some (sample_record ''a'' Released None)"
    by (simp add: find_record_def sample_record_def sample_run_def sample_issue_def)
  show "\<not> is_stalled (sample_reconcile_env\<lparr>rc_processRunning := True\<rparr>) (sample_run (sample_issue ''a''))" by code_simp
qed (simp_all add: sample_record_def sample_reconcile_env_def max_time_def)

end
