(* ===== verification/TurnLease.thy ===== *)
theory TurnLease
  imports Numbers Orchestration
begin

text \<open>
  Turn leases and tracker refresh between turns: the worker side of
  \<open>packages/worker/src/turn-lease.ts\<close> and the orchestrator's endpoint
  \<open>acquireWorkerTurnLease\<close> of \<open>packages/orchestrator/src/service.ts\<close>. The HTTP call is
  the parameter \<open>fetchImpl\<close>: it answers a request with a response (a status, whether it is
  \<open>ok\<close>, the JSON body, \<open>null\<close> where the body does not parse) or throws.
\<close>

section \<open>Refresh failure counting\<close>

definition DEFAULT_REFRESH_FAILURE_THRESHOLD :: int where
  "DEFAULT_REFRESH_FAILURE_THRESHOLD = 3"

definition resolveRefreshFailureThreshold :: "string option \<Rightarrow> int" where
  "resolveRefreshFailureThreshold value =
     (case value of
        None \<Rightarrow> DEFAULT_REFRESH_FAILURE_THRESHOLD
      | Some s \<Rightarrow>
          if js_trim s = [] then DEFAULT_REFRESH_FAILURE_THRESHOLD
          else case as_safe_integer (js_number s) of
                 None \<Rightarrow> DEFAULT_REFRESH_FAILURE_THRESHOLD
               | Some parsed \<Rightarrow> if 0 < parsed then parsed else DEFAULT_REFRESH_FAILURE_THRESHOLD)"

datatype refresh_state = RsActive | RsNonActionable | RsUnsupported | RsUnknown

definition updateRefreshFailureCount :: "refresh_state \<Rightarrow> int \<Rightarrow> int \<Rightarrow> int \<times> bool" where
  "updateRefreshFailureCount state currentCount threshold =
     (let cnt = (if state = RsUnsupported then currentCount
                   else if state = RsUnknown then currentCount + 1 else 0)
      in (cnt, threshold \<le> cnt))"

datatype gate_action = GateContinue | GateDefer | GateConverge | GateComplete | GateFailClosed | GateSkip
datatype gate_context = BetweenTurn | Convergence

definition resolveTrackerRefreshGate ::
  "refresh_state \<Rightarrow> int \<Rightarrow> int \<Rightarrow> gate_context \<Rightarrow> gate_action \<times> int" where
  "resolveTrackerRefreshGate state currentCount threshold ctxt =
     (let (cnt, failClosed) = updateRefreshFailureCount state currentCount threshold
      in if state = RsNonActionable then (GateComplete, cnt)
         else if state = RsUnsupported then (if ctxt = Convergence then GateConverge else GateSkip, cnt)
         else if state = RsActive \<and> ctxt = Convergence then (GateConverge, cnt)
         else if state = RsUnknown \<and> ctxt = Convergence \<and> \<not> failClosed then (GateDefer, cnt)
         else (if failClosed then GateFailClosed else GateContinue, cnt))"

text \<open>The gate over successive reads: its last action, from a count.\<close>

fun gate_run :: "int \<Rightarrow> gate_context \<Rightarrow> int \<Rightarrow> refresh_state list \<Rightarrow> gate_action list \<times> int" where
  "gate_run threshold ctxt cnt [] = ([], cnt)"
| "gate_run threshold ctxt cnt (s # ss) =
     (let (a, c) = resolveTrackerRefreshGate s cnt threshold ctxt;
          (as, c') = gate_run threshold ctxt c ss
      in (a # as, c'))"

lemma gate_run_append:
  "gate_run t x c (ss @ ss') =
     (let (as, c1) = gate_run t x c ss; (as', c2) = gate_run t x c1 ss' in (as @ as', c2))"
  by (induction ss arbitrary: c) (auto simp: Let_def split: prod.splits)

lemma gate_run_unknowns:
  assumes "c + int n < threshold"
  shows "gate_run threshold BetweenTurn c (replicate n RsUnknown) = (replicate n GateContinue, c + int n)"
  using assms
  by (induction n arbitrary: c)
    (auto simp: resolveTrackerRefreshGate_def updateRefreshFailureCount_def Let_def)

section \<open>Reading the tracker state\<close>

record refresh_diagnostic =
  rd_message :: string
  rd_httpStatus :: "int option"
  rd_providerError :: "string option"
  rd_exceptionMessage :: "string option"

record refresh_result =
  rf_state :: refresh_state
  rf_diagnostic :: "refresh_diagnostic option"

record http_request =
  hq_url :: string
  hq_method :: string
  hq_headers :: "(string \<times> string) list"
  hq_body :: json

datatype http_outcome = HttpThrow string | HttpResponse (hr_ok: bool) (hr_status: int) (hr_body: json)

definition diag :: "string \<Rightarrow> refresh_result" where
  "diag message =
     \<lparr>rf_state = RsUnknown,
      rf_diagnostic = Some \<lparr>rd_message = message, rd_httpStatus = None, rd_providerError = None,
                            rd_exceptionMessage = None\<rparr>\<rparr>"

definition tracker_state_request :: "string \<Rightarrow> string \<Rightarrow> string \<Rightarrow> http_request" where
  "tracker_state_request orchestratorUrl runId apiToken =
     \<lparr>hq_url = orchestratorUrl @ ''/api/v1/tracker-state'', hq_method = ''POST'',
      hq_headers = [(''content-type'', ''application/json''), (''x-symphony-run-id'', runId),
                    (''x-symphony-orchestrator-token'', apiToken)],
      hq_body = JObj [(''type'', JStr ''state-read'')]\<rparr>"

definition read_tracker_response :: "string list \<Rightarrow> bool \<Rightarrow> int \<Rightarrow> json \<Rightarrow> refresh_result" where
  "read_tracker_response activeStates ok status body =
     (let providerError = jstring (jget body ''error'');
          shownError = (if providerError = Some [] then None else providerError);
          failed = (\<lambda>st msg. \<lparr>rf_state = st, rf_diagnostic = Some
             \<lparr>rd_message = msg, rd_httpStatus = Some status, rd_providerError = shownError,
              rd_exceptionMessage = None\<rparr>\<rparr>)
      in if \<not> ok then
           (if status = 403 \<and> providerError = Some ''tracker_state_requests_unsupported''
            then failed RsUnsupported ''tracker state requests unsupported''
            else failed RsUnknown ''tracker state request failed'')
         else
           (case (jget body ''ok'', jget body ''outcome'', jstring (jget body ''state''),
                  jbool (jget body ''routable'')) of
              (Some (JBool True), Some (JStr outcome), Some state, Some routable) \<Rightarrow>
                if outcome = ''confirmed''
                then \<lparr>rf_state = (if matchesWorkflowState state activeStates \<and> routable
                                  then RsActive else RsNonActionable),
                      rf_diagnostic = None\<rparr>
                else failed RsUnknown ''invalid tracker state response''
            | _ \<Rightarrow> failed RsUnknown ''invalid tracker state response''))"

definition refreshTrackerState ::
  "environment \<Rightarrow> string list \<Rightarrow> (http_request \<Rightarrow> http_outcome) \<Rightarrow> refresh_result" where
  "refreshTrackerState env activeStates fetchImpl =
     (let orchestratorUrl = getOr (env ''SYMPHONY_ORCHESTRATOR_URL'') [];
          runId = getOr (env ''SYMPHONY_RUN_ID'') [];
          apiToken = getOr (env ''SYMPHONY_ORCHESTRATOR_TOKEN'') []
      in if orchestratorUrl = [] then diag ''orchestrator endpoint not configured''
         else if runId = [] then diag ''worker run identity not configured''
         else if apiToken = [] then diag ''orchestrator token not configured''
         else case fetchImpl (tracker_state_request orchestratorUrl runId apiToken) of
                HttpThrow msg \<Rightarrow>
                  \<lparr>rf_state = RsUnknown,
                   rf_diagnostic = Some \<lparr>rd_message = ''tracker state request failed'', rd_httpStatus = None,
                                         rd_providerError = None, rd_exceptionMessage = Some msg\<rparr>\<rparr>
              | HttpResponse ok status body \<Rightarrow> read_tracker_response activeStates ok status body)"

fun refresh_state_name :: "refresh_state \<Rightarrow> string" where
  "refresh_state_name RsActive = ''active''"
| "refresh_state_name RsNonActionable = ''non-actionable''"
| "refresh_state_name RsUnsupported = ''unsupported''"
| "refresh_state_name RsUnknown = ''unknown''"

text \<open>\<open>value ? text : null\<close> of a string that may be absent or empty.\<close>

definition labelled :: "string \<Rightarrow> string option \<Rightarrow> string list" where
  "labelled label v = (case v of None \<Rightarrow> [] | Some s \<Rightarrow> if s = [] then [] else [label @ s])"

definition formatTrackerRefreshResult :: "refresh_result \<Rightarrow> string" where
  "formatTrackerRefreshResult result =
     (case rf_diagnostic result of
        None \<Rightarrow> refresh_state_name (rf_state result)
      | Some d \<Rightarrow>
          let details = [rd_message d] @
                (case rd_httpStatus d of None \<Rightarrow> [] | Some st \<Rightarrow> [''HTTP '' @ int_text st]) @
                labelled ''error='' (rd_providerError d) @ labelled ''exception='' (rd_exceptionMessage d)
          in refresh_state_name (rf_state result) @ '' ('' @ join '', '' details @ '')'')"

text \<open>\<open>reportTrackerRefresh\<close>: the lines written and whether the warning is now logged.\<close>

definition reportTrackerRefresh :: "refresh_result \<Rightarrow> string \<Rightarrow> bool \<Rightarrow> string list \<times> bool" where
  "reportTrackerRefresh result label unsupportedWarningLogged =
     (let line = ''[worker] '' @ label @ '': '' @ formatTrackerRefreshResult result @ [CHR 0x0A]
      in if rf_state result \<noteq> RsUnsupported \<or> unsupportedWarningLogged
         then ([line], unsupportedWarningLogged)
         else ([line, ''[worker] warning: tracker state refresh capability unavailable; skipping tracker gates and using local convergence signals'' @ [CHR 0x0A]], True))"

section \<open>Acquiring a lease: the worker\<close>

datatype lease_result = LeaseAcquired json | LeaseDenied json | LeaseUnavailable json

definition turn_lease_request :: "string \<Rightarrow> string \<Rightarrow> string \<Rightarrow> string \<Rightarrow> int \<Rightarrow> http_request" where
  "turn_lease_request orchestratorUrl issueId runId apiToken turn =
     \<lparr>hq_url = orchestratorUrl @ ''/api/v1/worker-turn-lease'', hq_method = ''POST'',
      hq_headers = [(''authorization'', ''Bearer '' @ apiToken), (''content-type'', ''application/json'')],
      hq_body = JObj [(''issueId'', JStr issueId), (''runId'', JStr runId), (''turn'', JNum (of_int turn))]\<rparr>"

definition reason_or :: "json \<Rightarrow> string \<Rightarrow> json" where
  "reason_or payload fallback =
     (if nullish (jget payload ''reason'') then JStr fallback else getOr (jget payload ''reason'') JNull)"

definition acquireTurnLease :: "environment \<Rightarrow> int \<Rightarrow> (http_request \<Rightarrow> http_outcome) \<Rightarrow> lease_result" where
  "acquireTurnLease env turn fetchImpl =
     (let orchestratorUrl = getOr (env ''SYMPHONY_ORCHESTRATOR_URL'') [];
          issueId = getOr (env ''SYMPHONY_ISSUE_ID'') [];
          runId = getOr (env ''SYMPHONY_RUN_ID'') [];
          apiToken = getOr (env ''SYMPHONY_ORCHESTRATOR_TOKEN'') []
      in if orchestratorUrl = [] \<or> issueId = [] \<or> runId = [] \<or> apiToken = []
         then LeaseUnavailable (JStr ''missing orchestrator URL, token, or worker run identity'')
         else case fetchImpl (turn_lease_request orchestratorUrl issueId runId apiToken turn) of
                HttpThrow msg \<Rightarrow> LeaseUnavailable (JStr msg)
              | HttpResponse ok status payload \<Rightarrow>
                  if \<not> ok then
                    (if status = 409 \<or> status = 403
                     then LeaseDenied (reason_or payload (''lease request rejected ('' @ int_text status @ '')''))
                     else LeaseUnavailable (reason_or payload (''lease endpoint returned '' @ int_text status)))
                  else if jget payload ''acquired'' \<noteq> Some (JBool True) \<or> \<not> truthy (jget payload ''expiresAt'')
                  then LeaseUnavailable (JStr ''invalid lease response'')
                  else LeaseAcquired (getOr (jget payload ''expiresAt'') JNull))"

section \<open>Granting a lease: the orchestrator\<close>

definition WORKER_TURN_LEASE_TTL_MS :: int where
  "WORKER_TURN_LEASE_TTL_MS = 15000"

datatype lease_grant = Granted string | Refused string

definition acquireWorkerTurnLease ::
  "issue_orch list \<Rightarrow> int \<Rightarrow> string \<Rightarrow> string \<Rightarrow> rat \<Rightarrow> lease_grant result" where
  "acquireWorkerTurnLease issueRecords now issueId runId turn =
     (case find_record issueRecords issueId of
        None \<Rightarrow> Inr (Refused ''issue_not_running'')
      | Some r \<Rightarrow>
          if io_state r \<noteq> Running then Inr (Refused ''issue_not_running'')
          else if io_currentRunId r \<noteq> Some runId then Inr (Refused ''run_not_current'')
          else (case as_safe_integer (Some turn) of
                  None \<Rightarrow> Inr (Refused ''invalid_turn'')
                | Some k \<Rightarrow>
                    if k < 1 then Inr (Refused ''invalid_turn'')
                    else rbind (toISOString (now + WORKER_TURN_LEASE_TTL_MS)) (\<lambda>t. Inr (Granted t))))"

lemma lease_granted:
  "acquireWorkerTurnLease rs now i run turn = Inr (Granted t) \<longleftrightarrow>
     (\<exists>r. find_record rs i = Some r \<and> io_state r = Running \<and> io_currentRunId r = Some run) \<and>
     (\<exists>k. turn = of_int k \<and> 1 \<le> k \<and> k \<le> max_safe) \<and>
     toISOString (now + WORKER_TURN_LEASE_TTL_MS) = Inr t"
  by (auto simp: acquireWorkerTurnLease_def rbind_Inr_iff as_safe_integer_def as_integer_Some
      split: option.splits if_splits)

section \<open>Properties\<close>

text \<open>
  Between turns, a tracker that answers nothing but unknown lets the worker continue until
  the threshold of consecutive failures and then fails closed; any readable answer in between
  starts the count afresh.
\<close>

theorem refresh_gate_fails_closed:
  assumes "0 < threshold"
  shows "gate_run threshold BetweenTurn 0 (replicate (nat threshold) RsUnknown) =
           (replicate (nat threshold - 1) GateContinue @ [GateFailClosed], threshold) \<and>
         snd (resolveTrackerRefreshGate RsActive cnt threshold BetweenTurn) = 0"
proof -
  obtain n where n: "threshold = int n + 1" using assms by (metis zero_less_imp_eq_int of_nat_Suc add.commute Suc_pred')
  have "replicate (nat threshold) RsUnknown = replicate n RsUnknown @ [RsUnknown]"
    by (simp add: n nat_add_distrib replicate_append_same)
  then show ?thesis
    using gate_run_unknowns [of 0 n threshold]
    by (simp add: gate_run_append n nat_add_distrib resolveTrackerRefreshGate_def updateRefreshFailureCount_def)
qed

lemma refresh_gate_fails_closed_witness:
  "gate_run 3 BetweenTurn 0 [RsUnknown, RsUnknown, RsUnknown] = ([GateContinue, GateContinue, GateFailClosed], 3)"
  using refresh_gate_fails_closed [of 3] by (simp add: eval_nat_numeral)

lemma read_tracker_response_active:
  assumes "rf_state (read_tracker_response activeStates ok status body) = RsActive"
  shows "ok \<and> jget body ''ok'' = Some (JBool True) \<and> jget body ''outcome'' = Some (JStr ''confirmed'') \<and>
   jget body ''routable'' = Some (JBool True) \<and>
   (\<exists>state. jget body ''state'' = Some (JStr state) \<and> matchesWorkflowState state activeStates)"
proof (cases "ok \<and> jget body ''ok'' = Some (JBool True)")
  case False
  then have "rf_state (read_tracker_response activeStates ok status body) \<noteq> RsActive"
    by (cases ok; cases "jget body ''ok''"; cases "the (jget body ''ok'')")
       (auto simp: read_tracker_response_def Let_def split: bool.split)
  with assms show ?thesis by simp
next
  case True
  show ?thesis
  proof (cases "\<exists>outcome state r. jget body ''outcome'' = Some (JStr outcome) \<and> jget body ''state'' = Some (JStr state) \<and>
      jget body ''routable'' = Some (JBool r)")
    case found: True
    with True assms show ?thesis by (auto simp: read_tracker_response_def Let_def split: if_splits)
  next
    case False
    then have "rf_state (read_tracker_response activeStates ok status body) = RsUnknown"
      using True
      by (cases "jget body ''outcome''"; cases "the (jget body ''outcome'')";
          cases "jstring (jget body ''state'')"; cases "jbool (jget body ''routable'')")
         (auto simp: read_tracker_response_def Let_def)
    with assms show ?thesis by simp
  qed
qed

text \<open>
  A tracker read says active only on a confirmed answer of the endpoint that names a
  routable issue in an active state, asked with the worker's own credentials.
\<close>

theorem refresh_active_needs_confirmation:
  assumes "rf_state (refreshTrackerState env activeStates fetchImpl) = RsActive"
  shows "\<exists>url run token status body state.
     env ''SYMPHONY_ORCHESTRATOR_URL'' = Some url \<and> env ''SYMPHONY_RUN_ID'' = Some run \<and>
     env ''SYMPHONY_ORCHESTRATOR_TOKEN'' = Some token \<and>
     fetchImpl (tracker_state_request url run token) = HttpResponse True status body \<and>
     jget body ''ok'' = Some (JBool True) \<and> jget body ''outcome'' = Some (JStr ''confirmed'') \<and>
     jget body ''routable'' = Some (JBool True) \<and> jget body ''state'' = Some (JStr state) \<and>
     matchesWorkflowState state activeStates"
proof -
  have env: "\<exists>v. env k = Some v" if "getOr (env k) [] \<noteq> []" for k
    using that by (cases "env k") auto
  have "getOr (env ''SYMPHONY_ORCHESTRATOR_URL'') [] \<noteq> []" "getOr (env ''SYMPHONY_RUN_ID'') [] \<noteq> []"
    "getOr (env ''SYMPHONY_ORCHESTRATOR_TOKEN'') [] \<noteq> []"
    using assms by (auto simp: refreshTrackerState_def diag_def Let_def split: if_splits)
  with env obtain url run token where e: "env ''SYMPHONY_ORCHESTRATOR_URL'' = Some url"
    "env ''SYMPHONY_RUN_ID'' = Some run" "env ''SYMPHONY_ORCHESTRATOR_TOKEN'' = Some token"
    "url \<noteq> []" "run \<noteq> []" "token \<noteq> []" by (metis getOr.simps(2))
  from assms e obtain ok status body where
    f: "fetchImpl (tracker_state_request url run token) = HttpResponse ok status body"
    and "rf_state (read_tracker_response activeStates ok status body) = RsActive"
    by (cases "fetchImpl (tracker_state_request url run token)") (simp_all add: refreshTrackerState_def)
  note active = read_tracker_response_active [OF this(2)]
  with f have "fetchImpl (tracker_state_request url run token) = HttpResponse True status body" by simp
  with active e show ?thesis by blast
qed

definition sample_worker_env :: environment where
  "sample_worker_env k =
     (if k \<in> {''SYMPHONY_ORCHESTRATOR_URL'', ''SYMPHONY_RUN_ID'', ''SYMPHONY_ORCHESTRATOR_TOKEN'', ''SYMPHONY_ISSUE_ID''}
      then Some ''x'' else None)"

definition sample_tracker_answer :: http_outcome where
  "sample_tracker_answer = HttpResponse True 200
     (JObj [(''ok'', JBool True), (''outcome'', JStr ''confirmed''), (''routable'', JBool True),
            (''state'', JStr ''Todo'')])"

lemma refresh_active_needs_confirmation_witness:
  "\<exists>state. jget (hr_body sample_tracker_answer) ''state'' = Some (JStr state) \<and> matchesWorkflowState state [''todo'']"
proof -
  have "matchesWorkflowState ''Todo'' [''todo'']" by code_simp
  then have "rf_state (refreshTrackerState sample_worker_env [''todo''] (\<lambda>_. sample_tracker_answer)) = RsActive"
    by (simp add: refreshTrackerState_def sample_worker_env_def sample_tracker_answer_def read_tracker_response_def)
  from refresh_active_needs_confirmation [OF this] obtain status body state where
    answer: "sample_tracker_answer = HttpResponse True status body" and
    "jget body ''state'' = Some (JStr state)" "matchesWorkflowState state [''todo'']" by blast
  then show ?thesis unfolding answer by auto
qed

text \<open>
  The orchestrator grants a turn lease exactly when the issue's record is running and its
  current run is the caller, and the turn is a safe integer from 1 up; the lease ends
  fifteen seconds after the grant.
\<close>

theorem lease_is_granted_to_the_current_run:
  "acquireWorkerTurnLease rs now i run turn = Inr (Granted t) \<longleftrightarrow>
     (\<exists>r. find_record rs i = Some r \<and> io_state r = Running \<and> io_currentRunId r = Some run) \<and>
     (\<exists>k. turn = of_int k \<and> 1 \<le> k \<and> k \<le> max_safe) \<and>
     \<bar>now + WORKER_TURN_LEASE_TTL_MS\<bar> \<le> max_time \<and> t = iso_text (now + WORKER_TURN_LEASE_TTL_MS)"
  by (simp add: lease_granted toISOString_Inr)

end
