(* ===== verification/Continuation.thy ===== *)
theory Continuation
  imports Numbers
begin

text \<open>
  The input of a worker's turn: \<open>packages/worker/src/thread-resume.ts\<close> (the continuation
  guidance template), \<open>packages/worker/src/codex-turn-input.ts\<close> and the identity header of
  \<open>packages/core/src/workflow/issue-identity.ts\<close>. A thrown error is \<open>Inl\<close>.
\<close>

section \<open>The guidance template\<close>

definition DEFAULT_CONTINUATION_GUIDANCE :: string where
  "DEFAULT_CONTINUATION_GUIDANCE =
     ''Continue working on the issue. Review your progress and complete any remaining tasks.''"

definition is_alpha :: "char \<Rightarrow> bool" where
  "is_alpha c = list_ex (\<lambda>(first, last). first \<le> c \<and> c \<le> last) [(CHR ''A'', CHR ''Z''), (CHR ''a'', CHR ''z'')]"

definition ident_start :: "char \<Rightarrow> bool" where
  "ident_start c \<longleftrightarrow> is_alpha c \<or> c = CHR ''_''"

definition ident_char :: "char \<Rightarrow> bool" where
  "ident_char c \<longleftrightarrow> ident_start c \<or> is_digit c \<or> c = CHR ''.''"

text \<open>A match of the interpolation pattern at the head: the expression and what follows.\<close>

definition match_expression :: "string \<Rightarrow> (string \<times> string) option" where
  "match_expression s =
     (if \<not> starts_with ''{{'' s then None
      else let r = dropWhile is_ws (drop 2 s);
               name = takeWhile ident_char r;
               after = dropWhile is_ws (dropWhile ident_char r)
           in if name = [] \<or> \<not> ident_start (hd name) \<or> \<not> starts_with ''}}'' after then None
              else Some (name, drop 2 after))"

lemma match_expression_shorter:
  "match_expression s = Some (e, rest) \<Longrightarrow> length rest < length s"
proof -
  assume "match_expression s = Some (e, rest)"
  then have rest: "rest = drop 2 (dropWhile is_ws (dropWhile ident_char (dropWhile is_ws (drop 2 s))))"
    and s: "starts_with ''{{'' s"
    by (auto simp: match_expression_def Let_def split: if_splits)
  have "length (dropWhile is_ws (dropWhile ident_char (dropWhile is_ws (drop 2 s)))) \<le> length (drop 2 s)"
    by (meson length_dropWhile_le order_trans)
  moreover have "2 \<le> length s" using s by (auto simp: starts_with_iff)
  ultimately show ?thesis by (simp add: rest)
qed

text \<open>
  \<open>expression in variables\<close>, then \<open>variables[expression]\<close>: an object literal inherits the
  members of \<open>Object.prototype\<close>, and a function is converted to its native source text.
\<close>

definition OBJECT_PROTOTYPE_FUNCTIONS :: "string list" where
  "OBJECT_PROTOTYPE_FUNCTIONS =
     [''hasOwnProperty'', ''isPrototypeOf'', ''propertyIsEnumerable'', ''toLocaleString'', ''toString'',
      ''valueOf'', ''__defineGetter__'', ''__defineSetter__'', ''__lookupGetter__'', ''__lookupSetter__'']"

definition native_text :: "string \<Rightarrow> string" where
  "native_text name = ''function '' @ name @ ''() { [native code] }''"

definition object_member :: "(string \<times> string) list \<Rightarrow> string \<Rightarrow> string option" where
  "object_member variables e =
     (case map_of variables e of
        Some v \<Rightarrow> Some v
      | None \<Rightarrow>
          if e = ''constructor'' then Some (native_text ''Object'')
          else if e = ''__proto__'' then Some ''[object Object]''
          else if e \<in> set OBJECT_PROTOTYPE_FUNCTIONS then Some (native_text e)
          else None)"

definition unsupported_variable :: "string \<Rightarrow> string" where
  "unsupported_variable e =
     ''template_render_error: unsupported continuation guidance variable '' @ [CHR 0x27] @ e @ [CHR 0x27, CHR ''.'']"

function interpolate :: "(string \<times> string) list \<Rightarrow> string \<Rightarrow> string result" where
  "interpolate variables s =
     (case s of
        [] \<Rightarrow> Inr []
      | c # cs \<Rightarrow>
          (case match_expression s of
             None \<Rightarrow> rbind (interpolate variables cs) (\<lambda>t. Inr (c # t))
           | Some (e, rest) \<Rightarrow>
               (case object_member variables e of
                  None \<Rightarrow> Inl (unsupported_variable e)
                | Some v \<Rightarrow> rbind (interpolate variables rest) (\<lambda>t. Inr (v @ t)))))"
  by pat_completeness auto
termination
  by (relation "measure (\<lambda>(_, s). length s)") (auto dest: match_expression_shorter)

declare interpolate.simps [simp del]

text \<open>The leftmost remainder of a Liquid expression in the rendered text.\<close>

definition stray_at :: "string \<Rightarrow> string option" where
  "stray_at s =
     (if \<not> starts_with ''{{'' s then None
      else let inner = takeWhile (\<lambda>c. c \<noteq> CHR ''}'') (drop 2 s);
               after = dropWhile (\<lambda>c. c \<noteq> CHR ''}'') (drop 2 s)
           in if starts_with ''}}'' after then Some (''{{'' @ inner @ ''}}'') else None)"

fun stray_expression :: "string \<Rightarrow> string option" where
  "stray_expression [] = None"
| "stray_expression (c # s) = (case stray_at (c # s) of Some e \<Rightarrow> Some e | None \<Rightarrow> stray_expression s)"

definition renderContinuationGuidance :: "string \<Rightarrow> (string \<times> string) list \<Rightarrow> string result" where
  "renderContinuationGuidance template variables =
     (if js_includes ''{%'' template \<or> js_includes ''%}'' template
      then Inl ''template_parse_error: continuation guidance does not support Liquid tags.''
      else rbind (interpolate variables template) (\<lambda>rendered.
        case stray_expression rendered of
          None \<Rightarrow> Inr rendered
        | Some e \<Rightarrow> Inl (''template_parse_error: invalid continuation guidance expression '' @
                         [CHR 0x27] @ e @ [CHR 0x27, CHR ''.''])))"

section \<open>Turn inputs\<close>

definition normalizeContinuationVariable :: "string option \<Rightarrow> string option" where
  "normalizeContinuationVariable value =
     (case value of None \<Rightarrow> None | Some s \<Rightarrow> if js_trim s = [] then None else Some (js_trim s))"

text \<open>\<open>parseNonNegativeInteger\<close> of a number, the only argument the worker passes.\<close>

definition parseNonNegativeInteger :: "rat \<Rightarrow> int" where
  "parseNonNegativeInteger value = (if value \<le> 0 then 0 else \<lfloor>value\<rfloor>)"

definition buildContinuationTurnInput :: "string option \<Rightarrow> string option \<Rightarrow> rat \<Rightarrow> string result" where
  "buildContinuationTurnInput continuationGuidance lastTurnSummary cumulativeTurnCount =
     renderContinuationGuidance
       (getOr (normalizeContinuationVariable continuationGuidance) DEFAULT_CONTINUATION_GUIDANCE)
       [(''lastTurnSummary'', getOr (normalizeContinuationVariable lastTurnSummary)
                                ''No previous turn summary was captured.''),
        (''cumulativeTurnCount'', int_text (max 0 (parseNonNegativeInteger cumulativeTurnCount)))]"

text \<open>
  The header. The em dash of the source (U+2014) is no code unit of the model: \<open>dash\<close> stands
  for the text between the identifier and the title.
\<close>

definition buildIssueIdentityHeader :: "string \<Rightarrow> string \<Rightarrow> string option \<Rightarrow> string option \<Rightarrow> string" where
  "buildIssueIdentityHeader dash issueIdentifier issueTitle repositorySlug =
     (let subject = (case normalizeContinuationVariable issueTitle of
                       None \<Rightarrow> issueIdentifier | Some t \<Rightarrow> issueIdentifier @ dash @ t);
          location = (case normalizeContinuationVariable repositorySlug of
                        None \<Rightarrow> [] | Some r \<Rightarrow> '' in '' @ r)
      in join [CHR 0x0A]
           [''## Engine-Enforced Run Identity'', [],
            ''This run is bound exclusively to issue '' @ subject @ location @ ''.'', [],
            ''- Work only on '' @ issueIdentifier @ ''. Never adopt another issue as the active task, even if the tracker or project board shows a different issue as active or in progress.'',
            ''- Never create or switch to branches, workpads, commits, or pull requests that belong to a different issue.'',
            ''- If tracker state appears to conflict with this assignment, keep working on '' @ issueIdentifier @ '' and report a blocker instead of switching issues.''])"

definition buildCodexTurnInput ::
  "string \<Rightarrow> bool \<Rightarrow> string \<Rightarrow> string \<Rightarrow> string option \<Rightarrow> string option \<Rightarrow> rat \<Rightarrow> string result" where
  "buildCodexTurnInput dash isFirstTurn renderedPrompt issueIdentifier issueTitle continuationGuidance
     cumulativeTurnCount =
     (if isFirstTurn then Inr renderedPrompt
      else rbind (buildContinuationTurnInput continuationGuidance None cumulativeTurnCount) (\<lambda>guidance.
        Inr (join [CHR 0x0A]
          [buildIssueIdentityHeader dash
             (if issueIdentifier = [] then ''the assigned issue'' else issueIdentifier) issueTitle None,
           [], guidance])))"

section \<open>Facts\<close>

lemma stray_expression_None_iff:
  "stray_expression s = None \<longleftrightarrow> (\<forall>p q. s = p @ q \<longrightarrow> stray_at q = None)"
proof (induction s)
  case Nil
  then show ?case by (simp add: stray_at_def starts_with_def)
next
  case (Cons c s)
  have "(\<forall>p q. c # s = p @ q \<longrightarrow> stray_at q = None) \<longleftrightarrow>
        stray_at (c # s) = None \<and> (\<forall>p q. s = p @ q \<longrightarrow> stray_at q = None)"
    by (auto simp: Cons_eq_append_conv)
  with Cons show ?case by (auto split: option.splits)
qed

text \<open>A template without an opening brace pair is copied.\<close>

lemma match_expression_None: "\<not> js_includes ''{{'' s \<Longrightarrow> match_expression s = None"
  by (cases s) (auto simp: match_expression_def starts_with_def)

lemma interpolate_plain: "\<not> js_includes ''{{'' s \<Longrightarrow> interpolate vs s = Inr s"
proof (induction s)
  case Nil
  show ?case by (simp add: interpolate.simps)
next
  case (Cons c s)
  from Cons.prems have "\<not> js_includes ''{{'' s" by simp
  with Cons.IH match_expression_None [OF Cons.prems] show ?case
    by (simp add: interpolate.simps [of vs "c # s"])
qed

lemma stray_plain: "\<not> js_includes ''{{'' s \<Longrightarrow> stray_expression s = None"
  by (induction s) (auto simp: stray_at_def)

lemma plain_guidance:
  assumes "\<not> js_includes ''{{'' s" and "\<not> js_includes ''{%'' s" and "\<not> js_includes ''%}'' s"
  shows "renderContinuationGuidance s vs = Inr s"
  using assms by (simp add: renderContinuationGuidance_def interpolate_plain stray_plain)

section \<open>Templates by their segments\<close>

text \<open>
  A well-formed template is a sequence of literals without braces and of variables, each with
  the white space its author left around the name.
\<close>

datatype segment = Lit string | Var string string string

fun segment_text :: "segment \<Rightarrow> string" where
  "segment_text (Lit s) = s"
| "segment_text (Var l x r) = ''{{'' @ l @ x @ r @ ''}}''"

fun segment_ok :: "segment \<Rightarrow> bool" where
  "segment_ok (Lit s) \<longleftrightarrow> list_all (\<lambda>c. c \<noteq> CHR ''{'' \<and> c \<noteq> CHR ''}'') s"
| "segment_ok (Var l x r) \<longleftrightarrow>
     list_all is_ws l \<and> list_all is_ws r \<and> x \<noteq> [] \<and> ident_start (hd x) \<and> list_all ident_char x"

definition template_text :: "segment list \<Rightarrow> string" where
  "template_text segs = concat (map segment_text segs)"

text \<open>The meaning of a template: every variable by its value, the first unknown one is an error.\<close>

fun eval_segments :: "(string \<times> string) list \<Rightarrow> segment list \<Rightarrow> string result" where
  "eval_segments vs [] = Inr []"
| "eval_segments vs (Lit s # segs) = rbind (eval_segments vs segs) (\<lambda>t. Inr (s @ t))"
| "eval_segments vs (Var l x r # segs) =
     (case object_member vs x of
        None \<Rightarrow> Inl (unsupported_variable x)
      | Some v \<Rightarrow> rbind (eval_segments vs segs) (\<lambda>t. Inr (v @ t)))"

lemma ident_char_class:
  "ident_char c \<Longrightarrow> \<not> is_ws c \<and> c \<noteq> CHR ''{'' \<and> c \<noteq> CHR ''}'' \<and> c \<noteq> CHR ''%''"
  by (auto simp: ident_char_def ident_start_def is_alpha_def is_digit_def is_ws_def less_eq_char_def)

lemma dropWhile_all_append: "list_all P l \<Longrightarrow> dropWhile P (l @ s) = dropWhile P s"
  by (induction l) auto

lemma takeWhile_all_append: "list_all P l \<Longrightarrow> takeWhile P (l @ s) = l @ takeWhile P s"
  by (induction l) auto

lemma match_variable:
  assumes "segment_ok (Var l x r)"
  shows "match_expression (segment_text (Var l x r) @ s) = Some (x, s)"
proof -
  obtain c cs where x: "x = c # cs" "ident_start c" using assms by (cases x) auto
  then have c: "\<not> is_ws c" using ident_char_class by (simp add: ident_char_def)
  have drop_l: "dropWhile is_ws (l @ x @ r @ ''}}'' @ s) = x @ r @ ''}}'' @ s"
    using assms c x(1) by (simp add: dropWhile_all_append)
  have stop: "\<not> ident_char (hd (r @ ''}}'' @ s))"
  proof (cases r)
    case Nil
    then show ?thesis using ident_char_class by auto
  next
    case (Cons w ws)
    then show ?thesis using assms ident_char_class by auto
  qed
  have "takeWhile ident_char (x @ r @ ''}}'' @ s) = x" "dropWhile ident_char (x @ r @ ''}}'' @ s) = r @ ''}}'' @ s"
    using assms stop by (simp_all add: takeWhile_all_append dropWhile_all_append takeWhile_eq_Nil_iff dropWhile_eq_self_iff)
  moreover have "dropWhile is_ws (r @ ''}}'' @ s) = ''}}'' @ s"
    using assms by (simp add: dropWhile_all_append is_ws_def)
  ultimately show ?thesis
    using drop_l x by (simp add: match_expression_def Let_def starts_with_def)
qed

lemma interpolate_literal:
  "list_all (\<lambda>c. c \<noteq> CHR ''{'' \<and> c \<noteq> CHR ''}'') s \<Longrightarrow>
   interpolate vs (s @ t) = rbind (interpolate vs t) (\<lambda>u. Inr (s @ u))"
proof (induction s)
  case Nil
  show ?case by (cases "interpolate vs t") simp_all
next
  case (Cons c s)
  then have "match_expression ((c # s) @ t) = None" by (simp add: match_expression_def starts_with_def)
  with Cons show ?case by (cases "interpolate vs t") (simp_all add: interpolate.simps [of vs "c # s @ t"])
qed

lemma interpolate_template:
  "list_all segment_ok segs \<Longrightarrow> interpolate vs (template_text segs) = eval_segments vs segs"
proof (induction vs segs rule: eval_segments.induct)
  case (1 vs)
  show ?case by (simp add: template_text_def interpolate.simps)
next
  case (2 vs s segs)
  then show ?case by (simp add: template_text_def interpolate_literal)
next
  case (3 vs l x r segs)
  let ?t = "template_text segs"
  have first: "template_text (Var l x r # segs) = segment_text (Var l x r) @ ?t" by (simp add: template_text_def)
  obtain c cs where ne: "segment_text (Var l x r) @ ?t = c # cs" by simp
  have "match_expression (c # cs) = Some (x, ?t)" using match_variable [of l x r ?t] 3(2) unfolding ne by simp
  with 3 show ?case unfolding first ne by (simp add: interpolate.simps [of vs "c # cs"] split: option.split)
qed

text \<open>Two adjacent characters, across the seams of a template.\<close>

fun adjacent :: "char \<Rightarrow> char \<Rightarrow> string \<Rightarrow> bool" where
  "adjacent a b (x # y # s) \<longleftrightarrow> x = a \<and> y = b \<or> adjacent a b (y # s)"
| "adjacent a b _ \<longleftrightarrow> False"

lemma js_includes_pair: "js_includes [a, b] s \<longleftrightarrow> adjacent a b s"
  by (induction a b s rule: adjacent.induct) (auto simp: starts_with_def)

lemma adjacent_append:
  "adjacent a b (s @ t) \<longleftrightarrow>
     adjacent a b s \<or> adjacent a b t \<or> s \<noteq> [] \<and> t \<noteq> [] \<and> last s = a \<and> hd t = b"
proof (induction s)
  case (Cons x s)
  then show ?case by (cases s; cases t) auto
qed simp

lemma adjacent_set: "adjacent a b s \<Longrightarrow> a \<in> set s \<and> b \<in> set s"
  by (induction a b s rule: adjacent.induct) auto

lemma variable_chars:
  "segment_ok (Var l x r) \<Longrightarrow> c \<in> set (l @ x @ r) \<Longrightarrow> c \<noteq> CHR ''{'' \<and> c \<noteq> CHR ''}'' \<and> c \<noteq> CHR ''%''"
  using ident_char_class by (fastforce simp: list_all_iff is_ws_def)

lemma template_head:
  "list_all segment_ok segs \<Longrightarrow> template_text segs \<noteq> [] \<Longrightarrow> hd (template_text segs) \<noteq> CHR ''}''"
proof (induction segs)
  case (Cons seg segs)
  then show ?case
    by (cases seg) (auto simp: template_text_def hd_append list_all_iff)
qed (simp add: template_text_def)

lemma segment_no_tag:
  assumes "segment_ok seg"
  shows "\<not> adjacent CHR ''{'' CHR ''%'' (segment_text seg)" "\<not> adjacent CHR ''%'' CHR ''}'' (segment_text seg)"
    "segment_text seg \<noteq> [] \<Longrightarrow> last (segment_text seg) \<noteq> CHR ''{''"
proof -
  have "CHR ''%'' \<notin> set (segment_text (Var l x r))" if "segment_ok (Var l x r)" for l x r
    using variable_chars [OF that] by auto
  with assms show "\<not> adjacent CHR ''{'' CHR ''%'' (segment_text seg)" "\<not> adjacent CHR ''%'' CHR ''}'' (segment_text seg)"
    by (cases seg; fastforce simp: list_all_iff dest: adjacent_set)+
  show "segment_text seg \<noteq> [] \<Longrightarrow> last (segment_text seg) \<noteq> CHR ''{''"
    using assms by (cases seg) (auto simp: list_all_iff)
qed

lemma template_no_tag:
  "list_all segment_ok segs \<Longrightarrow>
   \<not> js_includes ''{%'' (template_text segs) \<and> \<not> js_includes ''%}'' (template_text segs)"
  unfolding js_includes_pair
proof (induction segs)
  case (Cons seg segs)
  have "template_text (seg # segs) = segment_text seg @ template_text segs" by (simp add: template_text_def)
  with Cons segment_no_tag [of seg] template_head [of segs] show ?case by (auto simp: adjacent_append)
qed (simp add: template_text_def)

section \<open>Properties\<close>

text \<open>
  The renderer of continuation guidance computes the meaning of a well-formed template,
  whatever white space surrounds the variable names: literals are copied, each variable is
  replaced by its value, the first unknown one is reported; only a text that then still contains
  an expression is rejected.
\<close>

theorem guidance_renders_by_segments:
  assumes "list_all segment_ok segs"
  shows "renderContinuationGuidance (template_text segs) vs =
     rbind (eval_segments vs segs) (\<lambda>rendered.
       case stray_expression rendered of
         None \<Rightarrow> Inr rendered
       | Some e \<Rightarrow> Inl (''template_parse_error: invalid continuation guidance expression '' @
                        [CHR 0x27] @ e @ [CHR 0x27, CHR ''.'']))"
  using template_no_tag [OF assms] by (simp add: renderContinuationGuidance_def interpolate_template [OF assms])

definition sample_segments :: "segment list" where
  "sample_segments = [Lit ''Turn '', Var '' '' ''cumulativeTurnCount'' [], Lit '' of 100%'']"

lemma guidance_renders_by_segments_witness:
  "renderContinuationGuidance ''Turn {{ cumulativeTurnCount}} of 100%'' [(''cumulativeTurnCount'', ''7'')] =
     Inr ''Turn 7 of 100%''"
proof -
  have "list_all segment_ok sample_segments" by code_simp
  moreover have "template_text sample_segments = ''Turn {{ cumulativeTurnCount}} of 100%''" by code_simp
  moreover have "eval_segments [(''cumulativeTurnCount'', ''7'')] sample_segments = Inr ''Turn 7 of 100%''" by code_simp
  moreover have "stray_expression ''Turn 7 of 100%'' = None" by code_simp
  ultimately show ?thesis
    using guidance_renders_by_segments [of sample_segments "[(''cumulativeTurnCount'', ''7'')]"] by simp
qed

text \<open>
  The check for left-over expressions reads the rendered text, values included: a last-turn
  summary that quotes an expression makes the valid template that prints it throw.
\<close>

theorem summary_with_braces_throws:
  assumes "normalizeContinuationVariable summary = Some v" and "stray_expression v = Some e"
    and "normalizeContinuationVariable guidance = Some ''{{ lastTurnSummary }}''"
  shows "buildContinuationTurnInput guidance summary n =
     Inl (''template_parse_error: invalid continuation guidance expression '' @ [CHR 0x27] @ e @ [CHR 0x27, CHR ''.''])"
proof -
  let ?segs = "[Var '' '' ''lastTurnSummary'' '' '']"
  have ok: "list_all segment_ok ?segs" by code_simp
  have "template_text ?segs = ''{{ lastTurnSummary }}''" by code_simp
  with interpolate_template [OF ok] template_no_tag [OF ok] assms show ?thesis
    by (simp add: buildContinuationTurnInput_def renderContinuationGuidance_def object_member_def)
qed

lemma summary_with_braces_throws_witness:
  "buildContinuationTurnInput (Some ''{{ lastTurnSummary }}'') (Some ''see {{x}}'') 1 =
     Inl (''template_parse_error: invalid continuation guidance expression '' @ [CHR 0x27] @ ''{{x}}'' @ [CHR 0x27, CHR ''.''])"
proof (rule summary_with_braces_throws)
  show "normalizeContinuationVariable (Some ''see {{x}}'') = Some ''see {{x}}''" by code_simp
  show "stray_expression ''see {{x}}'' = Some ''{{x}}''" by code_simp
  show "normalizeContinuationVariable (Some ''{{ lastTurnSummary }}'') = Some ''{{ lastTurnSummary }}''" by code_simp
qed

text \<open>
  A name that every object inherits passes for a variable: guidance that prints
  \<open>constructor\<close> is not rejected but renders the source text of a built-in function.
\<close>

theorem inherited_name_is_rendered:
  "buildContinuationTurnInput (Some ''{{ constructor }}'') summary n = Inr ''function Object() { [native code] }''"
proof -
  let ?segs = "[Var '' '' ''constructor'' '' '']"
  have ok: "list_all segment_ok ?segs" by code_simp
  have "template_text ?segs = ''{{ constructor }}''" by code_simp
  moreover have "normalizeContinuationVariable (Some ''{{ constructor }}'') = Some ''{{ constructor }}''" by code_simp
  moreover have "stray_expression ''function Object() { [native code] }'' = None" by code_simp
  ultimately show ?thesis
    using interpolate_template [OF ok] template_no_tag [OF ok]
    by (simp add: buildContinuationTurnInput_def renderContinuationGuidance_def object_member_def native_text_def)
qed

end
