(* ===== verification/Session.thy ===== *)
theory Session
  imports TurnLease Continuation
begin

text \<open>
  A worker session: the progress evaluation of \<open>packages/worker/src/convergence-detection.ts\<close>,
  the phase resolution of \<open>run-phase.ts\<close> and \<open>execution-phase.ts\<close>, the turn limit of
  \<open>turn-limits.ts\<close>, and the multi-turn loop of \<open>packages/worker/src/index.ts\<close> that composes
  them with the refresh gate and the turn lease. The orchestrator's endpoint, the agent and git
  are the functions of \<open>loop_env\<close>, indexed by the turn that calls them.
\<close>

section \<open>Progress of a turn\<close>

definition DEFAULT_MAX_NONPRODUCTIVE_TURNS :: int where
  "DEFAULT_MAX_NONPRODUCTIVE_TURNS = 3"

definition resolveMaxNonProductiveTurns :: "environment \<Rightarrow> int" where
  "resolveMaxNonProductiveTurns env =
     positive_integer_or DEFAULT_MAX_NONPRODUCTIVE_TURNS (env_number env ''SYMPHONY_MAX_NONPRODUCTIVE_TURNS'')"

record turn_snapshot =
  sn_fingerprint :: "string option"
  sn_changedFiles :: "string list"
  sn_headSha :: "string option"

record progress_snapshot = turn_snapshot +
  sn_lastError :: "string option"

record turn_progress =
  tp_nonProductive :: bool
  tp_repeatedPattern :: bool
  tp_reason :: "string option"
  tp_headChanged :: bool
  tp_fingerprintUnchanged :: bool

text \<open>\<open>split\<close> at line feeds, each with an optional carriage return before it.\<close>

fun split_lines :: "string \<Rightarrow> string list" where
  "split_lines [] = [[]]"
| "split_lines (c # s) =
     (if c = CHR 0x0A then [] # split_lines s
      else if c = CHR 0x0D \<and> starts_with [CHR 0x0A] s then split_lines s
      else (case split_lines s of l # ls \<Rightarrow> (c # l) # ls | [] \<Rightarrow> [[c]]))"

definition trim_end :: "string \<Rightarrow> string" where
  "trim_end s = rev (trim_start (rev s))"

text \<open>A git command: its output where it exits with status 0.\<close>

definition captureGitHeadSha :: "string option \<Rightarrow> string option" where
  "captureGitHeadSha revParse =
     (case revParse of None \<Rightarrow> None | Some out \<Rightarrow> if js_trim out = [] then None else Some (js_trim out))"

definition captureTurnWorkspaceSnapshot :: "string option \<Rightarrow> string option \<Rightarrow> turn_snapshot" where
  "captureTurnWorkspaceSnapshot revParse gitStatus =
     (case gitStatus of
        None \<Rightarrow> \<lparr>sn_fingerprint = None, sn_changedFiles = [], sn_headSha = captureGitHeadSha revParse\<rparr>
      | Some out \<Rightarrow>
          let changedFiles = sort (filter (\<lambda>l. l \<noteq> []) (map trim_end (split_lines out)))
          in \<lparr>sn_fingerprint = Some (join [CHR 0x0A] changedFiles), sn_changedFiles = changedFiles,
              sn_headSha = captureGitHeadSha revParse\<rparr>)"

definition normalizeError :: "string option \<Rightarrow> string option" where
  "normalizeError value =
     (case value of None \<Rightarrow> None | Some s \<Rightarrow> if js_trim s = [] then None else Some (js_trim s))"

definition evaluateTurnProgress :: "progress_snapshot \<Rightarrow> progress_snapshot \<Rightarrow> turn_progress" where
  "evaluateTurnProgress previous current =
     (let headChanged = (sn_headSha previous \<noteq> None \<or> sn_headSha current \<noteq> None) \<and>
                        sn_headSha previous \<noteq> sn_headSha current;
          fingerprintUnchanged = sn_fingerprint previous \<noteq> None \<and> sn_fingerprint current \<noteq> None \<and>
                                 sn_fingerprint previous = sn_fingerprint current;
          normalizedCurrentError = normalizeError (sn_lastError current);
          repeatedError = normalizeError (sn_lastError previous) \<noteq> None \<and> normalizedCurrentError \<noteq> None \<and>
                          normalizeError (sn_lastError previous) = normalizedCurrentError;
          verdict = (\<lambda>stuck reason. \<lparr>tp_nonProductive = stuck, tp_repeatedPattern = stuck, tp_reason = reason,
                       tp_headChanged = headChanged, tp_fingerprintUnchanged = fingerprintUnchanged\<rparr>);
          n = length (sn_changedFiles current)
      in if headChanged then verdict False None
         else if repeatedError then verdict True (Some (''repeated error: '' @ getOr normalizedCurrentError []))
         else if fingerprintUnchanged
         then verdict True (Some (if 0 < n
                then ''workspace diff unchanged ('' @ int_text (int n) @ '' tracked change'' @
                     (if n = 1 then [] else ''s'') @ '')''
                else ''workspace unchanged''))
         else verdict False None)"

lemma evaluateTurnProgress_iff:
  "tp_nonProductive (evaluateTurnProgress p c) \<longleftrightarrow>
     sn_headSha p = sn_headSha c \<and>
     ((\<exists>e. normalizeError (sn_lastError p) = Some e \<and> normalizeError (sn_lastError c) = Some e) \<or>
      (\<exists>f. sn_fingerprint p = Some f \<and> sn_fingerprint c = Some f))"
  by (auto simp: evaluateTurnProgress_def Let_def)

lemma evaluateTurnProgress_reason:
  "tp_nonProductive (evaluateTurnProgress p c) \<longleftrightarrow> tp_reason (evaluateTurnProgress p c) \<noteq> None"
  by (simp add: evaluateTurnProgress_def Let_def)

section \<open>Phases\<close>

definition TERMINAL_RUN_PHASES :: "run_attempt_phase list" where
  "TERMINAL_RUN_PHASES =
     [PhaseSucceeded, PhaseFailed, PhaseTimedOut, PhaseStalled, CanceledByReconciliation]"

definition isTerminalRunPhase :: "run_attempt_phase option \<Rightarrow> bool" where
  "isTerminalRunPhase runPhase = (case runPhase of None \<Rightarrow> False | Some p \<Rightarrow> p \<in> set TERMINAL_RUN_PHASES)"

definition resolveExitRunPhase :: "run_attempt_phase option \<Rightarrow> int option \<Rightarrow> string option \<Rightarrow> run_attempt_phase" where
  "resolveExitRunPhase currentRunPhase code signal =
     (if isTerminalRunPhase currentRunPhase then getOr currentRunPhase PhaseFailed
      else if code = Some 0 \<and> getOr signal [] = [] then PhaseSucceeded else PhaseFailed)"

datatype worker_tracker_state = TrackerActive | TrackerNonActionable | TrackerUnknown

definition resolvePausedExecutionPhase :: "execution_phase option \<Rightarrow> execution_phase option" where
  "resolvePausedExecutionPhase currentPhase =
     (if currentPhase = Some Planning then Some HumanReview
      else if currentPhase = Some Implementation then Some AwaitingMerge else None)"

definition resolveFinalExecutionPhase ::
  "execution_phase option \<Rightarrow> worker_tracker_state \<Rightarrow> bool \<Rightarrow> execution_phase option" where
  "resolveFinalExecutionPhase currentPhase trackerState userInputRequired =
     (if userInputRequired \<or> trackerState \<noteq> TrackerNonActionable then currentPhase
      else orElse (resolvePausedExecutionPhase currentPhase) currentPhase)"

lemma resolveExitRunPhase_terminal: "isTerminalRunPhase (Some (resolveExitRunPhase p c s))"
  by (cases p) (auto simp: resolveExitRunPhase_def isTerminalRunPhase_def TERMINAL_RUN_PHASES_def)

section \<open>The turn limit\<close>

definition DEFAULT_SESSION_MAX_TURNS :: int where
  "DEFAULT_SESSION_MAX_TURNS = 20"

definition js_trunc :: "rat \<Rightarrow> int" where
  "js_trunc q = (if q < 0 then \<lceil>q\<rceil> else \<lfloor>q\<rfloor>)"

text \<open>The number of turns, and whether none is left before the session starts.\<close>

definition resolveMaxTurns :: "string option \<Rightarrow> int \<times> bool" where
  "resolveMaxTurns value =
     (case (case value of None \<Rightarrow> None | Some s \<Rightarrow> js_number s) of
        None \<Rightarrow> (DEFAULT_SESSION_MAX_TURNS, False)
      | Some parsed \<Rightarrow>
          let normalized = js_trunc parsed in if normalized \<le> 0 then (0, True) else (normalized, False))"

lemma resolveMaxTurns_spec:
  "case resolveMaxTurns v of (maxTurns, exhausted) \<Rightarrow> 0 \<le> maxTurns \<and> (exhausted \<longleftrightarrow> maxTurns = 0)"
  by (auto simp: resolveMaxTurns_def DEFAULT_SESSION_MAX_TURNS_def Let_def split: option.splits)

section \<open>The multi-turn loop\<close>

text \<open>
  What happens around the loop. \<open>TurnEnded\<close> is a turn that completed, with
  \<open>userInputRequired\<close>, \<open>turnTerminalFailurePhase\<close> and \<open>run.lastError\<close> as they stand then;
  \<open>TurnThrew\<close> is a request or a wait that rejected (time-outs, a closed port).
\<close>

datatype call_site = RefreshCall | LeaseCall | ConfirmCall

datatype agent_outcome =
    TurnEnded bool "run_attempt_phase option" "string option"
  | TurnThrew string

record loop_env =
  le_env :: environment
  le_activeStates :: "string list"
  le_fetch :: "call_site \<Rightarrow> nat \<Rightarrow> http_request \<Rightarrow> http_outcome"
  le_agent :: "nat \<Rightarrow> string \<Rightarrow> agent_outcome"
  le_snapshot :: "nat \<Rightarrow> turn_snapshot"
  le_dash :: string
  le_renderedPrompt :: string
  le_continuationGuidance :: "string option"
  le_reasonText :: "json \<Rightarrow> string"

datatype worker_status = WsRunning | WsCompleted | WsFailed

datatype turn_event =
    EvRefresh nat refresh_state
  | EvConfirm nat refresh_state
  | EvLease nat
  | EvTurn nat
  | EvGate string string

record loop_state =
  ls_turnCount :: nat
  ls_failures :: int
  ls_nonProductive :: int
  ls_warned :: bool
  ls_previous :: progress_snapshot
  ls_status :: worker_status
  ls_runPhase :: "run_attempt_phase option"
  ls_executionPhase :: "execution_phase option"
  ls_lastError :: "string option"
  ls_userInput :: bool
  ls_terminal :: "run_attempt_phase option"
  ls_maxReached :: bool
  ls_converged :: bool
  ls_log :: "turn_event list"

datatype loop_step = LoopNext loop_state | LoopBreak loop_state | LoopThrow string loop_state

definition log_event :: "turn_event \<Rightarrow> loop_state \<Rightarrow> loop_state" where
  "log_event e st = st\<lparr>ls_log := ls_log st @ [e]\<rparr>"

definition failWorkerTurnGate :: "string \<Rightarrow> string \<Rightarrow> loop_state \<Rightarrow> loop_state" where
  "failWorkerTurnGate event reason st =
     log_event (EvGate event reason)
       (st\<lparr>ls_status := WsFailed, ls_runPhase := Some PhaseFailed,
           ls_lastError := Some (event @ '': '' @ reason)\<rparr>)"

definition leave_non_actionable :: "loop_state \<Rightarrow> loop_state" where
  "leave_non_actionable st =
     st\<lparr>ls_runPhase := Some Finishing,
        ls_executionPhase := resolveFinalExecutionPhase (ls_executionPhase st) TrackerNonActionable False\<rparr>"

definition refresh_failed_text :: "int \<Rightarrow> string" where
  "refresh_failed_text n = ''tracker refresh failed '' @ int_text n @ '' consecutive times''"

text \<open>A refresh at one of the two sites: the gate's action, with its count and the log.\<close>

definition refresh_at ::
  "loop_env \<Rightarrow> call_site \<Rightarrow> gate_context \<Rightarrow> nat \<Rightarrow> loop_state \<Rightarrow> gate_action \<times> loop_state" where
  "refresh_at env site ctxt turn st =
     (let refresh = refreshTrackerState (le_env env) (le_activeStates env) (le_fetch env site turn);
          label = (if site = ConfirmCall then ''convergence threshold tracker confirmation''
                   else ''tracker state refresh'');
          warned = snd (reportTrackerRefresh refresh label (ls_warned st));
          (action, cnt) = resolveTrackerRefreshGate (rf_state refresh) (ls_failures st)
            (resolveRefreshFailureThreshold (le_env env ''SYMPHONY_REFRESH_FAILURE_THRESHOLD'')) ctxt
      in (action, log_event (if site = ConfirmCall then EvConfirm turn (rf_state refresh)
                             else EvRefresh turn (rf_state refresh))
                    (st\<lparr>ls_warned := warned, ls_failures := cnt\<rparr>)))"

definition fail_closed :: "loop_state \<Rightarrow> loop_step" where
  "fail_closed st =
     LoopThrow ''orchestrator_unavailable''
       (failWorkerTurnGate ''orchestrator_unavailable'' (refresh_failed_text (ls_failures st)) st)"

text \<open>Before every turn but the first: read the tracker, and stop or fail closed on it.\<close>

definition refresh_gate :: "loop_env \<Rightarrow> nat \<Rightarrow> loop_state \<Rightarrow> loop_step" where
  "refresh_gate env turn st =
     (if turn = 0 then LoopNext st
      else let (action, st1) = refresh_at env RefreshCall BetweenTurn turn st
           in if action = GateComplete then LoopBreak (leave_non_actionable st1)
              else if action = GateFailClosed then fail_closed st1
              else LoopNext st1)"

definition lease_gate :: "loop_env \<Rightarrow> nat \<Rightarrow> loop_state \<Rightarrow> loop_step" where
  "lease_gate env turn st =
     (case acquireTurnLease (le_env env) (int (Suc turn)) (le_fetch env LeaseCall turn) of
        LeaseAcquired _ \<Rightarrow> LoopNext (log_event (EvLease (Suc turn)) st)
      | LeaseDenied reason \<Rightarrow>
          LoopThrow (''worker_lease_lost: '' @ le_reasonText env reason)
            (failWorkerTurnGate ''worker_lease_lost'' (le_reasonText env reason) st)
      | LeaseUnavailable reason \<Rightarrow>
          LoopThrow (''orchestrator_unavailable: '' @ le_reasonText env reason)
            (failWorkerTurnGate ''orchestrator_unavailable'' (le_reasonText env reason) st))"

text \<open>The turn itself: its input, the agent's answer and the tests right after it.\<close>

definition run_turn :: "loop_env \<Rightarrow> nat \<Rightarrow> nat \<Rightarrow> loop_state \<Rightarrow> loop_step" where
  "run_turn env maxTurns turn st =
     (case buildCodexTurnInput (le_dash env) (turn = 0) (le_renderedPrompt env)
             (getOr (le_env env ''SYMPHONY_ISSUE_IDENTIFIER'') []) (le_env env ''SYMPHONY_ISSUE_TITLE'')
             (orElse (le_env env ''SYMPHONY_CONTINUATION_GUIDANCE'') (le_continuationGuidance env))
             (of_nat turn) of
        Inl e \<Rightarrow> LoopThrow e st
      | Inr input \<Rightarrow>
          let st1 = log_event (EvTurn (Suc turn)) st
          in case le_agent env turn input of
               TurnThrew e \<Rightarrow> LoopThrow e st1
             | TurnEnded userInput terminal lastError \<Rightarrow>
                 let st2 = st1\<lparr>ls_userInput := userInput, ls_terminal := terminal, ls_lastError := lastError\<rparr>
                 in if userInput then LoopBreak st2
                    else if terminal \<noteq> None then LoopBreak st2
                    else if maxTurns \<le> turn + 1 then LoopBreak (st2\<lparr>ls_maxReached := True\<rparr>)
                    else LoopNext st2)"

definition convergence_error :: "turn_progress \<Rightarrow> string" where
  "convergence_error progress =
     (case tp_reason progress of
        Some r \<Rightarrow> if r = [] then ''convergence_detected: repeated non-productive turn results''
                  else ''convergence_detected: '' @ r
      | None \<Rightarrow> ''convergence_detected: repeated non-productive turn results'')"

text \<open>Progress evaluation, and the confirmation read once too many turns were unproductive.\<close>

definition turn_score :: "loop_env \<Rightarrow> nat \<Rightarrow> loop_state \<Rightarrow> turn_progress \<times> loop_state" where
  "turn_score env turn st =
     (let current = turn_snapshot.extend (le_snapshot env turn) (progress_snapshot.fields (ls_lastError st));
          progress = evaluateTurnProgress (ls_previous st) current
      in (progress, st\<lparr>ls_previous := current,
            ls_nonProductive := (if tp_nonProductive progress then ls_nonProductive st + 1 else 0)\<rparr>))"

definition progress_gate :: "loop_env \<Rightarrow> nat \<Rightarrow> loop_state \<Rightarrow> loop_step" where
  "progress_gate env turn st =
     (let (progress, st1) = turn_score env turn st
      in if ls_nonProductive st1 < resolveMaxNonProductiveTurns (le_env env) then LoopNext st1
         else let (action, st2) = refresh_at env ConfirmCall Convergence turn st1
              in if action = GateComplete then LoopBreak (leave_non_actionable st2)
                 else if action = GateFailClosed then fail_closed st2
                 else if action = GateDefer then LoopNext st2
                 else LoopBreak (st2\<lparr>ls_converged := True,
                        ls_lastError := Some (convergence_error progress)\<rparr>))"

fun step_bind :: "loop_step \<Rightarrow> (loop_state \<Rightarrow> loop_step) \<Rightarrow> loop_step" where
  "step_bind (LoopNext st) f = f st"
| "step_bind (LoopBreak st) f = LoopBreak st"
| "step_bind (LoopThrow e st) f = LoopThrow e st"

definition turn_body :: "loop_env \<Rightarrow> nat \<Rightarrow> nat \<Rightarrow> loop_state \<Rightarrow> loop_step" where
  "turn_body env maxTurns turn st =
     step_bind (refresh_gate env turn (st\<lparr>ls_turnCount := Suc turn, ls_runPhase := Some StreamingTurn\<rparr>))
       (\<lambda>st1. step_bind (lease_gate env turn st1)
       (\<lambda>st2. step_bind (run_turn env maxTurns turn st2)
       (\<lambda>st3. progress_gate env turn st3)))"

text \<open>The loop from turn \<open>turn\<close>, with \<open>left\<close> iterations before its bound.\<close>

fun turn_loop :: "loop_env \<Rightarrow> nat \<Rightarrow> nat \<Rightarrow> nat \<Rightarrow> loop_state \<Rightarrow> loop_step" where
  "turn_loop env maxTurns turn 0 st = LoopBreak st"
| "turn_loop env maxTurns turn (Suc left) st =
     step_bind (turn_body env maxTurns turn st) (turn_loop env maxTurns (Suc turn) left)"

section \<open>The end of the session\<close>

record session_end =
  se_status :: worker_status
  se_runPhase :: run_attempt_phase
  se_lastError :: "string option"
  se_exit :: session_exit
  se_state :: loop_state

definition finish_session :: "loop_state \<Rightarrow> session_end" where
  "finish_session st =
     (let runPhase = (if ls_converged st then PhaseFailed
                      else if ls_userInput st then PhaseFailed
                      else getOr (ls_terminal st) PhaseSucceeded)
      in \<lparr>se_status = (if ls_userInput st \<or> ls_terminal st \<noteq> None then WsFailed else WsCompleted),
          se_runPhase = runPhase, se_lastError = ls_lastError st,
          se_exit = classifySessionExit (Some runPhase) (ls_userInput st) False (ls_converged st) (ls_maxReached st),
          se_state = st\<rparr>)"

definition starts_with_any :: "string list \<Rightarrow> string \<Rightarrow> bool" where
  "starts_with_any ps s = list_ex (\<lambda>p. starts_with p s) ps"

definition fail_session :: "string \<Rightarrow> loop_state \<Rightarrow> session_end" where
  "fail_session errMsg st =
     (let runPhase = (if starts_with_any [''orchestrator_unavailable'', ''worker_lease_lost''] errMsg then PhaseFailed
                      else if starts_with ''response_timeout:'' errMsg then PhaseStalled
                      else if starts_with ''turn_timeout:'' errMsg then PhaseTimedOut
                      else PhaseFailed);
          known = starts_with_any [''orchestrator_unavailable'', ''worker_lease_lost'', ''response_timeout:'',
                    ''turn_timeout:'', ''port_exit:'', ''response_error:'', ''codex_not_found:''] errMsg
      in \<lparr>se_status = WsFailed, se_runPhase = runPhase,
          se_lastError = Some (if known then errMsg else ''Codex client protocol error: '' @ errMsg),
          se_exit = classifySessionExit (Some runPhase) False False False False,
          se_state = st\<rparr>)"

definition initial_loop_state ::
  "bool \<Rightarrow> turn_snapshot \<Rightarrow> execution_phase option \<Rightarrow> string option \<Rightarrow> loop_state" where
  "initial_loop_state exhausted snapshot executionPhase lastError =
     \<lparr>ls_turnCount = 0, ls_failures = 0, ls_nonProductive = 0, ls_warned = False,
      ls_previous = turn_snapshot.extend snapshot (progress_snapshot.fields lastError),
      ls_status = WsRunning, ls_runPhase = Some InitializingSession, ls_executionPhase = executionPhase,
      ls_lastError = lastError, ls_userInput = False, ls_terminal = None, ls_maxReached = exhausted,
      ls_converged = False, ls_log = []\<rparr>"

definition run_session ::
  "loop_env \<Rightarrow> turn_snapshot \<Rightarrow> execution_phase option \<Rightarrow> string option \<Rightarrow> session_end" where
  "run_session env snapshot executionPhase lastError =
     (let (maxTurns, exhausted) = resolveMaxTurns (le_env env ''SYMPHONY_MAX_TURNS'')
      in case turn_loop env (nat maxTurns) 0 (nat maxTurns)
                (initial_loop_state exhausted snapshot executionPhase lastError) of
           LoopNext st \<Rightarrow> finish_session st
         | LoopBreak st \<Rightarrow> finish_session st
         | LoopThrow e st \<Rightarrow> fail_session e st)"

section \<open>Postconditions of steps\<close>

fun step_all :: "(loop_state \<Rightarrow> bool) \<Rightarrow> (loop_state \<Rightarrow> bool) \<Rightarrow> loop_step \<Rightarrow> bool" where
  "step_all N E (LoopNext st) = N st"
| "step_all N E (LoopBreak st) = E st"
| "step_all N E (LoopThrow e st) = E st"

lemma step_all_bind:
  "step_all P E m \<Longrightarrow> (\<And>st. P st \<Longrightarrow> step_all N E (f st)) \<Longrightarrow> step_all N E (step_bind m f)"
  by (cases m) auto

fun step_state :: "loop_step \<Rightarrow> loop_state" where
  "step_state (LoopNext st) = st"
| "step_state (LoopBreak st) = st"
| "step_state (LoopThrow e st) = st"

lemma step_all_state: "step_all Q Q s \<longleftrightarrow> Q (step_state s)"
  by (cases s) auto

text \<open>What an iteration keeps, and what holds when the loop is left, hold of the whole loop.\<close>

locale loop_rule =
  fixes env :: loop_env and maxTurns :: nat
    and Inv :: "nat \<Rightarrow> loop_state \<Rightarrow> bool" and Leave :: "loop_state \<Rightarrow> bool"
  assumes body: "turn < maxTurns \<Longrightarrow> Inv turn st \<Longrightarrow> step_all (Inv (Suc turn)) Leave (turn_body env maxTurns turn st)"
    and exhausted: "Inv maxTurns st \<Longrightarrow> Leave st"
begin

lemma loop: "turn + left = maxTurns \<Longrightarrow> Inv turn st \<Longrightarrow> Leave (step_state (turn_loop env maxTurns turn left st))"
proof (induction left arbitrary: turn st)
  case 0
  then show ?case by (simp add: exhausted)
next
  case (Suc left)
  then have "step_all (Inv (Suc turn)) Leave (turn_body env maxTurns turn st)" by (intro body) auto
  then show ?case
    using Suc.IH [of "Suc turn"] Suc.prems(1) by (cases "turn_body env maxTurns turn st") auto
qed

end

lemma run_session_state:
  assumes "resolveMaxTurns (le_env env ''SYMPHONY_MAX_TURNS'') = (m, e)"
  shows "se_state (run_session env snap ph err) =
     step_state (turn_loop env (nat m) 0 (nat m) (initial_loop_state e snap ph err))"
  using assms by (auto simp: run_session_def finish_session_def fail_session_def Let_def split: loop_step.splits)

section \<open>Turns are leased\<close>

definition lease_ok :: "loop_env \<Rightarrow> nat \<Rightarrow> bool" where
  "lease_ok env k =
     (case acquireTurnLease (le_env env) (int k) (le_fetch env LeaseCall (k - 1)) of
        LeaseAcquired _ \<Rightarrow> True | _ \<Rightarrow> False)"

definition leased :: "loop_env \<Rightarrow> turn_event list \<Rightarrow> bool" where
  "leased env es \<longleftrightarrow>
     (\<forall>i < length es. \<forall>k. es ! i = EvTurn k \<longrightarrow> 0 < i \<and> es ! (i - 1) = EvLease k \<and> lease_ok env k)"

fun turns_of :: "turn_event list \<Rightarrow> nat list" where
  "turns_of [] = []"
| "turns_of (EvTurn k # es) = k # turns_of es"
| "turns_of (_ # es) = turns_of es"

lemma turns_of_append [simp]: "turns_of (xs @ ys) = turns_of xs @ turns_of ys"
  by (induction xs rule: turns_of.induct) auto

definition is_halt :: "turn_event \<Rightarrow> bool" where
  "is_halt e = (case e of EvRefresh _ s \<Rightarrow> s = RsNonActionable | EvConfirm _ s \<Rightarrow> s = RsNonActionable
                | EvGate _ _ \<Rightarrow> True | _ \<Rightarrow> False)"

lemma leased_snoc [simp]:
  "leased env (es @ [e]) \<longleftrightarrow>
     leased env es \<and> (\<forall>k. e = EvTurn k \<longrightarrow> es \<noteq> [] \<and> last es = EvLease k \<and> lease_ok env k)"
proof -
  have "(\<forall>i < length es. \<forall>k. (es @ [e]) ! i = EvTurn k \<longrightarrow>
           0 < i \<and> (es @ [e]) ! (i - 1) = EvLease k \<and> lease_ok env k) \<longleftrightarrow> leased env es"
    unfolding leased_def by (intro all_cong) (simp add: nth_append less_imp_diff_less)
  then show ?thesis
    by (cases "es = []") (simp_all add: leased_def All_less_Suc nth_append last_conv_nth conj_commute)
qed

definition log_ok :: "loop_env \<Rightarrow> nat \<Rightarrow> loop_state \<Rightarrow> bool" where
  "log_ok env turn st \<longleftrightarrow>
     leased env (ls_log st) \<and> turns_of (ls_log st) = [1..<Suc turn] \<and> list_all (\<lambda>e. \<not> is_halt e) (ls_log st)"

definition log_left :: "loop_env \<Rightarrow> nat \<Rightarrow> loop_state \<Rightarrow> bool" where
  "log_left env maxTurns st \<longleftrightarrow>
     leased env (ls_log st) \<and> (\<exists>n \<le> maxTurns. turns_of (ls_log st) = [1..<Suc n]) \<and>
     list_all (\<lambda>e. \<not> is_halt e) (butlast (ls_log st))"

lemma log_event_log [simp]: "ls_log (log_event e st) = ls_log st @ [e]"
  by (simp add: log_event_def)

lemma log_ok_left: "log_ok env turn st \<Longrightarrow> turn \<le> maxTurns \<Longrightarrow> log_left env maxTurns st"
  by (auto simp: log_ok_def log_left_def list_all_iff dest: in_set_butlastD)

lemma list_all_butlast: "list_all P xs \<Longrightarrow> list_all P (butlast xs)"
  by (auto simp: list_all_iff dest: in_set_butlastD)

lemma refresh_at_log:
  "refresh_at env site ctxt turn st = (action, st1) \<Longrightarrow>
   \<exists>s. ls_log st1 = ls_log st @ [if site = ConfirmCall then EvConfirm turn s else EvRefresh turn s] \<and>
       (s = RsNonActionable \<longrightarrow> action = GateComplete)"
  by (auto simp: refresh_at_def Let_def resolveTrackerRefreshGate_def split: prod.splits if_splits)

lemma leave_non_actionable_log [simp]: "ls_log (leave_non_actionable st) = ls_log st"
  by (simp add: leave_non_actionable_def)

lemma log_ok_snoc:
  "log_ok env turn st \<Longrightarrow> ls_log st' = ls_log st @ [e] \<Longrightarrow> \<not> is_halt e \<Longrightarrow> \<forall>k. e \<noteq> EvTurn k \<Longrightarrow> log_ok env turn st'"
  by (cases e) (simp_all add: log_ok_def)

lemma log_left_snoc:
  "log_ok env turn st \<Longrightarrow> ls_log st' = ls_log st @ [e] \<Longrightarrow> \<forall>k. e \<noteq> EvTurn k \<Longrightarrow> turn \<le> maxTurns \<Longrightarrow>
   log_left env maxTurns st'"
  by (cases e) (auto simp: log_ok_def log_left_def)

lemma gate_left:
  "log_ok env turn st \<Longrightarrow> turn \<le> maxTurns \<Longrightarrow> log_left env maxTurns (failWorkerTurnGate ev reason st)"
  by (rule log_left_snoc [where e = "EvGate ev reason"]) (simp_all add: failWorkerTurnGate_def)

text \<open>A refresh, and what the gate makes of it.\<close>

lemma refresh_left:
  assumes "log_ok env turn st" and "refresh_at env site ctxt t st = (action, st1)"
  shows "log_left env turn st1" and "action \<noteq> GateComplete \<Longrightarrow> log_ok env turn st1"
proof -
  from refresh_at_log [OF assms(2)] obtain e s where
    e: "ls_log st1 = ls_log st @ [e]" "s = RsNonActionable \<longrightarrow> action = GateComplete"
    "e = (if site = ConfirmCall then EvConfirm t s else EvRefresh t s)" by blast
  from e(3) have nt: "\<forall>k. e \<noteq> EvTurn k" by simp
  from assms(1) e(1) nt show "log_left env turn st1" by (rule log_left_snoc) simp
  assume "action \<noteq> GateComplete"
  with e(2,3) have "\<not> is_halt e" by (simp add: is_halt_def)
  from log_ok_snoc [OF assms(1) e(1) this nt] show "log_ok env turn st1" .
qed

lemma log_left_mono: "log_left env n st \<Longrightarrow> n \<le> m \<Longrightarrow> log_left env m st"
  unfolding log_left_def using le_trans by blast

lemma log_left_cong: "ls_log st' = ls_log st \<Longrightarrow> log_left env n st' = log_left env n st"
  by (simp add: log_left_def)

lemma log_ok_cong: "ls_log st' = ls_log st \<Longrightarrow> log_ok env n st' = log_ok env n st"
  by (simp add: log_ok_def)

lemma refresh_gate_log:
  assumes "log_ok env turn st" and "turn \<le> maxTurns"
  shows "step_all (log_ok env turn) (log_left env maxTurns) (refresh_gate env turn st)"
proof (cases "turn = 0")
  case True
  with assms show ?thesis by (simp add: refresh_gate_def)
next
  case False
  obtain action st1 where r: "refresh_at env RefreshCall BetweenTurn turn st = (action, st1)" by fastforce
  note left = refresh_left [OF assms(1) r]
  from False r left assms(2) show ?thesis
    by (auto simp: refresh_gate_def fail_closed_def gate_left log_left_cong [of "leave_non_actionable st1"]
        intro: log_left_mono)
qed

lemma lease_gate_log:
  assumes "log_ok env turn st" and "turn \<le> maxTurns"
  shows "step_all (\<lambda>st. log_ok env turn st \<and> ls_log st \<noteq> [] \<and> last (ls_log st) = EvLease (Suc turn) \<and> lease_ok env (Suc turn))
     (log_left env maxTurns) (lease_gate env turn st)"
proof (cases "acquireTurnLease (le_env env) (int (Suc turn)) (le_fetch env LeaseCall turn)")
  case (LeaseAcquired x)
  moreover from this have "lease_ok env (Suc turn)" unfolding lease_ok_def by simp
  moreover have "log_ok env turn (log_event (EvLease (Suc turn)) st)"
    by (rule log_ok_snoc [OF assms(1), where e = "EvLease (Suc turn)"]) (simp_all add: is_halt_def)
  ultimately show ?thesis by (simp add: lease_gate_def del: of_nat_Suc)
qed (simp_all add: lease_gate_def gate_left [OF assms] del: of_nat_Suc)

lemma run_turn_log:
  assumes "log_ok env turn st" and "ls_log st \<noteq> []" and "last (ls_log st) = EvLease (Suc turn)"
    and "lease_ok env (Suc turn)" and "turn < maxTurns"
  shows "step_all (log_ok env (Suc turn)) (log_left env maxTurns) (run_turn env maxTurns turn st)"
proof -
  have left: "log_left env maxTurns st" using assms by (intro log_ok_left [OF assms(1)]) simp
  have "log_ok env (Suc turn) (log_event (EvTurn (Suc turn)) st)"
    using assms by (simp add: log_ok_def is_halt_def)
  then have ok: "ls_log st' = ls_log st @ [EvTurn (Suc turn)] \<Longrightarrow> log_ok env (Suc turn) st'" for st'
    by (simp add: log_ok_def)
  have ended: "ls_log st' = ls_log st @ [EvTurn (Suc turn)] \<Longrightarrow> log_left env maxTurns st'" for st'
    using log_ok_left [OF ok] assms(5) by simp
  from left ok ended show ?thesis
    by (simp add: run_turn_def Let_def split: sum.split agent_outcome.split)
qed

lemma progress_gate_log:
  assumes "log_ok env (Suc turn) st" and "turn < maxTurns"
  shows "step_all (log_ok env (Suc turn)) (log_left env maxTurns) (progress_gate env turn st)"
proof -
  obtain progress st1 where s: "turn_score env turn st = (progress, st1)" by fastforce
  obtain action st2 where r: "refresh_at env ConfirmCall Convergence turn st1 = (action, st2)" by fastforce
  have ok: "log_ok env (Suc turn) st1" using assms(1) s by (auto simp: log_ok_def turn_score_def Let_def)
  note left = refresh_left [OF ok r]
  have "log_left env maxTurns st2" using left(1) assms(2) by (auto intro: log_left_mono)
  moreover have "log_left env maxTurns (failWorkerTurnGate ev x st2)" if "action \<noteq> GateComplete" for ev x
    using left(2) [OF that] assms(2) by (intro gate_left) auto
  ultimately show ?thesis using left(2) ok s r
    by (cases "ls_nonProductive st1 < resolveMaxNonProductiveTurns (le_env env)"; cases action)
       (simp_all add: progress_gate_def fail_closed_def log_left_cong [of "leave_non_actionable st2" st2]
          log_left_cong [of "st2\<lparr>ls_converged := True, ls_lastError := _\<rparr>" st2])
qed

interpretation leases: loop_rule env maxTurns "log_ok env" "log_left env maxTurns" for env maxTurns
proof
  fix turn st
  assume "turn < maxTurns" "log_ok env turn st"
  then show "step_all (log_ok env (Suc turn)) (log_left env maxTurns) (turn_body env maxTurns turn st)"
    unfolding turn_body_def
    by (intro step_all_bind [OF refresh_gate_log] step_all_bind [OF lease_gate_log]
        step_all_bind [OF run_turn_log] progress_gate_log) (auto simp: log_ok_def)
next
  fix st
  assume "log_ok env maxTurns st"
  then show "log_left env maxTurns st" by (rule log_ok_left) simp
qed

text \<open>
  C1. Whatever the tracker, the orchestrator and the agent answer, the turns of a session are
  numbered from 1 without a gap and never exceed the turn limit, each turn follows immediately on a
  granted lease for that very turn, and nothing happens after the tracker said the issue is no
  longer actionable or a gate failed the worker.
\<close>

theorem session_turns_are_leased:
  "let es = ls_log (se_state (run_session env snap ph err)) in
   \<exists>n. int n \<le> fst (resolveMaxTurns (le_env env ''SYMPHONY_MAX_TURNS'')) \<and> turns_of es = [1..<Suc n] \<and>
       leased env es \<and> list_all (\<lambda>e. \<not> is_halt e) (butlast es)"
proof -
  obtain m e where m: "resolveMaxTurns (le_env env ''SYMPHONY_MAX_TURNS'') = (m, e)" by fastforce
  with resolveMaxTurns_spec [of "le_env env ''SYMPHONY_MAX_TURNS''"] have "0 \<le> m" by simp
  have "log_ok env 0 (initial_loop_state e snap ph err)"
    by (simp add: log_ok_def initial_loop_state_def leased_def)
  from leases.loop [OF _ this, of "nat m" "nat m"] run_session_state [OF m, of snap ph err]
  have "log_left env (nat m) (se_state (run_session env snap ph err))" by simp
  then obtain n where "n \<le> nat m" "turns_of (ls_log (se_state (run_session env snap ph err))) = [1..<Suc n]"
    "leased env (ls_log (se_state (run_session env snap ph err)))"
    "list_all (\<lambda>e. \<not> is_halt e) (butlast (ls_log (se_state (run_session env snap ph err))))"
    unfolding log_left_def by blast
  with \<open>0 \<le> m\<close> show ?thesis unfolding Let_def m by (intro exI [of _ n]) (simp del: upt_Suc)
qed

section \<open>Convergence is confirmed\<close>

text \<open>
  What an observer sees of the session: the input of a turn, the error it left, and the workspace with
  that error after so many turns. A turn is unproductive if the head did not move and the error or
  the workspace is the same as after the turn before.
\<close>

definition turn_input :: "loop_env \<Rightarrow> nat \<Rightarrow> string result" where
  "turn_input env turn =
     buildCodexTurnInput (le_dash env) (turn = 0) (le_renderedPrompt env)
       (getOr (le_env env ''SYMPHONY_ISSUE_IDENTIFIER'') []) (le_env env ''SYMPHONY_ISSUE_TITLE'')
       (orElse (le_env env ''SYMPHONY_CONTINUATION_GUIDANCE'') (le_continuationGuidance env)) (of_nat turn)"

definition turn_error :: "loop_env \<Rightarrow> nat \<Rightarrow> string option" where
  "turn_error env turn =
     (case turn_input env turn of
        Inl _ \<Rightarrow> None
      | Inr input \<Rightarrow> (case le_agent env turn input of TurnThrew _ \<Rightarrow> None | TurnEnded _ _ lastError \<Rightarrow> lastError))"

fun observed_after :: "loop_env \<Rightarrow> turn_snapshot \<Rightarrow> string option \<Rightarrow> nat \<Rightarrow> progress_snapshot" where
  "observed_after env snap err 0 = turn_snapshot.extend snap (progress_snapshot.fields err)"
| "observed_after env snap err (Suc turn) =
     turn_snapshot.extend (le_snapshot env turn) (progress_snapshot.fields (turn_error env turn))"

definition unproductive :: "progress_snapshot \<Rightarrow> progress_snapshot \<Rightarrow> bool" where
  "unproductive p c \<longleftrightarrow>
     sn_headSha p = sn_headSha c \<and>
     ((\<exists>e. normalizeError (sn_lastError p) = Some e \<and> normalizeError (sn_lastError c) = Some e) \<or>
      (\<exists>f. sn_fingerprint p = Some f \<and> sn_fingerprint c = Some f))"

text \<open>The last \<open>m\<close> of \<open>turn\<close> turns were unproductive.\<close>

definition stuck_for :: "loop_env \<Rightarrow> turn_snapshot \<Rightarrow> string option \<Rightarrow> nat \<Rightarrow> nat \<Rightarrow> bool" where
  "stuck_for env snap err turn m \<longleftrightarrow>
     m \<le> turn \<and>
     (\<forall>k < turn. turn - m \<le> k \<longrightarrow> unproductive (observed_after env snap err k) (observed_after env snap err (Suc k)))"

definition confirmed :: "loop_env \<Rightarrow> turn_snapshot \<Rightarrow> string option \<Rightarrow> loop_state \<Rightarrow> bool" where
  "confirmed env snap err st \<longleftrightarrow>
     (ls_converged st \<longrightarrow>
        (\<exists>es k s. ls_log st = es @ [EvConfirm k s] \<and> (s = RsActive \<or> s = RsUnsupported) \<and>
           turns_of es = [1..<Suc (Suc k)] \<and>
           stuck_for env snap err (Suc k) (nat (resolveMaxNonProductiveTurns (le_env env)))))"

lemma stuck_for_next:
  assumes "stuck_for env snap err turn m"
    and "unproductive (observed_after env snap err turn) (observed_after env snap err (Suc turn))"
  shows "stuck_for env snap err (Suc turn) (Suc m)"
  using assms by (auto simp: stuck_for_def less_Suc_eq simp del: observed_after.simps)

lemma stuck_for_less: "stuck_for env snap err turn m \<Longrightarrow> n \<le> m \<Longrightarrow> stuck_for env snap err turn n"
  by (auto simp: stuck_for_def)

lemma stuck_for_0 [simp]: "stuck_for env snap err turn 0"
  by (simp add: stuck_for_def)

lemma gate_converge:
  "resolveTrackerRefreshGate s c t Convergence = (a, c') \<Longrightarrow>
   a \<noteq> GateComplete \<Longrightarrow> a \<noteq> GateFailClosed \<Longrightarrow> a \<noteq> GateDefer \<Longrightarrow> s = RsActive \<or> s = RsUnsupported"
  by (cases s) (auto simp: resolveTrackerRefreshGate_def updateRefreshFailureCount_def Let_def split: if_splits)

lemma refresh_at_confirm:
  "refresh_at env ConfirmCall Convergence turn st = (action, st1) \<Longrightarrow>
   action \<noteq> GateComplete \<Longrightarrow> action \<noteq> GateFailClosed \<Longrightarrow> action \<noteq> GateDefer \<Longrightarrow>
   \<exists>s. ls_log st1 = ls_log st @ [EvConfirm turn s] \<and> (s = RsActive \<or> s = RsUnsupported)"
  by (auto simp: refresh_at_def Let_def split: prod.splits dest: gate_converge)

lemma refresh_at_frame:
  "refresh_at env site ctxt turn st = (action, st1) \<Longrightarrow>
   ls_converged st1 = ls_converged st \<and> ls_nonProductive st1 = ls_nonProductive st \<and>
   ls_previous st1 = ls_previous st \<and> ls_lastError st1 = ls_lastError st \<and> ls_terminal st1 = ls_terminal st \<and>
   ls_userInput st1 = ls_userInput st \<and> ls_maxReached st1 = ls_maxReached st"
  by (auto simp: refresh_at_def Let_def log_event_def split: prod.splits)

text \<open>What an iteration keeps, and what holds between the turn and its evaluation.\<close>

definition stalling :: "loop_env \<Rightarrow> turn_snapshot \<Rightarrow> string option \<Rightarrow> nat \<Rightarrow> loop_state \<Rightarrow> bool" where
  "stalling env snap err turn st \<longleftrightarrow>
     \<not> ls_converged st \<and> ls_previous st = observed_after env snap err turn \<and> turns_of (ls_log st) = [1..<Suc turn] \<and>
     0 \<le> ls_nonProductive st \<and> stuck_for env snap err turn (nat (ls_nonProductive st))"

definition evaluating :: "loop_env \<Rightarrow> turn_snapshot \<Rightarrow> string option \<Rightarrow> nat \<Rightarrow> loop_state \<Rightarrow> bool" where
  "evaluating env snap err turn st \<longleftrightarrow>
     \<not> ls_converged st \<and> ls_previous st = observed_after env snap err turn \<and> turns_of (ls_log st) = [1..<Suc (Suc turn)] \<and>
     0 \<le> ls_nonProductive st \<and> stuck_for env snap err turn (nat (ls_nonProductive st)) \<and>
     ls_lastError st = turn_error env turn"

lemma gate_converged [simp]:
  "ls_converged (failWorkerTurnGate e r st) = ls_converged st"
  "ls_converged (leave_non_actionable st) = ls_converged st"
  "ls_converged (log_event ev st) = ls_converged st"
  by (simp_all add: failWorkerTurnGate_def log_event_def leave_non_actionable_def)

lemma stalling_simps [simp]:
  "stalling env snap err turn (st\<lparr>ls_turnCount := n, ls_runPhase := p\<rparr>) = stalling env snap err turn st"
  by (simp add: stalling_def)

lemma unconverged_confirmed: "\<not> ls_converged st \<Longrightarrow> confirmed env snap err st"
  by (simp add: confirmed_def)

lemma turn_score_stuck:
  assumes ev: "evaluating env snap err turn st" and score: "turn_score env turn st = (progress, st1)"
  shows "stalling env snap err (Suc turn) st1" and "ls_log st1 = ls_log st"
proof -
  from ev have prev: "ls_previous st = observed_after env snap err turn" and error: "ls_lastError st = turn_error env turn"
    by (simp_all add: evaluating_def)
  from score have st1: "progress = evaluateTurnProgress (observed_after env snap err turn) (observed_after env snap err (Suc turn))"
    "st1 = st\<lparr>ls_previous := observed_after env snap err (Suc turn),
      ls_nonProductive := (if tp_nonProductive progress then ls_nonProductive st + 1 else 0)\<rparr>"
    by (auto simp: turn_score_def Let_def prev error)
  then show "ls_log st1 = ls_log st" by simp
  have "tp_nonProductive progress \<Longrightarrow> stuck_for env snap err (Suc turn) (Suc (nat (ls_nonProductive st)))"
    using ev stuck_for_next unfolding st1(1) evaluateTurnProgress_iff evaluating_def unproductive_def by blast
  with ev show "stalling env snap err (Suc turn) st1"
    by (auto simp: st1(2) stalling_def evaluating_def nat_add_distrib simp del: observed_after.simps upt_Suc)
qed

interpretation convergence: loop_rule env maxTurns "stalling env snap err" "confirmed env snap err" for env maxTurns snap err
proof
  fix turn st
  assume un: "stalling env snap err turn st"
  have early: "step_all (stalling env snap err turn) (confirmed env snap err) (refresh_gate env turn s)"
    "step_all (stalling env snap err turn) (confirmed env snap err) (lease_gate env turn s)"
    "step_all (evaluating env snap err turn) (confirmed env snap err) (run_turn env maxTurns turn s)"
    if "stalling env snap err turn s" for s
  proof -
    from that have open_: "\<not> ls_converged s" by (simp add: stalling_def)
    obtain action s1 where r: "refresh_at env RefreshCall BetweenTurn turn s = (action, s1)" by fastforce
    then have "ls_log s1 = ls_log s @ [EvRefresh turn (rf_state (refreshTrackerState (le_env env) (le_activeStates env) (le_fetch env RefreshCall turn)))]"
      by (auto simp: refresh_at_def Let_def split: prod.splits)
    with refresh_at_frame [OF r] that have "stalling env snap err turn s1" by (simp add: stalling_def)
    with refresh_at_frame [OF r] that open_ r show "step_all (stalling env snap err turn) (confirmed env snap err) (refresh_gate env turn s)"
      by (cases "turn = 0") (simp_all add: refresh_gate_def fail_closed_def unconverged_confirmed)
    from that open_ show "step_all (stalling env snap err turn) (confirmed env snap err) (lease_gate env turn s)"
      by (auto simp: lease_gate_def unconverged_confirmed stalling_def log_event_def split: lease_result.split)
    from that open_ show "step_all (evaluating env snap err turn) (confirmed env snap err) (run_turn env maxTurns turn s)"
      by (auto simp: run_turn_def unconverged_confirmed stalling_def evaluating_def turn_error_def turn_input_def Let_def
          log_event_def split: sum.splits agent_outcome.splits)
  qed
  have last: "step_all (stalling env snap err (Suc turn)) (confirmed env snap err) (progress_gate env turn s)"
    if "evaluating env snap err turn s" for s
  proof -
    obtain progress s1 where c: "turn_score env turn s = (progress, s1)" by fastforce
    obtain action s2 where r: "refresh_at env ConfirmCall Convergence turn s1 = (action, s2)" by fastforce
    note stalled = turn_score_stuck [OF that c]
    then have s1: "\<not> ls_converged s1" by (simp add: stalling_def)
    have log: "\<exists>x. ls_log s2 = ls_log s1 @ [EvConfirm turn x]"
      using r by (auto simp: refresh_at_def Let_def split: prod.splits)
    with refresh_at_frame [OF r] stalled(1) have next_: "stalling env snap err (Suc turn) s2" by (auto simp: stalling_def)
    have "confirmed env snap err (s2\<lparr>ls_converged := True, ls_lastError := e\<rparr>)"
      if "action \<noteq> GateComplete" "action \<noteq> GateFailClosed" "action \<noteq> GateDefer"
        "\<not> ls_nonProductive s1 < resolveMaxNonProductiveTurns (le_env env)" for e
    proof -
      from refresh_at_confirm [OF r that(1-3)]
      obtain x where x: "ls_log s2 = ls_log s1 @ [EvConfirm turn x]" "x = RsActive \<or> x = RsUnsupported" by blast
      have "nat (resolveMaxNonProductiveTurns (le_env env)) \<le> nat (ls_nonProductive s1)" using that(4) by simp
      with stalled(1) have "stuck_for env snap err (Suc turn) (nat (resolveMaxNonProductiveTurns (le_env env)))"
        unfolding stalling_def by (blast intro: stuck_for_less)
      moreover have "turns_of (ls_log s1) = [1..<Suc (Suc turn)]" using stalled(1) by (simp only: stalling_def)
      ultimately show ?thesis using x unfolding confirmed_def by auto
    qed
    with stalled(1) next_ s1 refresh_at_frame [OF r] r c show ?thesis
      by (cases "ls_nonProductive s1 < resolveMaxNonProductiveTurns (le_env env)"; cases action)
         (auto simp: progress_gate_def fail_closed_def unconverged_confirmed)
  qed
  show "step_all (stalling env snap err (Suc turn)) (confirmed env snap err) (turn_body env maxTurns turn st)"
    unfolding turn_body_def using un
    by (intro step_all_bind [OF early(1)] step_all_bind [OF early(2)] step_all_bind [OF early(3)] last) auto
qed (simp add: stalling_def confirmed_def)

text \<open>
  C5. A session ends as converged only after a tracker read, its last event, that confirmed the issue
  as active (or found the capability unsupported), and only if the configured number of turns, at
  least one, just before that read were unproductive one after the other: after each of them the
  head was where it had been, and the error or the workspace was the one of the turn before. An
  unknown answer never ends a session as converged, and a productive turn starts the count again.
\<close>

theorem convergence_is_confirmed:
  assumes "se_exit (run_session env snap ph err) = ConvergenceDetected"
  shows "\<exists>es k s. ls_log (se_state (run_session env snap ph err)) = es @ [EvConfirm k s] \<and>
           (s = RsActive \<or> s = RsUnsupported) \<and> turns_of es = [1..<Suc (Suc k)] \<and>
           (\<exists>m. int m = resolveMaxNonProductiveTurns (le_env env) \<and> 1 \<le> m \<and> m \<le> Suc k \<and>
              (\<forall>j. Suc k - m \<le> j \<and> j \<le> k \<longrightarrow>
                 unproductive (observed_after env snap err j) (observed_after env snap err (Suc j))))"
proof -
  obtain m e where m: "resolveMaxTurns (le_env env ''SYMPHONY_MAX_TURNS'') = (m, e)" by fastforce
  have "stalling env snap err 0 (initial_loop_state e snap ph err)"
    by (simp add: stalling_def initial_loop_state_def)
  from convergence.loop [OF _ this, of "nat m" "nat m"] run_session_state [OF m, of snap ph err]
  have ok: "confirmed env snap err (se_state (run_session env snap ph err))" by simp
  have "ls_converged (se_state (run_session env snap ph err))"
    using assms
    by (auto simp: run_session_def m finish_session_def fail_session_def classifySessionExit_def Let_def
        split: loop_step.splits if_splits)
  with ok obtain es k s where "ls_log (se_state (run_session env snap ph err)) = es @ [EvConfirm k s]"
    "s = RsActive \<or> s = RsUnsupported" "turns_of es = [1..<Suc (Suc k)]"
    "stuck_for env snap err (Suc k) (nat (resolveMaxNonProductiveTurns (le_env env)))" unfolding confirmed_def by blast
  moreover have "0 < resolveMaxNonProductiveTurns (le_env env)"
    by (auto simp: resolveMaxNonProductiveTurns_def positive_integer_or_def DEFAULT_MAX_NONPRODUCTIVE_TURNS_def split: option.split)
  ultimately show ?thesis unfolding stuck_for_def
    by (intro exI [of _ es] exI [of _ k] exI [of _ s] exI [of _ "nat (resolveMaxNonProductiveTurns (le_env env))"] conjI)
      (auto simp del: observed_after.simps upt_Suc)
qed

section \<open>A tracker that cannot be read\<close>

definition session_threshold :: "loop_env \<Rightarrow> int" where
  "session_threshold env = resolveRefreshFailureThreshold (le_env env ''SYMPHONY_REFRESH_FAILURE_THRESHOLD'')"

lemma session_threshold_pos: "0 < session_threshold env"
  by (simp add: session_threshold_def resolveRefreshFailureThreshold_def DEFAULT_REFRESH_FAILURE_THRESHOLD_def
      split: option.split)

definition unreadable :: "loop_env \<Rightarrow> bool" where
  "unreadable env \<longleftrightarrow>
     (\<forall>site turn. site \<noteq> LeaseCall \<longrightarrow>
        rf_state (refreshTrackerState (le_env env) (le_activeStates env) (le_fetch env site turn)) = RsUnknown)"

definition turns_run :: "loop_state \<Rightarrow> nat" where
  "turns_run st = length (turns_of (ls_log st))"

definition blind :: "loop_env \<Rightarrow> nat \<Rightarrow> int \<Rightarrow> loop_state \<Rightarrow> bool" where
  "blind env turn slack st \<longleftrightarrow>
     (unreadable env \<longrightarrow> turns_run st = turn \<and> 0 \<le> ls_failures st \<and> int turn \<le> ls_failures st + slack \<and> ls_failures st < session_threshold env)"

definition blind_left :: "loop_env \<Rightarrow> loop_state \<Rightarrow> bool" where
  "blind_left env st \<longleftrightarrow> (unreadable env \<longrightarrow> int (turns_run st) \<le> session_threshold env)"

lemma turns_run_simps [simp]:
  "turns_run (failWorkerTurnGate e r st) = turns_run st" "turns_run (leave_non_actionable st) = turns_run st"
  "turns_run (st\<lparr>ls_userInput := u, ls_terminal := t, ls_lastError := x\<rparr>) = turns_run st"
  "turns_run (st\<lparr>ls_maxReached := b\<rparr>) = turns_run st"
  "turns_run (st\<lparr>ls_converged := b, ls_lastError := x\<rparr>) = turns_run st"
  by (simp_all add: turns_run_def failWorkerTurnGate_def leave_non_actionable_def)

lemma refresh_at_unreadable:
  assumes "refresh_at env site ctxt turn st = (action, st1)" and "unreadable env" and "site \<noteq> LeaseCall"
  shows "turns_run st1 = turns_run st \<and> ls_failures st1 = ls_failures st + 1 \<and>
    (action = (if session_threshold env \<le> ls_failures st + 1 then GateFailClosed
               else if ctxt = Convergence then GateDefer else GateContinue))"
proof -
  from assms(2,3) have u: "rf_state (refreshTrackerState (le_env env) (le_activeStates env) (le_fetch env site turn)) = RsUnknown"
    by (simp add: unreadable_def)
  from assms(1) show ?thesis
    by (auto simp: refresh_at_def Let_def u resolveTrackerRefreshGate_def updateRefreshFailureCount_def log_event_def
        turns_run_def session_threshold_def split: if_splits)
qed

interpretation blindness: loop_rule env maxTurns "\<lambda>turn. blind env turn 1" "blind_left env" for env maxTurns
proof
  fix turn st
  assume un: "blind env turn 1 st"
  have gate: "step_all (blind env turn 0) (blind_left env) (refresh_gate env turn s)" if "blind env turn 1 s" for s
  proof (cases "unreadable env \<and> turn \<noteq> 0")
    case True
    obtain action s1 where r: "refresh_at env RefreshCall BetweenTurn turn s = (action, s1)" by fastforce
    from refresh_at_unreadable [OF r] True that r show ?thesis
      by (auto simp: refresh_gate_def fail_closed_def blind_def blind_left_def)
  next
    case False
    then show ?thesis using that
      by (cases "refresh_gate env turn s")
         (auto simp: blind_def blind_left_def refresh_gate_def turns_run_def intro: order_less_imp_le)
  qed
  have lease: "step_all (blind env turn 0) (blind_left env) (lease_gate env turn s)" if "blind env turn 0 s" for s
    using that by (auto simp: lease_gate_def blind_def blind_left_def log_event_def turns_run_def failWorkerTurnGate_def
        split: lease_result.split)
  have run: "step_all (blind env (Suc turn) 1) (blind_left env) (run_turn env maxTurns turn s)" if "blind env turn 0 s" for s
    using that by (auto simp: run_turn_def blind_def blind_left_def log_event_def turns_run_def Let_def
        split: sum.split agent_outcome.split)
  have last: "step_all (blind env (Suc turn) 1) (blind_left env) (progress_gate env turn s)"
    if "blind env (Suc turn) 1 s" for s
  proof -
    obtain progress s1 where c: "turn_score env turn s = (progress, s1)" by fastforce
    obtain action s2 where r: "refresh_at env ConfirmCall Convergence turn s1 = (action, s2)" by fastforce
    from c have "turns_run s1 = turns_run s" "ls_failures s1 = ls_failures s"
      by (auto simp: turn_score_def Let_def turns_run_def)
    with refresh_at_unreadable [OF r] that r c show ?thesis
      by (cases "unreadable env"; cases action)
         (auto simp: progress_gate_def fail_closed_def blind_def blind_left_def split: if_splits)
  qed
  show "step_all (blind env (Suc turn) 1) (blind_left env) (turn_body env maxTurns turn st)"
    unfolding turn_body_def
    by (intro step_all_bind [OF gate] step_all_bind [OF lease] step_all_bind [OF run] last)
       (use un in \<open>auto simp: blind_def turns_run_def\<close>)
next
  fix st
  assume "blind env maxTurns 1 st"
  then show "blind_left env st" by (auto simp: blind_def blind_left_def)
qed

text \<open>
  C12. When every tracker read of a session fails, the session runs at most as many turns as the
  configured number of tolerated refresh failures, whatever its turn limit.
\<close>

theorem unreadable_tracker_bounds_turns:
  assumes "unreadable env"
  shows "int (turns_run (se_state (run_session env snap ph err))) \<le> session_threshold env"
proof -
  obtain m e where m: "resolveMaxTurns (le_env env ''SYMPHONY_MAX_TURNS'') = (m, e)" by fastforce
  have "blind env 0 1 (initial_loop_state e snap ph err)"
    by (simp add: blind_def initial_loop_state_def turns_run_def session_threshold_pos)
  from blindness.loop [OF _ this, of "nat m" "nat m"] run_session_state [OF m, of snap ph err] assms
  show ?thesis by (simp add: blind_left_def)
qed

section \<open>An idle agent\<close>

text \<open>
  Every lease is granted, every read says active, the guidance renders, and no turn changes the
  workspace, ends the session or reports an error.
\<close>

definition session_guidance :: "loop_env \<Rightarrow> string option" where
  "session_guidance env = orElse (le_env env ''SYMPHONY_CONTINUATION_GUIDANCE'') (le_continuationGuidance env)"

definition idle :: "loop_env \<Rightarrow> turn_snapshot \<Rightarrow> bool" where
  "idle env snap \<longleftrightarrow>
     sn_fingerprint snap \<noteq> None \<and>
     (\<forall>turn. le_snapshot env turn = snap) \<and> (\<forall>turn. lease_ok env (Suc turn)) \<and>
     (\<forall>turn input. le_agent env turn input = TurnEnded False None None) \<and>
     (\<forall>turn. is_ok (buildContinuationTurnInput (session_guidance env) None (of_nat turn))) \<and>
     (\<forall>site turn. site \<noteq> LeaseCall \<longrightarrow>
        rf_state (refreshTrackerState (le_env env) (le_activeStates env) (le_fetch env site turn)) = RsActive)"

lemma refresh_at_active:
  assumes "idle env snap" and "site \<noteq> LeaseCall"
  shows "\<exists>w. refresh_at env site ctxt turn st =
     (if ctxt = Convergence then GateConverge else GateContinue,
      log_event (if site = ConfirmCall then EvConfirm turn RsActive else EvRefresh turn RsActive)
        (st\<lparr>ls_warned := w, ls_failures := 0\<rparr>))"
proof -
  from assms have "rf_state (refreshTrackerState (le_env env) (le_activeStates env) (le_fetch env site turn)) = RsActive"
    by (simp add: idle_def)
  then show ?thesis using session_threshold_pos [of env]
    by (cases site; cases ctxt)
       (auto simp: refresh_at_def Let_def resolveTrackerRefreshGate_def updateRefreshFailureCount_def session_threshold_def)
qed

definition idling :: "turn_snapshot \<Rightarrow> nat \<Rightarrow> loop_state \<Rightarrow> bool" where
  "idling snap turn st \<longleftrightarrow>
     ls_nonProductive st = int turn \<and> turns_of (ls_log st) = [1..<Suc turn] \<and> ls_lastError st = None \<and>
     ls_previous st = turn_snapshot.extend snap (progress_snapshot.fields None) \<and>
     \<not> ls_userInput st \<and> ls_terminal st = None \<and> \<not> ls_maxReached st \<and> \<not> ls_converged st"

lemma idle_input:
  "idle env snap \<Longrightarrow> \<exists>input. buildCodexTurnInput (le_dash env) (turn = 0) (le_renderedPrompt env)
             (getOr (le_env env ''SYMPHONY_ISSUE_IDENTIFIER'') []) (le_env env ''SYMPHONY_ISSUE_TITLE'')
             (session_guidance env) (of_nat turn) = Inr input"
  by (cases "buildContinuationTurnInput (session_guidance env) None (of_nat turn)")
     (auto simp: idle_def buildCodexTurnInput_def dest!: spec [of _ turn])

lemma idle_progress: "sn_fingerprint snap \<noteq> None \<Longrightarrow>
  tp_nonProductive (evaluateTurnProgress (turn_snapshot.extend snap (progress_snapshot.fields None))
                      (turn_snapshot.extend snap (progress_snapshot.fields None)))"
  by (auto simp: evaluateTurnProgress_iff turn_snapshot.defs progress_snapshot.defs)

lemma idle_step:
  assumes idle: "idle env snap" and st: "idling snap turn st" and turn: "turn + 1 < maxTurns"
  shows "(if int turn + 1 < resolveMaxNonProductiveTurns (le_env env)
          then \<exists>st'. turn_body env maxTurns turn st = LoopNext st' \<and> idling snap (Suc turn) st'
          else \<exists>st'. turn_body env maxTurns turn st = LoopBreak st' \<and> ls_converged st' \<and> \<not> ls_userInput st' \<and>
                     turns_of (ls_log st') = [1..<Suc (Suc turn)])"
proof -
  obtain st1 where st1: "refresh_gate env turn (st\<lparr>ls_turnCount := Suc turn, ls_runPhase := Some StreamingTurn\<rparr>) = LoopNext st1"
    "idling snap turn st1"
  proof -
    let ?st = "st\<lparr>ls_turnCount := Suc turn, ls_runPhase := Some StreamingTurn\<rparr>"
    obtain w where "refresh_at env RefreshCall BetweenTurn turn ?st =
        (GateContinue, log_event (EvRefresh turn RsActive) (?st\<lparr>ls_warned := w, ls_failures := 0\<rparr>))"
      using refresh_at_active [OF idle, of RefreshCall BetweenTurn turn ?st] by auto
    then show thesis using st that
      by (cases "turn = 0") (simp_all add: refresh_gate_def idling_def log_event_def)
  qed
  have "lease_ok env (Suc turn)" using idle by (simp add: idle_def)
  then have st2: "lease_gate env turn st1 = LoopNext (log_event (EvLease (Suc turn)) st1)"
    unfolding lease_ok_def lease_gate_def by (simp split: lease_result.splits)
  obtain st3 where st3: "run_turn env maxTurns turn (log_event (EvLease (Suc turn)) st1) = LoopNext st3"
    "ls_nonProductive st3 = int turn" "ls_lastError st3 = None" "turns_of (ls_log st3) = [1..<Suc (Suc turn)]"
    "ls_previous st3 = turn_snapshot.extend snap (progress_snapshot.fields None)"
    "\<not> ls_userInput st3" "ls_terminal st3 = None" "\<not> ls_maxReached st3" "\<not> ls_converged st3"
  proof -
    obtain input where "buildCodexTurnInput (le_dash env) (turn = 0) (le_renderedPrompt env)
             (getOr (le_env env ''SYMPHONY_ISSUE_IDENTIFIER'') []) (le_env env ''SYMPHONY_ISSUE_TITLE'')
             (session_guidance env) (of_nat turn) = Inr input" using idle_input [OF idle] by blast
    moreover have "le_agent env turn input = TurnEnded False None None" using idle by (simp add: idle_def)
    ultimately show thesis using st1(2) turn that
      by (simp add: run_turn_def session_guidance_def idling_def log_event_def Let_def)
  qed
  obtain progress st4 where score: "turn_score env turn st3 = (progress, st4)" by fastforce
  have snap: "le_snapshot env turn = snap" "sn_fingerprint snap \<noteq> None" using idle by (simp_all add: idle_def)
  have st4: "idling snap (Suc turn) st4"
    using score st3 idle_progress [OF snap(2)] by (auto simp: turn_score_def Let_def snap(1) idling_def)
  have body: "turn_body env maxTurns turn st = progress_gate env turn st3"
    by (simp add: turn_body_def st1 st2 st3(1))
  from refresh_at_active [OF idle, of ConfirmCall Convergence turn st4] st4 score show ?thesis
    by (auto simp: body progress_gate_def idling_def log_event_def)
qed

lemma idle_loop:
  assumes "idle env snap" and "idling snap turn st" and "turn + left = maxTurns"
    and "int turn < resolveMaxNonProductiveTurns (le_env env)" and "resolveMaxNonProductiveTurns (le_env env) < int maxTurns"
  shows "\<exists>st'. turn_loop env maxTurns turn left st = LoopBreak st' \<and> ls_converged st' \<and> \<not> ls_userInput st' \<and>
               turns_of (ls_log st') = [1..<Suc (nat (resolveMaxNonProductiveTurns (le_env env)))]"
  using assms
proof (induction left arbitrary: turn st)
  case 0
  then show ?case by simp
next
  case (Suc left)
  let ?N = "resolveMaxNonProductiveTurns (le_env env)"
  from Suc.prems have "turn + 1 < maxTurns" by linarith
  note step = idle_step [OF Suc.prems(1,2) this]
  show ?case
  proof (cases "int turn + 1 < ?N")
    case True
    with step obtain st' where "turn_body env maxTurns turn st = LoopNext st'" "idling snap (Suc turn) st'" by auto
    with Suc.IH [of "Suc turn" st'] Suc.prems True show ?thesis by simp
  next
    case False
    with Suc.prems(4) have "nat ?N = Suc turn" by simp
    with step False show ?thesis by (auto simp del: upt_Suc)
  qed
qed

lemma idle_converges:
  assumes "idle env snap"
    and "resolveMaxNonProductiveTurns (le_env env) < fst (resolveMaxTurns (le_env env ''SYMPHONY_MAX_TURNS''))"
  shows "se_exit (run_session env snap ph None) = ConvergenceDetected \<and>
         turns_of (ls_log (se_state (run_session env snap ph None))) =
           [1..<Suc (nat (resolveMaxNonProductiveTurns (le_env env)))]"
proof -
  obtain m e where m: "resolveMaxTurns (le_env env ''SYMPHONY_MAX_TURNS'') = (m, e)" by fastforce
  have pos: "0 < resolveMaxNonProductiveTurns (le_env env)"
    by (simp add: resolveMaxNonProductiveTurns_def positive_integer_or_pos DEFAULT_MAX_NONPRODUCTIVE_TURNS_def)
  with assms(2) m have "0 < m" by simp
  with resolveMaxTurns_spec [of "le_env env ''SYMPHONY_MAX_TURNS''"] m have "\<not> e" by simp
  then have "idling snap 0 (initial_loop_state e snap ph None)"
    by (simp add: idling_def initial_loop_state_def)
  from idle_loop [OF assms(1) this, of "nat m" "nat m"] pos assms(2) m obtain st' where
    "turn_loop env (nat m) 0 (nat m) (initial_loop_state e snap ph None) = LoopBreak st'" "ls_converged st'"
    "\<not> ls_userInput st'" "turns_of (ls_log st') = [1..<Suc (nat (resolveMaxNonProductiveTurns (le_env env)))]"
    by auto
  then show ?thesis
    by (simp add: run_session_def m finish_session_def classifySessionExit_def del: upt_Suc)
qed

text \<open>
  C11. An agent that keeps completing turns without changing the workspace is stopped: the session
  ends as converged after exactly the configured number of unproductive turns, each of which ran.
\<close>

theorem idle_session_converges:
  assumes "idle env snap"
    and "resolveMaxNonProductiveTurns (le_env env) < fst (resolveMaxTurns (le_env env ''SYMPHONY_MAX_TURNS''))"
  shows "se_exit (run_session env snap ph None) = ConvergenceDetected \<and>
         turns_of (ls_log (se_state (run_session env snap ph None))) =
           [1..<Suc (nat (resolveMaxNonProductiveTurns (le_env env)))]"
  using assms by (rule idle_converges)

section \<open>A sample session\<close>

definition sample_lease_answer :: http_outcome where
  "sample_lease_answer = HttpResponse True 200 (JObj [(''acquired'', JBool True), (''expiresAt'', JStr ''t'')])"

definition sample_snapshot :: turn_snapshot where
  "sample_snapshot = \<lparr>sn_fingerprint = Some [], sn_changedFiles = [], sn_headSha = Some ''h''\<rparr>"

text \<open>A session whose agent does nothing; \<open>tracker\<close> answers the tracker reads.\<close>

definition sample_loop_env :: "http_outcome \<Rightarrow> loop_env" where
  "sample_loop_env tracker =
     \<lparr>le_env = sample_worker_env, le_activeStates = [''todo''],
      le_fetch = (\<lambda>site _ _. if site = LeaseCall then sample_lease_answer else tracker),
      le_agent = (\<lambda>_ _. TurnEnded False None None), le_snapshot = (\<lambda>_. sample_snapshot), le_dash = '' - '',
      le_renderedPrompt = ''p'', le_continuationGuidance = Some ''g'', le_reasonText = (\<lambda>_. ''r'')\<rparr>"

lemma sample_lease_ok: "lease_ok (sample_loop_env tracker) k"
  by (simp add: lease_ok_def acquireTurnLease_def sample_loop_env_def sample_worker_env_def sample_lease_answer_def)

lemma sample_guidance: "is_ok (buildContinuationTurnInput (Some ''g'') None n)"
proof -
  have "normalizeContinuationVariable (Some ''g'') = Some ''g''" by code_simp
  moreover have "renderContinuationGuidance ''g'' vs = Inr ''g''" for vs
    by (rule plain_guidance) code_simp+
  ultimately show ?thesis by (simp add: buildContinuationTurnInput_def)
qed

lemma sample_idle: "idle (sample_loop_env sample_tracker_answer) sample_snapshot"
proof -
  have "matchesWorkflowState ''Todo'' [''todo'']" by code_simp
  then have "rf_state (refreshTrackerState sample_worker_env [''todo''] (\<lambda>_. sample_tracker_answer)) = RsActive"
    by (simp add: refreshTrackerState_def sample_worker_env_def sample_tracker_answer_def read_tracker_response_def)
  then show ?thesis
    unfolding idle_def
    by (auto simp: sample_lease_ok session_guidance_def) (simp_all add: sample_loop_env_def sample_snapshot_def sample_worker_env_def sample_guidance)
qed

lemma sample_limits:
  "resolveMaxNonProductiveTurns (le_env (sample_loop_env tracker)) = 3"
  "fst (resolveMaxTurns (le_env (sample_loop_env tracker) ''SYMPHONY_MAX_TURNS'')) = 20"
  "session_threshold (sample_loop_env tracker) = 3"
  by (simp_all add: sample_loop_env_def sample_worker_env_def resolveMaxTurns_def DEFAULT_SESSION_MAX_TURNS_def
      session_threshold_def resolveRefreshFailureThreshold_def DEFAULT_REFRESH_FAILURE_THRESHOLD_def)
    (code_simp)?

lemma idle_session_converges_witness:
  "se_exit (run_session (sample_loop_env sample_tracker_answer) sample_snapshot None None) = ConvergenceDetected"
  using idle_session_converges [OF sample_idle, of None] by (simp add: sample_limits)

lemma convergence_is_confirmed_witness:
  "\<exists>es k s. ls_log (se_state (run_session (sample_loop_env sample_tracker_answer) sample_snapshot None None)) =
      es @ [EvConfirm k s] \<and> (s = RsActive \<or> s = RsUnsupported) \<and> 3 \<le> length (turns_of es)"
proof -
  have "se_exit (run_session (sample_loop_env sample_tracker_answer) sample_snapshot None None) = ConvergenceDetected"
    using idle_converges [OF sample_idle, of None] by (simp add: sample_limits)
  from convergence_is_confirmed [OF this] obtain es k s m where
    "ls_log (se_state (run_session (sample_loop_env sample_tracker_answer) sample_snapshot None None)) = es @ [EvConfirm k s]"
    "s = RsActive \<or> s = RsUnsupported" "turns_of es = [1..<Suc (Suc k)]"
    "int m = resolveMaxNonProductiveTurns (le_env (sample_loop_env sample_tracker_answer))" "m \<le> Suc k" by blast
  then show ?thesis by (intro exI [of _ es] exI [of _ k] exI [of _ s]) (auto simp: sample_limits simp del: upt_Suc)
qed

lemma unreadable_tracker_bounds_turns_witness:
  "int (turns_run (se_state (run_session (sample_loop_env (HttpThrow ''down'')) sample_snapshot None None))) \<le> 3"
proof -
  have "unreadable (sample_loop_env (HttpThrow ''down''))"
    by (simp add: unreadable_def sample_loop_env_def refreshTrackerState_def sample_worker_env_def)
  from unreadable_tracker_bounds_turns [OF this, of sample_snapshot None None] show ?thesis by (simp add: sample_limits)
qed

section \<open>A reason that is lost\<close>

text \<open>
  When refresh failures close the gate, the reason the gate records (how often the tracker
  could not be read) does not survive: the session's handler overwrites it with the bare error
  name, and reports a failed run.
\<close>

theorem fail_closed_reason_is_lost:
  "case fail_closed st of
     LoopThrow e st' \<Rightarrow>
       ls_lastError st' = Some (''orchestrator_unavailable: tracker refresh failed '' @ int_text (ls_failures st) @ '' consecutive times'') \<and>
       se_lastError (fail_session e st') = Some ''orchestrator_unavailable'' \<and>
       se_runPhase (fail_session e st') = PhaseFailed \<and> se_status (fail_session e st') = WsFailed
   | _ \<Rightarrow> False"
  by (simp add: fail_closed_def failWorkerTurnGate_def log_event_def refresh_failed_text_def fail_session_def
      starts_with_any_def starts_with_def)

end
