(* ===== verification/ProjectLock.thy ===== *)
theory ProjectLock
  imports Numbers "HOL-Library.Sublist"
begin

text \<open>
  The project lock of \<open>packages/orchestrator/src/lock.ts\<close>: the lock file, its acquisition, the
  heartbeat that renews it and its release. The file system is a path that may name an inode, and
  the contents of the inodes, so that a handle opened before the path was removed keeps its inode.
  Every file operation of the code is one step; the processes take steps in any order.
\<close>

section \<open>The lock file\<close>

record lock_record =
  lr_ownerToken :: string
  lr_pid :: int
  lr_startedAt :: string
  lr_heartbeatAt :: "string option"
  lr_processIdentity :: "string option"
  lr_cwd :: "string option"

text \<open>The record written by \<open>JSON.stringify\<close>: \<open>null\<close> is kept, \<open>undefined\<close> is left out.\<close>

definition nullable :: "string option \<Rightarrow> json" where
  "nullable v = (case v of None \<Rightarrow> JNull | Some s \<Rightarrow> JStr s)"

definition lock_json :: "lock_record \<Rightarrow> json" where
  "lock_json r =
     JObj ([(''ownerToken'', JStr (lr_ownerToken r)), (''pid'', JNum (of_int (lr_pid r))),
            (''startedAt'', JStr (lr_startedAt r)), (''heartbeatAt'', nullable (lr_heartbeatAt r)),
            (''processIdentity'', nullable (lr_processIdentity r))] @
           (case lr_cwd r of None \<Rightarrow> [] | Some d \<Rightarrow> [(''cwd'', JStr d)]))"

text \<open>An optional member: absent, or a string (or \<open>null\<close> where \<open>allowNull\<close>).\<close>

definition optional_string_ok :: "bool \<Rightarrow> json option \<Rightarrow> bool" where
  "optional_string_ok allowNull v =
     (case v of None \<Rightarrow> True | Some JNull \<Rightarrow> allowNull | Some (JStr _) \<Rightarrow> True | Some _ \<Rightarrow> False)"

text \<open>\<open>None\<close> is a text that \<open>JSON.parse\<close> rejects, as the empty file of a lock being written.\<close>

definition parseProjectLock :: "json option \<Rightarrow> lock_record option" where
  "parseProjectLock raw =
     (case raw of
        None \<Rightarrow> None
      | Some parsed \<Rightarrow>
          (case (jstring (jget parsed ''ownerToken''), as_integer (jnumber (jget parsed ''pid'')),
                 jstring (jget parsed ''startedAt'')) of
             (Some ownerToken, Some pid, Some startedAt) \<Rightarrow>
               if pid \<le> 0 \<or> \<not> optional_string_ok False (jget parsed ''cwd'') \<or>
                  \<not> optional_string_ok False (jget parsed ''heartbeatAt'') \<or>
                  \<not> optional_string_ok True (jget parsed ''processIdentity'')
               then None
               else Some \<lparr>lr_ownerToken = ownerToken, lr_pid = pid, lr_startedAt = startedAt,
                          lr_heartbeatAt = jstring (jget parsed ''heartbeatAt''),
                          lr_processIdentity = jstring (jget parsed ''processIdentity''),
                          lr_cwd = jstring (jget parsed ''cwd'')\<rparr>
           | _ \<Rightarrow> None))"

section \<open>Whether a lock is active\<close>

text \<open>What an acquirer observes: the time, the time to live and the processes of the host.\<close>

record lock_observation =
  ob_now :: int
  ob_leaseTtlMs :: int
  ob_isProcessRunning :: "int \<Rightarrow> bool"
  ob_getProcessIdentity :: "int \<Rightarrow> string option"

definition isActiveLock :: "lock_record \<Rightarrow> lock_observation \<Rightarrow> bool" where
  "isActiveLock r ob =
     (if \<not> ob_isProcessRunning ob (lr_pid r) then False
      else let actualIdentity = ob_getProcessIdentity ob (lr_pid r);
               identityMatches = lr_processIdentity r = None \<or> actualIdentity = None \<or>
                                 lr_processIdentity r = actualIdentity
           in if \<not> identityMatches then False
              else case lr_heartbeatAt r of
                     None \<Rightarrow> True
                   | Some h \<Rightarrow>
                       (case date_parse h of
                          None \<Rightarrow> False
                        | Some t \<Rightarrow> \<not> ob_leaseTtlMs ob < \<bar>ob_now ob - t\<bar>))"

section \<open>The file system and the steps of a process\<close>

record lock_fs =
  fs_path :: "nat option"
  fs_inode :: "nat \<Rightarrow> json option"
  fs_next :: nat

record lock_input =
  li_label :: string
  li_lockPath :: string
  li_ownerToken :: string
  li_pid :: int
  li_startedAt :: string
  li_processIdentity :: "string option"
  li_cwd :: string

definition new_lock :: "lock_input \<Rightarrow> lock_record" where
  "new_lock inp =
     \<lparr>lr_ownerToken = li_ownerToken inp, lr_pid = li_pid inp, lr_startedAt = li_startedAt inp,
      lr_heartbeatAt = Some (li_startedAt inp), lr_processIdentity = li_processIdentity inp,
      lr_cwd = Some (li_cwd inp)\<rparr>"

definition LOCK_READ_RETRY_LIMIT :: nat where
  "LOCK_READ_RETRY_LIMIT = 20"

text \<open>
  Where a process stands. The numbers are \<open>invalidReadAttempts\<close> while acquiring, and the inode of
  an open handle.
\<close>

datatype lock_pc =
    AcqOpen nat
  | AcqWrite nat
  | AcqRead nat
  | AcqRemove
  | Held
  | RenewOpened nat
  | LeaseLost
  | ReleaseRemove
  | LockReleased
  | LockFailed string

datatype lock_action = DoAcquire | DoRenew | DoRelease

definition read_lock :: "lock_fs \<Rightarrow> lock_record option option" where
  "read_lock fs = (case fs_path fs of None \<Rightarrow> None | Some i \<Rightarrow> Some (parseProjectLock (fs_inode fs i)))"

definition quoted :: "string \<Rightarrow> string" where
  "quoted s = CHR 0x22 # s @ [CHR 0x22]"

definition acquire_open :: "nat \<Rightarrow> lock_fs \<Rightarrow> lock_fs \<times> lock_pc" where
  "acquire_open attempts fs =
     (case fs_path fs of
        None \<Rightarrow> (fs\<lparr>fs_path := Some (fs_next fs), fs_inode := (fs_inode fs)(fs_next fs := None),
                     fs_next := Suc (fs_next fs)\<rparr>, AcqWrite (fs_next fs))
      | Some _ \<Rightarrow> (fs, AcqRead attempts))"

definition acquire_write :: "lock_input \<Rightarrow> nat \<Rightarrow> lock_fs \<Rightarrow> lock_fs \<times> lock_pc" where
  "acquire_write inp i fs = (fs\<lparr>fs_inode := (fs_inode fs)(i := Some (lock_json (new_lock inp)))\<rparr>, Held)"

definition acquire_read :: "lock_input \<Rightarrow> lock_observation \<Rightarrow> nat \<Rightarrow> lock_fs \<Rightarrow> lock_pc" where
  "acquire_read inp ob attempts fs =
     (case read_lock fs of
        None \<Rightarrow> AcqOpen 0
      | Some None \<Rightarrow>
          if LOCK_READ_RETRY_LIMIT \<le> Suc attempts
          then LockFailed (''Project '' @ quoted (li_label inp) @ '' lock file is unreadable at '' @
                           quoted (li_lockPath inp) @ ''.'')
          else AcqOpen (Suc attempts)
      | Some (Some existing) \<Rightarrow>
          if isActiveLock existing ob
          then LockFailed (''Project '' @ quoted (li_label inp) @ '' is already running (PID '' @
                           int_text (lr_pid existing) @ '').'')
          else AcqRemove)"

definition remove_path :: "lock_fs \<Rightarrow> lock_fs" where
  "remove_path fs = fs\<lparr>fs_path := None\<rparr>"

definition acquireProjectLock ::
  "lock_input \<Rightarrow> lock_observation \<Rightarrow> lock_fs \<Rightarrow> lock_pc \<Rightarrow> (lock_fs \<times> lock_pc) option" where
  "acquireProjectLock inp ob fs pc =
     (case pc of
        AcqOpen attempts \<Rightarrow> Some (acquire_open attempts fs)
      | AcqWrite i \<Rightarrow> Some (acquire_write inp i fs)
      | AcqRead attempts \<Rightarrow> Some (fs, acquire_read inp ob attempts fs)
      | AcqRemove \<Rightarrow> Some (remove_path fs, AcqOpen 0)
      | _ \<Rightarrow> None)"

text \<open>The heartbeat: the handle is opened first; a lock that is not one's own any more is lost.\<close>

definition renew_write :: "lock_input \<Rightarrow> string \<Rightarrow> nat \<Rightarrow> lock_fs \<Rightarrow> lock_fs \<times> lock_pc" where
  "renew_write inp nowText i fs =
     (case parseProjectLock (fs_inode fs i) of
        None \<Rightarrow> (fs, LeaseLost)
      | Some existing \<Rightarrow>
          if lr_ownerToken existing \<noteq> li_ownerToken inp then (fs, LeaseLost)
          else (fs\<lparr>fs_inode := (fs_inode fs)(i := Some (lock_json (existing\<lparr>lr_heartbeatAt := Some nowText\<rparr>)))\<rparr>, Held))"

definition renewProjectLock ::
  "lock_input \<Rightarrow> string \<Rightarrow> lock_fs \<Rightarrow> lock_pc \<Rightarrow> (lock_fs \<times> lock_pc) option" where
  "renewProjectLock inp nowText fs pc =
     (case pc of
        Held \<Rightarrow> Some (fs, case fs_path fs of None \<Rightarrow> LeaseLost | Some i \<Rightarrow> RenewOpened i)
      | RenewOpened i \<Rightarrow> Some (renew_write inp nowText i fs)
      | _ \<Rightarrow> None)"

definition releaseProjectLock :: "lock_input \<Rightarrow> lock_fs \<Rightarrow> lock_pc \<Rightarrow> (lock_fs \<times> lock_pc) option" where
  "releaseProjectLock inp fs pc =
     (case pc of
        Held \<Rightarrow> Some (fs, case read_lock fs of
                            Some (Some existing) \<Rightarrow>
                              if lr_ownerToken existing \<noteq> li_ownerToken inp then LockReleased else ReleaseRemove
                          | _ \<Rightarrow> LockReleased)
      | ReleaseRemove \<Rightarrow> Some (remove_path fs, LockReleased)
      | _ \<Rightarrow> None)"

fun lock_act ::
  "lock_action \<Rightarrow> lock_input \<Rightarrow> lock_observation \<Rightarrow> string \<Rightarrow> lock_fs \<Rightarrow> lock_pc \<Rightarrow> (lock_fs \<times> lock_pc) option" where
  "lock_act DoAcquire inp ob nowText fs pc = acquireProjectLock inp ob fs pc"
| "lock_act DoRenew inp ob nowText fs pc = renewProjectLock inp nowText fs pc"
| "lock_act DoRelease inp ob nowText fs pc = releaseProjectLock inp fs pc"

lemmas lock_defs =
  acquireProjectLock_def acquire_open_def acquire_write_def acquire_read_def remove_path_def
  renewProjectLock_def renew_write_def releaseProjectLock_def read_lock_def

section \<open>Several processes\<close>

record lock_sys =
  sy_fs :: lock_fs
  sy_pc :: "nat \<Rightarrow> lock_pc"

inductive lock_step ::
  "(nat \<Rightarrow> lock_input) \<Rightarrow> nat \<Rightarrow> lock_observation \<Rightarrow> lock_sys \<Rightarrow> lock_sys \<Rightarrow> bool"
  for inp :: "nat \<Rightarrow> lock_input" where
  step: "lock_act a (inp p) ob nowText (sy_fs s) (sy_pc s p) = Some (fs', pc') \<Longrightarrow>
         lock_step inp p ob s \<lparr>sy_fs = fs', sy_pc = (sy_pc s)(p := pc')\<rparr>"

inductive_cases lock_stepE: "lock_step inp p ob s s'"

definition holds_lock :: "lock_pc \<Rightarrow> bool" where
  "holds_lock pc \<longleftrightarrow> pc = Held \<or> (\<exists>i. pc = RenewOpened i)"

text \<open>Whoever reads the lock file now finds a valid lock active.\<close>

definition found_active :: "lock_observation \<Rightarrow> lock_sys \<Rightarrow> bool" where
  "found_active ob s \<longleftrightarrow> (\<forall>r. read_lock (sy_fs s) = Some (Some r) \<longrightarrow> isActiveLock r ob)"

inductive live_run :: "(nat \<Rightarrow> lock_input) \<Rightarrow> lock_sys \<Rightarrow> lock_sys \<Rightarrow> bool"
  for inp :: "nat \<Rightarrow> lock_input" and s0 :: lock_sys where
  start: "live_run inp s0 s0"
| more: "live_run inp s0 s \<Longrightarrow> found_active ob s \<Longrightarrow> lock_step inp p ob s s' \<Longrightarrow> live_run inp s0 s'"

inductive any_run :: "(nat \<Rightarrow> lock_input) \<Rightarrow> lock_sys \<Rightarrow> lock_sys \<Rightarrow> bool"
  for inp :: "nat \<Rightarrow> lock_input" and s0 :: lock_sys where
  begun: "any_run inp s0 s0"
| on: "any_run inp s0 s \<Longrightarrow> lock_step inp p ob s s' \<Longrightarrow> any_run inp s0 s'"

definition fresh_system :: "lock_sys" where
  "fresh_system = \<lparr>sy_fs = \<lparr>fs_path = None, fs_inode = (\<lambda>_. None), fs_next = 0\<rparr>, sy_pc = (\<lambda>_. AcqOpen 0)\<rparr>"

section \<open>Facts\<close>

lemma jget_lock_json [simp]:
  "jget (lock_json r) ''ownerToken'' = Some (JStr (lr_ownerToken r))"
  "jget (lock_json r) ''pid'' = Some (JNum (of_int (lr_pid r)))"
  "jget (lock_json r) ''startedAt'' = Some (JStr (lr_startedAt r))"
  "jget (lock_json r) ''heartbeatAt'' = Some (nullable (lr_heartbeatAt r))"
  "jget (lock_json r) ''processIdentity'' = Some (nullable (lr_processIdentity r))"
  "jget (lock_json r) ''cwd'' = map_option JStr (lr_cwd r)"
  by (simp_all add: lock_json_def split: option.split)

lemma parse_lock_json:
  "0 < lr_pid r \<Longrightarrow> lr_heartbeatAt r \<noteq> None \<Longrightarrow> parseProjectLock (Some (lock_json r)) = Some r"
  by (auto simp: parseProjectLock_def optional_string_ok_def nullable_def split: option.split)

lemma parse_None [simp]: "parseProjectLock None = None"
  by (simp add: parseProjectLock_def)

lemma parse_pid: "parseProjectLock raw = Some r \<Longrightarrow> 0 < lr_pid r"
  by (auto simp: parseProjectLock_def split: option.splits if_splits)

lemma parse_new_lock: "0 < li_pid inp \<Longrightarrow> parseProjectLock (Some (lock_json (new_lock inp))) = Some (new_lock inp)"
  by (rule parse_lock_json) (simp_all add: new_lock_def)

section \<open>Mutual exclusion while locks are live\<close>

lemma new_lock_token [simp]: "lr_ownerToken (new_lock inp) = li_ownerToken inp"
  by (simp add: new_lock_def)

definition owns_file :: "lock_input \<Rightarrow> lock_fs \<Rightarrow> bool" where
  "owns_file inp fs \<longleftrightarrow> (\<exists>r. read_lock fs = Some (Some r) \<and> lr_ownerToken r = li_ownerToken inp)"

definition pc_ok :: "lock_input \<Rightarrow> lock_fs \<Rightarrow> lock_pc \<Rightarrow> bool" where
  "pc_ok inp fs pc =
     (case pc of
        AcqWrite i \<Rightarrow> fs_path fs = Some i \<and> fs_inode fs i = None
      | AcqRemove \<Rightarrow> False
      | Held \<Rightarrow> owns_file inp fs
      | RenewOpened i \<Rightarrow> fs_path fs = Some i \<and> owns_file inp fs
      | ReleaseRemove \<Rightarrow> owns_file inp fs
      | _ \<Rightarrow> True)"

definition busy :: "lock_pc \<Rightarrow> bool" where
  "busy pc \<longleftrightarrow> holds_lock pc \<or> pc = ReleaseRemove \<or> (\<exists>i. pc = AcqWrite i)"

definition lock_inv :: "(nat \<Rightarrow> lock_input) \<Rightarrow> lock_sys \<Rightarrow> bool" where
  "lock_inv inp s \<longleftrightarrow>
     (\<forall>p. pc_ok (inp p) (sy_fs s) (sy_pc s p)) \<and>
     (\<forall>p q. busy (sy_pc s p) \<longrightarrow> busy (sy_pc s q) \<longrightarrow> p = q)"

lemma busy_simps [simp]:
  "busy Held" "busy (AcqWrite i)" "busy (RenewOpened i)" "busy ReleaseRemove"
  "\<not> busy (AcqOpen k)" "\<not> busy (AcqRead k)" "\<not> busy AcqRemove" "\<not> busy LeaseLost" "\<not> busy LockReleased"
  "\<not> busy (LockFailed e)"
  by (simp_all add: busy_def holds_lock_def)

lemma busy_path: "pc_ok inp fs pc \<Longrightarrow> busy pc \<Longrightarrow> fs_path fs \<noteq> None"
  by (cases pc) (auto simp: pc_ok_def owns_file_def read_lock_def split: option.splits)

lemma idle_pc_ok: "pc_ok inp fs pc \<Longrightarrow> \<not> busy pc \<Longrightarrow> pc_ok inp fs' pc"
  by (cases pc) (auto simp: pc_ok_def)

text \<open>What a step of a process does to the file, given what it relies on.\<close>

lemma lock_act_effect:
  assumes "lock_act a inp ob nowText fs pc = Some (fs', pc')" and "pc_ok inp fs pc"
    and "\<forall>r. read_lock fs = Some (Some r) \<longrightarrow> isActiveLock r ob" and "0 < li_pid inp"
  shows "pc_ok inp fs' pc' \<and> (busy pc' \<longrightarrow> busy pc \<or> fs_path fs = None) \<and> (fs' \<noteq> fs \<longrightarrow> busy pc \<or> fs_path fs = None)"
proof (cases a)
  case DoAcquire
  with assms show ?thesis
    by (cases pc) (auto simp: lock_defs pc_ok_def owns_file_def parse_new_lock split: option.splits if_splits)
next
  case DoRenew
  with assms show ?thesis
    by (cases pc) (auto simp: lock_defs pc_ok_def owns_file_def parse_lock_json parse_pid split: option.splits if_splits)
next
  case DoRelease
  with assms show ?thesis
    by (cases pc) (auto simp: lock_defs pc_ok_def owns_file_def split: option.splits if_splits)
qed

lemma lock_step_inv:
  assumes "lock_inv inp s" and "lock_step inp p ob s s'" and "found_active ob s" and "\<forall>q. 0 < li_pid (inp q)"
  shows "lock_inv inp s'"
proof -
  from assms(2) obtain a nowText fs' pc' where
    act: "lock_act a (inp p) ob nowText (sy_fs s) (sy_pc s p) = Some (fs', pc')" and
    s': "s' = \<lparr>sy_fs = fs', sy_pc = (sy_pc s)(p := pc')\<rparr>" by (blast elim: lock_stepE)
  from assms(1) have ok: "pc_ok (inp q) (sy_fs s) (sy_pc s q)" for q unfolding lock_inv_def by blast
  note eff = lock_act_effect [OF act ok]
  have live: "\<forall>r. read_lock (sy_fs s) = Some (Some r) \<longrightarrow> isActiveLock r ob" using assms(3) by (simp add: found_active_def)
  have alone: "\<not> busy (sy_pc s q)" if "q \<noteq> p" "busy pc' \<or> fs' \<noteq> sy_fs s" for q
  proof -
    from eff [OF live] assms(4) that(2)
    have "busy (sy_pc s p) \<or> fs_path (sy_fs s) = None" by auto
    with assms(1) that(1) busy_path [OF ok] show ?thesis unfolding lock_inv_def by blast
  qed
  have others: "pc_ok (inp q) fs' (sy_pc s q)" if "q \<noteq> p" for q
    using alone [OF that] ok [of q] idle_pc_ok by (cases "fs' = sy_fs s") auto
  have pcs: "pc_ok (inp x) fs' (((sy_pc s)(p := pc')) x)" for x
    using others eff [OF live] assms(4) by (cases "x = p") auto
  have same: "x = y" if "busy (((sy_pc s)(p := pc')) x)" "busy (((sy_pc s)(p := pc')) y)" for x y
  proof (cases "x = p \<or> y = p")
    case True
    with that alone show ?thesis by (cases "x = p"; cases "y = p") auto
  next
    case False
    with that assms(1) show ?thesis unfolding lock_inv_def by simp
  qed
  show ?thesis unfolding lock_inv_def s' by (simp only: lock_sys.simps) (intro conjI allI impI pcs same)
qed

lemma live_run_inv:
  "live_run inp fresh_system s \<Longrightarrow> \<forall>q. 0 < li_pid (inp q) \<Longrightarrow> lock_inv inp s"
proof (induction rule: live_run.induct)
  case start
  show ?case by (simp add: lock_inv_def fresh_system_def pc_ok_def)
next
  case (more s ob p s')
  then show ?case by (blast intro: lock_step_inv)
qed

text \<open>
  C37. While every process that looks at a valid lock file finds its owner active, at most one process
  holds the lock, however the opens, reads, writes, renewals and releases of any number of
  processes interleave; and the lock file then carries the holder's token.
\<close>

theorem lock_is_exclusive_while_live:
  assumes "live_run inp fresh_system s" and "\<forall>q. 0 < li_pid (inp q)"
    and "holds_lock (sy_pc s p)" and "holds_lock (sy_pc s q)"
  shows "p = q \<and> (\<exists>r. read_lock (sy_fs s) = Some (Some r) \<and> lr_ownerToken r = li_ownerToken (inp p))"
proof -
  from live_run_inv [OF assms(1,2)] have inv: "lock_inv inp s" .
  have "busy (sy_pc s p)" "busy (sy_pc s q)" using assms(3,4) by (simp_all add: busy_def)
  with inv have "p = q" unfolding lock_inv_def by blast
  from inv have "pc_ok (inp p) (sy_fs s) (sy_pc s p)" unfolding lock_inv_def by blast
  then have "owns_file (inp p) (sy_fs s)"
    using assms(3) by (cases "sy_pc s p") (simp_all add: holds_lock_def pc_ok_def)
  with \<open>p = q\<close> show ?thesis unfolding owns_file_def by blast
qed

section \<open>Taking over a stale lock\<close>

text \<open>A schedule: who acts, how, and what it observes.\<close>

fun run_schedule ::
  "(nat \<Rightarrow> lock_input) \<Rightarrow> (nat \<times> lock_action \<times> lock_observation \<times> string) list \<Rightarrow> lock_sys \<Rightarrow> lock_sys option" where
  "run_schedule inp [] s = Some s"
| "run_schedule inp ((p, a, ob, nowText) # es) s =
     (case lock_act a (inp p) ob nowText (sy_fs s) (sy_pc s p) of
        None \<Rightarrow> None
      | Some (fs', pc') \<Rightarrow> run_schedule inp es \<lparr>sy_fs = fs', sy_pc = (sy_pc s)(p := pc')\<rparr>)"

lemma run_schedule_any: "run_schedule inp es s = Some s' \<Longrightarrow> any_run inp s0 s \<Longrightarrow> any_run inp s0 s'"
proof (induction inp es s rule: run_schedule.induct)
  case (2 inp p a ob nowText es s)
  from 2(2) obtain fs' pc' where act: "lock_act a (inp p) ob nowText (sy_fs s) (sy_pc s p) = Some (fs', pc')"
    and rest: "run_schedule inp es \<lparr>sy_fs = fs', sy_pc = (sy_pc s)(p := pc')\<rparr> = Some s'"
    by (auto split: option.splits)
  from act have "lock_step inp p ob s \<lparr>sy_fs = fs', sy_pc = (sy_pc s)(p := pc')\<rparr>" by (rule lock_step.step)
  with 2(3) have "any_run inp s0 \<lparr>sy_fs = fs', sy_pc = (sy_pc s)(p := pc')\<rparr>" by (rule any_run.on)
  with 2(1) act rest show ?case by blast
qed simp

definition race_schedule :: "lock_observation \<Rightarrow> (nat \<times> lock_action \<times> lock_observation \<times> string) list" where
  "race_schedule ob =
     [(0, DoAcquire, ob, []), (1, DoAcquire, ob, []), (0, DoAcquire, ob, []), (1, DoAcquire, ob, []),
      (0, DoAcquire, ob, []), (0, DoAcquire, ob, []), (0, DoAcquire, ob, []),
      (1, DoAcquire, ob, []), (1, DoAcquire, ob, []), (1, DoAcquire, ob, [])]"

text \<open>
  C38. Two processes that find the same stale lock can both acquire it: the second removes, by path,
  the lock the first has created in the meantime. From any state with a lock file that is not
  active, both reach the point where they hold the lock.
\<close>

theorem stale_lock_can_be_taken_twice:
  assumes "read_lock (sy_fs s0) = Some (Some r)" and "\<not> isActiveLock r ob"
    and "sy_pc s0 0 = AcqOpen 0" and "sy_pc s0 1 = AcqOpen 0"
  shows "\<exists>s. any_run inp s0 s \<and> holds_lock (sy_pc s 0) \<and> holds_lock (sy_pc s 1)"
proof -
  from assms(1) obtain i where i: "fs_path (sy_fs s0) = Some i" "parseProjectLock (fs_inode (sy_fs s0) i) = Some r"
    by (auto simp: read_lock_def split: option.splits)
  then obtain s where s: "run_schedule inp (race_schedule ob) s0 = Some s" "sy_pc s 0 = Held" "sy_pc s 1 = Held"
    using assms(2-4) by (simp add: race_schedule_def lock_defs)
  from run_schedule_any [OF s(1) any_run.begun] s(2,3) show ?thesis by (auto simp: holds_lock_def)
qed

text \<open>
  A holder whose lock file was replaced or removed finds out at its next heartbeat: a renewal
  that runs undisturbed succeeds exactly when the file carries the process's own token, and
  otherwise reports the loss and leaves the file as it is.
\<close>

theorem renewal_detects_the_loss:
  assumes "renewProjectLock inp nowText fs Held = Some (fs1, pc1)"
  shows "(if owns_file inp fs
          then \<exists>fs2. renewProjectLock inp nowText fs1 pc1 = Some (fs2, Held) \<and> owns_file inp fs2
          else fs1 = fs \<and> (pc1 = LeaseLost \<or> renewProjectLock inp nowText fs1 pc1 = Some (fs, LeaseLost)))"
proof (cases "fs_path fs")
  case None
  with assms show ?thesis by (simp add: lock_defs owns_file_def)
next
  case (Some i)
  with assms have s: "fs1 = fs" "pc1 = RenewOpened i" by (simp_all add: renewProjectLock_def)
  have own: "owns_file inp fs \<longleftrightarrow> (\<exists>r. parseProjectLock (fs_inode fs i) = Some r \<and> lr_ownerToken r = li_ownerToken inp)"
    using Some by (simp add: owns_file_def read_lock_def)
  show ?thesis
  proof (cases "owns_file inp fs")
    case True
    with own obtain r where "parseProjectLock (fs_inode fs i) = Some r" "lr_ownerToken r = li_ownerToken inp" by blast
    then show ?thesis using True Some s by (simp add: lock_defs owns_file_def parse_lock_json parse_pid)
  next
    case False
    with own s show ?thesis by (auto simp: lock_defs split: option.split)
  qed
qed

section \<open>An acquisition that nobody disturbs\<close>

fun acquire_alone :: "nat \<Rightarrow> lock_input \<Rightarrow> lock_observation \<Rightarrow> lock_fs \<Rightarrow> lock_pc \<Rightarrow> (lock_fs \<times> lock_pc) option" where
  "acquire_alone 0 inp ob fs pc = None"
| "acquire_alone (Suc n) inp ob fs pc =
     (case acquireProjectLock inp ob fs pc of
        None \<Rightarrow> Some (fs, pc)
      | Some (fs', pc') \<Rightarrow> acquire_alone n inp ob fs' pc')"

lemma acquire_alone_numeral:
  "acquire_alone (numeral k) inp ob fs pc =
     (case acquireProjectLock inp ob fs pc of
        None \<Rightarrow> Some (fs, pc)
      | Some (fs', pc') \<Rightarrow> acquire_alone (pred_numeral k) inp ob fs' pc')"
  by (simp add: numeral_eq_Suc)

lemma acquire_alone_unreadable:
  "read_lock fs = Some None \<Longrightarrow> attempts + k = 19 \<Longrightarrow>
   acquire_alone (Suc (Suc (Suc (k + k + m)))) inp ob fs (AcqOpen attempts) =
     Some (fs, LockFailed (''Project '' @ quoted (li_label inp) @ '' lock file is unreadable at '' @
                           quoted (li_lockPath inp) @ ''.''))"
proof (induction k arbitrary: attempts)
  case 0
  then show ?case
    by (auto simp: lock_defs LOCK_READ_RETRY_LIMIT_def split: option.splits)
next
  case (Suc k)
  then have "acquire_alone (Suc (Suc (Suc (Suc k + Suc k + m)))) inp ob fs (AcqOpen attempts) =
      acquire_alone (Suc (Suc (Suc (k + k + m)))) inp ob fs (AcqOpen (Suc attempts))"
    by (auto simp: lock_defs LOCK_READ_RETRY_LIMIT_def split: option.splits)
  with Suc show ?case by simp
qed

text \<open>
  An acquisition that no other process disturbs ends, after at most 43 file operations: it holds
  the lock if there was no lock file or a stale one, and fails without touching the file if the
  lock is active or stayed unreadable for twenty reads.
\<close>

theorem undisturbed_acquisition_ends:
  assumes "0 < li_pid inp"
  shows "\<exists>fs' pc'. acquire_alone 43 inp ob fs (AcqOpen 0) = Some (fs', pc') \<and>
     (case read_lock fs of
        None \<Rightarrow> pc' = Held \<and> owns_file inp fs'
      | Some None \<Rightarrow> fs' = fs \<and> (\<exists>e. pc' = LockFailed e)
      | Some (Some r) \<Rightarrow> if isActiveLock r ob then fs' = fs \<and> (\<exists>e. pc' = LockFailed e)
                         else pc' = Held \<and> owns_file inp fs')"
proof (cases "read_lock fs")
  case None
  with assms show ?thesis
    by (auto simp: acquire_alone_numeral lock_defs owns_file_def parse_new_lock split: option.splits)
next
  case (Some v)
  show ?thesis
  proof (cases v)
    case None
    with Some acquire_alone_unreadable [of fs 0 19 2 inp ob] show ?thesis by simp
  next
    case (Some r)
    with \<open>read_lock fs = Some v\<close> obtain i where
      i: "fs_path fs = Some i" "parseProjectLock (fs_inode fs i) = Some r" and r: "read_lock fs = Some (Some r)"
      by (auto simp: read_lock_def split: option.splits)
    show ?thesis
    proof (cases "isActiveLock r ob")
      case True
      with i r show ?thesis by (simp add: acquire_alone_numeral acquireProjectLock_def acquire_open_def acquire_read_def)
    next
      case False
      with i assms show ?thesis by (simp add: acquire_alone_numeral lock_defs owns_file_def parse_new_lock)
    qed
  qed
qed

section \<open>Samples\<close>

definition sample_lock_input :: "nat \<Rightarrow> lock_input" where
  "sample_lock_input p =
     \<lparr>li_label = ''p'', li_lockPath = ''/l'', li_ownerToken = int_text (int p), li_pid = int p + 1,
      li_startedAt = ''1970-01-01T00:00:00.000Z'', li_processIdentity = None, li_cwd = ''/''\<rparr>"

definition sample_lock_state :: lock_observation where
  "sample_lock_state =
     \<lparr>ob_now = 0, ob_leaseTtlMs = 60000, ob_isProcessRunning = (\<lambda>_. False), ob_getProcessIdentity = (\<lambda>_. None)\<rparr>"

text \<open>A lock file left behind by a process that is gone.\<close>

definition sample_stale :: lock_sys where
  "sample_stale =
     \<lparr>sy_fs = \<lparr>fs_path = Some 0, fs_inode = (\<lambda>_. Some (lock_json (new_lock (sample_lock_input 7)))), fs_next = 1\<rparr>,
      sy_pc = (\<lambda>_. AcqOpen 0)\<rparr>"

lemma sample_pids: "0 < li_pid (sample_lock_input p)"
  by (simp add: sample_lock_input_def)

lemma sample_stale_read: "read_lock (sy_fs sample_stale) = Some (Some (new_lock (sample_lock_input 7)))"
  by (simp add: sample_stale_def read_lock_def parse_new_lock sample_pids)

lemma sample_inactive: "\<not> isActiveLock r sample_lock_state"
  by (simp add: isActiveLock_def sample_lock_state_def)

lemma lock_is_exclusive_while_live_witness:
  "\<exists>s. live_run sample_lock_input fresh_system s \<and> holds_lock (sy_pc s 0) \<and>
     (\<exists>r. read_lock (sy_fs s) = Some (Some r) \<and> lr_ownerToken r = li_ownerToken (sample_lock_input 0))"
proof -
  let ?inp = sample_lock_input and ?ob = sample_lock_state
  obtain s1 where s1: "lock_step ?inp 0 ?ob fresh_system s1" "read_lock (sy_fs s1) = Some None" "sy_pc s1 0 = AcqWrite 0"
    using lock_step.step [of DoAcquire ?inp 0 ?ob "[]" fresh_system]
    by (force simp: fresh_system_def lock_defs)
  obtain s2 where s2: "lock_step ?inp 0 ?ob s1 s2" "holds_lock (sy_pc s2 0)"
    using lock_step.step [of DoAcquire ?inp 0 ?ob "[]" s1] s1(3) by (force simp: lock_defs holds_lock_def)
  have "live_run ?inp fresh_system s2"
    by (intro live_run.more [OF live_run.more [OF live_run.start _ s1(1)] _ s2(1)])
      (simp_all add: found_active_def s1(2), simp add: fresh_system_def read_lock_def)
  with lock_is_exclusive_while_live [OF this _ s2(2) s2(2)] s2(2) sample_pids show ?thesis by blast
qed

lemma stale_lock_can_be_taken_twice_witness:
  "\<exists>s. any_run sample_lock_input sample_stale s \<and> holds_lock (sy_pc s 0) \<and> holds_lock (sy_pc s 1)"
  by (rule stale_lock_can_be_taken_twice [OF sample_stale_read sample_inactive]) (simp_all add: sample_stale_def)

lemma renewal_detects_the_loss_witness:
  "renewProjectLock (sample_lock_input 1) [] (sy_fs sample_stale) (RenewOpened 0) = Some (sy_fs sample_stale, LeaseLost)"
proof -
  have open_own: "renewProjectLock (sample_lock_input 1) [] (sy_fs sample_stale) Held = Some (sy_fs sample_stale, RenewOpened 0)"
    by (simp add: renewProjectLock_def sample_stale_def)
  have "\<not> owns_file (sample_lock_input 1) (sy_fs sample_stale)"
    by (simp add: owns_file_def sample_stale_read) (simp add: sample_lock_input_def int_text_def nat_digits.simps)
  with renewal_detects_the_loss [OF open_own] show ?thesis by simp
qed

lemma undisturbed_acquisition_ends_witness:
  "\<exists>fs'. acquire_alone 43 (sample_lock_input 1) sample_lock_state (sy_fs sample_stale) (AcqOpen 0) = Some (fs', Held)"
  using undisturbed_acquisition_ends [OF sample_pids, of 1 sample_lock_state "sy_fs sample_stale"]
  by (auto simp: sample_stale_read sample_inactive)

end
