(* ===== verification/Validation.thy ===== *)
theory Validation
  imports Numbers
begin

text \<open>
  The JSON boundary of \<open>packages/management-protocol/src/validation.ts\<close>: a schema maps a value
  (\<open>None\<close> is \<open>undefined\<close>) and the path it stands at to the parsed value or to the message of a
  \<open>ProtocolValidationError\<close>. The canonical form of a document is that of
  \<open>packages/fleet-control-plane/src/json.ts\<close>: members in the order of their names.
\<close>

section \<open>Documents up to the order of members\<close>

definition members :: "(string \<times> json) list \<Rightarrow> string \<Rightarrow> json option" where
  "members kvs k = map_of (rev kvs) k"

definition by_name :: "(string \<times> json) list \<Rightarrow> (string \<times> json) list" where
  "by_name kvs = map (\<lambda>k. (k, getOr (members kvs k) JNull)) (sort (remdups (map fst kvs)))"

lemma members_map: "members (map (\<lambda>(k, v). (k, f v)) kvs) k = map_option f (members kvs k)"
  unfolding members_def by (induction kvs rule: rev_induct) auto

lemma members_None_iff: "members kvs k = None \<longleftrightarrow> k \<notin> fst ` set kvs"
  by (simp add: members_def map_of_eq_None_iff)

lemma map_of_keys: "map_of (map (\<lambda>k. (k, f k)) ks) k = (if k \<in> set ks then Some (f k) else None)"
  by (induction ks) auto

lemma members_by_name [simp]: "members (by_name kvs) = members kvs"
proof
  fix k
  have "members (by_name kvs) k =
      (if k \<in> fst ` set kvs then Some (getOr (members kvs k) JNull) else None)"
    by (simp add: members_def by_name_def rev_map map_of_keys)
  then show "members (by_name kvs) k = members kvs k"
    using members_None_iff [of kvs k] by (cases "members kvs k") auto
qed

lemma by_name_cong:
  assumes "members kvs = members kvs'"
  shows "by_name kvs = by_name kvs'"
proof -
  have "fst ` set l = {k. members l k \<noteq> None}" for l
    using members_None_iff [of l] by (auto simp del: not_None_eq)
  with assms have "fst ` set kvs = fst ` set kvs'" by simp
  then have "set (map fst kvs) = set (map fst kvs')" by simp
  then have "sort (remdups (map fst kvs)) = sort (remdups (map fst kvs'))"
    by (metis sorted_list_of_set_sort_remdups)
  then show ?thesis unfolding by_name_def assms by (rule arg_cong)
qed

function canon :: "json \<Rightarrow> json" where
  "canon JNull = JNull"
| "canon (JBool b) = JBool b"
| "canon (JNum q) = JNum q"
| "canon (JStr s) = JStr s"
| "canon (JArr xs) = JArr (map canon xs)"
| "canon (JObj kvs) = JObj (by_name (map (\<lambda>(k, v). (k, canon v)) kvs))"
  by pat_completeness auto
termination
proof (relation "measure size")
  fix kvs :: "(string \<times> json) list" and p k v
  assume "p \<in> set kvs" "(k, v) = p"
  then show "(v, JObj kvs) \<in> measure size"
    by (induction kvs) auto
qed (auto simp: size_list_estimation' intro: le_imp_less_Suc)

text \<open>Two values that differ in the order of members only.\<close>

definition equivalent :: "json option \<Rightarrow> json option \<Rightarrow> bool" where
  "equivalent v w \<longleftrightarrow> map_option canon v = map_option canon w"

lemma equivalent_refl [simp]: "equivalent v v"
  by (simp add: equivalent_def)

lemma equivalent_sym: "equivalent v w \<Longrightarrow> equivalent w v"
  by (simp add: equivalent_def)

lemma equivalent_trans: "equivalent u v \<Longrightarrow> equivalent v w \<Longrightarrow> equivalent u w"
  by (simp add: equivalent_def)

lemma equivalent_None [simp]: "equivalent None v \<longleftrightarrow> v = None" "equivalent v None \<longleftrightarrow> v = None"
  by (auto simp: equivalent_def)

lemma canon_scalar:
  "canon v = JStr s \<longleftrightarrow> v = JStr s" "canon v = JBool b \<longleftrightarrow> v = JBool b" "canon v = JNum q \<longleftrightarrow> v = JNum q"
  "canon v = JNull \<longleftrightarrow> v = JNull"
  by (cases v; simp)+

lemma equivalent_scalar [simp]:
  "equivalent v (Some (JStr s)) \<longleftrightarrow> v = Some (JStr s)" "equivalent (Some (JStr s)) v \<longleftrightarrow> v = Some (JStr s)"
  "equivalent v (Some (JBool b)) \<longleftrightarrow> v = Some (JBool b)" "equivalent (Some (JBool b)) v \<longleftrightarrow> v = Some (JBool b)"
  "equivalent v (Some (JNum q)) \<longleftrightarrow> v = Some (JNum q)" "equivalent (Some (JNum q)) v \<longleftrightarrow> v = Some (JNum q)"
  "equivalent v (Some JNull) \<longleftrightarrow> v = Some JNull" "equivalent (Some JNull) v \<longleftrightarrow> v = Some JNull"
  by (cases v; auto simp: equivalent_def canon_scalar eq_commute [of _ "canon _"])+

lemma equivalent_JArr:
  "equivalent v (Some (JArr xs)) \<longleftrightarrow> (\<exists>ys. v = Some (JArr ys) \<and> map canon ys = map canon xs)"
proof (cases v)
  case (Some j)
  then show ?thesis by (cases j) (auto simp: equivalent_def)
qed simp

lemma equivalent_JObj:
  "equivalent v (Some (JObj kvs)) \<longleftrightarrow>
     (\<exists>kvs'. v = Some (JObj kvs') \<and> (\<forall>k. equivalent (members kvs' k) (members kvs k)))"
proof (cases v)
  case (Some j)
  have "canon (JObj a) = canon (JObj b) \<longleftrightarrow> (\<forall>k. map_option canon (members a k) = map_option canon (members b k))" for a b
  proof
    assume "canon (JObj a) = canon (JObj b)"
    then have "members (by_name (map (\<lambda>(k, v). (k, canon v)) a)) = members (by_name (map (\<lambda>(k, v). (k, canon v)) b))"
      by simp
    then show "\<forall>k. map_option canon (members a k) = map_option canon (members b k)"
      by (simp add: fun_eq_iff members_map)
  next
    assume "\<forall>k. map_option canon (members a k) = map_option canon (members b k)"
    then have "members (map (\<lambda>(k, v). (k, canon v)) a) = members (map (\<lambda>(k, v). (k, canon v)) b)"
      by (simp add: fun_eq_iff members_map)
    from by_name_cong [OF this] show "canon (JObj a) = canon (JObj b)" by simp
  qed
  with Some show ?thesis by (cases j) (auto simp: equivalent_def simp del: canon.simps(6), simp_all)
qed simp

lemma jget_members [simp]: "jget (JObj kvs) k = members kvs k"
  by (simp add: members_def)

section \<open>Schemas\<close>

type_synonym schema = "json option \<Rightarrow> string \<Rightarrow> json option result"

definition schema_fail :: "string \<Rightarrow> string \<Rightarrow> 'a result" where
  "schema_fail path message = Inl (path @ '': '' @ message)"

definition text_schema :: schema where
  "text_schema value path =
     (case jstring value of
        None \<Rightarrow> schema_fail path ''expected nonempty string without NUL''
      | Some s \<Rightarrow> if js_trim s = [] \<or> CHR 0x00 \<in> set s
                  then schema_fail path ''expected nonempty string without NUL'' else Inr value)"

definition boolean_schema :: schema where
  "boolean_schema value path =
     (case jbool value of None \<Rightarrow> schema_fail path ''expected boolean'' | Some _ \<Rightarrow> Inr value)"

text \<open>The literals in use are strings, booleans and numbers, so \<open>!==\<close> is inequality.\<close>

definition literal_schema :: "json \<Rightarrow> schema" where
  "literal_schema expected value path =
     (if value \<noteq> Some expected then schema_fail path ''unexpected literal'' else Inr (Some expected))"

definition enumeration_schema :: "string list \<Rightarrow> schema" where
  "enumeration_schema values value path =
     (case jstring value of
        None \<Rightarrow> schema_fail path ''unknown enum value''
      | Some s \<Rightarrow> if s \<notin> set values then schema_fail path ''unknown enum value'' else Inr value)"

definition integer_schema :: "int \<Rightarrow> int \<Rightarrow> schema" where
  "integer_schema low high value path =
     (case as_safe_integer (jnumber value) of
        None \<Rightarrow> schema_fail path ''integer outside allowed range''
      | Some k \<Rightarrow> if k < low \<or> high < k then schema_fail path ''integer outside allowed range'' else Inr value)"

definition optional_schema :: "schema \<Rightarrow> schema" where
  "optional_schema inner value path = (if value = None then Inr None else inner value path)"

text \<open>The elements in order, the index in the path; no element schema in use yields \<open>undefined\<close>.\<close>

fun parse_items :: "schema \<Rightarrow> string \<Rightarrow> nat \<Rightarrow> json list \<Rightarrow> json list result" where
  "parse_items inner path i [] = Inr []"
| "parse_items inner path i (x # xs) =
     rbind (inner (Some x) (path @ ''['' @ int_text (int i) @ '']'')) (\<lambda>y.
       rbind (parse_items inner path (Suc i) xs) (\<lambda>ys. Inr (getOr y JNull # ys)))"

definition array_schema :: "schema \<Rightarrow> int \<Rightarrow> schema" where
  "array_schema inner max_items value path =
     (case jlist value of
        None \<Rightarrow> schema_fail path ''array exceeds allowed size or is missing''
      | Some xs \<Rightarrow>
          if max_items < int (length xs) then schema_fail path ''array exceeds allowed size or is missing''
          else rbind (parse_items inner path 0 xs) (\<lambda>ys. Inr (Some (JArr ys))))"

fun parse_fields :: "(string \<times> schema) list \<Rightarrow> (string \<times> json) list \<Rightarrow> string \<Rightarrow> (string \<times> json) list result" where
  "parse_fields [] kvs path = Inr []"
| "parse_fields ((key, validator) # shape) kvs path =
     rbind (validator (members kvs key) (path @ ''.'' @ key)) (\<lambda>parsed.
       rbind (parse_fields shape kvs path) (\<lambda>out.
         Inr (case parsed of None \<Rightarrow> out | Some v \<Rightarrow> (key, v) # out)))"

definition object_schema :: "(string \<times> schema) list \<Rightarrow> schema" where
  "object_schema shape value path =
     (case value of
        Some (JObj kvs) \<Rightarrow>
          if \<not> fst ` set kvs \<subseteq> fst ` set shape then schema_fail path ''unexpected field''
          else rbind (parse_fields shape kvs path) (\<lambda>out. Inr (Some (JObj out)))
      | _ \<Rightarrow> schema_fail path ''expected JSON object'')"

fun union_schema :: "schema list \<Rightarrow> schema" where
  "union_schema [] value path = schema_fail path ''no matching variant''"
| "union_schema (variant # variants) value path =
     (case variant value path of Inr v \<Rightarrow> Inr v | Inl _ \<Rightarrow> union_schema variants value path)"

definition refine_schema :: "schema \<Rightarrow> (json option \<Rightarrow> bool) \<Rightarrow> string \<Rightarrow> schema" where
  "refine_schema inner valid message value path =
     rbind (inner value path) (\<lambda>parsed. if valid parsed then Inr parsed else schema_fail path message)"

section \<open>What every schema promises\<close>

text \<open>
  A schema neither coerces nor defaults: what it returns is the document it read, up to the order
  of members; whether it accepts depends on the document alone; and it accepts what it returned,
  unchanged.
\<close>

locale faithful_schema =
  fixes parse :: schema
  assumes same_document: "parse v p = Inr w \<Longrightarrow> equivalent w v"
    and document_only: "is_ok (parse v p) \<Longrightarrow> equivalent v v' \<Longrightarrow> is_ok (parse v' q)"
    and reparse: "parse v p = Inr w \<Longrightarrow> parse w q = Inr w"
begin

lemma rejects: "equivalent v v' \<Longrightarrow> is_ok (parse v p) \<longleftrightarrow> is_ok (parse v' q)"
  using document_only equivalent_sym by blast

lemma missing_stays: "parse v p = Inr w \<Longrightarrow> w = None \<longleftrightarrow> v = None"
  using same_document by fastforce

end

named_theorems schema_intros "schemas that keep the promise"

lemma is_ok_iff: "is_ok m \<longleftrightarrow> (\<exists>x. m = Inr x)"
  by (cases m) simp_all

lemma is_ok_rbind: "is_ok (rbind m f) \<longleftrightarrow> (\<exists>x. m = Inr x \<and> is_ok (f x))"
  by (cases m) simp_all

lemma is_ok_fail [simp]: "\<not> is_ok (schema_fail p m)" "schema_fail p m \<noteq> Inr w"
  by (simp_all add: schema_fail_def)

text \<open>A schema that returns a scalar as it is.\<close>

lemma faithful_scalar:
  assumes "\<And>v p w. s v p = Inr w \<Longrightarrow> w = v \<and> (\<forall>v'. equivalent v v' \<longrightarrow> v' = v) \<and> (\<forall>q. s v q = Inr v)"
  shows "faithful_schema s"
  using assms by unfold_locales (metis equivalent_refl is_ok_iff)+

lemma faithful_scalars [schema_intros]:
  "faithful_schema text_schema" "faithful_schema boolean_schema" "faithful_schema (enumeration_schema ss)"
  "faithful_schema (integer_schema l h)"
proof -
  show "faithful_schema text_schema"
    by (rule faithful_scalar) (auto simp: text_schema_def split: option.splits if_splits)
  show "faithful_schema boolean_schema"
    by (rule faithful_scalar) (auto simp: boolean_schema_def split: option.splits)
  show "faithful_schema (enumeration_schema ss)"
    by (rule faithful_scalar) (auto simp: enumeration_schema_def split: option.splits if_splits)
  show "faithful_schema (integer_schema l h)"
    by (rule faithful_scalar) (auto simp: integer_schema_def as_safe_integer_def as_integer_Some split: option.splits if_splits)
qed

lemma faithful_literals [schema_intros]:
  "faithful_schema (literal_schema (JStr s))" "faithful_schema (literal_schema (JBool b))"
  "faithful_schema (literal_schema (JNum q))"
  by (rule faithful_scalar; auto simp: literal_schema_def split: if_splits)+

lemma is_okI: "m = Inr x \<Longrightarrow> is_ok m"
  by simp

text \<open>A condition on the parsed document that does not see the order of members.\<close>

definition order_blind :: "(json option \<Rightarrow> bool) \<Rightarrow> bool" where
  "order_blind P \<longleftrightarrow> (\<forall>v w. equivalent v w \<longrightarrow> P v \<longrightarrow> P w)"

lemma faithful_optional [schema_intros]:
  "faithful_schema s \<Longrightarrow> faithful_schema (optional_schema s)"
proof
  assume s: "faithful_schema s"
  show "equivalent w v" if "optional_schema s v p = Inr w" for v p w
    using that faithful_schema.same_document [OF s] by (auto simp: optional_schema_def split: if_splits)
  show "is_ok (optional_schema s v' q)" if "is_ok (optional_schema s v p)" "equivalent v v'" for v p v' q
    using that faithful_schema.document_only [OF s, of v p v' q] by (auto simp: optional_schema_def split: if_splits)
  show "optional_schema s w q = Inr w" if "optional_schema s v p = Inr w" for v p w q
    using that faithful_schema.reparse [OF s] by (auto simp: optional_schema_def split: if_splits)
qed

lemma faithful_refine [schema_intros]:
  "faithful_schema s \<Longrightarrow> order_blind P \<Longrightarrow> faithful_schema (refine_schema s P m)"
proof
  assume s: "faithful_schema s" and P: "order_blind P"
  show "equivalent w v" if "refine_schema s P m v p = Inr w" for v p w
    using that faithful_schema.same_document [OF s] by (auto simp: refine_schema_def rbind_Inr_iff split: if_splits)
  show "refine_schema s P m w q = Inr w" if "refine_schema s P m v p = Inr w" for v p w q
    using that faithful_schema.reparse [OF s] by (auto simp: refine_schema_def rbind_Inr_iff split: if_splits)
  show "is_ok (refine_schema s P m v' q)" if "is_ok (refine_schema s P m v p)" "equivalent v v'" for v p v' q
  proof -
    from that(1) obtain w where w: "s v p = Inr w" "P w" by (auto simp: refine_schema_def is_ok_rbind split: if_splits)
    from faithful_schema.document_only [OF s is_okI [OF w(1)] that(2)] have "is_ok (s v' q)" .
    then obtain w' where w': "s v' q = Inr w'" by (auto simp: is_ok_iff)
    have "equivalent w w'"
      using faithful_schema.same_document [OF s w(1)] faithful_schema.same_document [OF s w'] that(2)
      by (metis equivalent_sym equivalent_trans)
    with P w(2) w' show ?thesis by (auto simp: refine_schema_def order_blind_def)
  qed
qed

lemma faithful_union [schema_intros]:
  "list_all faithful_schema ss \<Longrightarrow> faithful_schema (union_schema ss)"
proof (induction ss)
  case Nil
  show ?case by unfold_locales simp_all
next
  case (Cons s ss)
  then have s: "faithful_schema s" and ss: "faithful_schema (union_schema ss)" by simp_all
  have ok: "is_ok (union_schema (s # ss) v p) \<longleftrightarrow> is_ok (s v p) \<or> is_ok (union_schema ss v p)" for v p
    by (cases "s v p") simp_all
  show ?case
  proof
    show "equivalent w v" if "union_schema (s # ss) v p = Inr w" for v p w
      using that faithful_schema.same_document [OF s] faithful_schema.same_document [OF ss]
      by (auto split: sum.splits)
    show "is_ok (union_schema (s # ss) v' q)" if "is_ok (union_schema (s # ss) v p)" "equivalent v v'" for v p v' q
      using that faithful_schema.document_only [OF s _ that(2)] faithful_schema.document_only [OF ss _ that(2)]
      unfolding ok by blast
    show "union_schema (s # ss) w q = Inr w" if w: "union_schema (s # ss) v p = Inr w" for v p w q
    proof (cases "s v p")
      case (Inr u)
      with w faithful_schema.reparse [OF s Inr] show ?thesis by simp
    next
      case (Inl e)
      with w have rest: "union_schema ss v p = Inr w" by simp
      from faithful_schema.rejects [OF s faithful_schema.same_document [OF ss rest], of q p] Inl
      obtain e' where "s w q = Inl e'" by (cases "s w q") auto
      with faithful_schema.reparse [OF ss rest] show ?thesis by simp
    qed
  qed
qed

lemma parse_items_same:
  "faithful_schema s \<Longrightarrow> parse_items s path i xs = Inr ys \<Longrightarrow>
   map canon ys = map canon xs \<and> parse_items s path' i' ys = Inr ys"
proof (induction xs arbitrary: i i' ys)
  case (Cons x xs)
  then obtain y zs where y: "s (Some x) (path @ ''['' @ int_text (int i) @ '']'') = Inr y"
    and zs: "parse_items s path (Suc i) xs = Inr zs" "ys = getOr y JNull # zs" by (auto simp: rbind_Inr_iff)
  from faithful_schema.same_document [OF Cons.prems(1) y] obtain j where j: "y = Some j" "canon j = canon x"
    by (cases y) (auto simp: equivalent_def)
  with faithful_schema.reparse [OF Cons.prems(1) y] Cons.IH [OF Cons.prems(1) zs(1), of "Suc i'"] zs(2)
  show ?case by simp
qed simp

lemma parse_items_ok:
  "faithful_schema s \<Longrightarrow> is_ok (parse_items s path i xs) \<Longrightarrow> map canon xs = map canon xs' \<Longrightarrow>
   is_ok (parse_items s path' i' xs')"
proof (induction xs arbitrary: i i' xs')
  case (Cons x xs)
  then obtain x' xs'' where xs': "xs' = x' # xs''" "canon x = canon x'" "map canon xs = map canon xs''"
    by (cases xs') auto
  from Cons.prems(2) have "is_ok (s (Some x) (path @ ''['' @ int_text (int i) @ '']''))" "is_ok (parse_items s path (Suc i) xs)"
    by (auto simp: is_ok_rbind intro: is_okI)
  with Cons.IH [OF Cons.prems(1) _ xs'(3)] xs'(2) faithful_schema.document_only [OF Cons.prems(1), of "Some x" _ "Some x'"]
  have "is_ok (s (Some x') (path' @ ''['' @ int_text (int i') @ '']''))" "is_ok (parse_items s path' (Suc i') xs'')"
    by (auto simp: equivalent_def)
  then show ?case by (auto simp: xs'(1) is_ok_rbind is_ok_iff)
qed simp

lemma faithful_array [schema_intros]:
  assumes s: "faithful_schema s"
  shows "faithful_schema (array_schema s n)"
proof
  fix v w p q
  assume "array_schema s n v p = Inr w"
  then obtain xs ys where xs: "v = Some (JArr xs)" "\<not> n < int (length xs)" "parse_items s p 0 xs = Inr ys"
    "w = Some (JArr ys)"
    by (auto simp: array_schema_def rbind_Inr_iff split: option.splits if_splits)
  note same = parse_items_same [OF s xs(3)]
  then have "length ys = length xs" by (metis length_map)
  with same xs show "equivalent w v" "array_schema s n w q = Inr w"
    by (simp_all add: equivalent_def array_schema_def)
next
  fix v v' p q
  assume ok: "is_ok (array_schema s n v p)" and eq: "equivalent v v'"
  then obtain xs where xs: "v = Some (JArr xs)" "\<not> n < int (length xs)" "is_ok (parse_items s p 0 xs)"
    by (auto simp: array_schema_def is_ok_rbind intro: is_okI split: option.splits if_splits)
  with equivalent_sym [OF eq] obtain xs' where xs': "v' = Some (JArr xs')" "map canon xs' = map canon xs"
    by (auto simp: equivalent_JArr)
  then have "length xs' = length xs" by (metis length_map)
  moreover have "is_ok (parse_items s q 0 xs')" using parse_items_ok [OF s xs(3)] xs'(2) by simp
  ultimately show "is_ok (array_schema s n v' q)"
    using xs xs' by (auto simp: array_schema_def is_ok_iff)
qed

lemma parse_fields_member:
  "list_all (\<lambda>(k, s). faithful_schema s) shape \<Longrightarrow> distinct (map fst shape) \<Longrightarrow>
   parse_fields shape kvs path = Inr out \<Longrightarrow>
   fst ` set out \<subseteq> fst ` set shape \<and> (\<forall>k \<in> fst ` set shape. equivalent (members out k) (members kvs k)) \<and>
   (\<forall>kvs'. (\<forall>k \<in> fst ` set shape. members kvs' k = members out k) \<longrightarrow> parse_fields shape kvs' path' = Inr out)"
proof (induction shape kvs path arbitrary: out rule: parse_fields.induct)
  case (2 key s shape kvs path)
  then obtain parsed rest where parsed: "s (members kvs key) (path @ ''.'' @ key) = Inr parsed"
    and rest: "parse_fields shape kvs path = Inr rest"
    and out: "out = (case parsed of None \<Rightarrow> rest | Some v \<Rightarrow> (key, v) # rest)" by (auto simp: rbind_Inr_iff)
  from 2(2) have s: "faithful_schema s" by simp
  from 2 parsed rest have IH: "fst ` set rest \<subseteq> fst ` set shape"
    "\<forall>k \<in> fst ` set shape. equivalent (members rest k) (members kvs k)"
    "\<And>kvs'. (\<forall>k \<in> fst ` set shape. members kvs' k = members rest k) \<Longrightarrow> parse_fields shape kvs' path' = Inr rest" by auto
  have new: "key \<notin> fst ` set shape" using 2(3) by simp
  with IH(1) have "members rest key = None" by (auto simp: members_None_iff)
  then have here: "members out key = parsed" and others: "k \<noteq> key \<Longrightarrow> members out k = members rest k" for k
    by (auto simp: out members_def map_add_def split: option.splits)
  have "equivalent parsed (members kvs key)"
    using parsed faithful_schema.same_document [OF s, of "members kvs key"] by simp
  then have member: "equivalent (members out k) (members kvs k)" if "k \<in> fst ` set ((key, s) # shape)" for k
    using that here others IH(2) by (cases "k = key") auto
  have "parse_fields ((key, s) # shape) kvs' path' = Inr out"
    if same: "\<forall>k \<in> fst ` set ((key, s) # shape). members kvs' k = members out k" for kvs'
  proof -
    from same have k: "members kvs' key = parsed" by (simp add: here)
    have "\<forall>k \<in> fst ` set shape. members kvs' k = members rest k"
      using same others new by (metis image_eqI insert_iff list.simps(15) image_insert)
    from IH(3) [OF this] have rest': "parse_fields shape kvs' path' = Inr rest" .
    have "s parsed (path' @ ''.'' @ key) = Inr parsed"
      using parsed faithful_schema.reparse [OF s, of "members kvs key"] by simp
    with k rest' show ?thesis by (simp add: out)
  qed
  moreover have "fst ` set out \<subseteq> fst ` set ((key, s) # shape)" using IH(1) out by (auto split: option.splits)
  ultimately show ?case using member by blast
qed (simp add: members_def)

lemma parse_fields_ok:
  "list_all (\<lambda>(k, s). faithful_schema s) shape \<Longrightarrow> is_ok (parse_fields shape kvs path) \<Longrightarrow>
   (\<forall>k. equivalent (members kvs k) (members kvs' k)) \<Longrightarrow> is_ok (parse_fields shape kvs' path')"
proof (induction shape)
  case (Cons field shape)
  obtain key s where field: "field = (key, s)" by force
  from Cons.prems(2) have "is_ok (s (members kvs key) (path @ ''.'' @ key))" "is_ok (parse_fields shape kvs path)"
    by (auto simp: field is_ok_rbind intro: is_okI)
  moreover have "faithful_schema s" "equivalent (members kvs key) (members kvs' key)"
    using Cons.prems(1,3) by (simp_all add: field)
  ultimately have "is_ok (s (members kvs' key) (path' @ ''.'' @ key))" "is_ok (parse_fields shape kvs' path')"
    using Cons faithful_schema.document_only [of s "members kvs key" "path @ ''.'' @ key"] by auto
  then show ?case by (auto simp: field is_ok_rbind is_ok_iff)
qed simp

lemma faithful_object [schema_intros]:
  assumes shape: "list_all (\<lambda>(k, s). faithful_schema s) shape" "distinct (map fst shape)"
  shows "faithful_schema (object_schema shape)"
proof
  fix v w p q
  assume "object_schema shape v p = Inr w"
  then obtain kvs out where v: "v = Some (JObj kvs)" and keys: "fst ` set kvs \<subseteq> fst ` set shape"
    and out: "parse_fields shape kvs p = Inr out" "w = Some (JObj out)"
    by (auto simp: object_schema_def rbind_Inr_iff split: option.splits json.splits if_splits)
  note m = parse_fields_member [OF shape out(1), of q]
  have "equivalent (members out k) (members kvs k)" for k
  proof (cases "k \<in> fst ` set shape")
    case False
    with m keys have "members out k = None" "members kvs k = None" by (auto simp: members_None_iff)
    then show ?thesis by simp
  qed (use m in blast)
  then show "equivalent w v" by (auto simp: v out(2) equivalent_JObj)
  show "object_schema shape w q = Inr w" using m by (simp add: object_schema_def out(2))
next
  fix v v' p q
  assume ok: "is_ok (object_schema shape v p)" and eq: "equivalent v v'"
  then obtain kvs where v: "v = Some (JObj kvs)" and keys: "fst ` set kvs \<subseteq> fst ` set shape"
    and out: "is_ok (parse_fields shape kvs p)"
    by (auto simp: object_schema_def is_ok_rbind intro: is_okI split: option.splits json.splits if_splits)
  from equivalent_sym [OF eq] v obtain kvs' where v': "v' = Some (JObj kvs')"
    "\<forall>k. equivalent (members kvs' k) (members kvs k)" by (auto simp: equivalent_JObj)
  have "fst ` set kvs' \<subseteq> fst ` set shape"
  proof
    fix k assume "k \<in> fst ` set kvs'"
    then have "members kvs' k \<noteq> None" using members_None_iff [of kvs' k] by simp
    with v'(2) have "members kvs k \<noteq> None" by (metis equivalent_None(2))
    with keys members_None_iff [of kvs k] show "k \<in> fst ` set shape" by auto
  qed
  moreover have "is_ok (parse_fields shape kvs' q)"
    using v'(2) by (intro parse_fields_ok [OF shape(1) out]) (simp add: equivalent_sym)
  ultimately show "is_ok (object_schema shape v' q)" by (auto simp: object_schema_def v'(1) is_ok_rbind is_ok_iff)
qed

section \<open>Conditions that do not see the order of members\<close>

text \<open>The value at a path of member names, and the scalars and lists read there.\<close>

fun value_at :: "json option \<Rightarrow> string list \<Rightarrow> json option" where
  "value_at v [] = v"
| "value_at v (k # ks) = value_at (case v of None \<Rightarrow> None | Some j \<Rightarrow> jget j k) ks"

definition string_at :: "json option \<Rightarrow> string list \<Rightarrow> string option" where
  "string_at v ks = jstring (value_at v ks)"

definition number_at :: "json option \<Rightarrow> string list \<Rightarrow> rat option" where
  "number_at v ks = jnumber (value_at v ks)"

definition present_at :: "json option \<Rightarrow> string list \<Rightarrow> bool" where
  "present_at v ks \<longleftrightarrow> value_at v ks \<noteq> None"

text \<open>\<open>v.items.map((item) => item.k)\<close> of string members.\<close>

definition strings_at :: "json option \<Rightarrow> string list \<Rightarrow> string \<Rightarrow> string option list" where
  "strings_at v ks k = map (\<lambda>x. jstring (jget x k)) (getOr (jlist (value_at v ks)) [])"

lemma equivalent_member: "canon x = canon y \<Longrightarrow> equivalent (jget x k) (jget y k)"
proof (cases y)
  case (JObj kvs)
  then show "canon x = canon y \<Longrightarrow> ?thesis"
    using equivalent_JObj [of "Some x" kvs] by (auto simp: equivalent_def simp del: jget.simps(1))
qed (cases x; simp)+

lemma equivalent_value_at: "equivalent v w \<Longrightarrow> equivalent (value_at v ks) (value_at w ks)"
proof (induction ks arbitrary: v w)
  case (Cons k ks)
  have "equivalent (case v of None \<Rightarrow> None | Some j \<Rightarrow> jget j k) (case w of None \<Rightarrow> None | Some j \<Rightarrow> jget j k)"
    using Cons.prems by (auto simp: equivalent_def [of v] split: option.splits intro: equivalent_member)
  then show ?case using Cons.IH by simp
qed simp

lemma jstring_equivalent: "equivalent v w \<Longrightarrow> jstring v = jstring w"
  by (cases "jstring w"; cases "jstring v") auto

lemma jnumber_equivalent: "equivalent v w \<Longrightarrow> jnumber v = jnumber w"
  by (cases "jnumber w"; cases "jnumber v") auto

lemma scalars_equivalent:
  assumes "equivalent v w"
  shows "string_at v ks = string_at w ks" "number_at v ks = number_at w ks" "present_at v ks = present_at w ks"
    "strings_at v ks k = strings_at w ks k"
proof -
  note e = equivalent_value_at [OF assms, of ks]
  from e show "string_at v ks = string_at w ks" "number_at v ks = number_at w ks"
    by (simp_all add: string_at_def number_at_def jstring_equivalent jnumber_equivalent)
  from e show "present_at v ks = present_at w ks"
    by (cases "value_at v ks"; cases "value_at w ks") (simp_all add: present_at_def)
  show "strings_at v ks k = strings_at w ks k"
  proof (cases "jlist (value_at w ks)")
    case None
    have "jlist (value_at v ks) = None"
    proof (rule ccontr)
      assume "jlist (value_at v ks) \<noteq> None"
      then obtain xs where "value_at v ks = Some (JArr xs)" by auto
      with e equivalent_sym [OF e] None show False by (auto simp: equivalent_JArr)
    qed
    with None show ?thesis by (simp add: strings_at_def)
  next
    case (Some ys)
    then have w: "value_at w ks = Some (JArr ys)" by simp
    with e obtain xs where xs: "value_at v ks = Some (JArr xs)" "map canon xs = map canon ys" by (auto simp: equivalent_JArr)
    then have "list_all2 (\<lambda>x y. canon x = canon y) xs ys" by (simp add: list_all2_conv_all_nth list_eq_iff_nth_eq)
    then have "map (\<lambda>x. jstring (jget x k)) xs = map (\<lambda>x. jstring (jget x k)) ys"
      by (induction rule: list_all2_induct) (simp_all add: jstring_equivalent equivalent_member)
    with w xs(1) show ?thesis by (simp add: strings_at_def)
  qed
qed

text \<open>A condition over these reads is blind to the order.\<close>

lemma order_blindI: "(\<And>v w. equivalent v w \<Longrightarrow> P v = P w) \<Longrightarrow> order_blind P"
  by (auto simp: order_blind_def)

end
