(* ===== verification/Schemas.thy ===== *)
theory Schemas
  imports Validation
begin

text \<open>
  The wire contracts of \<open>packages/management-protocol/src/schemas.ts\<close>, by the combinators of
  \<open>Validation\<close>, with the limits of \<open>constants.ts\<close>. Not here: \<open>observationRequestSchema\<close> and
  \<open>parseObservationBody\<close>, which measure the encoded size of a request before they apply
  \<open>inventory\<close> and the envelope, and \<open>pageSchema\<close>, a function of an item schema.
\<close>

section \<open>Limits and names\<close>

definition enrollmentTokenLifetimeMs :: int where
  "enrollmentTokenLifetimeMs = 10 * 60000"

definition commandClaimLifetimeMs :: int where
  "commandClaimLifetimeMs = 30000"

definition executionObservationTimeoutMs :: int where
  "executionObservationTimeoutMs = 60000"

definition managedProjectsPerAgent :: int where
  "managedProjectsPerAgent = 100"

definition activeCommandsPerAgent :: int where
  "activeCommandsPerAgent = 4"

definition pendingReadsPerAgent :: int where
  "pendingReadsPerAgent = 4"

definition runSummariesPerProject :: int where
  "runSummariesPerProject = 100"

definition logChunkBytes :: int where
  "logChunkBytes = 256 * 1024"

definition maximumPageSize :: int where
  "maximumPageSize = 100"

definition journalRetentionAfterAcknowledgmentMs :: int where
  "journalRetentionAfterAcknowledgmentMs = 30 * 24 * 60 * 60000"

definition terminalCommandRetentionMs :: int where
  "terminalCommandRetentionMs = 90 * 24 * 60 * 60000"

definition ERROR_CODES :: "string list" where
  "ERROR_CODES =
     [''agent_offline'', ''project_unmanaged'', ''project_invalid'', ''unsupported_protocol'', ''command_conflict'',
      ''idempotency_conflict'', ''command_expired'', ''unresolved_command'', ''process_unverified'', ''log_unavailable'',
      ''cursor_reset'', ''superseded_target'', ''claim_owner_conflict'', ''agent_busy'', ''read_busy'', ''invalid_input'',
      ''unauthenticated'', ''access_revoked'', ''not_found'', ''session_conflict'']"

definition COMMAND_STATES :: "string list" where
  "COMMAND_STATES = [''accepted'', ''executing'', ''succeeded'', ''failed'', ''expired'', ''unknown'']"

definition LOG_STREAMS :: "string list" where
  "LOG_STREAMS = [''orchestrator'', ''worker'', ''events'']"

definition OPERATOR_ACTOR :: string where
  "OPERATOR_ACTOR = ''local-owner''"

section \<open>Scalars\<close>

definition is_hex :: "char \<Rightarrow> bool" where
  "is_hex c = (is_digit c \<or> lower_char c \<in> set ''abcdef'')"

definition uuid_text :: "string \<Rightarrow> bool" where
  "uuid_text s =
     (length s = 36 \<and>
      list_all (\<lambda>(i, c). if i \<in> set [8, 13, 18, 23] then c = CHR ''-'' else is_hex c) (zip [0..<36] s))"

definition uuidSchema :: schema where
  "uuidSchema =
     refine_schema text_schema (\<lambda>v. case string_at v [] of None \<Rightarrow> False | Some s \<Rightarrow> uuid_text s)
       ''expected opaque UUID''"

text \<open>The pattern of a UTC time stamp, and the same instant printed back.\<close>

definition utc_pattern :: "string \<Rightarrow> bool" where
  "utc_pattern s =
     (case do { (_, r) \<leftarrow> take_digits 4 0 s; r \<leftarrow> lit CHR ''-'' r; (_, r) \<leftarrow> take_digits 2 0 r; r \<leftarrow> lit CHR ''-'' r;
                (_, r) \<leftarrow> take_digits 2 0 r; r \<leftarrow> lit CHR ''T'' r; (_, r) \<leftarrow> take_digits 2 0 r; r \<leftarrow> lit CHR '':'' r;
                (_, r) \<leftarrow> take_digits 2 0 r; r \<leftarrow> lit CHR '':'' r; (_, r) \<leftarrow> take_digits 2 0 r; skip_fraction r } of
        None \<Rightarrow> False
      | Some r \<Rightarrow> r = ''Z'')"

definition utc_text :: "string \<Rightarrow> bool" where
  "utc_text s =
     (utc_pattern s \<and>
      (case date_parse s of None \<Rightarrow> False | Some ms \<Rightarrow> take 19 (iso_text ms) = take 19 s))"

definition timestampSchema :: schema where
  "timestampSchema =
     refine_schema text_schema (\<lambda>v. case string_at v [] of None \<Rightarrow> False | Some s \<Rightarrow> utc_text s)
       ''expected valid UTC RFC3339 timestamp''"

text \<open>The nesting of a document stays within 64 levels; every scalar of \<open>json\<close> is finite.\<close>

lemma by_name_subset: "set (by_name kvs) \<subseteq> set kvs"
proof
  fix p
  assume "p \<in> set (by_name kvs)"
  then obtain k where p: "p = (k, getOr (members kvs k) JNull)" "k \<in> fst ` set kvs" by (auto simp: by_name_def)
  then obtain v where "members kvs k = Some v" using members_None_iff [of kvs k] by (cases "members kvs k") auto
  then have "(k, v) \<in> set kvs" unfolding members_def by (auto dest!: map_of_SomeD)
  with p \<open>members kvs k = Some v\<close> show "p \<in> set kvs" by simp
qed

function nested_within :: "int \<Rightarrow> json \<Rightarrow> bool" where
  "nested_within depth (JArr xs) \<longleftrightarrow> depth \<le> 64 \<and> list_all (nested_within (depth + 1)) xs"
| "nested_within depth (JObj kvs) \<longleftrightarrow>
     depth \<le> 64 \<and> list_all (\<lambda>(k, v). nested_within (depth + 1) v) (by_name kvs)"
| "nested_within depth JNull \<longleftrightarrow> depth \<le> 64"
| "nested_within depth (JBool b) \<longleftrightarrow> depth \<le> 64"
| "nested_within depth (JNum q) \<longleftrightarrow> depth \<le> 64"
| "nested_within depth (JStr s) \<longleftrightarrow> depth \<le> 64"
  by pat_completeness auto
termination
proof (relation "measure (\<lambda>(_, v). size v)")
  fix depth :: int and kvs :: "(string \<times> json) list" and p k v
  assume "p \<in> set (by_name kvs)" "(k, v) = p"
  then have "(k, v) \<in> set kvs" using by_name_subset [of kvs] by auto
  then show "((depth + 1, v), depth, JObj kvs) \<in> measure (\<lambda>(_, v). size v)"
    by (induction kvs) auto
qed (auto simp: size_list_estimation' intro: le_imp_less_Suc)

definition jsonValueSchema :: schema where
  "jsonValueSchema value path =
     (case value of
        None \<Rightarrow> schema_fail path ''expected finite JSON data''
      | Some v \<Rightarrow> if nested_within 0 v then Inr value else schema_fail path ''JSON nesting exceeds 64 levels'')"

section \<open>Conditions\<close>

definition date_at :: "json option \<Rightarrow> string list \<Rightarrow> int option" where
  "date_at v ks = (case string_at v ks of None \<Rightarrow> None | Some s \<Rightarrow> date_parse s)"

text \<open>Comparisons of \<open>Date.parse\<close> results; a comparison with \<open>NaN\<close> is false.\<close>

definition date_before :: "int option \<Rightarrow> int option \<Rightarrow> bool" where
  "date_before x y = (case (x, y) of (Some a, Some b) \<Rightarrow> a < b | _ \<Rightarrow> False)"

definition date_until :: "int option \<Rightarrow> int option \<Rightarrow> bool" where
  "date_until x y = (case (x, y) of (Some a, Some b) \<Rightarrow> a \<le> b | _ \<Rightarrow> False)"

definition positiveLifetime :: "json option \<Rightarrow> bool" where
  "positiveLifetime v = date_before (date_at v [''submittedAt'']) (date_at v [''expiresAt''])"

text \<open>State, claim, completion and closure of a command record agree.\<close>

definition command_consistent :: "json option \<Rightarrow> bool" where
  "command_consistent v =
     (let state = string_at v [''state''];
          claimed = state \<noteq> Some ''accepted'' \<and> state \<noteq> Some ''expired'';
          finished = (state = Some ''succeeded'' \<or> state = Some ''failed'');
          claimedAt = date_at v [''claimedAt'']
      in positiveLifetime v \<and>
         (\<not> present_at v [''claimedAt''] \<or>
            date_until (date_at v [''submittedAt'']) claimedAt \<and> date_until claimedAt (date_at v [''expiresAt''])) \<and>
         (\<not> present_at v [''completedAt''] \<or>
            present_at v [''claimedAt''] \<and> date_until claimedAt (date_at v [''completedAt''])) \<and>
         (\<not> finished \<or> present_at v [''evidence'']) \<and>
         claimed = (present_at v [''claimedAt''] \<and> present_at v [''owner'']) \<and>
         (claimed \<or> \<not> present_at v [''claimedAt''] \<and> \<not> present_at v [''owner'']) \<and>
         finished = present_at v [''completedAt''] \<and>
         (\<not> present_at v [''closure''] \<or> state = Some ''unknown''))"

definition inventory_consistent :: "json option \<Rightarrow> bool" where
  "inventory_consistent v =
     ((case (number_at v [''pageIndex''], number_at v [''pageCount'']) of (Some i, Some n) \<Rightarrow> i < n | _ \<Rightarrow> False) \<and>
      distinct (strings_at v [''projects''] ''projectId'') \<and> distinct (strings_at v [''projects''] ''localProjectId''))"

definition claim_consistent :: "json option \<Rightarrow> bool" where
  "claim_consistent v =
     (string_at v [''environmentId''] = string_at v [''command'', ''environmentId''] \<and>
      string_at v [''command'', ''owner'', ''sessionId''] = string_at v [''sessionId''])"

definition poll_consistent :: "json option \<Rightarrow> bool" where
  "poll_consistent v =
     (list_all (\<lambda>e. e = string_at v [''environmentId'']) (strings_at v [''commands''] ''environmentId'') \<and>
      list_all (\<lambda>e. e = string_at v [''sessionId'']) (strings_at v [''commands''] ''sessionId'') \<and>
      list_all (\<lambda>e. e = string_at v [''sessionId'']) (strings_at v [''reads''] ''sessionId'') \<and>
      distinct (strings_at v [''commands''] ''projectId'') \<and> distinct (strings_at v [''reads''] ''projectId''))"

definition environment_consistent :: "json option \<Rightarrow> bool" where
  "environment_consistent v =
     ((string_at v [''enrollment''] \<noteq> Some ''revoked'' \<or> string_at v [''connection''] = Some ''offline'') \<and>
      (string_at v [''connection''] \<noteq> Some ''online'' \<or>
         string_at v [''enrollment''] = Some ''enrolled'' \<and> present_at v [''lastContactAt'']))"

definition aggregate_consistent :: "json option \<Rightarrow> bool" where
  "aggregate_consistent v =
     (string_at v [''projectId''] = string_at v [''observation'', ''projectId''] \<and>
      string_at v [''localProjectId''] = string_at v [''observation'', ''localProjectId''])"

text \<open>Bytes of a string in UTF-8: the code units of the model are below 256.\<close>

definition utf8Bytes :: "string \<Rightarrow> int" where
  "utf8Bytes s = sum_list (map (\<lambda>c. if (of_char c :: nat) < 128 then 1 else 2) s)"

definition log_within :: "json option \<Rightarrow> bool" where
  "log_within v = (case string_at v [] of None \<Rightarrow> False | Some s \<Rightarrow> utf8Bytes s \<le> logChunkBytes)"

section \<open>Contracts\<close>

definition base_fields :: "(string \<times> schema) list" where
  "base_fields = [(''protocolVersion'', literal_schema (JNum 1)), (''requestId'', uuidSchema)]"

definition envelope_fields :: "(string \<times> schema) list" where
  "envelope_fields = base_fields @ [(''environmentId'', uuidSchema), (''sessionId'', uuidSchema)]"

definition diagnosticSchema :: "schema" where
  "diagnosticSchema =
     object_schema [(''code'', enumeration_schema ERROR_CODES),
       (''message'', text_schema)]"

definition errorResponseSchema :: "schema" where
  "errorResponseSchema =
     object_schema [(''error'', object_schema [(''code'', enumeration_schema ERROR_CODES),
       (''message'', text_schema),
       (''requestId'', uuidSchema)])]"

definition projectIdentitySchema :: "schema" where
  "projectIdentitySchema =
     object_schema [(''projectId'', uuidSchema),
       (''environmentId'', uuidSchema),
       (''localProjectId'', text_schema)]"

definition agentEnvelopeSchema :: "schema" where
  "agentEnvelopeSchema =
     object_schema envelope_fields"

definition host_schema :: "schema" where
  "host_schema =
     object_schema [(''hostname'', text_schema),
       (''os'', enumeration_schema [''linux'', ''darwin''])]"

definition enrollmentRequestSchema :: "schema" where
  "enrollmentRequestSchema =
     object_schema (base_fields @
       [(''token'', text_schema)])"

definition enrollmentResponseSchema :: "schema" where
  "enrollmentResponseSchema =
     object_schema (base_fields @
       [(''environmentId'', uuidSchema),
        (''agentId'', uuidSchema),
        (''credential'', text_schema)])"

definition sessionRequestSchema :: "schema" where
  "sessionRequestSchema =
     object_schema (base_fields @
       [(''environmentId'', uuidSchema),
        (''agentId'', uuidSchema),
        (''agentVersion'', text_schema),
        (''host'', host_schema)])"

definition sessionResponseSchema :: "schema" where
  "sessionResponseSchema =
     object_schema (envelope_fields @
       [(''expiresAt'', timestampSchema)])"

definition acknowledgmentSchema :: "schema" where
  "acknowledgmentSchema =
     object_schema (envelope_fields @
       [(''receivedAt'', timestampSchema)])"

definition processObservationSchema :: "schema" where
  "processObservationSchema =
     union_schema
      [object_schema [(''state'', literal_schema (JStr ''running'')),
       (''observedAt'', timestampSchema),
       (''identity'', text_schema),
       (''pid'', integer_schema 1 max_safe)],
       object_schema [(''state'', literal_schema (JStr ''stopped'')),
       (''observedAt'', timestampSchema)],
       object_schema [(''state'', literal_schema (JStr ''unknown'')),
       (''observedAt'', timestampSchema),
       (''diagnostic'', diagnosticSchema)]]"

definition projectValidationSchema :: "schema" where
  "projectValidationSchema =
     union_schema
      [object_schema [(''state'', literal_schema (JStr ''valid''))],
       object_schema [(''state'', literal_schema (JStr ''invalid'')),
       (''diagnostic'', diagnosticSchema)]]"

definition runSummarySchema :: "schema" where
  "runSummarySchema =
     object_schema [(''runId'', text_schema),
       (''status'', text_schema),
       (''startedAt'', timestampSchema),
       (''updatedAt'', timestampSchema)]"

definition runs_schema :: "schema" where
  "runs_schema =
     array_schema runSummarySchema runSummariesPerProject"

definition absolute_path :: "json option \<Rightarrow> bool" where
  "absolute_path =
     (\<lambda>v. case string_at v [] of None \<Rightarrow> False | Some s \<Rightarrow> starts_with ''/'' s)"

definition projectObservationSchema :: "schema" where
  "projectObservationSchema =
     object_schema [(''projectId'', uuidSchema),
       (''localProjectId'', text_schema),
       (''displayName'', text_schema),
       (''canonicalPath'', refine_schema text_schema absolute_path ''expected Linux/macOS absolute folder''),
       (''cliVersion'', text_schema),
       (''validation'', projectValidationSchema),
       (''process'', processObservationSchema),
       (''observedAt'', timestampSchema),
       (''snapshot'', optional_schema jsonValueSchema),
       (''snapshotObservedAt'', optional_schema timestampSchema),
       (''snapshotError'', optional_schema diagnosticSchema),
       (''runs'', runs_schema)]"

definition inventory_schema :: "schema" where
  "inventory_schema =
     refine_schema (object_schema [(''revisionId'', uuidSchema),
       (''pageIndex'', integer_schema 0 99),
       (''pageCount'', integer_schema 1 100),
       (''projects'', array_schema projectObservationSchema managedProjectsPerAgent)])
       inventory_consistent
       ''invalid inventory page or duplicate project identity''"

definition command_fields :: "(string \<times> schema) list" where
  "command_fields =
     [(''commandId'', uuidSchema), (''projectId'', uuidSchema), (''environmentId'', uuidSchema),
      (''localProjectId'', text_schema), (''sessionId'', uuidSchema),
      (''operation'', enumeration_schema [''start'', ''stop'']), (''actor'', literal_schema (JStr OPERATOR_ACTOR)),
      (''idempotencyKey'', text_schema), (''submittedAt'', timestampSchema), (''expiresAt'', timestampSchema)]"

definition lifecycleCommandSchema :: "schema" where
  "lifecycleCommandSchema =
     refine_schema (object_schema command_fields) positiveLifetime ''expiry must follow submission''"

definition commandRecordSchema :: "schema" where
  "commandRecordSchema =
     refine_schema
       (object_schema (command_fields @
       [(''state'', enumeration_schema COMMAND_STATES),
        (''claimedAt'', optional_schema timestampSchema),
        (''owner'', optional_schema (object_schema [(''agentId'', uuidSchema),
       (''sessionId'', uuidSchema)])),
        (''completedAt'', optional_schema timestampSchema),
        (''evidence'', optional_schema jsonValueSchema),
        (''diagnostic'', optional_schema diagnosticSchema),
        (''closure'', optional_schema (object_schema [(''closedAt'', timestampSchema),
       (''actor'', literal_schema (JStr OPERATOR_ACTOR)),
       (''reason'', text_schema)]))]))
       command_consistent
       ''command state contradicts claim, completion or unresolved closure''"

definition claimRequestSchema :: "schema" where
  "claimRequestSchema =
     object_schema (envelope_fields @
       [(''commandId'', uuidSchema)])"

definition claimResponseSchema :: "schema" where
  "claimResponseSchema =
     refine_schema (object_schema (envelope_fields @
       [(''command'', commandRecordSchema)]))
       claim_consistent ''claim environment or owning session mismatch''"

definition readSelectionSchema :: "schema" where
  "readSelectionSchema =
     union_schema
      [object_schema [(''kind'', literal_schema (JStr ''runs'')),
       (''limit'', integer_schema 1 runSummariesPerProject),
       (''cursor'', optional_schema text_schema)],
       object_schema [(''kind'', literal_schema (JStr ''run-detail'')),
       (''runId'', text_schema)],
       object_schema [(''kind'', literal_schema (JStr ''log-chunk'')),
       (''runId'', text_schema),
       (''stream'', enumeration_schema LOG_STREAMS),
       (''cursor'', optional_schema text_schema),
       (''maxBytes'', integer_schema 1 logChunkBytes)]]"

definition readRequestSchema :: "schema" where
  "readRequestSchema =
     refine_schema (object_schema [(''readId'', uuidSchema),
       (''projectId'', uuidSchema),
       (''localProjectId'', text_schema),
       (''sessionId'', uuidSchema),
       (''submittedAt'', timestampSchema),
       (''expiresAt'', timestampSchema),
       (''selection'', readSelectionSchema)])
       positiveLifetime ''expiry must follow submission''"

text \<open>Any string, the empty one included.\<close>

definition log_text_schema :: schema where
  "log_text_schema value path =
     (case jstring value of None \<Rightarrow> schema_fail path ''expected log text'' | Some _ \<Rightarrow> Inr value)"

definition readPayloadSchema :: "schema" where
  "readPayloadSchema =
     union_schema
      [object_schema [(''kind'', literal_schema (JStr ''runs'')),
       (''runs'', runs_schema),
       (''nextCursor'', optional_schema text_schema)],
       object_schema [(''kind'', literal_schema (JStr ''run-detail'')),
       (''runId'', text_schema),
       (''detail'', jsonValueSchema)],
       object_schema [(''kind'', literal_schema (JStr ''log-chunk'')),
       (''runId'', text_schema),
       (''stream'', enumeration_schema LOG_STREAMS),
       (''text'', refine_schema log_text_schema log_within ''log exceeds byte limit''),
       (''cursor'', text_schema),
       (''reset'', boolean_schema),
       (''eof'', boolean_schema)]]"

definition readResultSchema :: "schema" where
  "readResultSchema =
     union_schema
      [object_schema [(''readId'', uuidSchema),
       (''state'', literal_schema (JStr ''pending''))],
       object_schema [(''readId'', uuidSchema),
       (''state'', literal_schema (JStr ''completed'')),
       (''completedAt'', timestampSchema),
       (''payload'', readPayloadSchema)],
       object_schema [(''readId'', uuidSchema),
       (''state'', enumeration_schema [''expired'', ''unavailable'']),
       (''diagnostic'', diagnosticSchema)]]"

definition pollResponseSchema :: "schema" where
  "pollResponseSchema =
     refine_schema (object_schema (envelope_fields @
       [(''commands'', array_schema lifecycleCommandSchema activeCommandsPerAgent),
        (''reads'', array_schema readRequestSchema pendingReadsPerAgent)]))
       poll_consistent ''poll targets another environment/session or repeats a project slot''"

definition not_pending :: "json option \<Rightarrow> bool" where
  "not_pending =
     (\<lambda>v. string_at v [''state''] \<noteq> Some ''pending'')"

definition agentResultSchema :: "schema" where
  "agentResultSchema =
     union_schema
      [object_schema [(''kind'', literal_schema (JStr ''command'')),
       (''commandId'', uuidSchema),
       (''state'', enumeration_schema [''succeeded'', ''failed'', ''unknown'']),
       (''observedAt'', timestampSchema),
       (''evidence'', jsonValueSchema),
       (''diagnostic'', optional_schema diagnosticSchema)],
       object_schema [(''kind'', literal_schema (JStr ''read'')),
       (''result'', refine_schema readResultSchema not_pending ''cannot publish pending read'')]]"

definition resultRequestSchema :: "schema" where
  "resultRequestSchema =
     object_schema (envelope_fields @
       [(''result'', agentResultSchema)])"

definition createEnvironmentRequestSchema :: "schema" where
  "createEnvironmentRequestSchema =
     object_schema [(''name'', text_schema)]"

definition enrollmentTokenResponseSchema :: "schema" where
  "enrollmentTokenResponseSchema =
     object_schema [(''environmentId'', uuidSchema),
       (''token'', text_schema),
       (''expiresAt'', timestampSchema)]"

definition environmentRecordSchema :: "schema" where
  "environmentRecordSchema =
     refine_schema (object_schema [(''environmentId'', uuidSchema),
       (''name'', text_schema),
       (''enrollment'', enumeration_schema [''pending'', ''enrolled'', ''revoked'']),
       (''connection'', enumeration_schema [''awaiting-signal'', ''online'', ''offline'']),
       (''lastContactAt'', optional_schema timestampSchema),
       (''agentVersion'', optional_schema text_schema),
       (''host'', optional_schema host_schema)])
       environment_consistent
       ''revoked requires offline; online requires enrolled agent and authenticated contact''"

definition submitCommandRequestSchema :: "schema" where
  "submitCommandRequestSchema =
     object_schema [(''operation'', enumeration_schema [''start'', ''stop''])]"

definition submitCommandResponseSchema :: "schema" where
  "submitCommandResponseSchema =
     object_schema [(''commandId'', uuidSchema),
       (''state'', literal_schema (JStr ''accepted''))]"

definition closeUnresolvedRequestSchema :: "schema" where
  "closeUnresolvedRequestSchema =
     object_schema [(''acknowledged'', literal_schema (JBool True)),
       (''reason'', text_schema)]"

definition paging_fields :: "(string \<times> schema) list" where
  "paging_fields = [(''limit'', integer_schema 1 maximumPageSize), (''cursor'', optional_schema text_schema)]"

definition pageRequestSchema :: "schema" where
  "pageRequestSchema =
     object_schema paging_fields"

definition projectFilterSchema :: "schema" where
  "projectFilterSchema =
     object_schema (paging_fields @
       [(''environmentId'', optional_schema uuidSchema),
        (''process'', optional_schema (enumeration_schema [''running'', ''stopped'', ''unknown''])),
        (''connection'', optional_schema (enumeration_schema [''online'', ''offline'']))])"

definition aggregateProjectSchema :: "schema" where
  "aggregateProjectSchema =
     refine_schema (object_schema [(''projectId'', uuidSchema),
       (''environmentId'', uuidSchema),
       (''localProjectId'', text_schema),
       (''managed'', boolean_schema),
       (''connection'', enumeration_schema [''online'', ''offline'']),
       (''lastReceivedAt'', timestampSchema),
       (''observation'', projectObservationSchema),
       (''fresh'', optional_schema boolean_schema),
       (''snapshotStale'', optional_schema boolean_schema),
       (''warnings'', optional_schema (array_schema (object_schema [(''state'', enumeration_schema [''identical'', ''unverified'']),
       (''projectIds'', array_schema uuidSchema maximumPageSize)]) 2))])
       aggregate_consistent ''aggregate and observation identity mismatch''"

definition submitReadResponseSchema :: "schema" where
  "submitReadResponseSchema =
     object_schema [(''readId'', uuidSchema)]"

section \<open>Every contract keeps the promise\<close>

lemma reads_equal:
  assumes "equivalent v w"
  shows "string_at v = string_at w \<and> number_at v = number_at w \<and> present_at v = present_at w \<and>
    strings_at v = strings_at w \<and> date_at v = date_at w"
  using scalars_equivalent [OF assms] by (simp add: fun_eq_iff date_at_def)

lemma blind_conditions [schema_intros]:
  "order_blind positiveLifetime" "order_blind command_consistent" "order_blind inventory_consistent"
  "order_blind claim_consistent" "order_blind poll_consistent" "order_blind environment_consistent"
  "order_blind aggregate_consistent" "order_blind log_within" "order_blind absolute_path" "order_blind not_pending"
  "order_blind (\<lambda>v. case string_at v [] of None \<Rightarrow> False | Some s \<Rightarrow> P s)"
  unfolding positiveLifetime_def command_consistent_def inventory_consistent_def claim_consistent_def poll_consistent_def
    environment_consistent_def aggregate_consistent_def log_within_def absolute_path_def not_pending_def
  by (rule order_blindI, drule reads_equal, simp)+

lemma by_name_map: "by_name (map (\<lambda>(k, v). (k, f v)) kvs) = map (\<lambda>(k, v). (k, f v)) (by_name kvs)"
proof -
  have names: "map fst (map (\<lambda>(k, v). (k, f v)) kvs) = map fst kvs" by (induction kvs) auto
  have "getOr (map_option f (members kvs k)) JNull = f (getOr (members kvs k) JNull)" if "k \<in> fst ` set kvs" for k
    using that members_None_iff [of kvs k] by (cases "members kvs k") auto
  then show ?thesis unfolding by_name_def names by (simp add: members_map)
qed

lemma nested_within_canon [simp]: "nested_within d (canon v) = nested_within d v"
proof (induction d v rule: nested_within.induct)
  case (1 d xs)
  then show ?case by (simp add: list.pred_map comp_def cong: list.pred_cong)
next
  case (2 d kvs)
  have "by_name (by_name (map (\<lambda>(k, v). (k, canon v)) kvs)) = map (\<lambda>(k, v). (k, canon v)) (by_name kvs)"
    by (simp add: by_name_cong [of "by_name _"] by_name_map)
  with 2 show ?case by (auto simp: list.pred_map comp_def list_all_iff split: prod.splits)
qed simp_all

lemma faithful_json_value [schema_intros]: "faithful_schema jsonValueSchema"
proof
  fix v v' p q
  assume "is_ok (jsonValueSchema v p)" "equivalent v v'"
  then obtain x y where "v = Some x" "v' = Some y" "canon x = canon y" "nested_within 0 x"
    by (cases v; cases v') (auto simp: jsonValueSchema_def equivalent_def split: if_splits)
  moreover from this have "nested_within 0 y" by (metis nested_within_canon)
  ultimately show "is_ok (jsonValueSchema v' q)" by (simp add: jsonValueSchema_def)
qed (auto simp: jsonValueSchema_def split: option.splits if_splits)

lemma faithful_log_text [schema_intros]: "faithful_schema log_text_schema"
  by (rule faithful_scalar) (auto simp: log_text_schema_def split: option.splits)

lemma faithful_base [schema_intros]: "faithful_schema uuidSchema" "faithful_schema timestampSchema"
  by (simp_all add: uuidSchema_def timestampSchema_def schema_intros)

lemma fields_faithful [simp]:
  "list_all (\<lambda>(k, s). faithful_schema s) base_fields" "list_all (\<lambda>(k, s). faithful_schema s) envelope_fields"
  "list_all (\<lambda>(k, s). faithful_schema s) command_fields" "list_all (\<lambda>(k, s). faithful_schema s) paging_fields"
  by (simp_all add: base_fields_def envelope_fields_def command_fields_def paging_fields_def schema_intros)

lemma field_names [simp]:
  "map fst base_fields = [''protocolVersion'', ''requestId'']"
  "map fst envelope_fields = [''protocolVersion'', ''requestId'', ''environmentId'', ''sessionId'']"
  "map fst command_fields = [''commandId'', ''projectId'', ''environmentId'', ''localProjectId'', ''sessionId'',
     ''operation'', ''actor'', ''idempotencyKey'', ''submittedAt'', ''expiresAt'']"
  "map fst paging_fields = [''limit'', ''cursor'']"
  by (simp_all add: base_fields_def envelope_fields_def command_fields_def paging_fields_def)

lemmas contract_defs =
  diagnosticSchema_def errorResponseSchema_def projectIdentitySchema_def agentEnvelopeSchema_def
  host_schema_def enrollmentRequestSchema_def enrollmentResponseSchema_def sessionRequestSchema_def
  sessionResponseSchema_def acknowledgmentSchema_def processObservationSchema_def projectValidationSchema_def
  runSummarySchema_def runs_schema_def projectObservationSchema_def inventory_schema_def
  lifecycleCommandSchema_def commandRecordSchema_def claimRequestSchema_def claimResponseSchema_def
  readSelectionSchema_def readRequestSchema_def readPayloadSchema_def readResultSchema_def
  pollResponseSchema_def agentResultSchema_def resultRequestSchema_def createEnvironmentRequestSchema_def
  enrollmentTokenResponseSchema_def environmentRecordSchema_def submitCommandRequestSchema_def
  submitCommandResponseSchema_def closeUnresolvedRequestSchema_def pageRequestSchema_def
  projectFilterSchema_def aggregateProjectSchema_def submitReadResponseSchema_def

lemma faithful_contracts [schema_intros]:
  "faithful_schema diagnosticSchema" "faithful_schema errorResponseSchema"
  "faithful_schema projectIdentitySchema" "faithful_schema agentEnvelopeSchema" "faithful_schema host_schema"
  "faithful_schema enrollmentRequestSchema" "faithful_schema enrollmentResponseSchema"
  "faithful_schema sessionRequestSchema" "faithful_schema sessionResponseSchema"
  "faithful_schema acknowledgmentSchema" "faithful_schema processObservationSchema"
  "faithful_schema projectValidationSchema" "faithful_schema runSummarySchema" "faithful_schema runs_schema"
  "faithful_schema projectObservationSchema" "faithful_schema inventory_schema"
  "faithful_schema lifecycleCommandSchema" "faithful_schema commandRecordSchema"
  "faithful_schema claimRequestSchema" "faithful_schema claimResponseSchema"
  "faithful_schema readSelectionSchema" "faithful_schema readRequestSchema"
  "faithful_schema readPayloadSchema" "faithful_schema readResultSchema" "faithful_schema pollResponseSchema"
  "faithful_schema agentResultSchema" "faithful_schema resultRequestSchema"
  "faithful_schema createEnvironmentRequestSchema" "faithful_schema enrollmentTokenResponseSchema"
  "faithful_schema environmentRecordSchema" "faithful_schema submitCommandRequestSchema"
  "faithful_schema submitCommandResponseSchema" "faithful_schema closeUnresolvedRequestSchema"
  "faithful_schema pageRequestSchema" "faithful_schema projectFilterSchema"
  "faithful_schema aggregateProjectSchema" "faithful_schema submitReadResponseSchema"
  by (simp_all add: contract_defs schema_intros)

text \<open>The contracts by the names under which the package exports them.\<close>

definition management_schemas :: "(string \<times> schema) list" where
  "management_schemas =
     [(''uuidSchema'', uuidSchema), (''timestampSchema'', timestampSchema),
      (''jsonValueSchema'', jsonValueSchema), (''diagnosticSchema'', diagnosticSchema),
      (''errorResponseSchema'', errorResponseSchema), (''projectIdentitySchema'', projectIdentitySchema),
      (''agentEnvelopeSchema'', agentEnvelopeSchema), (''enrollmentRequestSchema'', enrollmentRequestSchema),
      (''enrollmentResponseSchema'', enrollmentResponseSchema),
      (''sessionRequestSchema'', sessionRequestSchema), (''sessionResponseSchema'', sessionResponseSchema),
      (''acknowledgmentSchema'', acknowledgmentSchema),
      (''processObservationSchema'', processObservationSchema),
      (''projectValidationSchema'', projectValidationSchema), (''runSummarySchema'', runSummarySchema),
      (''projectObservationSchema'', projectObservationSchema),
      (''lifecycleCommandSchema'', lifecycleCommandSchema), (''commandRecordSchema'', commandRecordSchema),
      (''claimRequestSchema'', claimRequestSchema), (''claimResponseSchema'', claimResponseSchema),
      (''readSelectionSchema'', readSelectionSchema), (''readRequestSchema'', readRequestSchema),
      (''readPayloadSchema'', readPayloadSchema), (''readResultSchema'', readResultSchema),
      (''pollResponseSchema'', pollResponseSchema), (''agentResultSchema'', agentResultSchema),
      (''resultRequestSchema'', resultRequestSchema),
      (''createEnvironmentRequestSchema'', createEnvironmentRequestSchema),
      (''enrollmentTokenResponseSchema'', enrollmentTokenResponseSchema),
      (''environmentRecordSchema'', environmentRecordSchema),
      (''submitCommandRequestSchema'', submitCommandRequestSchema),
      (''submitCommandResponseSchema'', submitCommandResponseSchema),
      (''closeUnresolvedRequestSchema'', closeUnresolvedRequestSchema),
      (''pageRequestSchema'', pageRequestSchema), (''projectFilterSchema'', projectFilterSchema),
      (''aggregateProjectSchema'', aggregateProjectSchema),
      (''submitReadResponseSchema'', submitReadResponseSchema)]"

lemma management_schemas_faithful: "list_all (\<lambda>(name, s). faithful_schema s) management_schemas"
  by (simp add: management_schemas_def schema_intros)

interpretation command_record: faithful_schema commandRecordSchema
  by (simp add: schema_intros)

interpretation lifecycle_command: faithful_schema lifecycleCommandSchema
  by (simp add: schema_intros)

interpretation agent_result: faithful_schema agentResultSchema
  by (simp add: schema_intros)

section \<open>Properties\<close>

text \<open>
  C39. Every contract of the management protocol parses without coercion: what it returns is the
  document it was given up to the order of members, it returns that document again unchanged when
  it is parsed once more, at any path, and it accepts a document whatever the order of its members.
\<close>

theorem contracts_neither_coerce_nor_default:
  assumes "(name, s) \<in> set management_schemas" and "s v p = Inr w"
  shows "equivalent w v \<and> s w q = Inr w \<and> (\<forall>v'. equivalent v v' \<longrightarrow> is_ok (s v' q))"
proof -
  have "faithful_schema s" using management_schemas_faithful assms(1) by (auto simp: list_all_iff)
  from faithful_schema.same_document [OF this assms(2)] faithful_schema.reparse [OF this assms(2)]
    faithful_schema.document_only [OF this is_okI [OF assms(2)]] show ?thesis by blast
qed

lemma contracts_neither_coerce_nor_default_witness:
  "submitCommandRequestSchema (Some (JObj [(''operation'', JStr ''start'')])) ''$'' =
     Inr (Some (JObj [(''operation'', JStr ''start'')]))"
proof -
  have "(''submitCommandRequestSchema'', submitCommandRequestSchema) \<in> set management_schemas"
    by (simp add: management_schemas_def)
  moreover have "submitCommandRequestSchema (Some (JObj [(''operation'', JStr ''start'')])) ''r'' =
      Inr (Some (JObj [(''operation'', JStr ''start'')]))" by code_simp
  ultimately show ?thesis using contracts_neither_coerce_nor_default by blast
qed

end
