(* ===== verification/FleetStore.thy ===== *)
theory FleetStore
  imports Schemas
begin

text \<open>
  The database of \<open>packages/fleet-control-plane/src\<close> (\<open>migrations.ts\<close>, \<open>store.ts\<close>): one record
  field per table, a table being the list of its rows in the order of their row ids. An operation
  maps a database to an error or to a value and the next database; \<open>transaction\<close> keeps the old one
  when the operation throws. The columns \<open>evidence\<close> and \<open>observation\<close> hold the document their text
  encodes. Every operation reads the clock once, as the parameter \<open>now\<close>.
\<close>

section \<open>Errors\<close>

text \<open>A \<open>FleetError\<close> with its code, a \<open>ProtocolValidationError\<close>, any other error.\<close>

datatype fleet_error =
    FleetError string string
  | ProtocolError string
  | Failure string

definition parse_protocol :: "schema \<Rightarrow> json option \<Rightarrow> fleet_error + json" where
  "parse_protocol s v =
     (case s v ''$'' of Inl m \<Rightarrow> Inl (ProtocolError m) | Inr w \<Rightarrow> Inr (getOr w JNull))"

definition clock_text :: "int \<Rightarrow> fleet_error + string" where
  "clock_text ms = (case toISOString ms of Inl m \<Rightarrow> Inl (Failure m) | Inr s \<Rightarrow> Inr s)"

lemma clock_text_Inr: "clock_text ms = Inr s \<longleftrightarrow> \<bar>ms\<bar> \<le> max_time \<and> s = iso_text ms"
  using toISOString_Inr [of ms s] by (auto simp: clock_text_def split: sum.splits)

text \<open>\<open>Date.parse(text) > ms\<close>: false when the text is no date.\<close>

definition after :: "string \<Rightarrow> int \<Rightarrow> bool" where
  "after s ms = (case date_parse s of None \<Rightarrow> False | Some d \<Rightarrow> ms < d)"

section \<open>Tables\<close>

record environment_row =
  en_id :: string
  en_name :: string
  en_enrollment :: string
  en_connection :: string
  en_last_contact_at :: "string option"

record token_row =
  tk_environment_id :: string
  tk_verifier :: string
  tk_expires_at :: string

record credential_row =
  cd_environment_id :: string
  cd_agent_id :: string
  cd_verifier :: string

record session_row =
  sn_environment_id :: string
  sn_agent_id :: string
  sn_session_id :: string
  sn_expires_at :: string
  sn_sequence :: int
  sn_agent_version :: string
  sn_hostname :: string
  sn_os :: string

record audit_row =
  ad_actor :: string
  ad_target :: string
  ad_operation :: string
  ad_request_id :: "string option"
  ad_occurred_at :: string
  ad_outcome :: string

record command_row =
  cr_rowid :: int
  cr_command_id :: string
  cr_project_id :: string
  cr_environment_id :: string
  cr_local_project_id :: string
  cr_session_id :: string
  cr_operation :: string
  cr_actor :: string
  cr_idempotency_key :: string
  cr_submitted_at :: string
  cr_expires_at :: string
  cr_state :: string
  cr_claimed_at :: "string option"
  cr_owner_agent_id :: "string option"
  cr_owner_session_id :: "string option"
  cr_completed_at :: "string option"
  cr_evidence :: "json option"
  cr_diagnostic :: "(string \<times> string) option"
  cr_closed_at :: "string option"
  cr_closed_actor :: "string option"
  cr_closed_reason :: "string option"

record project_row =
  pj_project_id :: string
  pj_environment_id :: string
  pj_local_project_id :: string
  pj_managed :: bool
  pj_published :: bool
  pj_observation :: "json option"
  pj_received_at :: "string option"
  pj_agent_id :: "string option"

record revision_row =
  rv_environment_id :: string
  rv_session_id :: string
  rv_revision_id :: string
  rv_page_count :: int
  rv_complete :: bool

record page_row =
  pg_environment_id :: string
  pg_page_index :: int
  pg_project_ids :: "string list"

record fleet_db =
  environments :: "environment_row list"
  tokens :: "token_row list"
  credentials :: "credential_row list"
  sessions :: "session_row list"
  audits :: "audit_row list"
  commands :: "command_row list"
  projects :: "project_row list"
  revisions :: "revision_row list"
  pages :: "page_row list"

definition empty_db :: fleet_db where
  "empty_db = \<lparr>environments = [], tokens = [], credentials = [], sessions = [], audits = [], commands = [],
     projects = [], revisions = [], pages = []\<rparr>"

definition environment_row_of :: "string \<Rightarrow> fleet_db \<Rightarrow> environment_row option" where
  "environment_row_of i db = find (\<lambda>r. en_id r = i) (environments db)"

definition credential_of :: "string \<Rightarrow> fleet_db \<Rightarrow> credential_row option" where
  "credential_of i db = find (\<lambda>r. cd_environment_id r = i) (credentials db)"

definition session_of :: "string \<Rightarrow> fleet_db \<Rightarrow> session_row option" where
  "session_of i db = find (\<lambda>r. sn_environment_id r = i) (sessions db)"

text \<open>\<open>SET ... WHERE\<close>\<close>

definition update_where :: "('r \<Rightarrow> bool) \<Rightarrow> ('r \<Rightarrow> 'r) \<Rightarrow> 'r list \<Rightarrow> 'r list" where
  "update_where p f rows = map (\<lambda>r. if p r then f r else r) rows"

text \<open>\<open>INSERT ... ON CONFLICT(key) DO UPDATE\<close>: the row takes the place of the one with its key.\<close>

definition upsert :: "('r \<Rightarrow> 'k) \<Rightarrow> 'r \<Rightarrow> 'r list \<Rightarrow> 'r list" where
  "upsert key r rows =
     (if key r \<in> key ` set rows then update_where (\<lambda>x. key x = key r) (\<lambda>_. r) rows else rows @ [r])"

lemma set_update_where: "set (update_where p f rows) = (\<lambda>r. if p r then f r else r) ` set rows"
  by (auto simp: update_where_def)

lemma map_update_where: "(\<And>r. g (f r) = g r) \<Longrightarrow> map g (update_where p f rows) = map g rows"
  by (simp add: update_where_def)

lemma find_Some_mem: "find p rows = Some r \<Longrightarrow> r \<in> set rows \<and> p r"
  by (induction rows) (auto split: if_splits)

lemma find_None_mem: "find p rows = None \<longleftrightarrow> (\<forall>r \<in> set rows. \<not> p r)"
  by (induction rows) auto

lemma find_distinct: "distinct (map key rows) \<Longrightarrow> r \<in> set rows \<Longrightarrow> find (\<lambda>x. key x = key r) rows = Some r"
  by (induction rows) (auto simp: rev_image_eqI split: if_splits)

lemma find_distinct_iff: "distinct (map key rows) \<Longrightarrow> find (\<lambda>x. key x = k) rows = Some r \<longleftrightarrow> r \<in> set rows \<and> key r = k"
  using find_distinct [of key rows r] find_Some_mem [of "\<lambda>x. key x = k" rows r] by auto

lemma find_filter_ne: "k \<noteq> k' \<Longrightarrow> find (\<lambda>x. key x = k) (filter (\<lambda>x. key x \<noteq> k') rows) = find (\<lambda>x. key x = k) rows"
  by (induction rows) auto

lemma find_filter_same [simp]: "find (\<lambda>x. key x = k) (filter (\<lambda>x. key x \<noteq> k) rows) = None"
  by (simp add: find_None_mem)

lemma find_update_where:
  "(\<And>r. key (f r) = key r) \<Longrightarrow>
   find (\<lambda>x. key x = k) (update_where (\<lambda>x. key x = k') f rows) =
     (if k = k' then map_option f (find (\<lambda>x. key x = k) rows) else find (\<lambda>x. key x = k) rows)"
  by (induction rows) (auto simp: update_where_def)

lemma find_replace:
  assumes "key r = k'"
  shows "find (\<lambda>x. key x = k) (update_where (\<lambda>x. key x = k') (\<lambda>_. r) rows) =
     (if k = k' \<and> k' \<in> key ` set rows then Some r else find (\<lambda>x. key x = k) rows)"
proof (induction rows)
  case (Cons x rows)
  then show ?case using assms
    by (cases "key x = k'"; cases "k = k'"; cases "key x = k") (auto simp: update_where_def find_None_iff)
qed (simp add: update_where_def)

lemma find_append_new:
  "find p (rows @ [r]) = (case find p rows of None \<Rightarrow> if p r then Some r else None | Some y \<Rightarrow> Some y)"
  by (induction rows) auto

lemma find_upsert:
  "find (\<lambda>x. key x = k) (upsert key r rows) = (if k = key r then Some r else find (\<lambda>x. key x = k) rows)"
proof (cases "key r \<in> key ` set rows")
  case True
  then show ?thesis using find_replace [of key r "key r" k rows] by (simp add: upsert_def)
next
  case False
  then have "find (\<lambda>x. key x = key r) rows = None" unfolding find_None_mem by (metis image_eqI)
  with False show ?thesis by (auto simp: upsert_def find_append_new split: option.splits)
qed

lemma distinct_upsert: "distinct (map key rows) \<Longrightarrow> distinct (map key (upsert key r rows))"
proof -
  have "map key (update_where (\<lambda>x. key x = key r) (\<lambda>_. r) rows) = map key rows"
    by (induction rows) (auto simp: update_where_def)
  then show "distinct (map key rows) \<Longrightarrow> ?thesis" by (simp add: upsert_def)
qed

section \<open>Transactions\<close>

type_synonym 'a tx = "fleet_db \<Rightarrow> fleet_error + 'a \<times> fleet_db"

definition transaction :: "'a tx \<Rightarrow> fleet_db \<Rightarrow> (fleet_error + 'a) \<times> fleet_db" where
  "transaction operation db =
     (case operation db of Inl e \<Rightarrow> (Inl e, db) | Inr (x, db') \<Rightarrow> (Inr x, db'))"

lemma transaction_Inr: "transaction m db = (Inr x, db') \<longleftrightarrow> m db = Inr (x, db')"
  by (auto simp: transaction_def split: sum.splits prod.splits)

lemma transaction_Inl: "transaction m db = (Inl e, db') \<longleftrightarrow> m db = Inl e \<and> db' = db"
  by (auto simp: transaction_def split: sum.splits prod.splits)

lemma transaction_cases:
  obtains (aborted) e where "m db = Inl e" "transaction m db = (Inl e, db)"
  | (committed) x db' where "m db = Inr (x, db')" "transaction m db = (Inr x, db')"
  by (cases "m db") (auto simp: transaction_def)

end
