(* ===== verification/FleetEnrollment.thy ===== *)
theory FleetEnrollment
  imports FleetStore
begin

text \<open>
  \<open>packages/fleet-control-plane/src/enrollment.ts\<close> and \<open>sessions.ts\<close>: environments, enrollment
  tokens, agent credentials and the exclusive session of an agent. \<open>node:crypto\<close> is a parameter:
  \<open>sha\<close> is the hex digest of SHA-256, random identifiers and secrets are arguments.
\<close>

section \<open>Rows that can be written\<close>

text \<open>The constraints of the enrollment tables in \<open>migrations.ts\<close>.\<close>

definition constraint_error :: fleet_error where
  "constraint_error = Failure ''constraint failed''"

definition insert_environment :: "environment_row \<Rightarrow> fleet_db \<Rightarrow> fleet_error + fleet_db" where
  "insert_environment r db =
     (if en_id r \<in> en_id ` set (environments db) then Inl constraint_error
      else Inr (db\<lparr>environments := environments db @ [r]\<rparr>))"

definition upsert_token :: "token_row \<Rightarrow> fleet_db \<Rightarrow> fleet_error + fleet_db" where
  "upsert_token r db =
     (if \<exists>t \<in> set (tokens db). tk_verifier t = tk_verifier r \<and> tk_environment_id t \<noteq> tk_environment_id r
      then Inl constraint_error else Inr (db\<lparr>tokens := upsert tk_environment_id r (tokens db)\<rparr>))"

definition insert_credential :: "credential_row \<Rightarrow> fleet_db \<Rightarrow> fleet_error + fleet_db" where
  "insert_credential r db =
     (if \<exists>c \<in> set (credentials db). cd_environment_id c = cd_environment_id r \<or> cd_agent_id c = cd_agent_id r \<or>
           cd_verifier c = cd_verifier r
      then Inl constraint_error else Inr (db\<lparr>credentials := credentials db @ [r]\<rparr>))"

definition upsert_session :: "session_row \<Rightarrow> fleet_db \<Rightarrow> fleet_error + fleet_db" where
  "upsert_session r db =
     (if \<exists>s \<in> set (sessions db). sn_session_id s = sn_session_id r \<and> sn_environment_id s \<noteq> sn_environment_id r
      then Inl constraint_error else Inr (db\<lparr>sessions := upsert sn_environment_id r (sessions db)\<rparr>))"

definition set_environment :: "string \<Rightarrow> (environment_row \<Rightarrow> environment_row) \<Rightarrow> fleet_db \<Rightarrow> fleet_db" where
  "set_environment i f db = db\<lparr>environments := update_where (\<lambda>r. en_id r = i) f (environments db)\<rparr>"

definition delete_tokens :: "string \<Rightarrow> fleet_db \<Rightarrow> fleet_db" where
  "delete_tokens i db = db\<lparr>tokens := filter (\<lambda>t. tk_environment_id t \<noteq> i) (tokens db)\<rparr>"

definition delete_credentials :: "string \<Rightarrow> fleet_db \<Rightarrow> fleet_db" where
  "delete_credentials i db = db\<lparr>credentials := filter (\<lambda>c. cd_environment_id c \<noteq> i) (credentials db)\<rparr>"

section \<open>Enrollment\<close>

record agent_identity =
  ai_environmentId :: string
  ai_agentId :: string
  ai_credential :: string
  ai_sessionId :: string

definition environment_record :: "string \<Rightarrow> fleet_db \<Rightarrow> fleet_error + environment_row" where
  "environment_record i db =
     rbind (parse_protocol uuidSchema (Some (JStr i))) (\<lambda>_.
       case environment_row_of i db of
         None \<Rightarrow> Inl (FleetError ''not_found'' ''Environment does not exist'')
       | Some r \<Rightarrow> Inr r)"

definition enrollment_audit ::
  "string \<Rightarrow> string \<Rightarrow> string \<Rightarrow> string option \<Rightarrow> int \<Rightarrow> fleet_db \<Rightarrow> fleet_error + fleet_db" where
  "enrollment_audit actor target operation request now db =
     rbind (clock_text now) (\<lambda>t.
       Inr (db\<lparr>audits := audits db @
         [\<lparr>ad_actor = actor, ad_target = target, ad_operation = operation, ad_request_id = request,
           ad_occurred_at = t, ad_outcome = ''success''\<rparr>]\<rparr>))"

definition issueToken ::
  "(string \<Rightarrow> string) \<Rightarrow> string \<Rightarrow> string \<Rightarrow> int \<Rightarrow> fleet_db \<Rightarrow> fleet_error + (string \<times> string \<times> string) \<times> fleet_db" where
  "issueToken sha secret i now db =
     rbind (clock_text (now + enrollmentTokenLifetimeMs)) (\<lambda>expiresAt.
       rbind (upsert_token \<lparr>tk_environment_id = i, tk_verifier = sha secret, tk_expires_at = expiresAt\<rparr> db) (\<lambda>db.
         Inr ((i, secret, expiresAt), db)))"

text \<open>The document \<open>input\<close> is the body of the request; the operator's input is bounded in bytes.\<close>

definition createEnvironment ::
  "(string \<Rightarrow> string) \<Rightarrow> string \<Rightarrow> string \<Rightarrow> int \<Rightarrow> json option \<Rightarrow> fleet_db \<Rightarrow>
     (fleet_error + string \<times> string \<times> string) \<times> fleet_db" where
  "createEnvironment sha uuid secret now input db =
     (case parse_protocol createEnvironmentRequestSchema input of
        Inl e \<Rightarrow> (Inl e, db)
      | Inr request \<Rightarrow>
          let name = js_trim (getOr (string_at (Some request) [''name'']) [])
          in if 256 < utf8Bytes name then (Inl (FleetError ''invalid_input'' ''Environment name exceeds 256 bytes''), db)
             else transaction (\<lambda>db.
               rbind (insert_environment \<lparr>en_id = uuid, en_name = name, en_enrollment = ''pending'',
                   en_connection = ''awaiting-signal'', en_last_contact_at = None\<rparr> db) (\<lambda>db.
               rbind (issueToken sha secret uuid now db) (\<lambda>(token, db).
               rbind (enrollment_audit OPERATOR_ACTOR uuid ''environment.create'' None now db) (\<lambda>db.
                 Inr (token, db))))) db)"

definition regenerateEnrollment ::
  "(string \<Rightarrow> string) \<Rightarrow> string \<Rightarrow> int \<Rightarrow> string \<Rightarrow> fleet_db \<Rightarrow> (fleet_error + string \<times> string \<times> string) \<times> fleet_db" where
  "regenerateEnrollment sha secret now i =
     transaction (\<lambda>db.
       rbind (environment_record i db) (\<lambda>record.
         if en_enrollment record = ''enrolled''
         then Inl (FleetError ''session_conflict'' ''Revoke the enrolled agent before replacement'')
         else rbind (issueToken sha secret i now db) (\<lambda>(token, db).
           rbind (enrollment_audit OPERATOR_ACTOR i ''enrollment.regenerate'' None now
               (set_environment i (\<lambda>r. r\<lparr>en_enrollment := ''pending'', en_connection := ''awaiting-signal'',
                  en_last_contact_at := None\<rparr>) db)) (\<lambda>db.
             Inr (token, db)))))"

text \<open>The environment id, the agent id and the credential handed to a new agent.\<close>

definition pending_token :: "string \<Rightarrow> fleet_db \<Rightarrow> token_row option" where
  "pending_token v db =
     find (\<lambda>t. tk_verifier t = v \<and>
        (\<exists>e \<in> set (environments db). en_id e = tk_environment_id t \<and> en_enrollment e = ''pending'')) (tokens db)"

definition enroll ::
  "(string \<Rightarrow> string) \<Rightarrow> string \<Rightarrow> string \<Rightarrow> int \<Rightarrow> json option \<Rightarrow> fleet_db \<Rightarrow>
     (fleet_error + string \<times> string \<times> string) \<times> fleet_db" where
  "enroll sha agentId credential now input db =
     (if value_at input [''protocolVersion''] \<noteq> Some (JNum 1)
      then (Inl (FleetError ''unsupported_protocol'' ''Unsupported management protocol''), db)
      else case parse_protocol enrollmentRequestSchema input of
        Inl e \<Rightarrow> (Inl e, db)
      | Inr request \<Rightarrow>
          let secret = getOr (string_at (Some request) [''token'']) [];
              requestId = string_at (Some request) [''requestId'']
          in if 256 < length secret then (Inl (FleetError ''unauthenticated'' ''Invalid enrollment token''), db)
             else transaction (\<lambda>db.
               case pending_token (sha secret) db of
                 None \<Rightarrow> Inl (FleetError ''unauthenticated'' ''Invalid or expired enrollment token'')
               | Some token \<Rightarrow>
                   if \<not> after (tk_expires_at token) now
                   then Inl (FleetError ''unauthenticated'' ''Invalid or expired enrollment token'')
                   else let i = tk_environment_id token
                        in rbind (insert_credential \<lparr>cd_environment_id = i, cd_agent_id = agentId,
                               cd_verifier = sha credential\<rparr> (delete_tokens i db)) (\<lambda>db.
                           rbind (enrollment_audit (''agent:'' @ agentId) i ''agent.enroll'' requestId now
                               (set_environment i (\<lambda>r. r\<lparr>en_enrollment := ''enrolled'', en_connection := ''awaiting-signal'',
                                  en_last_contact_at := None\<rparr>) db)) (\<lambda>db.
                             Inr ((i, agentId, credential), db)))) db)"

text \<open>The peer \<open>invalidate\<close> closes the sessions and commands of the environment.\<close>

definition revoke ::
  "(string \<Rightarrow> fleet_db \<Rightarrow> fleet_error + fleet_db) \<Rightarrow> int \<Rightarrow> string \<Rightarrow> fleet_db \<Rightarrow> (fleet_error + unit) \<times> fleet_db" where
  "revoke invalidate now i =
     transaction (\<lambda>db.
       rbind (environment_record i db) (\<lambda>record.
         if en_enrollment record = ''revoked'' then Inr ((), db)
         else rbind (invalidate i (set_environment i (\<lambda>r. r\<lparr>en_enrollment := ''revoked'', en_connection := ''offline''\<rparr>)
                (delete_credentials i (delete_tokens i db)))) (\<lambda>db.
              rbind (enrollment_audit OPERATOR_ACTOR i ''environment.revoke'' None now db) (\<lambda>db.
                Inr ((), db)))))"

definition digest_text :: "string \<Rightarrow> bool" where
  "digest_text s = (length s = 64 \<and> list_all (\<lambda>c. is_digit c \<or> c \<in> set ''abcdef'') s)"

definition enrolled_credential :: "string \<Rightarrow> string \<Rightarrow> fleet_db \<Rightarrow> credential_row option" where
  "enrolled_credential i agent db =
     find (\<lambda>c. cd_environment_id c = i \<and> cd_agent_id c = agent \<and>
        (\<exists>e \<in> set (environments db). en_id e = cd_environment_id c \<and> en_enrollment e = ''enrolled'')) (credentials db)"

definition authenticate :: "(string \<Rightarrow> string) \<Rightarrow> agent_identity \<Rightarrow> fleet_db \<Rightarrow> fleet_error + unit" where
  "authenticate sha identity db =
     rbind (parse_protocol uuidSchema (Some (JStr (ai_environmentId identity)))) (\<lambda>_.
     rbind (parse_protocol uuidSchema (Some (JStr (ai_agentId identity)))) (\<lambda>_.
       if 256 < length (ai_credential identity) \<or> ai_credential identity = []
       then Inl (FleetError ''unauthenticated'' ''Invalid agent credential'')
       else case enrolled_credential (ai_environmentId identity) (ai_agentId identity) db of
              None \<Rightarrow> Inl (FleetError ''unauthenticated'' ''Invalid agent credential'')
            | Some row \<Rightarrow>
                if \<not> digest_text (cd_verifier row) \<or> cd_verifier row \<noteq> sha (ai_credential identity)
                then Inl (FleetError ''unauthenticated'' ''Invalid agent credential'') else Inr ()))"

definition recordAuthenticatedSignal ::
  "(string \<Rightarrow> string) \<Rightarrow> (agent_identity \<Rightarrow> fleet_db \<Rightarrow> fleet_error + bool \<times> fleet_db) \<Rightarrow> int \<Rightarrow> agent_identity \<Rightarrow>
     fleet_db \<Rightarrow> (fleet_error + unit) \<times> fleet_db" where
  "recordAuthenticatedSignal sha verifySession now identity db =
     (case parse_protocol uuidSchema (Some (JStr (ai_sessionId identity))) of
        Inl e \<Rightarrow> (Inl e, db)
      | Inr _ \<Rightarrow> transaction (\<lambda>db.
          rbind (authenticate sha identity db) (\<lambda>_.
          rbind (verifySession identity db) (\<lambda>(verified, db).
            if \<not> verified then Inl (FleetError ''unauthenticated'' ''Current agent session is required'')
            else rbind (clock_text now) (\<lambda>t.
              Inr ((), set_environment (ai_environmentId identity)
                (\<lambda>r. r\<lparr>en_connection := ''online'', en_last_contact_at := Some t\<rparr>) db))))) db)"

text \<open>What \<open>listEnvironments\<close> shows of an environment: the agent's version and host when it has a session.\<close>

record environment_view =
  ev_environmentId :: string
  ev_name :: string
  ev_enrollment :: string
  ev_connection :: string
  ev_agentVersion :: "string option"
  ev_host :: "(string \<times> string) option"
  ev_lastContactAt :: "string option"

definition text_present :: "string option \<Rightarrow> bool" where
  "text_present s = (case s of None \<Rightarrow> False | Some t \<Rightarrow> t \<noteq> [])"

definition environment_view_of :: "fleet_db \<Rightarrow> environment_row \<Rightarrow> environment_view" where
  "environment_view_of db r =
     (let s = session_of (en_id r) db; known = text_present (map_option sn_agent_version s)
      in \<lparr>ev_environmentId = en_id r, ev_name = en_name r, ev_enrollment = en_enrollment r,
          ev_connection = en_connection r,
          ev_agentVersion = (if known then map_option sn_agent_version s else None),
          ev_host = (if known then map_option (\<lambda>s. (sn_hostname s, sn_os s)) s else None),
          ev_lastContactAt = (if text_present (en_last_contact_at r) then en_last_contact_at r else None)\<rparr>)"

definition listEnvironments :: "fleet_db \<Rightarrow> environment_view list" where
  "listEnvironments db = map (environment_view_of db) (environments db)"

section \<open>Sessions\<close>

definition SESSION_LIFETIME_MS :: int where
  "SESSION_LIFETIME_MS = 30000"

definition verify_session :: "int \<Rightarrow> agent_identity \<Rightarrow> fleet_db \<Rightarrow> fleet_error + session_row" where
  "verify_session now identity db =
     rbind (parse_protocol uuidSchema (Some (JStr (ai_sessionId identity)))) (\<lambda>_.
       case session_of (ai_environmentId identity) db of
         None \<Rightarrow> Inl (FleetError ''unauthenticated'' ''Current agent session is required'')
       | Some current \<Rightarrow>
           if sn_agent_id current \<noteq> ai_agentId identity \<or> sn_session_id current \<noteq> ai_sessionId identity \<or>
              \<not> after (sn_expires_at current) now
           then Inl (FleetError ''unauthenticated'' ''Current agent session is required'')
           else Inr current)"

definition session_matches :: "agent_identity \<Rightarrow> string \<Rightarrow> string option \<Rightarrow> fleet_error + unit" where
  "session_matches identity environmentId agentId =
     (if ai_environmentId identity \<noteq> environmentId \<or> (agentId \<noteq> None \<and> agentId \<noteq> Some (ai_agentId identity))
      then Inl (FleetError ''unauthenticated'' ''Request identity does not match credential'') else Inr ())"

definition expire_sessions :: "int \<Rightarrow> fleet_db \<Rightarrow> (fleet_error + unit) \<times> fleet_db" where
  "expire_sessions now =
     transaction (\<lambda>db. rbind (clock_text now) (\<lambda>t.
       Inr ((), db\<lparr>environments := update_where
         (\<lambda>r. en_enrollment r = ''enrolled'' \<and> en_last_contact_at r \<noteq> None \<and>
              (\<exists>s \<in> set (sessions db). sn_environment_id s = en_id r \<and> sn_expires_at s \<le> t))
         (\<lambda>r. r\<lparr>en_connection := ''offline''\<rparr>) (environments db)\<rparr>)))"

definition field :: "json \<Rightarrow> string list \<Rightarrow> string" where
  "field v ks = getOr (string_at (Some v) ks) []"

definition openSession ::
  "(string \<Rightarrow> string) \<Rightarrow> string \<Rightarrow> int \<Rightarrow> agent_identity \<Rightarrow> json option \<Rightarrow> fleet_db \<Rightarrow>
     (fleet_error + string \<times> string) \<times> fleet_db" where
  "openSession sha sessionId now identity input db =
     (if value_at input [''protocolVersion''] \<noteq> Some (JNum 1)
      then (Inl (FleetError ''unsupported_protocol'' ''Unsupported management protocol''), db)
      else case rbind (parse_protocol sessionRequestSchema input) (\<lambda>request.
          rbind (session_matches identity (field request [''environmentId'']) (Some (field request [''agentId''])))
            (\<lambda>_. Inr request)) of
        Inl e \<Rightarrow> (Inl e, db)
      | Inr request \<Rightarrow> transaction (\<lambda>db.
          let i = field request [''environmentId'']
          in rbind (authenticate sha identity db) (\<lambda>_.
             if (case session_of i db of None \<Rightarrow> False | Some current \<Rightarrow> after (sn_expires_at current) now)
             then Inl (FleetError ''session_conflict'' ''Agent already has a live session'')
             else rbind (clock_text (now + SESSION_LIFETIME_MS)) (\<lambda>expiresAt.
               rbind (upsert_session
                 \<lparr>sn_environment_id = i, sn_agent_id = field request [''agentId''], sn_session_id = sessionId,
                  sn_expires_at = expiresAt, sn_sequence = -1, sn_agent_version = field request [''agentVersion''],
                  sn_hostname = field request [''host'', ''hostname''], sn_os = field request [''host'', ''os'']\<rparr> db)
                 (\<lambda>db. Inr ((sessionId, expiresAt),
                    set_environment i (\<lambda>r. r\<lparr>en_connection :=
                      (if en_last_contact_at r = None then ''awaiting-signal'' else ''offline'')\<rparr>) db))))) db)"

definition set_session :: "string \<Rightarrow> string \<Rightarrow> (session_row \<Rightarrow> session_row) \<Rightarrow> fleet_db \<Rightarrow> fleet_db" where
  "set_session i sid f db =
     db\<lparr>sessions := update_where (\<lambda>s. sn_environment_id s = i \<and> sn_session_id s = sid) f (sessions db)\<rparr>"

text \<open>
  The body of an observation is a parsed \<open>ObservationRequest\<close>; its projection into the tables is the
  peer \<open>receive\<close>.
\<close>

record observation_request =
  ob_environmentId :: string
  ob_sessionId :: string
  ob_sequence :: int
  ob_inventory :: json

definition observe_session ::
  "(observation_request \<Rightarrow> fleet_db \<Rightarrow> fleet_error + fleet_db) \<Rightarrow> int \<Rightarrow> observation_request \<Rightarrow> agent_identity \<Rightarrow>
     fleet_db \<Rightarrow> fleet_error + bool \<times> fleet_db" where
  "observe_session receive now request identity db =
     rbind (verify_session now identity db) (\<lambda>current.
     rbind (if sn_sequence current < ob_sequence request
            then rbind (receive request db) (\<lambda>db.
              Inr (set_session (ob_environmentId request) (ob_sessionId request)
                (\<lambda>s. s\<lparr>sn_sequence := ob_sequence request\<rparr>) db))
            else Inr db) (\<lambda>db.
     rbind (clock_text (now + SESSION_LIFETIME_MS)) (\<lambda>t.
       Inr (True, set_session (ob_environmentId request) (ob_sessionId request) (\<lambda>s. s\<lparr>sn_expires_at := t\<rparr>) db))))"

definition observe ::
  "(string \<Rightarrow> string) \<Rightarrow> (observation_request \<Rightarrow> fleet_db \<Rightarrow> fleet_error + fleet_db) \<Rightarrow> int \<Rightarrow> agent_identity \<Rightarrow>
     observation_request \<Rightarrow> fleet_db \<Rightarrow> (fleet_error + unit) \<times> fleet_db" where
  "observe sha receive now identity request db =
     (case session_matches identity (ob_environmentId request) None of
        Inl e \<Rightarrow> (Inl e, db)
      | Inr _ \<Rightarrow>
          recordAuthenticatedSignal sha (observe_session receive now request) now
            (identity\<lparr>ai_sessionId := ob_sessionId request\<rparr>) db)"

definition authenticateSession :: "(string \<Rightarrow> string) \<Rightarrow> int \<Rightarrow> agent_identity \<Rightarrow> fleet_db \<Rightarrow> fleet_error + unit" where
  "authenticateSession sha now identity db =
     rbind (authenticate sha identity db) (\<lambda>_. rbind (verify_session now identity db) (\<lambda>_. Inr ()))"

definition invalidate_session :: "string \<Rightarrow> fleet_db \<Rightarrow> fleet_db" where
  "invalidate_session i db = db\<lparr>sessions := filter (\<lambda>s. sn_environment_id s \<noteq> i) (sessions db)\<rparr>"

definition recoverAfterRestart :: "int \<Rightarrow> fleet_db \<Rightarrow> (fleet_error + unit) \<times> fleet_db" where
  "recoverAfterRestart now =
     transaction (\<lambda>db. rbind (clock_text now) (\<lambda>t.
       Inr ((), db\<lparr>sessions := map (\<lambda>s. s\<lparr>sn_expires_at := t\<rparr>) (sessions db),
         environments := update_where (\<lambda>r. en_enrollment r = ''enrolled'' \<and> en_last_contact_at r \<noteq> None)
           (\<lambda>r. r\<lparr>en_connection := ''offline''\<rparr>) (environments db)\<rparr>)))"

end
