(* ===== verification/FleetCommands.thy ===== *)
theory FleetCommands
  imports FleetEnrollment
begin

text \<open>
  \<open>packages/fleet-control-plane/src/commands.ts\<close>: lifecycle commands, their claim by the agent they
  target, their results and their retention. The peers of the service are a parameter of the
  operations; they read the database of the transaction. The en dash in a message is
  written as a hyphen.
\<close>

section \<open>Commands and their rows\<close>

record command_target =
  ct_projectId :: string
  ct_environmentId :: string
  ct_localProjectId :: string
  ct_agentId :: string
  ct_sessionId :: string
  ct_managed :: bool
  ct_online :: bool
  ct_valid :: bool
  ct_supported :: bool

record command_peers =
  pe_resolveTarget :: "string \<Rightarrow> fleet_db \<Rightarrow> fleet_error + command_target option"
  pe_verifyAgent :: "agent_identity \<Rightarrow> fleet_db \<Rightarrow> fleet_error + bool"

record command =
  cm_commandId :: string
  cm_projectId :: string
  cm_environmentId :: string
  cm_localProjectId :: string
  cm_sessionId :: string
  cm_operation :: string
  cm_actor :: string
  cm_idempotencyKey :: string
  cm_submittedAt :: string
  cm_expiresAt :: string
  cm_state :: string
  cm_claimedAt :: "string option"
  cm_owner :: "(string \<times> string) option"
  cm_completedAt :: "string option"
  cm_evidence :: "json option"
  cm_diagnostic :: "(string \<times> string) option"
  cm_closure :: "(string \<times> string \<times> string) option"

text \<open>The members of an object literal that are not \<open>undefined\<close>.\<close>

definition present :: "(string \<times> json option) list \<Rightarrow> (string \<times> json) list" where
  "present items = concat (map (\<lambda>(k, v). case v of None \<Rightarrow> [] | Some j \<Rightarrow> [(k, j)]) items)"

definition diagnostic_json :: "string \<times> string \<Rightarrow> json" where
  "diagnostic_json d = JObj [(''code'', JStr (fst d)), (''message'', JStr (snd d))]"

definition nullable_text :: "string option \<Rightarrow> json" where
  "nullable_text s = (case s of None \<Rightarrow> JNull | Some t \<Rightarrow> JStr t)"

definition command_fields_of :: "command \<Rightarrow> (string \<times> json option) list" where
  "command_fields_of c =
     [(''commandId'', Some (JStr (cm_commandId c))), (''projectId'', Some (JStr (cm_projectId c))),
      (''environmentId'', Some (JStr (cm_environmentId c))), (''localProjectId'', Some (JStr (cm_localProjectId c))),
      (''sessionId'', Some (JStr (cm_sessionId c))), (''operation'', Some (JStr (cm_operation c))),
      (''actor'', Some (JStr (cm_actor c))), (''idempotencyKey'', Some (JStr (cm_idempotencyKey c))),
      (''submittedAt'', Some (JStr (cm_submittedAt c))), (''expiresAt'', Some (JStr (cm_expiresAt c))),
      (''state'', Some (JStr (cm_state c))), (''claimedAt'', map_option JStr (cm_claimedAt c)),
      (''owner'', map_option (\<lambda>(a, s). JObj [(''agentId'', JStr a), (''sessionId'', JStr s)]) (cm_owner c)),
      (''completedAt'', map_option JStr (cm_completedAt c)), (''evidence'', cm_evidence c),
      (''diagnostic'', map_option diagnostic_json (cm_diagnostic c)),
      (''closure'', map_option (\<lambda>(t, a, r). JObj [(''closedAt'', JStr t), (''actor'', JStr a), (''reason'', JStr r)])
         (cm_closure c))]"

definition command_json :: "command \<Rightarrow> json" where
  "command_json c = JObj (present (command_fields_of c))"

text \<open>The document \<open>record\<close> builds from a row, and the command it denotes when it is valid.\<close>

definition row_fields_of :: "command_row \<Rightarrow> (string \<times> json option) list" where
  "row_fields_of r =
     [(''commandId'', Some (JStr (cr_command_id r))), (''projectId'', Some (JStr (cr_project_id r))),
      (''environmentId'', Some (JStr (cr_environment_id r))), (''localProjectId'', Some (JStr (cr_local_project_id r))),
      (''sessionId'', Some (JStr (cr_session_id r))), (''operation'', Some (JStr (cr_operation r))),
      (''actor'', Some (JStr (cr_actor r))), (''idempotencyKey'', Some (JStr (cr_idempotency_key r))),
      (''submittedAt'', Some (JStr (cr_submitted_at r))), (''expiresAt'', Some (JStr (cr_expires_at r))),
      (''state'', Some (JStr (cr_state r))),
      (''claimedAt'', if text_present (cr_claimed_at r) then map_option JStr (cr_claimed_at r) else None),
      (''owner'', if text_present (cr_claimed_at r)
         then Some (JObj [(''agentId'', nullable_text (cr_owner_agent_id r)),
                          (''sessionId'', nullable_text (cr_owner_session_id r))]) else None),
      (''completedAt'', if text_present (cr_completed_at r) then map_option JStr (cr_completed_at r) else None),
      (''evidence'', cr_evidence r), (''diagnostic'', map_option diagnostic_json (cr_diagnostic r)),
      (''closure'', if text_present (cr_closed_at r)
         then Some (JObj [(''closedAt'', nullable_text (cr_closed_at r)), (''actor'', nullable_text (cr_closed_actor r)),
                          (''reason'', nullable_text (cr_closed_reason r))]) else None)]"

definition command_of_row :: "command_row \<Rightarrow> command" where
  "command_of_row r =
     \<lparr>cm_commandId = cr_command_id r, cm_projectId = cr_project_id r, cm_environmentId = cr_environment_id r,
      cm_localProjectId = cr_local_project_id r, cm_sessionId = cr_session_id r, cm_operation = cr_operation r,
      cm_actor = cr_actor r, cm_idempotencyKey = cr_idempotency_key r, cm_submittedAt = cr_submitted_at r,
      cm_expiresAt = cr_expires_at r, cm_state = cr_state r,
      cm_claimedAt = (if text_present (cr_claimed_at r) then cr_claimed_at r else None),
      cm_owner = (if text_present (cr_claimed_at r)
        then Some (getOr (cr_owner_agent_id r) [], getOr (cr_owner_session_id r) []) else None),
      cm_completedAt = (if text_present (cr_completed_at r) then cr_completed_at r else None),
      cm_evidence = cr_evidence r, cm_diagnostic = cr_diagnostic r,
      cm_closure = (if text_present (cr_closed_at r)
        then Some (getOr (cr_closed_at r) [], getOr (cr_closed_actor r) [], getOr (cr_closed_reason r) []) else None)\<rparr>"

definition record_of :: "command_row \<Rightarrow> fleet_error + command" where
  "record_of r =
     rbind (parse_protocol commandRecordSchema (Some (JObj (present (row_fields_of r))))) (\<lambda>_. Inr (command_of_row r))"

text \<open>The columns that \<open>save\<close> writes.\<close>

definition store_command :: "command \<Rightarrow> command_row \<Rightarrow> command_row" where
  "store_command c r =
     r\<lparr>cr_state := cm_state c, cr_claimed_at := cm_claimedAt c, cr_owner_agent_id := map_option fst (cm_owner c),
       cr_owner_session_id := map_option snd (cm_owner c), cr_completed_at := cm_completedAt c,
       cr_evidence := map_option canon (cm_evidence c), cr_diagnostic := cm_diagnostic c,
       cr_closed_at := map_option fst (cm_closure c), cr_closed_actor := map_option (fst \<circ> snd) (cm_closure c),
       cr_closed_reason := map_option (snd \<circ> snd) (cm_closure c)\<rparr>"

definition outstanding :: "command_row \<Rightarrow> bool" where
  "outstanding r = (cr_state r \<in> set [''accepted'', ''executing''] \<or> cr_state r = ''unknown'' \<and> cr_closed_at r = None)"

text \<open>The constraints of the table \<open>lifecycle_commands\<close>.\<close>

definition row_check :: "command_row \<Rightarrow> bool" where
  "row_check r =
     (cr_operation r \<in> set [''start'', ''stop''] \<and> cr_actor r = ''local-owner'' \<and> cr_state r \<in> set COMMAND_STATES \<and>
      (if cr_state r \<in> set [''accepted'', ''expired'']
       then cr_claimed_at r = None \<and> cr_owner_agent_id r = None \<and> cr_owner_session_id r = None
       else cr_claimed_at r \<noteq> None \<and> cr_owner_agent_id r \<noteq> None \<and> cr_owner_session_id r \<noteq> None) \<and>
      (cr_state r \<in> set [''succeeded'', ''failed'']) = (cr_completed_at r \<noteq> None) \<and>
      (cr_closed_at r = None \<and> cr_closed_actor r = None \<and> cr_closed_reason r = None \<or>
       cr_state r = ''unknown'' \<and> cr_closed_at r \<noteq> None \<and> cr_closed_actor r = Some ''local-owner'' \<and>
       (case cr_closed_reason r of None \<Rightarrow> False | Some t \<Rightarrow> \<not> list_all (\<lambda>c. c = CHR '' '') t)))"

definition commands_ok :: "command_row list \<Rightarrow> bool" where
  "commands_ok rows =
     (list_all row_check rows \<and> distinct (map cr_command_id rows) \<and>
      distinct (map (\<lambda>r. (cr_actor r, cr_idempotency_key r)) rows) \<and>
      distinct (map cr_project_id (filter outstanding rows)))"

definition write_commands :: "command_row list \<Rightarrow> fleet_db \<Rightarrow> fleet_error + fleet_db" where
  "write_commands rows db = (if commands_ok rows then Inr (db\<lparr>commands := rows\<rparr>) else Inl constraint_error)"

section \<open>Reading, saving, expiring\<close>

definition parse_command_input :: "schema \<Rightarrow> json option \<Rightarrow> fleet_error + json" where
  "parse_command_input s v =
     (case s v ''$'' of
        Inl _ \<Rightarrow> Inl (FleetError ''invalid_input'' ''Invalid command input'')
      | Inr w \<Rightarrow> Inr (getOr w JNull))"

definition parse_uuid :: "string \<Rightarrow> fleet_error + json" where
  "parse_uuid s = parse_command_input uuidSchema (Some (JStr s))"

definition get_command :: "string \<Rightarrow> fleet_db \<Rightarrow> fleet_error + command" where
  "get_command i db =
     rbind (parse_uuid i) (\<lambda>_.
       case find (\<lambda>r. cr_command_id r = i) (commands db) of
         None \<Rightarrow> Inl (FleetError ''not_found'' ''Command does not exist'')
       | Some r \<Rightarrow> record_of r)"

definition audit :: "command \<Rightarrow> string \<Rightarrow> string \<Rightarrow> string option \<Rightarrow> int \<Rightarrow> fleet_db \<Rightarrow> fleet_error + fleet_db" where
  "audit c operation actor requestId now db =
     rbind (clock_text now) (\<lambda>t.
       Inr (db\<lparr>audits := audits db @
         [\<lparr>ad_actor = actor, ad_target = cm_commandId c, ad_operation = operation, ad_request_id = requestId,
           ad_occurred_at = t, ad_outcome = cm_state c\<rparr>]\<rparr>))"

definition save :: "command \<Rightarrow> fleet_db \<Rightarrow> fleet_error + fleet_db" where
  "save c db =
     rbind (parse_protocol commandRecordSchema (Some (command_json c))) (\<lambda>_.
       write_commands (update_where (\<lambda>r. cr_command_id r = cm_commandId c) (store_command c) (commands db)) db)"

definition save_audited ::
  "command \<Rightarrow> string \<Rightarrow> string \<Rightarrow> string option \<Rightarrow> int \<Rightarrow> fleet_db \<Rightarrow> fleet_error + command \<times> fleet_db" where
  "save_audited c operation actor requestId now db =
     rbind (save c db) (\<lambda>db. rbind (audit c operation actor requestId now db) (\<lambda>db. Inr (c, db)))"

text \<open>\<open>Date.parse(s) + delay <= now\<close>\<close>

definition elapsed :: "string option \<Rightarrow> int \<Rightarrow> int \<Rightarrow> bool" where
  "elapsed s delay now =
     (case s of None \<Rightarrow> False
      | Some t \<Rightarrow> (case date_parse t of None \<Rightarrow> False | Some d \<Rightarrow> d + delay \<le> now))"

definition expire :: "int \<Rightarrow> command \<Rightarrow> command tx" where
  "expire now c db =
     (if cm_state c = ''accepted'' \<and> elapsed (Some (cm_expiresAt c)) 0 now
      then save_audited (c\<lparr>cm_state := ''expired''\<rparr>) ''command.expire'' ''control-plane'' None now db
      else if cm_state c = ''executing'' \<and> elapsed (cm_claimedAt c) executionObservationTimeoutMs now
      then save_audited (c\<lparr>cm_state := ''unknown'',
             cm_diagnostic := Some (''unresolved_command'', ''Execution result not observed before timeout'')\<rparr>)
             ''command.unknown'' ''control-plane'' None now db
      else Inr (c, db))"

fun expire_rows :: "int \<Rightarrow> command_row list \<Rightarrow> fleet_db \<Rightarrow> fleet_error + fleet_db" where
  "expire_rows now [] db = Inr db"
| "expire_rows now (r # rs) db =
     rbind (record_of r) (\<lambda>c. rbind (expire now c db) (\<lambda>(_, db). expire_rows now rs db))"

definition recover :: "int \<Rightarrow> fleet_db \<Rightarrow> fleet_error + fleet_db" where
  "recover now db =
     expire_rows now (filter (\<lambda>r. cr_state r \<in> set [''accepted'', ''executing'']) (commands db)) db"

definition verify_agent :: "command_peers \<Rightarrow> agent_identity \<Rightarrow> fleet_db \<Rightarrow> fleet_error + unit" where
  "verify_agent peers identity db =
     rbind (parse_uuid (ai_environmentId identity)) (\<lambda>_.
     rbind (parse_uuid (ai_agentId identity)) (\<lambda>_.
     rbind (parse_uuid (ai_sessionId identity)) (\<lambda>_.
     rbind (pe_verifyAgent peers identity db) (\<lambda>verified.
       if \<not> verified then Inl (FleetError ''claim_owner_conflict'' ''Current authenticated owning session required'')
       else Inr ()))))"

definition check_envelope :: "command_peers \<Rightarrow> agent_identity \<Rightarrow> json \<Rightarrow> fleet_db \<Rightarrow> fleet_error + unit" where
  "check_envelope peers identity request db =
     (if field request [''environmentId''] \<noteq> ai_environmentId identity \<or>
         field request [''sessionId''] \<noteq> ai_sessionId identity
      then Inl (FleetError ''claim_owner_conflict'' ''Request does not match authenticated identity'')
      else verify_agent peers identity db)"

definition check_owner :: "command \<Rightarrow> agent_identity \<Rightarrow> fleet_error + unit" where
  "check_owner c identity =
     (if cm_environmentId c \<noteq> ai_environmentId identity \<or>
         cm_owner c \<noteq> Some (ai_agentId identity, ai_sessionId identity)
      then Inl (FleetError ''claim_owner_conflict'' ''Command belongs to another agent/session'') else Inr ())"

fun invalidate_rows :: "int \<Rightarrow> command_row list \<Rightarrow> fleet_db \<Rightarrow> fleet_error + fleet_db" where
  "invalidate_rows now [] db = Inr db"
| "invalidate_rows now (r # rs) db =
     rbind (record_of r) (\<lambda>c.
     rbind (save_audited (c\<lparr>cm_state := ''expired''\<rparr>) ''command.invalidate'' ''control-plane'' None now db) (\<lambda>(_, db).
       invalidate_rows now rs db))"

section \<open>The service\<close>

definition next_rowid :: "command_row list \<Rightarrow> int" where
  "next_rowid rows = foldr max (map cr_rowid rows) 0 + 1"

definition command_row_of :: "int \<Rightarrow> command \<Rightarrow> command_row" where
  "command_row_of rowid c =
     \<lparr>cr_rowid = rowid, cr_command_id = cm_commandId c, cr_project_id = cm_projectId c,
      cr_environment_id = cm_environmentId c, cr_local_project_id = cm_localProjectId c,
      cr_session_id = cm_sessionId c, cr_operation = cm_operation c, cr_actor = cm_actor c,
      cr_idempotency_key = cm_idempotencyKey c, cr_submitted_at = cm_submittedAt c, cr_expires_at = cm_expiresAt c,
      cr_state = cm_state c, cr_claimed_at = None, cr_owner_agent_id = None, cr_owner_session_id = None,
      cr_completed_at = None, cr_evidence = None, cr_diagnostic = None, cr_closed_at = None, cr_closed_actor = None,
      cr_closed_reason = None\<rparr>"

definition insert_command :: "command \<Rightarrow> fleet_db \<Rightarrow> fleet_error + fleet_db" where
  "insert_command c db =
     (if environment_row_of (cm_environmentId c) db = None then Inl constraint_error
      else write_commands (commands db @ [command_row_of (next_rowid (commands db)) c]) db)"

text \<open>Whether the target can take the operation; the checks in the order of the code.\<close>

definition admit_target :: "string \<Rightarrow> string \<Rightarrow> command_target option \<Rightarrow> fleet_db \<Rightarrow> fleet_error + command_target" where
  "admit_target projectId operation target db =
     (case target of
        None \<Rightarrow> Inl (FleetError ''not_found'' ''Project does not exist'')
      | Some t \<Rightarrow>
          if ct_projectId t \<noteq> projectId then Inl (Failure ''Peer returned a different project identity'')
          else rbind (parse_uuid (ct_environmentId t)) (\<lambda>_.
            if map_option en_enrollment (environment_row_of (ct_environmentId t) db) \<noteq> Some ''enrolled''
            then Inl (FleetError ''access_revoked'' ''Target enrollment is not active'')
            else if \<not> ct_managed t then Inl (FleetError ''project_unmanaged'' ''Project is not managed'')
            else if \<not> ct_supported t then Inl (FleetError ''unsupported_protocol'' ''Target protocol is unsupported'')
            else if operation = ''start'' \<and> \<not> ct_valid t
            then Inl (FleetError ''project_invalid'' ''Project configuration is invalid'')
            else if \<not> ct_online t then Inl (FleetError ''agent_offline'' ''Target is offline'')
            else rbind (parse_uuid (ct_agentId t)) (\<lambda>_. rbind (parse_uuid (ct_sessionId t)) (\<lambda>_.
              if map_option cd_agent_id (credential_of (ct_environmentId t) db) \<noteq> Some (ct_agentId t)
              then Inl (FleetError ''access_revoked'' ''Target enrollment is not active'')
              else Inr t))))"

definition admit_capacity :: "string \<Rightarrow> string \<Rightarrow> fleet_db \<Rightarrow> fleet_error + unit" where
  "admit_capacity projectId environmentId db =
     (case find (\<lambda>r. cr_project_id r = projectId \<and> outstanding r) (commands db) of
        Some r \<Rightarrow> Inl (FleetError (if cr_state r = ''unknown'' then ''unresolved_command'' else ''command_conflict'')
                        ''Project has an outstanding command'')
      | None \<Rightarrow>
          if activeCommandsPerAgent \<le> int (length (filter (\<lambda>r. cr_environment_id r = environmentId \<and> outstanding r) (commands db)))
          then Inl (FleetError ''agent_busy'' ''Agent command capacity reached'') else Inr ())"

definition new_command ::
  "string \<Rightarrow> string \<Rightarrow> string \<Rightarrow> string \<Rightarrow> command_target \<Rightarrow> int \<Rightarrow> fleet_error + command" where
  "new_command uuid projectId operation key t now =
     rbind (clock_text now) (\<lambda>submittedAt.
     rbind (clock_text (now + commandClaimLifetimeMs)) (\<lambda>expiresAt.
       Inr \<lparr>cm_commandId = uuid, cm_projectId = projectId, cm_environmentId = ct_environmentId t,
         cm_localProjectId = ct_localProjectId t, cm_sessionId = ct_sessionId t, cm_operation = operation,
         cm_actor = OPERATOR_ACTOR, cm_idempotencyKey = key, cm_submittedAt = submittedAt, cm_expiresAt = expiresAt,
         cm_state = ''accepted'', cm_claimedAt = None, cm_owner = None, cm_completedAt = None, cm_evidence = None,
         cm_diagnostic = None, cm_closure = None\<rparr>))"

definition accept_command ::
  "command_peers \<Rightarrow> string \<Rightarrow> int \<Rightarrow> string \<Rightarrow> string \<Rightarrow> string \<Rightarrow> string tx" where
  "accept_command peers uuid now projectId key operation db =
     rbind (recover now db) (\<lambda>db.
     rbind (pe_resolveTarget peers projectId db) (\<lambda>target.
     rbind (admit_target projectId operation target db) (\<lambda>t.
     rbind (admit_capacity projectId (ct_environmentId t) db) (\<lambda>_.
     rbind (new_command uuid projectId operation key t now) (\<lambda>c.
     rbind (parse_protocol commandRecordSchema (Some (command_json c))) (\<lambda>_.
     rbind (insert_command c db) (\<lambda>db.
     rbind (audit c ''command.submit'' OPERATOR_ACTOR None now db) (\<lambda>db.
       Inr (cm_commandId c, db)))))))))"

definition resubmit_command :: "string \<Rightarrow> string \<Rightarrow> command_row \<Rightarrow> string tx" where
  "resubmit_command projectId operation previous db =
     rbind (record_of previous) (\<lambda>c.
       if cm_projectId c \<noteq> projectId \<or> cm_operation c \<noteq> operation
       then Inl (FleetError ''idempotency_conflict'' ''Key already identifies another operation/target'')
       else Inr (cm_commandId c, db))"

text \<open>The receipt is the command's id; its state is always \<open>accepted\<close>.\<close>

definition submit_tx :: "command_peers \<Rightarrow> string \<Rightarrow> int \<Rightarrow> string \<Rightarrow> string \<Rightarrow> string \<Rightarrow> string tx" where
  "submit_tx peers uuid now projectId key operation db =
     (case find (\<lambda>r. cr_actor r = OPERATOR_ACTOR \<and> cr_idempotency_key r = key) (commands db) of
        Some previous \<Rightarrow> resubmit_command projectId operation previous db
      | None \<Rightarrow> accept_command peers uuid now projectId key operation db)"

definition submitCommand ::
  "command_peers \<Rightarrow> string \<Rightarrow> int \<Rightarrow> string \<Rightarrow> string \<Rightarrow> json option \<Rightarrow> fleet_db \<Rightarrow> (fleet_error + string) \<times> fleet_db" where
  "submitCommand peers uuid now projectId key input db =
     (case rbind (parse_uuid projectId) (\<lambda>_. parse_command_input submitCommandRequestSchema input) of
        Inl e \<Rightarrow> (Inl e, db)
      | Inr request \<Rightarrow>
          if js_trim key = [] \<or> 256 < utf8Bytes key
          then (Inl (FleetError ''invalid_input'' ''Idempotency key must contain 1-256 bytes''), db)
          else transaction (submit_tx peers uuid now projectId key (field request [''operation''])) db)"

definition read_tx :: "int \<Rightarrow> string \<Rightarrow> command tx" where
  "read_tx now i db = rbind (get_command i db) (\<lambda>c. expire now c db)"

definition getCommand :: "int \<Rightarrow> string \<Rightarrow> fleet_db \<Rightarrow> (fleet_error + command) \<times> fleet_db" where
  "getCommand now i = transaction (read_tx now i)"

fun records_of :: "command_row list \<Rightarrow> fleet_error + command list" where
  "records_of [] = Inr []"
| "records_of (r # rs) = rbind (record_of r) (\<lambda>c. rbind (records_of rs) (\<lambda>cs. Inr (c # cs)))"

text \<open>A page is its items, newest first, with the cursor of the next one.\<close>

definition page_cursor :: "string \<Rightarrow> string option \<Rightarrow> fleet_db \<Rightarrow> fleet_error + int" where
  "page_cursor projectId cursor db =
     (if text_present cursor
      then rbind (parse_uuid (getOr cursor [])) (\<lambda>_.
        case find (\<lambda>r. cr_command_id r = getOr cursor [] \<and> cr_project_id r = projectId) (commands db) of
          None \<Rightarrow> Inl (FleetError ''invalid_input'' ''Cursor does not belong to project history'')
        | Some r \<Rightarrow> Inr (cr_rowid r))
      else Inr max_safe)"

definition history_page :: "string \<Rightarrow> nat \<Rightarrow> int \<Rightarrow> fleet_db \<Rightarrow> fleet_error + command list \<times> string option" where
  "history_page projectId limit cursor db =
     (let rows = take (limit + 1) (rev (sort_key cr_rowid
            (filter (\<lambda>r. cr_project_id r = projectId \<and> cr_rowid r < cursor) (commands db))))
      in rbind (records_of (take limit rows)) (\<lambda>items.
           Inr (items, if limit < length rows then Some (cm_commandId (last items)) else None)))"

definition list_tx :: "int \<Rightarrow> string \<Rightarrow> json \<Rightarrow> (command list \<times> string option) tx" where
  "list_tx now projectId request db =
     rbind (recover now db) (\<lambda>db.
     rbind (page_cursor projectId (string_at (Some request) [''cursor'']) db) (\<lambda>cursor.
     rbind (history_page projectId (nat \<lfloor>getOr (number_at (Some request) [''limit'']) 0\<rfloor>) cursor db) (\<lambda>page.
       Inr (page, db))))"

definition listCommands ::
  "int \<Rightarrow> string \<Rightarrow> json option \<Rightarrow> fleet_db \<Rightarrow> (fleet_error + command list \<times> string option) \<times> fleet_db" where
  "listCommands now projectId input db =
     (case rbind (parse_uuid projectId) (\<lambda>_. parse_command_input pageRequestSchema input) of
        Inl e \<Rightarrow> (Inl e, db)
      | Inr request \<Rightarrow> transaction (list_tx now projectId request) db)"

definition CLOSURE_REASON_MAX_BYTES :: int where
  "CLOSURE_REASON_MAX_BYTES = 2048"

definition close_tx :: "int \<Rightarrow> string \<Rightarrow> string \<Rightarrow> command tx" where
  "close_tx now i reason db =
     rbind (get_command i db) (\<lambda>c. rbind (expire now c db) (\<lambda>(c, db).
       if cm_state c \<noteq> ''unknown''
       then Inl (FleetError ''command_conflict'' ''Only unknown commands can be closed unresolved'')
       else case cm_closure c of
           Some (_, _, known) \<Rightarrow>
             if known \<noteq> reason
             then Inl (FleetError ''command_conflict'' ''Unknown already closed with another reason'')
             else Inr (c, db)
         | None \<Rightarrow> rbind (clock_text now) (\<lambda>t.
             save_audited (c\<lparr>cm_closure := Some (t, OPERATOR_ACTOR, reason)\<rparr>)
               ''command.close-unresolved'' OPERATOR_ACTOR None now db)))"

definition closeUnresolved :: "int \<Rightarrow> string \<Rightarrow> json option \<Rightarrow> fleet_db \<Rightarrow> (fleet_error + command) \<times> fleet_db" where
  "closeUnresolved now i input db =
     (case parse_command_input closeUnresolvedRequestSchema input of
        Inl e \<Rightarrow> (Inl e, db)
      | Inr request \<Rightarrow>
          let reason = js_trim (field request [''reason''])
          in if reason = [] \<or> CLOSURE_REASON_MAX_BYTES < utf8Bytes reason
             then (Inl (FleetError ''invalid_input'' ''Closure requires a bounded nonempty reason''), db)
             else transaction (close_tx now i reason) db)"

record claim_response =
  cl_environmentId :: string
  cl_sessionId :: string
  cl_requestId :: string
  cl_command :: command

text \<open>An unclaimed command that is not overdue and whose target is still managed starts executing.\<close>

definition target_gone :: "command \<Rightarrow> command_target option \<Rightarrow> bool" where
  "target_gone c target \<longleftrightarrow>
     (case target of None \<Rightarrow> True
      | Some t \<Rightarrow> \<not> ct_managed t \<or> ct_environmentId t \<noteq> cm_environmentId c \<or> ct_localProjectId t \<noteq> cm_localProjectId c)"

definition grant_claim :: "command_peers \<Rightarrow> int \<Rightarrow> agent_identity \<Rightarrow> json \<Rightarrow> command \<Rightarrow> command tx" where
  "grant_claim peers now identity request c db =
     (if cm_state c = ''expired'' then Inr (c, db)
      else rbind (pe_resolveTarget peers (cm_projectId c) db) (\<lambda>target.
        if target_gone c target then Inl (FleetError ''project_unmanaged'' ''Command target is no longer managed'')
        else rbind (clock_text now) (\<lambda>t.
          save_audited (c\<lparr>cm_state := ''executing'', cm_claimedAt := Some t,
              cm_owner := Some (ai_agentId identity, ai_sessionId identity)\<rparr>)
            ''command.claim'' (''agent:'' @ ai_agentId identity) (Some (field request [''requestId''])) now db)))"

definition claim_tx :: "command_peers \<Rightarrow> int \<Rightarrow> agent_identity \<Rightarrow> json \<Rightarrow> command tx" where
  "claim_tx peers now identity request db =
     rbind (check_envelope peers identity request db) (\<lambda>_.
     rbind (get_command (field request [''commandId'']) db) (\<lambda>c.
       if cm_environmentId c \<noteq> ai_environmentId identity
       then Inl (FleetError ''claim_owner_conflict'' ''Command is outside environment scope'')
       else if cm_owner c \<noteq> None then rbind (check_owner c identity) (\<lambda>_. expire now c db)
       else if cm_sessionId c \<noteq> ai_sessionId identity
       then Inl (FleetError ''claim_owner_conflict'' ''Command targets another session'')
       else rbind (expire now c db) (\<lambda>(c, db). grant_claim peers now identity request c db)))"

definition claim ::
  "command_peers \<Rightarrow> int \<Rightarrow> agent_identity \<Rightarrow> json option \<Rightarrow> fleet_db \<Rightarrow> (fleet_error + claim_response) \<times> fleet_db" where
  "claim peers now identity input db =
     (case parse_command_input claimRequestSchema input of
        Inl e \<Rightarrow> (Inl e, db)
      | Inr request \<Rightarrow>
          (case transaction (claim_tx peers now identity request) db of
             (Inl e, db) \<Rightarrow> (Inl e, db)
           | (Inr c, db) \<Rightarrow>
               if cm_state c = ''expired''
               then (Inl (FleetError ''command_expired'' ''Command claim deadline elapsed''), db)
               else (Inr \<lparr>cl_environmentId = field request [''environmentId''], cl_sessionId = field request [''sessionId''],
                       cl_requestId = field request [''requestId''], cl_command = c\<rparr>, db)))"

text \<open>The diagnostic of a result, when it has one.\<close>

definition result_diagnostic :: "json \<Rightarrow> (string \<times> string) option" where
  "result_diagnostic result =
     (if present_at (Some result) [''diagnostic'']
      then Some (field result [''diagnostic'', ''code''], field result [''diagnostic'', ''message'']) else None)"

definition same_result :: "command \<Rightarrow> json \<Rightarrow> bool" where
  "same_result c result \<longleftrightarrow>
     cm_state c = field result [''state''] \<and> cm_evidence c \<noteq> None \<and>
     map_option canon (cm_evidence c) = map_option canon (value_at (Some result) [''evidence'']) \<and>
     cm_diagnostic c = result_diagnostic result"

definition with_result :: "string \<Rightarrow> json \<Rightarrow> command \<Rightarrow> command" where
  "with_result receivedAt result c =
     c\<lparr>cm_state := field result [''state''], cm_evidence := value_at (Some result) [''evidence''],
       cm_diagnostic := result_diagnostic result,
       cm_completedAt := (if field result [''state''] \<noteq> ''unknown'' then Some receivedAt else cm_completedAt c)\<rparr>"

definition publish_tx :: "command_peers \<Rightarrow> int \<Rightarrow> agent_identity \<Rightarrow> json \<Rightarrow> json \<Rightarrow> string tx" where
  "publish_tx peers now identity request result db =
     rbind (check_envelope peers identity request db) (\<lambda>_.
     rbind (get_command (field result [''commandId'']) db) (\<lambda>c.
     rbind (check_owner c identity) (\<lambda>_.
       if cm_closure c \<noteq> None
       then Inl (FleetError ''command_conflict'' ''Explicitly closed outcome cannot be rewritten'')
       else rbind (clock_text now) (\<lambda>receivedAt.
         if cm_state c \<in> set [''succeeded'', ''failed'']
         then (if \<not> same_result c result
               then Inl (FleetError ''command_conflict'' ''Terminal result conflicts with durable outcome'')
               else Inr (receivedAt, db))
         else if \<not> same_result c result
         then rbind (save_audited (with_result receivedAt result c) ''command.result''
                (''agent:'' @ ai_agentId identity) (Some (field request [''requestId''])) now db) (\<lambda>(_, db).
                Inr (receivedAt, db))
         else Inr (receivedAt, db)))))"

text \<open>The acknowledgment carries the time of receipt.\<close>

definition publishResult ::
  "command_peers \<Rightarrow> int \<Rightarrow> agent_identity \<Rightarrow> json option \<Rightarrow> fleet_db \<Rightarrow> (fleet_error + string) \<times> fleet_db" where
  "publishResult peers now identity input db =
     (case parse_command_input resultRequestSchema input of
        Inl e \<Rightarrow> (Inl e, db)
      | Inr request \<Rightarrow>
          let result = getOr (value_at (Some request) [''result'']) JNull
          in if field result [''kind''] \<noteq> ''command''
             then (Inl (FleetError ''invalid_input'' ''Read results belong to the read service''), db)
             else transaction (publish_tx peers now identity request result) db)"

definition recoverCommands :: "int \<Rightarrow> fleet_db \<Rightarrow> (fleet_error + unit) \<times> fleet_db" where
  "recoverCommands now = transaction (\<lambda>db. rbind (recover now db) (\<lambda>db. Inr ((), db)))"

definition transfer_tx :: "command_peers \<Rightarrow> int \<Rightarrow> agent_identity \<Rightarrow> string \<Rightarrow> command tx" where
  "transfer_tx peers now identity i db =
     rbind (verify_agent peers identity db) (\<lambda>_.
     rbind (get_command i db) (\<lambda>c.
       case cm_owner c of
         None \<Rightarrow> Inl (FleetError ''claim_owner_conflict'' ''Transfer requires the original enrolled agent'')
       | Some (agent, session) \<Rightarrow>
           if cm_environmentId c \<noteq> ai_environmentId identity \<or> agent \<noteq> ai_agentId identity
           then Inl (FleetError ''claim_owner_conflict'' ''Transfer requires the original enrolled agent'')
           else if session = ai_sessionId identity then expire now c db
           else save_audited (c\<lparr>cm_owner := Some (ai_agentId identity, ai_sessionId identity),
                  cm_state := (if cm_state c = ''executing'' then ''unknown'' else cm_state c)\<rparr>)
                  ''command.transfer'' (''agent:'' @ ai_agentId identity) None now db))"

definition transferOwnership ::
  "command_peers \<Rightarrow> int \<Rightarrow> agent_identity \<Rightarrow> string \<Rightarrow> fleet_db \<Rightarrow> (fleet_error + command) \<times> fleet_db" where
  "transferOwnership peers now identity i = transaction (transfer_tx peers now identity i)"

definition invalidateEnvironment :: "int \<Rightarrow> string \<Rightarrow> fleet_db \<Rightarrow> fleet_error + fleet_db" where
  "invalidateEnvironment now i db =
     rbind (parse_uuid i) (\<lambda>_.
       invalidate_rows now (filter (\<lambda>r. cr_environment_id r = i \<and> cr_state r = ''accepted'') (commands db)) db)"

definition invalidateProject :: "int \<Rightarrow> string \<Rightarrow> fleet_db \<Rightarrow> fleet_error + fleet_db" where
  "invalidateProject now i db =
     rbind (parse_uuid i) (\<lambda>_.
       invalidate_rows now (filter (\<lambda>r. cr_project_id r = i \<and> cr_state r = ''accepted'') (commands db)) db)"

text \<open>\<open>column <= cutoff\<close>, false when the column is \<open>NULL\<close>.\<close>

definition column_until :: "string option \<Rightarrow> string \<Rightarrow> bool" where
  "column_until c cutoff = (case c of None \<Rightarrow> False | Some t \<Rightarrow> t \<le> cutoff)"

definition audit_prunable :: "string \<Rightarrow> command_row list \<Rightarrow> audit_row \<Rightarrow> bool" where
  "audit_prunable cutoff rows a \<longleftrightarrow>
     ad_occurred_at a \<le> cutoff \<and> \<not> (\<exists>c \<in> set rows. cr_command_id c = ad_target a \<and> outstanding c)"

definition command_prunable :: "string \<Rightarrow> audit_row list \<Rightarrow> command_row \<Rightarrow> bool" where
  "command_prunable cutoff as r \<longleftrightarrow>
     (cr_state r \<in> set [''succeeded'', ''failed''] \<and> column_until (cr_completed_at r) cutoff \<or>
      cr_state r = ''expired'' \<and> cr_expires_at r \<le> cutoff \<or>
      cr_state r = ''unknown'' \<and> cr_closed_at r \<noteq> None \<and> column_until (cr_closed_at r) cutoff) \<and>
     \<not> (\<exists>a \<in> set as. ad_target a = cr_command_id r \<and> cutoff < ad_occurred_at a)"

definition prune_tx :: "int \<Rightarrow> (nat \<times> nat) tx" where
  "prune_tx now db =
     rbind (recover now db) (\<lambda>db.
     rbind (clock_text (now - terminalCommandRetentionMs)) (\<lambda>cutoff.
       let as = filter (\<lambda>a. \<not> audit_prunable cutoff (commands db) a) (audits db);
           cs = filter (\<lambda>r. \<not> command_prunable cutoff as r) (commands db)
       in Inr ((length (commands db) - length cs, length (audits db) - length as), db\<lparr>audits := as, commands := cs\<rparr>)))"

definition prune :: "int \<Rightarrow> fleet_db \<Rightarrow> (fleet_error + nat \<times> nat) \<times> fleet_db" where
  "prune now = transaction (prune_tx now)"

end
