(* ===== verification/FleetCommandLaws.thy ===== *)
theory FleetCommandLaws
  imports FleetCommands
begin

text \<open>
  The laws of \<open>FleetCommands\<close>: what a stored row denotes, the life cycle of a command as a step
  relation, the well-formed databases every operation preserves, and the properties of the service.
\<close>

section \<open>Valid documents\<close>

lemma is_ok_rbind_ok: "(\<And>x. is_ok (f x)) \<Longrightarrow> is_ok (rbind m f) \<longleftrightarrow> is_ok m"
  by (cases m) auto

lemma rbind_fail [simp]: "rbind (schema_fail p m) f = schema_fail p m"
  by (simp add: schema_fail_def)

lemma is_ok_parse_fields:
  "is_ok (parse_fields shape kvs p) \<longleftrightarrow> (\<forall>(k, s) \<in> set shape. is_ok (s (members kvs k) (p @ ''.'' @ k)))"
proof (induction shape)
  case (Cons f shape)
  obtain k s where f: "f = (k, s)" by force
  show ?case
  proof (cases "s (members kvs k) (p @ ''.'' @ k)")
    case (Inr x)
    then have "is_ok (parse_fields (f # shape) kvs p) \<longleftrightarrow> is_ok (parse_fields shape kvs p)"
      by (simp add: f is_ok_rbind_ok)
    with Cons Inr show ?thesis by (simp add: f)
  qed (simp add: f)
qed simp

lemma is_ok_object:
  "is_ok (object_schema shape (Some (JObj kvs)) p) \<longleftrightarrow>
     fst ` set kvs \<subseteq> fst ` set shape \<and> (\<forall>(k, s) \<in> set shape. is_ok (s (members kvs k) (p @ ''.'' @ k)))"
  by (simp add: object_schema_def is_ok_rbind_ok is_ok_parse_fields)

lemma is_ok_refine:
  assumes "faithful_schema s" "order_blind P"
  shows "is_ok (refine_schema s P m v p) \<longleftrightarrow> is_ok (s v p) \<and> P v"
proof
  assume "is_ok (refine_schema s P m v p)"
  then obtain w where "s v p = Inr w" "P w" by (auto simp: refine_schema_def is_ok_rbind split: if_splits)
  moreover from this(1) have "equivalent w v" by (rule faithful_schema.same_document [OF assms(1)])
  ultimately show "is_ok (s v p) \<and> P v" using assms(2) unfolding order_blind_def by auto
next
  assume "is_ok (s v p) \<and> P v"
  then obtain w where "s v p = Inr w" "P v" by (auto simp: is_ok_iff)
  moreover from this(1) have "equivalent v w"
    using faithful_schema.same_document [OF assms(1)] equivalent_sym by blast
  ultimately show "is_ok (refine_schema s P m v p)"
    using assms(2) unfolding order_blind_def by (auto simp: refine_schema_def)
qed

lemma present_keys: "fst ` set (present items) \<subseteq> fst ` set items"
  unfolding present_def by (force split: option.splits)

lemma members_present:
  "distinct (map fst items) \<Longrightarrow> members (present items) k = (case map_of items k of None \<Rightarrow> None | Some v \<Rightarrow> v)"
proof (induction items)
  case (Cons f items)
  obtain k' v where f: "f = (k', v)" by force
  have head: "members (present ((k', v) # items)) k =
      (case members (present items) k of Some j \<Rightarrow> Some j | None \<Rightarrow> if k = k' then v else None)"
    by (cases v) (auto simp: present_def members_def map_add_def split: option.splits)
  show ?case
  proof (cases "k = k'")
    case True
    with Cons.prems have "map_of items k = None" by (simp add: f map_of_eq_None_iff)
    with Cons True head show ?thesis by (simp add: f)
  next
    case False
    with Cons head show ?thesis by (simp add: f split: option.splits)
  qed
qed (simp add: present_def members_def)

definition text_ok :: "string \<Rightarrow> bool" where
  "text_ok s \<longleftrightarrow> js_trim s \<noteq> [] \<and> CHR 0x00 \<notin> set s"

definition uuid_ok :: "string \<Rightarrow> bool" where
  "uuid_ok s \<longleftrightarrow> text_ok s \<and> uuid_text s"

definition time_ok :: "string \<Rightarrow> bool" where
  "time_ok s \<longleftrightarrow> text_ok s \<and> utc_text s"

lemma text_ok_nonempty [simp]: "\<not> text_ok []"
  by (simp add: text_ok_def js_trim_def trim_start_def)

lemma time_ok_nonempty: "time_ok s \<Longrightarrow> s \<noteq> []"
  by (auto simp: time_ok_def)

lemma is_ok_scalars [simp]:
  "is_ok (text_schema (Some (JStr s)) p) \<longleftrightarrow> text_ok s"
  "is_ok (uuidSchema (Some (JStr s)) p) \<longleftrightarrow> uuid_ok s"
  "is_ok (timestampSchema (Some (JStr s)) p) \<longleftrightarrow> time_ok s"
  "is_ok (enumeration_schema ss (Some (JStr s)) p) \<longleftrightarrow> s \<in> set ss"
  "is_ok (literal_schema j (Some j') p) \<longleftrightarrow> j = j'"
  by (auto simp: text_schema_def text_ok_def uuidSchema_def uuid_ok_def timestampSchema_def time_ok_def
      refine_schema_def string_at_def enumeration_schema_def literal_schema_def)

lemma is_ok_optional [simp]:
  "is_ok (optional_schema s None p)" "is_ok (optional_schema s (Some v) p) \<longleftrightarrow> is_ok (s (Some v) p)"
  by (simp_all add: optional_schema_def)

lemma is_ok_null [simp]:
  "\<not> is_ok (text_schema (Some JNull) p)" "\<not> is_ok (uuidSchema (Some JNull) p)"
  "\<not> is_ok (timestampSchema (Some JNull) p)"
  by (simp_all add: text_schema_def uuidSchema_def timestampSchema_def refine_schema_def schema_fail_def)

lemma is_ok_diagnostic [simp]:
  "is_ok (diagnosticSchema (Some (diagnostic_json d)) p) \<longleftrightarrow> fst d \<in> set ERROR_CODES \<and> text_ok (snd d)"
  by (simp add: diagnosticSchema_def diagnostic_json_def is_ok_object members_def)

lemma is_ok_json_value [simp]: "is_ok (jsonValueSchema (Some v) p) \<longleftrightarrow> nested_within 0 v"
  by (simp add: jsonValueSchema_def)

text \<open>The conditions of \<open>commandRecordSchema\<close> on the fields of a command.\<close>

definition date_le :: "string \<Rightarrow> string \<Rightarrow> bool" where
  "date_le s t \<longleftrightarrow> date_until (date_parse s) (date_parse t)"

definition command_ok :: "command \<Rightarrow> bool" where
  "command_ok c \<longleftrightarrow>
     uuid_ok (cm_commandId c) \<and> uuid_ok (cm_projectId c) \<and> uuid_ok (cm_environmentId c) \<and>
     text_ok (cm_localProjectId c) \<and> uuid_ok (cm_sessionId c) \<and> cm_operation c \<in> set [''start'', ''stop''] \<and>
     cm_actor c = OPERATOR_ACTOR \<and> text_ok (cm_idempotencyKey c) \<and> time_ok (cm_submittedAt c) \<and>
     time_ok (cm_expiresAt c) \<and> cm_state c \<in> set COMMAND_STATES \<and>
     (\<forall>t. cm_claimedAt c = Some t \<longrightarrow> time_ok t) \<and>
     (\<forall>a s. cm_owner c = Some (a, s) \<longrightarrow> uuid_ok a \<and> uuid_ok s) \<and>
     (\<forall>t. cm_completedAt c = Some t \<longrightarrow> time_ok t) \<and>
     (\<forall>e. cm_evidence c = Some e \<longrightarrow> nested_within 0 e) \<and>
     (\<forall>d. cm_diagnostic c = Some d \<longrightarrow> fst d \<in> set ERROR_CODES \<and> text_ok (snd d)) \<and>
     (\<forall>t a r. cm_closure c = Some (t, a, r) \<longrightarrow> time_ok t \<and> a = OPERATOR_ACTOR \<and> text_ok r)"

definition states_agree :: "command \<Rightarrow> bool" where
  "states_agree c \<longleftrightarrow>
     (let state = cm_state c;
          claimed = state \<notin> set [''accepted'', ''expired''];
          finished = state \<in> set [''succeeded'', ''failed'']
      in date_before (date_parse (cm_submittedAt c)) (date_parse (cm_expiresAt c)) \<and>
         (\<forall>t. cm_claimedAt c = Some t \<longrightarrow> date_le (cm_submittedAt c) t \<and> date_le t (cm_expiresAt c)) \<and>
         (\<forall>u. cm_completedAt c = Some u \<longrightarrow> (\<exists>t. cm_claimedAt c = Some t \<and> date_le t u)) \<and>
         (finished \<longrightarrow> cm_evidence c \<noteq> None) \<and>
         (cm_claimedAt c \<noteq> None) = claimed \<and> (cm_owner c \<noteq> None) = claimed \<and>
         (cm_completedAt c \<noteq> None) = finished \<and>
         (cm_closure c \<noteq> None \<longrightarrow> state = ''unknown''))"

lemma command_fields_distinct [simp]: "distinct (map fst (command_fields_of c))" "distinct (map fst (row_fields_of r))"
  by (simp_all add: command_fields_of_def row_fields_of_def)


lemma schema_of_fields:
  assumes "distinct (map fst items)" "fst ` set items \<subseteq> fst ` set shape"
  shows "is_ok (object_schema shape (Some (JObj (present items))) p) \<longleftrightarrow>
    (\<forall>(k, s) \<in> set shape. is_ok (s (case map_of items k of None \<Rightarrow> None | Some v \<Rightarrow> v) (p @ ''.'' @ k)))"
proof -
  have "fst ` set (present items) \<subseteq> fst ` set shape" using present_keys [of items] assms(2) by (rule order_trans)
  with assms(1) show ?thesis by (simp add: is_ok_object members_present)
qed

lemma command_shape:
  "is_ok (object_schema (command_fields @
       [(''state'', enumeration_schema COMMAND_STATES), (''claimedAt'', optional_schema timestampSchema),
        (''owner'', optional_schema (object_schema [(''agentId'', uuidSchema), (''sessionId'', uuidSchema)])),
        (''completedAt'', optional_schema timestampSchema), (''evidence'', optional_schema jsonValueSchema),
        (''diagnostic'', optional_schema diagnosticSchema),
        (''closure'', optional_schema (object_schema [(''closedAt'', timestampSchema),
           (''actor'', literal_schema (JStr OPERATOR_ACTOR)), (''reason'', text_schema)]))])
      (Some (command_json c)) p) \<longleftrightarrow> command_ok c"
proof -
  have owner: "is_ok (optional_schema (object_schema [(''agentId'', uuidSchema), (''sessionId'', uuidSchema)])
      (map_option (\<lambda>(a, s). JObj [(''agentId'', JStr a), (''sessionId'', JStr s)]) v) q) \<longleftrightarrow>
      (\<forall>a s. v = Some (a, s) \<longrightarrow> uuid_ok a \<and> uuid_ok s)" for v q
    by (cases v) (auto simp: is_ok_object members_def)
  have closure: "is_ok (optional_schema (object_schema [(''closedAt'', timestampSchema),
        (''actor'', literal_schema (JStr OPERATOR_ACTOR)), (''reason'', text_schema)])
      (map_option (\<lambda>(t, a, r). JObj [(''closedAt'', JStr t), (''actor'', JStr a), (''reason'', JStr r)]) v) q) \<longleftrightarrow>
      (\<forall>t a r. v = Some (t, a, r) \<longrightarrow> time_ok t \<and> a = OPERATOR_ACTOR \<and> text_ok r)" for v q
    by (cases v) (auto simp: is_ok_object members_def)
  have time: "is_ok (optional_schema timestampSchema (map_option JStr v) q) \<longleftrightarrow> (\<forall>t. v = Some t \<longrightarrow> time_ok t)" for v q
    by (cases v) simp_all
  have evidence: "is_ok (optional_schema jsonValueSchema v q) \<longleftrightarrow> (\<forall>e. v = Some e \<longrightarrow> nested_within 0 e)" for v q
    by (cases v) simp_all
  have diagnostic: "is_ok (optional_schema diagnosticSchema (map_option diagnostic_json v) q) \<longleftrightarrow>
      (\<forall>d. v = Some d \<longrightarrow> fst d \<in> set ERROR_CODES \<and> text_ok (snd d))" for v q
    by (cases v) simp_all
  show ?thesis
    unfolding command_json_def
    by (subst schema_of_fields)
      (simp_all add: command_fields_of_def command_fields_def owner closure time evidence diagnostic command_ok_def
        eq_commute [of OPERATOR_ACTOR])
qed

lemma command_member:
  "value_at (Some (command_json c)) [k] = (case map_of (command_fields_of c) k of None \<Rightarrow> None | Some v \<Rightarrow> v)"
  by (simp add: command_json_def members_present del: jget.simps(1))

lemma consistent_command: "command_consistent (Some (command_json c)) \<longleftrightarrow> states_agree c"
proof -
  have reads:
    "string_at (Some (command_json c)) [''state''] = Some (cm_state c)"
    "date_at (Some (command_json c)) [''submittedAt''] = date_parse (cm_submittedAt c)"
    "date_at (Some (command_json c)) [''expiresAt''] = date_parse (cm_expiresAt c)"
    "date_at (Some (command_json c)) [''claimedAt''] = (case cm_claimedAt c of None \<Rightarrow> None | Some t \<Rightarrow> date_parse t)"
    "date_at (Some (command_json c)) [''completedAt''] = (case cm_completedAt c of None \<Rightarrow> None | Some t \<Rightarrow> date_parse t)"
    "present_at (Some (command_json c)) [''claimedAt''] = (cm_claimedAt c \<noteq> None)"
    "present_at (Some (command_json c)) [''owner''] = (cm_owner c \<noteq> None)"
    "present_at (Some (command_json c)) [''completedAt''] = (cm_completedAt c \<noteq> None)"
    "present_at (Some (command_json c)) [''evidence''] = (cm_evidence c \<noteq> None)"
    "present_at (Some (command_json c)) [''closure''] = (cm_closure c \<noteq> None)"
    unfolding string_at_def date_at_def present_at_def command_member
    by (simp_all add: command_fields_of_def split: option.splits)
  show ?thesis
    unfolding command_consistent_def states_agree_def positiveLifetime_def reads Let_def
    by (cases "cm_claimedAt c"; cases "cm_completedAt c") (auto simp: date_le_def date_until_def)
qed

lemma command_document_ok:
  "is_ok (commandRecordSchema (Some (command_json c)) p) \<longleftrightarrow> command_ok c \<and> states_agree c"
  unfolding commandRecordSchema_def
  by (subst is_ok_refine) (simp_all add: schema_intros command_shape consistent_command)

lemma parse_protocol_ok: "is_ok (parse_protocol s v) \<longleftrightarrow> is_ok (s v ''$'')"
  by (simp add: parse_protocol_def split: sum.splits)

section \<open>Rows of valid commands\<close>

definition row_valid :: "command_row \<Rightarrow> bool" where
  "row_valid r \<longleftrightarrow>
     row_check r \<and> cr_closed_at r \<noteq> Some [] \<and> map_option canon (cr_evidence r) = cr_evidence r \<and>
     command_ok (command_of_row r) \<and> states_agree (command_of_row r)"

text \<open>The columns of a valid row are those of the command it denotes.\<close>

lemma row_columns:
  assumes "row_valid r"
  shows "cm_claimedAt (command_of_row r) = cr_claimed_at r"
    and "map_option fst (cm_owner (command_of_row r)) = cr_owner_agent_id r"
    and "map_option snd (cm_owner (command_of_row r)) = cr_owner_session_id r"
    and "cm_completedAt (command_of_row r) = cr_completed_at r"
    and "map_option fst (cm_closure (command_of_row r)) = cr_closed_at r"
    and "map_option (fst \<circ> snd) (cm_closure (command_of_row r)) = cr_closed_actor r"
    and "map_option (snd \<circ> snd) (cm_closure (command_of_row r)) = cr_closed_reason r"
proof -
  from assms have check: "row_check r" and agree: "states_agree (command_of_row r)" and closed: "cr_closed_at r \<noteq> Some []"
    by (simp_all add: row_valid_def)
  from check agree have claimed: "text_present (cr_claimed_at r) = (cr_claimed_at r \<noteq> None)"
    by (auto simp: row_check_def states_agree_def command_of_row_def text_present_def Let_def split: if_splits option.splits)
  from check agree have completed: "text_present (cr_completed_at r) = (cr_completed_at r \<noteq> None)"
    by (auto simp: row_check_def states_agree_def command_of_row_def text_present_def Let_def split: if_splits option.splits)
  from closed have closed: "text_present (cr_closed_at r) = (cr_closed_at r \<noteq> None)"
    by (auto simp: text_present_def split: option.splits)
  from claimed show "cm_claimedAt (command_of_row r) = cr_claimed_at r" by (simp add: command_of_row_def)
  from completed show "cm_completedAt (command_of_row r) = cr_completed_at r" by (simp add: command_of_row_def)
  have "cr_owner_agent_id r = None \<longleftrightarrow> cr_claimed_at r = None" "cr_owner_session_id r = None \<longleftrightarrow> cr_claimed_at r = None"
    using check by (auto simp: row_check_def split: if_splits)
  with claimed show "map_option fst (cm_owner (command_of_row r)) = cr_owner_agent_id r"
    "map_option snd (cm_owner (command_of_row r)) = cr_owner_session_id r"
    by (cases "cr_owner_agent_id r"; cases "cr_owner_session_id r"; simp add: command_of_row_def)+
  have "cr_closed_actor r = None \<longleftrightarrow> cr_closed_at r = None" "cr_closed_reason r = None \<longleftrightarrow> cr_closed_at r = None"
    using check by (auto simp: row_check_def split: option.splits)
  with closed show "map_option fst (cm_closure (command_of_row r)) = cr_closed_at r"
    "map_option (fst \<circ> snd) (cm_closure (command_of_row r)) = cr_closed_actor r"
    "map_option (snd \<circ> snd) (cm_closure (command_of_row r)) = cr_closed_reason r"
    by (cases "cr_closed_at r"; cases "cr_closed_actor r"; cases "cr_closed_reason r"; simp add: command_of_row_def)+
qed

lemma row_fields: "row_valid r \<Longrightarrow> row_fields_of r = command_fields_of (command_of_row r)"
  using row_columns [of r]
  by (cases "cr_closed_reason r"; cases "cr_owner_session_id r"; cases "cr_owner_agent_id r"; cases "cr_closed_actor r")
    (auto simp: row_fields_of_def command_fields_of_def command_of_row_def text_present_def nullable_text_def
      split: option.splits if_splits)

lemma record_of_valid: "row_valid r \<Longrightarrow> record_of r = Inr (command_of_row r)"
proof -
  assume r: "row_valid r"
  then have "is_ok (parse_protocol commandRecordSchema (Some (JObj (present (row_fields_of r)))))"
    by (simp add: parse_protocol_ok row_fields row_valid_def flip: command_json_def) (simp add: command_document_ok)
  then show ?thesis by (auto simp: record_of_def is_ok_iff)
qed

lemma store_self: "row_valid r \<Longrightarrow> store_command (command_of_row r) r = r"
  using row_columns [of r] unfolding store_command_def row_valid_def
  by (cases r) (simp add: command_of_row_def)

text \<open>A command and the row it is stored in agree on what never changes.\<close>

definition names_row :: "command \<Rightarrow> command_row \<Rightarrow> bool" where
  "names_row c r \<longleftrightarrow>
     cm_commandId c = cr_command_id r \<and> cm_projectId c = cr_project_id r \<and> cm_environmentId c = cr_environment_id r \<and>
     cm_localProjectId c = cr_local_project_id r \<and> cm_sessionId c = cr_session_id r \<and>
     cm_operation c = cr_operation r \<and> cm_actor c = cr_actor r \<and> cm_idempotencyKey c = cr_idempotency_key r \<and>
     cm_submittedAt c = cr_submitted_at r \<and> cm_expiresAt c = cr_expires_at r"

lemma names_row_of [simp]: "names_row (command_of_row r) r"
  by (simp add: names_row_def command_of_row_def)

lemma names_row_update [simp]:
  "names_row (c\<lparr>cm_state := s\<rparr>) r = names_row c r" "names_row (c\<lparr>cm_claimedAt := t\<rparr>) r = names_row c r"
  "names_row (c\<lparr>cm_owner := ow\<rparr>) r = names_row c r" "names_row (c\<lparr>cm_completedAt := t\<rparr>) r = names_row c r"
  "names_row (c\<lparr>cm_evidence := e\<rparr>) r = names_row c r" "names_row (c\<lparr>cm_diagnostic := d\<rparr>) r = names_row c r"
  "names_row (c\<lparr>cm_closure := cl\<rparr>) r = names_row c r"
  by (simp_all add: names_row_def)

definition stored_form :: "command \<Rightarrow> command" where
  "stored_form c = c\<lparr>cm_evidence := map_option canon (cm_evidence c)\<rparr>"

lemma stored_form_ok [simp]: "command_ok (stored_form c) = command_ok c" "states_agree (stored_form c) = states_agree c"
  by (auto simp: stored_form_def command_ok_def states_agree_def Let_def)

lemma command_of_store:
  assumes "names_row c r" "command_ok c" "states_agree c"
  shows "command_of_row (store_command c r) = stored_form c"
proof -
  have claimed: "text_present (cm_claimedAt c) = (cm_claimedAt c \<noteq> None)" and completed: "text_present (cm_completedAt c) = (cm_completedAt c \<noteq> None)"
    and closed: "text_present (map_option fst (cm_closure c)) = (cm_closure c \<noteq> None)"
    using assms(2) by (cases "cm_claimedAt c"; cases "cm_completedAt c"; cases "cm_closure c";
      auto simp: command_ok_def text_present_def time_ok_def)+
  have "cm_owner c \<noteq> None \<longleftrightarrow> cm_claimedAt c \<noteq> None" using assms(3) by (simp add: states_agree_def Let_def)
  then have "cm_owner (command_of_row (store_command c r)) = cm_owner c"
    using claimed by (cases "cm_owner c"; cases "cm_claimedAt c") (simp_all add: command_of_row_def store_command_def)
  moreover have "cm_closure (command_of_row (store_command c r)) = cm_closure c"
    using closed by (cases "cm_closure c") (simp_all add: command_of_row_def store_command_def)
  ultimately show ?thesis
    using assms(1)
    by (intro command.equality)
      (simp_all add: command_of_row_def store_command_def stored_form_def names_row_def claimed completed)
qed

lemma by_name_idem [simp]: "by_name (by_name kvs) = by_name kvs"
  by (rule by_name_cong) simp

lemma canon_idem [simp]: "canon (canon v) = canon v"
proof (induction v rule: canon.induct)
  case (6 kvs)
  then have "map (\<lambda>(k, v). (k, canon v)) (map (\<lambda>(k, v). (k, canon v)) kvs) = map (\<lambda>(k, v). (k, canon v)) kvs"
    by (auto intro!: map_cong [OF refl])
  then have "map (\<lambda>(k, v). (k, canon v)) (by_name (map (\<lambda>(k, v). (k, canon v)) kvs)) = by_name (map (\<lambda>(k, v). (k, canon v)) kvs)"
    using by_name_map [of canon "map (\<lambda>(k, v). (k, canon v)) kvs"] by (simp only:)
  then show ?case by simp
qed simp_all

lemma blank_text: "list_all (\<lambda>c. c = CHR '' '') s \<Longrightarrow> \<not> text_ok s"
proof -
  assume "list_all (\<lambda>c. c = CHR '' '') s"
  then have "trim_start s = []" by (auto simp: trim_start_def is_ws_def list_all_iff)
  then show ?thesis by (simp add: text_ok_def js_trim_def) (simp add: trim_start_def)
qed

lemma row_check_store:
  assumes "row_check r" "names_row c r" "command_ok c" "states_agree c"
  shows "row_check (store_command c r)"
proof -
  let ?r = "store_command c r"
  have "cr_operation ?r \<in> set [''start'', ''stop'']" "cr_actor ?r = ''local-owner''" "cr_state ?r \<in> set COMMAND_STATES"
    using assms(1,3) by (simp_all add: row_check_def store_command_def command_ok_def)
  moreover have "if cr_state ?r \<in> set [''accepted'', ''expired'']
      then cr_claimed_at ?r = None \<and> cr_owner_agent_id ?r = None \<and> cr_owner_session_id ?r = None
      else cr_claimed_at ?r \<noteq> None \<and> cr_owner_agent_id ?r \<noteq> None \<and> cr_owner_session_id ?r \<noteq> None"
    "(cr_state ?r \<in> set [''succeeded'', ''failed'']) = (cr_completed_at ?r \<noteq> None)"
    using assms(4) by (auto simp: states_agree_def store_command_def Let_def)
  moreover have "cr_closed_at ?r = None \<and> cr_closed_actor ?r = None \<and> cr_closed_reason ?r = None \<or>
       cr_state ?r = ''unknown'' \<and> cr_closed_at ?r \<noteq> None \<and> cr_closed_actor ?r = Some ''local-owner'' \<and>
       (case cr_closed_reason ?r of None \<Rightarrow> False | Some t \<Rightarrow> \<not> list_all (\<lambda>c. c = CHR '' '') t)"
  proof (cases "cm_closure c")
    case (Some cl)
    obtain t a k where cl: "cl = (t, a, k)" by (cases cl)
    with assms(3) Some have "a = OPERATOR_ACTOR" "text_ok k" by (simp_all add: command_ok_def)
    moreover have "cm_state c = ''unknown''" using assms(4) Some by (simp add: states_agree_def Let_def)
    ultimately show ?thesis using Some cl blank_text [of k] by (simp add: store_command_def OPERATOR_ACTOR_def) blast
  qed (simp add: store_command_def)
  ultimately show ?thesis unfolding row_check_def by blast
qed

lemma row_valid_store:
  assumes "row_valid r" "names_row c r" "command_ok c" "states_agree c"
  shows "row_valid (store_command c r)"
proof -
  have "map_option fst (cm_closure c) \<noteq> Some []"
    using assms(3) by (cases "cm_closure c") (auto simp: command_ok_def time_ok_def)
  with assms row_check_store [OF _ assms(2-4)] command_of_store [OF assms(2-4)] show ?thesis
    unfolding row_valid_def by (auto simp: store_command_def option.map_comp comp_def)
qed

section \<open>The life cycle of a command\<close>

inductive row_step :: "command_row \<Rightarrow> command_row \<Rightarrow> bool" where
  expired: "cr_state r = ''accepted'' \<Longrightarrow> row_step r (r\<lparr>cr_state := ''expired''\<rparr>)"
| claimed: "cr_state r = ''accepted'' \<Longrightarrow>
    row_step r (r\<lparr>cr_state := ''executing'', cr_claimed_at := Some t, cr_owner_agent_id := Some a,
      cr_owner_session_id := Some (cr_session_id r)\<rparr>)"
| timed_out: "cr_state r = ''executing'' \<Longrightarrow> row_step r (r\<lparr>cr_state := ''unknown'', cr_diagnostic := Some d\<rparr>)"
| resulted: "cr_state r \<in> {''executing'', ''unknown''} \<Longrightarrow> cr_closed_at r = None \<Longrightarrow>
    s \<in> {''succeeded'', ''failed'', ''unknown''} \<Longrightarrow>
    row_step r (r\<lparr>cr_state := s, cr_evidence := Some e, cr_diagnostic := d',
      cr_completed_at := (if s = ''unknown'' then None else Some t)\<rparr>)"
| transferred: "cr_owner_agent_id r = Some a \<Longrightarrow>
    row_step r (r\<lparr>cr_owner_session_id := Some s,
      cr_state := (if cr_state r = ''executing'' then ''unknown'' else cr_state r)\<rparr>)"
| closed: "cr_state r = ''unknown'' \<Longrightarrow> cr_closed_at r = None \<Longrightarrow>
    row_step r (r\<lparr>cr_closed_at := Some t, cr_closed_actor := Some ''local-owner'', cr_closed_reason := Some x\<rparr>)"

inductive_cases row_stepE: "row_step r r'"

text \<open>What a command is asked to do, by whom and for whom.\<close>

definition row_order :: "command_row \<Rightarrow> _" where
  "row_order r = (cr_rowid r, cr_command_id r, cr_project_id r, cr_environment_id r, cr_local_project_id r,
     cr_session_id r, cr_operation r, cr_actor r, cr_idempotency_key r, cr_submitted_at r, cr_expires_at r)"

text \<open>How a finished command ended.\<close>

definition row_outcome :: "command_row \<Rightarrow> _" where
  "row_outcome r = (cr_state r, cr_evidence r, cr_diagnostic r, cr_completed_at r)"

lemma row_step_order: "row_step r r' \<Longrightarrow> row_order r' = row_order r"
  by (erule row_stepE) (simp_all add: row_order_def)

lemma row_steps_order: "row_step\<^sup>*\<^sup>* r r' \<Longrightarrow> row_order r' = row_order r"
  by (induction rule: rtranclp_induct) (simp_all add: row_step_order)

lemma row_step_outstanding: "row_step r r' \<Longrightarrow> outstanding r' \<Longrightarrow> outstanding r"
  by (erule row_stepE) (simp_all add: outstanding_def split: if_splits)

lemma row_steps_outstanding: "row_step\<^sup>*\<^sup>* r r' \<Longrightarrow> outstanding r' \<Longrightarrow> outstanding r"
  by (induction rule: rtranclp_induct) (auto dest: row_step_outstanding)

lemma row_step_final:
  "row_step r r' \<Longrightarrow> cr_state r \<in> {''succeeded'', ''failed'', ''expired''} \<Longrightarrow> row_outcome r' = row_outcome r"
  by (erule row_stepE; (simp add: row_outcome_def; elim disjE; simp)?)

lemma row_steps_final:
  "row_step\<^sup>*\<^sup>* r r' \<Longrightarrow> cr_state r \<in> {''succeeded'', ''failed'', ''expired''} \<Longrightarrow> row_outcome r' = row_outcome r"
proof (induction rule: rtranclp_induct)
  case (step r' r'')
  then have "cr_state r' = cr_state r" by (simp add: row_outcome_def)
  with step row_step_final [of r' r''] show ?case by simp
qed simp

section \<open>Well-formed databases\<close>

definition active_in :: "string \<Rightarrow> command_row list \<Rightarrow> command_row list" where
  "active_in i rows = filter (\<lambda>r. cr_environment_id r = i \<and> outstanding r) rows"

definition well_formed :: "fleet_db \<Rightarrow> bool" where
  "well_formed db \<longleftrightarrow>
     list_all row_valid (commands db) \<and> commands_ok (commands db) \<and>
     (\<forall>i. int (length (active_in i (commands db))) \<le> activeCommandsPerAgent) \<and>
     sorted_wrt (<) (map cr_rowid (commands db))"

text \<open>Rows that move along their life cycle, every change of state with its audit record.\<close>

definition moved :: "audit_row list \<Rightarrow> command_row \<Rightarrow> command_row \<Rightarrow> bool" where
  "moved as r r' \<longleftrightarrow> row_step\<^sup>*\<^sup>* r r' \<and>
     (cr_state r' \<noteq> cr_state r \<longrightarrow> (\<exists>a \<in> set as. ad_target a = cr_command_id r \<and> ad_outcome a = cr_state r'))"

definition db_step :: "fleet_db \<Rightarrow> fleet_db \<Rightarrow> bool" where
  "db_step db db' \<longleftrightarrow>
     (\<exists>rows as. db' = db\<lparr>commands := rows, audits := audits db @ as\<rparr> \<and> list_all2 (moved as) (commands db) rows) \<and>
     (well_formed db \<longrightarrow> well_formed db')"

lemma moved_refl [simp]: "moved as r r"
  by (simp add: moved_def)

lemma moved_trans: "moved as r r' \<Longrightarrow> moved bs r' r'' \<Longrightarrow> moved (as @ bs) r r''"
  using row_steps_order [of r r'] by (auto simp: moved_def row_order_def)

lemma moved_more: "moved as r r' \<Longrightarrow> moved (as @ bs) r r'"
  by (auto simp: moved_def)

lemma db_step_refl [simp]: "db_step db db"
  unfolding db_step_def by (intro conjI exI [of _ "commands db"] exI [of _ "[]"]) (simp_all add: list_all2_refl)

lemma db_step_trans: "db_step db db' \<Longrightarrow> db_step db' db'' \<Longrightarrow> db_step db db''"
proof -
  assume "db_step db db'" "db_step db' db''"
  then obtain rows as rows' bs where
    one: "db' = db\<lparr>commands := rows, audits := audits db @ as\<rparr>" "list_all2 (moved as) (commands db) rows" and
    two: "db'' = db'\<lparr>commands := rows', audits := audits db' @ bs\<rparr>" "list_all2 (moved bs) rows rows'" and
    wf: "well_formed db \<longrightarrow> well_formed db''"
    unfolding db_step_def by auto
  from one(2) two(2) have "list_all2 (moved (as @ bs)) (commands db) rows'"
    by (rule list_all2_trans [rotated]) (rule moved_trans)
  with one(1) two(1) wf show "db_step db db''"
    unfolding db_step_def by (intro conjI exI [of _ rows'] exI [of _ "as @ bs"]) simp_all
qed

text \<open>Rows that only moved keep the constraints of the table.\<close>

lemma moved_rows:
  assumes "list_all2 row_step\<^sup>*\<^sup>* rows rows'"
  shows "map row_order rows' = map row_order rows"
    and "map cr_command_id rows' = map cr_command_id rows"
    and "map (\<lambda>r. (cr_actor r, cr_idempotency_key r)) rows' = map (\<lambda>r. (cr_actor r, cr_idempotency_key r)) rows"
    and "map cr_rowid rows' = map cr_rowid rows"
    and "length (active_in i rows') \<le> length (active_in i rows)"
    and "set (map cr_project_id (filter outstanding rows')) \<subseteq> set (map cr_project_id (filter outstanding rows))"
    and "distinct (map cr_project_id (filter outstanding rows)) \<Longrightarrow> distinct (map cr_project_id (filter outstanding rows'))"
  using assms
proof (induction rule: list_all2_induct)
  case (Cons r rows r' rows')
  note o = row_steps_order [OF Cons.hyps(1), unfolded row_order_def] and a = row_steps_outstanding [OF Cons.hyps(1)]
  {
    case 1 show ?case using Cons.IH row_steps_order [OF Cons.hyps(1)] by simp
  next
    case 2 show ?case using Cons.IH o by simp
  next
    case 3 show ?case using Cons.IH o by simp
  next
    case 4 show ?case using Cons.IH o by simp
  next
    case 5 show ?case using Cons.IH(5) o a by (auto simp: active_in_def)
  next
    case 6 show ?case using Cons.IH(6) o a by auto
  next
    case 7 then show ?case using Cons.IH(6,7) o a by (cases "outstanding r"; cases "outstanding r'") auto
  }
qed (simp_all add: active_in_def)

lemma row_valid_in: "well_formed db \<Longrightarrow> r \<in> set (commands db) \<Longrightarrow> row_valid r"
  by (simp add: well_formed_def list_all_iff)

lemma distinct_ids: "well_formed db \<Longrightarrow> distinct (map cr_command_id (commands db))"
  by (simp add: well_formed_def commands_ok_def)

lemma same_id: "well_formed db \<Longrightarrow> r \<in> set (commands db) \<Longrightarrow> x \<in> set (commands db) \<Longrightarrow>
    cr_command_id x = cr_command_id r \<Longrightarrow> x = r"
  using distinct_ids [of db] by (auto simp: distinct_map inj_on_def)

lemma moved_database:
  assumes wf: "well_formed db" and moved: "list_all2 row_step\<^sup>*\<^sup>* (commands db) rows" and valid: "list_all row_valid rows"
  shows "commands_ok rows" "well_formed (db\<lparr>commands := rows, audits := as\<rparr>)"
proof -
  note m = moved_rows [OF moved]
  from wf have c: "commands_ok (commands db)" by (simp add: well_formed_def)
  from valid have "list_all row_check rows" by (simp add: list_all_iff row_valid_def)
  with c m(2,3,7) show ok: "commands_ok rows" by (simp add: commands_ok_def)
  have "int (length (active_in i rows)) \<le> activeCommandsPerAgent" for i
    using wf m(5) [of i] unfolding well_formed_def by (meson of_nat_le_iff order_trans)
  with ok valid wf m(4) show "well_formed (db\<lparr>commands := rows, audits := as\<rparr>)" by (simp add: well_formed_def)
qed

lemma stored_rows:
  assumes "well_formed db" "r \<in> set (commands db)" "names_row c r"
  shows "update_where (\<lambda>x. cr_command_id x = cm_commandId c) (store_command c) (commands db) =
    map (\<lambda>x. if x = r then store_command c r else x) (commands db)"
  using same_id [OF assms(1,2)] assms(3) unfolding update_where_def names_row_def by (auto intro!: map_cong)

lemma save_cases:
  assumes wf: "well_formed db" and r: "r \<in> set (commands db)" "names_row c r" and step: "row_step\<^sup>*\<^sup>* r (store_command c r)"
  obtains (stored) "command_ok c" "states_agree c"
      "save c db = Inr (db\<lparr>commands := map (\<lambda>x. if x = r then store_command c r else x) (commands db)\<rparr>)"
  | (refused) m where "\<not> (command_ok c \<and> states_agree c)" "save c db = Inl (ProtocolError m)"
proof (cases "command_ok c \<and> states_agree c")
  case True
  let ?rows = "map (\<lambda>x. if x = r then store_command c r else x) (commands db)"
  have "list_all2 row_step\<^sup>*\<^sup>* (commands db) ?rows" using step by (simp add: list_all2_map2 list_all2_same)
  moreover have "list_all row_valid ?rows"
    using True r row_valid_in [OF wf] row_valid_store by (auto simp: list_all_iff)
  ultimately have "commands_ok ?rows" by (rule moved_database [OF wf])
  moreover have "is_ok (parse_protocol commandRecordSchema (Some (command_json c)))"
    using True by (simp add: parse_protocol_ok command_document_ok)
  ultimately show thesis
    using True stored by (auto simp: save_def write_commands_def stored_rows [OF wf r] is_ok_iff)
next
  case False
  then have "\<not> is_ok (commandRecordSchema (Some (command_json c)) ''$'')" by (simp add: command_document_ok)
  then obtain m where "commandRecordSchema (Some (command_json c)) ''$'' = Inl m"
    by (cases "commandRecordSchema (Some (command_json c)) ''$''") simp_all
  then show thesis using False refused by (simp add: save_def parse_protocol_def)
qed

text \<open>
  An operation on the row \<open>r\<close>: the database moves, and the command it returns is the one stored in the
  row that \<open>r\<close> became; every other row stays.
\<close>

definition row_tx :: "command_row \<Rightarrow> fleet_db \<Rightarrow> command \<Rightarrow> fleet_db \<Rightarrow> bool" where
  "row_tx r db c db' \<longleftrightarrow>
     db_step db db' \<and> (\<exists>r' \<in> set (commands db'). row_step\<^sup>*\<^sup>* r r' \<and> stored_form c = command_of_row r') \<and>
     (\<forall>x \<in> set (commands db). x \<noteq> r \<longrightarrow> x \<in> set (commands db'))"

lemma row_tx_refl: "well_formed db \<Longrightarrow> r \<in> set (commands db) \<Longrightarrow> row_tx r db (command_of_row r) db"
  using row_valid_in [of db r] unfolding row_tx_def
  by (auto intro!: bexI [of _ r] simp: stored_form_def row_valid_def command_of_row_def)

lemma save_audited_tx:
  assumes wf: "well_formed db" and r: "r \<in> set (commands db)" "names_row c r" and step: "row_step r (store_command c r)"
    and saved: "save_audited c operation actor request now db = Inr (c', db')"
  shows "c' = c" "row_tx r db c db'" "well_formed db'"
    "commands db' = map (\<lambda>x. if x = r then store_command c r else x) (commands db)" "command_ok c" "states_agree c"
proof -
  let ?rows = "map (\<lambda>x. if x = r then store_command c r else x) (commands db)"
  obtain db1 where db1: "save c db = Inr db1" and audited: "audit c operation actor request now db1 = Inr db'" and c': "c' = c"
    using saved by (auto simp: save_audited_def rbind_Inr_iff)
  show "c' = c" by (fact c')
  from save_cases [OF wf r r_into_rtranclp [of row_step, OF step]] db1 have
    ok: "command_ok c" "states_agree c" and db1: "db1 = db\<lparr>commands := ?rows\<rparr>" by (cases; auto)+
  obtain a where a: "db' = db1\<lparr>audits := audits db1 @ [a]\<rparr>" "ad_target a = cm_commandId c" "ad_outcome a = cm_state c"
    using audited by (auto simp: audit_def rbind_Inr_iff)
  have db': "db' = db\<lparr>commands := ?rows, audits := audits db @ [a]\<rparr>" by (simp add: a db1)
  have steps: "list_all2 row_step\<^sup>*\<^sup>* (commands db) ?rows"
    using r_into_rtranclp [of row_step, OF step] by (simp add: list_all2_map2 list_all2_same)
  have valid: "list_all row_valid ?rows"
    using ok r row_valid_in [OF wf] row_valid_store by (auto simp: list_all_iff)
  note kept = moved_database [OF wf steps valid]
  have "list_all2 (moved [a]) (commands db) ?rows"
    using step r(2) a by (auto simp: list_all2_map2 list_all2_same moved_def names_row_def store_command_def)
  with kept db' have "db_step db db'" unfolding db_step_def by auto
  moreover have "stored_form c = command_of_row (store_command c r)" using command_of_store [OF r(2) ok] by simp
  moreover have "store_command c r \<in> set (commands db')" using r(1) by (auto simp: db' image_iff)
  ultimately show "row_tx r db c db'" using step unfolding row_tx_def by (auto simp: db')
  show "well_formed db'" "commands db' = ?rows" "command_ok c" "states_agree c"
    using kept db' ok by simp_all
qed

lemma store_columns:
  "store_command (c\<lparr>cm_state := s\<rparr>) r = (store_command c r)\<lparr>cr_state := s\<rparr>"
  "store_command (c\<lparr>cm_diagnostic := d\<rparr>) r = (store_command c r)\<lparr>cr_diagnostic := d\<rparr>"
  "store_command (c\<lparr>cm_claimedAt := t\<rparr>) r = (store_command c r)\<lparr>cr_claimed_at := t\<rparr>"
  "store_command (c\<lparr>cm_completedAt := t\<rparr>) r = (store_command c r)\<lparr>cr_completed_at := t\<rparr>"
  "store_command (c\<lparr>cm_evidence := e\<rparr>) r = (store_command c r)\<lparr>cr_evidence := map_option canon e\<rparr>"
  "store_command (c\<lparr>cm_owner := ow\<rparr>) r =
     (store_command c r)\<lparr>cr_owner_agent_id := map_option fst ow, cr_owner_session_id := map_option snd ow\<rparr>"
  "store_command (c\<lparr>cm_closure := cl\<rparr>) r =
     (store_command c r)\<lparr>cr_closed_at := map_option fst cl, cr_closed_actor := map_option (fst \<circ> snd) cl,
        cr_closed_reason := map_option (snd \<circ> snd) cl\<rparr>"
  by (simp_all add: store_command_def)

lemma command_of_row_state [simp]:
  "cm_state (command_of_row r) = cr_state r" "cm_commandId (command_of_row r) = cr_command_id r"
  "cm_expiresAt (command_of_row r) = cr_expires_at r" "cm_projectId (command_of_row r) = cr_project_id r"
  "cm_environmentId (command_of_row r) = cr_environment_id r" "cm_sessionId (command_of_row r) = cr_session_id r"
  "cm_localProjectId (command_of_row r) = cr_local_project_id r" "cm_operation (command_of_row r) = cr_operation r"
  by (simp_all add: command_of_row_def)

lemma stored_form_row [simp]: "row_valid r \<Longrightarrow> stored_form (command_of_row r) = command_of_row r"
  by (simp add: stored_form_def row_valid_def) (simp add: command_of_row_def)

lemma stored_form_updates [simp]:
  "stored_form (c\<lparr>cm_state := s\<rparr>) = (stored_form c)\<lparr>cm_state := s\<rparr>"
  "stored_form (c\<lparr>cm_diagnostic := d\<rparr>) = (stored_form c)\<lparr>cm_diagnostic := d\<rparr>"
  "stored_form (c\<lparr>cm_claimedAt := t\<rparr>) = (stored_form c)\<lparr>cm_claimedAt := t\<rparr>"
  "stored_form (c\<lparr>cm_owner := ow\<rparr>) = (stored_form c)\<lparr>cm_owner := ow\<rparr>"
  "stored_form (c\<lparr>cm_closure := cl\<rparr>) = (stored_form c)\<lparr>cm_closure := cl\<rparr>"
  by (simp_all add: stored_form_def)

lemma expire_tx:
  assumes wf: "well_formed db" and r: "r \<in> set (commands db)" and ok: "expire now (command_of_row r) db = Inr (c, db')"
  shows "row_tx r db c db' \<and> well_formed db' \<and> stored_form c = c"
proof -
  note valid = row_valid_in [OF wf r] and self = store_self [OF row_valid_in [OF wf r]]
  let ?c = "command_of_row r"
  let ?e = "?c\<lparr>cm_state := ''expired''\<rparr>"
  let ?u = "?c\<lparr>cm_state := ''unknown'',
    cm_diagnostic := Some (''unresolved_command'', ''Execution result not observed before timeout'')\<rparr>"
  consider (e) "cr_state r = ''accepted''" "save_audited ?e ''command.expire'' ''control-plane'' None now db = Inr (c, db')"
    | (u) "cr_state r = ''executing''" "save_audited ?u ''command.unknown'' ''control-plane'' None now db = Inr (c, db')"
    | (n) "c = ?c" "db' = db"
    using ok by (auto simp: expire_def split: if_splits)
  then show ?thesis
  proof cases
    case e
    then have "row_step r (store_command ?e r)" by (simp add: store_columns self row_step.expired)
    from save_audited_tx [OF wf r _ this e(2)] valid show ?thesis by simp
  next
    case u
    then have "row_step r (store_command ?u r)" using row_step.timed_out [of r] by (simp add: store_columns self)
    from save_audited_tx [OF wf r _ this u(2)] valid show ?thesis by simp
  qed (use row_tx_refl wf r valid in simp)
qed

lemma row_tx_step: "row_tx r db c db' \<Longrightarrow> db_step db db'"
  by (simp add: row_tx_def)

lemma expire_rows_step:
  "well_formed db \<Longrightarrow> set rs \<subseteq> set (commands db) \<Longrightarrow> distinct rs \<Longrightarrow> expire_rows now rs db = Inr db' \<Longrightarrow>
   db_step db db' \<and> well_formed db'"
proof (induction rs arbitrary: db)
  case (Cons r rs)
  then have r: "r \<in> set (commands db)" by simp
  from Cons.prems(1,4) obtain c db1 where
    first: "expire now (command_of_row r) db = Inr (c, db1)" and rest: "expire_rows now rs db1 = Inr db'"
    by (auto simp: rbind_Inr_iff record_of_valid [OF row_valid_in [OF Cons.prems(1) r]])
  note tx = expire_tx [OF Cons.prems(1) r first]
  then have "set rs \<subseteq> set (commands db1)" using Cons.prems(2,3) by (auto simp: row_tx_def)
  with Cons tx rest show ?case using db_step_trans row_tx_step by (metis distinct.simps(2))
qed simp

lemma distinct_rows: "well_formed db \<Longrightarrow> distinct (commands db)"
  using distinct_ids by (simp add: distinct_map)

lemma recover_step: "well_formed db \<Longrightarrow> recover now db = Inr db' \<Longrightarrow> db_step db db' \<and> well_formed db'"
  unfolding recover_def by (rule expire_rows_step) (auto simp: distinct_rows)

lemma get_command_Inr:
  assumes "well_formed db" "get_command i db = Inr c"
  obtains r where "r \<in> set (commands db)" "cr_command_id r = i" "c = command_of_row r"
proof -
  from assms(2) obtain r where r: "find (\<lambda>r. cr_command_id r = i) (commands db) = Some r" and c: "record_of r = Inr c"
    by (auto simp: get_command_def rbind_Inr_iff split: option.splits)
  from find_Some_mem [OF r] have "r \<in> set (commands db)" "cr_command_id r = i" by simp_all
  with that c record_of_valid [OF row_valid_in [OF assms(1)]] show thesis by auto
qed

section \<open>Every operation keeps the database well formed\<close>

text \<open>What a committed operation did to the commands: they moved, and at most one was added.\<close>

definition fresh_row :: "command_row \<Rightarrow> bool" where
  "fresh_row r \<longleftrightarrow> cr_state r = ''accepted'' \<and> cr_claimed_at r = None \<and> cr_evidence r = None \<and> cr_closed_at r = None"

definition commands_step :: "command_row list \<Rightarrow> command_row list \<Rightarrow> bool" where
  "commands_step rows rows' \<longleftrightarrow>
     (\<exists>mid. list_all2 row_step\<^sup>*\<^sup>* rows mid \<and> (rows' = mid \<or> (\<exists>r. fresh_row r \<and> rows' = mid @ [r])))"

lemma db_step_commands: "db_step db db' \<Longrightarrow> commands_step (commands db) (commands db')"
  unfolding db_step_def commands_step_def moved_def by (auto elim: list_all2_mono)

text \<open>Reading a command and expiring it, the way every operation on one command begins.\<close>

lemma read_command_cases:
  assumes wf: "well_formed db" and got: "get_command i db = Inr c0" and e: "expire now c0 db = Inr (c, db1)"
  obtains r where "db_step db db1" "well_formed db1" "r \<in> set (commands db1)" "cr_command_id r = i" "c = command_of_row r"
    "row_valid r" "store_command c r = r"
proof -
  from get_command_Inr [OF wf got] obtain r0 where r0: "r0 \<in> set (commands db)" "cr_command_id r0 = i" "c0 = command_of_row r0" .
  note tx = expire_tx [OF wf r0(1) e [unfolded r0(3)]]
  then obtain r where r: "r \<in> set (commands db1)" "c = command_of_row r" "row_step\<^sup>*\<^sup>* r0 r" by (auto simp: row_tx_def)
  have "row_valid r" using row_valid_in tx r(1) by blast
  moreover have "cr_command_id r = i" using row_steps_order [OF r(3)] r0(2) by (simp add: row_order_def)
  ultimately show thesis using that [of r] row_tx_step [OF conjunct1 [OF tx]] tx r store_self [of r] by simp
qed

lemma read_tx_step: "well_formed db \<Longrightarrow> read_tx now i db = Inr (c, db') \<Longrightarrow> db_step db db' \<and> well_formed db'"
  unfolding read_tx_def by (auto simp: rbind_Inr_iff elim: read_command_cases)

lemma saved_step:
  assumes "db_step db db1" "well_formed db1" "r \<in> set (commands db1)" "names_row c r" "row_step r (store_command c r)"
    "save_audited c operation actor request now db1 = Inr (c', db')"
  shows "db_step db db' \<and> well_formed db'"
proof -
  note saved = save_audited_tx [OF assms(2-6)]
  from db_step_trans [OF assms(1) row_tx_step [OF saved(2)]] saved(3) show ?thesis ..
qed

lemma close_tx_step:
  assumes wf: "well_formed db" and ok: "close_tx now i reason db = Inr (c', db')"
  shows "db_step db db' \<and> well_formed db'"
proof -
  from ok obtain c0 c db1 where got: "get_command i db = Inr c0" and e: "expire now c0 db = Inr (c, db1)"
    by (auto simp: close_tx_def rbind_Inr_iff)
  from read_command_cases [OF wf got e] obtain r where
    r: "db_step db db1" "well_formed db1" "r \<in> set (commands db1)" "c = command_of_row r" "row_valid r" "store_command c r = r" .
  have unknown: "cm_state c = ''unknown''" using ok by (cases "cm_state c = ''unknown''") (simp_all add: close_tx_def got e)
  consider (same) "db' = db1"
    | (new) t where "cm_closure c = None"
      "save_audited (c\<lparr>cm_closure := Some (t, OPERATOR_ACTOR, reason)\<rparr>) ''command.close-unresolved'' OPERATOR_ACTOR None now db1 = Inr (c', db')"
  proof (cases "cm_closure c")
    case (Some cl)
    with ok unknown same show ?thesis by (cases cl) (simp add: close_tx_def got e split: if_splits)
  next
    case None
    with ok unknown new show ?thesis by (auto simp: close_tx_def got e rbind_Inr_iff)
  qed
  then show ?thesis
  proof cases
    case new
    have "cr_closed_at r = None" using new(1) row_columns(5) [OF r(5)] by (simp add: r(4))
    with unknown r(4,6) have "row_step r (store_command (c\<lparr>cm_closure := Some (t, OPERATOR_ACTOR, reason)\<rparr>) r)"
      using row_step.closed [of r reason t] by (simp add: store_columns OPERATOR_ACTOR_def)
    from saved_step [OF r(1-3) _ this new(2)] r(4) show ?thesis by simp
  qed (use r in simp)
qed

lemma transfer_tx_step:
  assumes wf: "well_formed db" and ok: "transfer_tx peers now identity i db = Inr (c', db')"
  shows "db_step db db' \<and> well_formed db'"
proof -
  from ok obtain c where got: "get_command i db = Inr c" by (auto simp: transfer_tx_def rbind_Inr_iff)
  from get_command_Inr [OF wf got] obtain r where r: "r \<in> set (commands db)" "cr_command_id r = i" "c = command_of_row r" .
  note valid = row_valid_in [OF wf r(1)]
  let ?c = "c\<lparr>cm_owner := Some (ai_agentId identity, ai_sessionId identity),
    cm_state := (if cm_state c = ''executing'' then ''unknown'' else cm_state c)\<rparr>"
  from ok got consider (same) "expire now c db = Inr (c', db')"
    | (new) s where "cm_owner c = Some (ai_agentId identity, s)"
       "save_audited ?c ''command.transfer'' (''agent:'' @ ai_agentId identity) None now db = Inr (c', db')"
    by (auto simp: transfer_tx_def rbind_Inr_iff split: if_splits option.splits)
  then show ?thesis
  proof cases
    case same
    from read_command_cases [OF wf got same] show ?thesis by blast
  next
    case new
    have a: "cr_owner_agent_id r = Some (ai_agentId identity)" using new(1) row_columns(2) [OF valid] by (simp add: r(3))
    then have "(store_command ?c r) = r\<lparr>cr_owner_session_id := Some (ai_sessionId identity),
        cr_state := (if cr_state r = ''executing'' then ''unknown'' else cr_state r)\<rparr>"
      using store_self [OF valid] by (simp add: store_columns r(3))
    then have "row_step r (store_command ?c r)" using row_step.transferred [OF a] by simp
    from saved_step [OF db_step_refl wf r(1) _ this new(2)] r(3) show ?thesis by simp
  qed
qed

lemma claim_tx_cases:
  assumes ok: "claim_tx peers now identity request db = Inr (c', db')"
  obtains (again) c0 where "check_envelope peers identity request db = Inr ()"
      "get_command (field request [''commandId'']) db = Inr c0" "cm_environmentId c0 = ai_environmentId identity"
      "check_owner c0 identity = Inr ()" "expire now c0 db = Inr (c', db')"
  | (first) c0 c db1 where "check_envelope peers identity request db = Inr ()"
      "get_command (field request [''commandId'']) db = Inr c0" "cm_environmentId c0 = ai_environmentId identity"
      "cm_owner c0 = None" "cm_sessionId c0 = ai_sessionId identity" "expire now c0 db = Inr (c, db1)"
      "grant_claim peers now identity request c db1 = Inr (c', db')"
proof -
  from ok obtain c0 where got: "check_envelope peers identity request db = Inr ()"
    "get_command (field request [''commandId'']) db = Inr c0"
    by (auto simp: claim_tx_def rbind_Inr_iff)
  have env: "cm_environmentId c0 = ai_environmentId identity"
    using ok by (cases "cm_environmentId c0 = ai_environmentId identity") (simp_all add: claim_tx_def got)
  show thesis
  proof (cases "cm_owner c0 = None")
    case True
    have session: "cm_sessionId c0 = ai_sessionId identity"
      using ok by (cases "cm_sessionId c0 = ai_sessionId identity") (simp_all add: claim_tx_def got env True)
    from ok show thesis using first [OF got env True session] by (auto simp: claim_tx_def got env True session rbind_Inr_iff)
  next
    case False
    with ok show thesis using again [OF got env] by (auto simp: claim_tx_def got env rbind_Inr_iff)
  qed
qed

text \<open>A command without owner is waiting or expired.\<close>

lemma unowned_state:
  assumes "row_valid r" "cm_owner (command_of_row r) = None"
  shows "cr_state r = ''accepted'' \<or> cr_state r = ''expired''"
  using assms row_columns(2) [OF assms(1)] by (auto simp: row_valid_def row_check_def split: if_splits)

lemma expire_unowned:
  assumes "row_valid r" "cm_owner (command_of_row r) = None" "expire now (command_of_row r) db = Inr (c, db1)" "cm_state c \<noteq> ''expired''"
  shows "c = command_of_row r \<and> db1 = db \<and> cr_state r = ''accepted'' \<and> \<not> elapsed (Some (cr_expires_at r)) 0 now"
proof -
  have "save_audited (command_of_row r\<lparr>cm_state := ''expired''\<rparr>) opn actor q now db = Inr (c, db1) \<Longrightarrow> cm_state c = ''expired''" for opn actor q
    by (auto simp: save_audited_def rbind_Inr_iff)
  with assms unowned_state [OF assms(1,2)] show ?thesis
    by (auto simp: expire_def split: if_splits)
qed

lemma grant_step:
  assumes wf: "well_formed db" and r: "r \<in> set (commands db)" "cm_owner (command_of_row r) = None"
    and session: "cr_session_id r = ai_sessionId identity" and state: "cr_state r = ''accepted''"
    and ok: "grant_claim peers now identity request (command_of_row r) db = Inr (c', db')"
  obtains t where "c' = (command_of_row r)\<lparr>cm_state := ''executing'', cm_claimedAt := Some t,
      cm_owner := Some (ai_agentId identity, ai_sessionId identity)\<rparr>" "clock_text now = Inr t"
    "row_step r (store_command c' r)" "row_tx r db c' db'" "well_formed db'"
proof -
  let ?c = "\<lambda>t. (command_of_row r)\<lparr>cm_state := ''executing'', cm_claimedAt := Some t,
      cm_owner := Some (ai_agentId identity, ai_sessionId identity)\<rparr>"
  from ok state obtain t where t: "clock_text now = Inr t"
    "save_audited (?c t) ''command.claim'' (''agent:'' @ ai_agentId identity) (Some (field request [''requestId''])) now db = Inr (c', db')"
    by (auto simp: grant_claim_def rbind_Inr_iff split: if_splits)
  have step: "row_step r (store_command (?c t) r)"
    using row_step.claimed [OF state, of "ai_agentId identity" t] session
    by (simp add: store_columns store_self [OF row_valid_in [OF wf r(1)]])
  have named: "names_row (?c t) r" by simp
  note saved = save_audited_tx [OF wf r(1) named step t(2)]
  show thesis
    using that [of t] saved(1-3) t(1) step by simp
qed

lemma claim_tx_step:
  assumes wf: "well_formed db" and ok: "claim_tx peers now identity request db = Inr (c', db')"
  shows "db_step db db' \<and> well_formed db'"
  using ok
proof (cases rule: claim_tx_cases)
  case (again c0)
  from read_command_cases [OF wf again(2,5)] show ?thesis by blast
next
  case (first c0 c db1)
  from get_command_Inr [OF wf first(2)] obtain r where r: "r \<in> set (commands db)" "c0 = command_of_row r" by blast
  note valid = row_valid_in [OF wf r(1)]
  show ?thesis
  proof (cases "cm_state c = ''expired''")
    case True
    with first(7) have "db' = db1" by (simp add: grant_claim_def)
    with read_command_cases [OF wf first(2,6)] show ?thesis by blast
  next
    case False
    from expire_unowned [OF valid _ _ False, of now db db1] first(4,6) r(2)
    have "c = command_of_row r" "db1 = db" "cr_state r = ''accepted''" by simp_all
    with grant_step [OF wf r(1), of identity peers now request c' db'] first(4,5,7) r(2) show ?thesis
      using row_tx_step by (metis command_of_row_state(6))
  qed
qed

lemma object_ok_obj: "is_ok (object_schema shape v p) \<Longrightarrow> \<exists>kvs. v = Some (JObj kvs)"
  by (auto simp: object_schema_def split: option.splits json.splits)

lemma object_ok_field:
  "is_ok (object_schema shape v p) \<Longrightarrow> (k, s) \<in> set shape \<Longrightarrow> is_ok (s (value_at v [k]) (p @ ''.'' @ k))"
  using object_ok_obj [of shape v p] by (force simp: is_ok_object simp del: jget.simps(1))

lemma enumeration_ok_dest: "is_ok (enumeration_schema ss v p) \<Longrightarrow> \<exists>s \<in> set ss. v = Some (JStr s)"
  by (auto simp: enumeration_schema_def split: option.splits if_splits)

lemma literal_ok_dest: "is_ok (literal_schema j v p) \<Longrightarrow> v = Some j"
  by (auto simp: literal_schema_def split: if_splits)

lemma json_ok_dest: "is_ok (jsonValueSchema v p) \<Longrightarrow> v \<noteq> None"
  by (cases v) (simp_all add: jsonValueSchema_def)

text \<open>What a parsed result of a command carries.\<close>

lemma command_result_fields:
  assumes ok: "is_ok (agentResultSchema v p)" and kind: "value_at v [''kind''] \<noteq> Some (JStr ''read'')"
  shows "\<exists>s \<in> {''succeeded'', ''failed'', ''unknown''}. value_at v [''state''] = Some (JStr s)"
    and "value_at v [''evidence''] \<noteq> None" and "\<exists>j. v = Some j"
proof -
  let ?command = "object_schema [(''kind'', literal_schema (JStr ''command'')), (''commandId'', uuidSchema),
       (''state'', enumeration_schema [''succeeded'', ''failed'', ''unknown'']), (''observedAt'', timestampSchema),
       (''evidence'', jsonValueSchema), (''diagnostic'', optional_schema diagnosticSchema)]"
  let ?read = "object_schema [(''kind'', literal_schema (JStr ''read'')),
       (''result'', refine_schema readResultSchema not_pending ''cannot publish pending read'')]"
  have "\<not> is_ok (?read v p)"
    using object_ok_field [of _ v p "''kind''" "literal_schema (JStr ''read'')"] kind literal_ok_dest
    by (metis list.set_intros(1))
  with ok have command: "is_ok (?command v p)"
    by (simp add: agentResultSchema_def split: sum.splits)
  have "is_ok (enumeration_schema [''succeeded'', ''failed'', ''unknown''] (value_at v [''state'']) (p @ ''.'' @ ''state''))"
    by (rule object_ok_field [OF command]) simp
  then show "\<exists>s \<in> {''succeeded'', ''failed'', ''unknown''}. value_at v [''state''] = Some (JStr s)"
    using enumeration_ok_dest by fastforce
  have "is_ok (jsonValueSchema (value_at v [''evidence'']) (p @ ''.'' @ ''evidence''))"
    by (rule object_ok_field [OF command]) simp
  then show "value_at v [''evidence''] \<noteq> None" by (rule json_ok_dest)
  show "\<exists>j. v = Some j" using object_ok_obj [OF command] by blast
qed

lemma parsed_again:
  assumes "faithful_schema s" "parse_command_input s input = Inr request" "s = object_schema shape"
  shows "is_ok (s (Some request) ''$'')"
proof -
  from assms(2) obtain w where w: "s input ''$'' = Inr w" "request = getOr w JNull"
    by (auto simp: parse_command_input_def split: sum.splits)
  from faithful_schema.reparse [OF assms(1) w(1), of "''$''"] have ok: "is_ok (s w ''$'')" by simp
  with object_ok_obj [of shape w "''$''"] assms(3) w(2) show ?thesis by auto
qed

lemma result_parsed:
  assumes parsed: "parse_command_input resultRequestSchema input = Inr request"
    and result: "result = getOr (value_at (Some request) [''result'']) JNull" and kind: "field result [''kind''] = ''command''"
  shows "field result [''state''] \<in> {''succeeded'', ''failed'', ''unknown''}"
    and "\<exists>e. value_at (Some result) [''evidence''] = Some e"
proof -
  have faithful: "faithful_schema resultRequestSchema" by (simp add: schema_intros)
  have "is_ok (agentResultSchema (value_at (Some request) [''result'']) (''$'' @ ''.'' @ ''result''))"
    by (rule object_ok_field [OF parsed_again [OF faithful parsed resultRequestSchema_def, unfolded resultRequestSchema_def]]) simp
  moreover have "value_at (value_at (Some request) [''result'']) [''kind''] \<noteq> Some (JStr ''read'')"
    using kind result by (cases "value_at (Some request) [''result'']") (auto simp: field_def string_at_def)
  ultimately obtain j s where "value_at (Some request) [''result''] = Some j" "value_at (Some j) [''state''] = Some (JStr s)"
    "s \<in> {''succeeded'', ''failed'', ''unknown''}" "value_at (Some j) [''evidence''] \<noteq> None"
    using command_result_fields [of "value_at (Some request) [''result'']"] by metis
  with result show "field result [''state''] \<in> {''succeeded'', ''failed'', ''unknown''}"
    "\<exists>e. value_at (Some result) [''evidence''] = Some e"
    by (simp_all add: field_def string_at_def)
qed

lemma publish_tx_step:
  assumes wf: "well_formed db" and ok: "publish_tx peers now identity request result db = Inr (t', db')"
    and state: "field result [''state''] \<in> {''succeeded'', ''failed'', ''unknown''}"
    and evidence: "value_at (Some result) [''evidence''] = Some e"
  shows "db_step db db' \<and> well_formed db'"
proof -
  from ok obtain c where got: "get_command (field result [''commandId'']) db = Inr c" and owned: "check_owner c identity = Inr ()"
    by (auto simp: publish_tx_def rbind_Inr_iff)
  from get_command_Inr [OF wf got] obtain r where r: "r \<in> set (commands db)" "c = command_of_row r" by blast
  note valid = row_valid_in [OF wf r(1)]
  have unclosed: "cm_closure c = None"
    using ok got owned by (cases "cm_closure c = None") (auto simp: publish_tx_def rbind_Inr_iff)
  from ok got owned unclosed consider (same) "db' = db"
    | (new) c' t where "cr_state r \<notin> {''succeeded'', ''failed''}"
      "save_audited (with_result t result c) ''command.result'' (''agent:'' @ ai_agentId identity)
         (Some (field request [''requestId''])) now db = Inr (c', db')"
    by (auto simp: publish_tx_def rbind_Inr_iff r(2) split: if_splits)
  then show ?thesis
  proof cases
    case new
    have "cr_owner_agent_id r \<noteq> None" "cr_closed_at r = None"
      using owned unclosed row_columns(2,5) [OF valid] by (auto simp: check_owner_def r(2) split: if_splits dest: sym)
    with new(1) valid have "cr_state r \<in> {''executing'', ''unknown''}" and none: "cr_completed_at r = None"
      by (auto simp: row_valid_def row_check_def COMMAND_STATES_def split: if_splits)
    from row_step.resulted [where e = "canon e" and d' = "result_diagnostic result" and t = t, OF this(1) \<open>cr_closed_at r = None\<close> state]
    have "row_step r (store_command (with_result t result c) r)"
      using none row_columns(4) [OF valid] evidence
      by (auto simp: with_result_def store_columns store_self [OF valid] r(2))
    moreover have "names_row (with_result t result c) r" by (simp add: with_result_def r(2))
    ultimately show ?thesis using saved_step [OF db_step_refl wf r(1) _ _ new(2)] by simp
  qed (use wf in simp)
qed

lemma invalidate_rows_step:
  "well_formed db \<Longrightarrow> set rs \<subseteq> set (commands db) \<Longrightarrow> distinct rs \<Longrightarrow> \<forall>r \<in> set rs. cr_state r = ''accepted'' \<Longrightarrow>
   invalidate_rows now rs db = Inr db' \<Longrightarrow> db_step db db' \<and> well_formed db'"
proof (induction rs arbitrary: db)
  case (Cons r rs)
  note wf = Cons.prems(1)
  from Cons.prems(2) have r: "r \<in> set (commands db)" by simp
  note valid = row_valid_in [OF wf r]
  let ?c = "(command_of_row r)\<lparr>cm_state := ''expired''\<rparr>"
  from Cons.prems(5) obtain c db1 where
    first: "save_audited ?c ''command.invalidate'' ''control-plane'' None now db = Inr (c, db1)" and
    rest: "invalidate_rows now rs db1 = Inr db'"
    by (auto simp: rbind_Inr_iff record_of_valid [OF valid])
  have "row_step r (store_command ?c r)"
    using Cons.prems(4) row_step.expired [of r] by (simp add: store_columns store_self [OF valid])
  note saved = save_audited_tx [OF wf r _ this first]
  have "row_tx r db ?c db1" using saved(2) by simp
  then have step: "db_step db db1" and kept: "set rs \<subseteq> set (commands db1)"
    using Cons.prems(2,3) by (auto simp: row_tx_def)
  have "well_formed db1" using saved(3) by simp
  from Cons.IH [OF this kept _ _ rest] Cons.prems(3,4) step show ?case using db_step_trans by auto
qed simp

lemma invalidate_step:
  assumes "well_formed db"
  shows "invalidateEnvironment now i db = Inr db' \<Longrightarrow> db_step db db' \<and> well_formed db'"
    and "invalidateProject now i db = Inr db' \<Longrightarrow> db_step db db' \<and> well_formed db'"
proof -
  have rows: "invalidate_rows now (filter (\<lambda>r. P r \<and> cr_state r = ''accepted'') (commands db)) db = Inr db' \<Longrightarrow>
      db_step db db' \<and> well_formed db'" for P
    by (erule invalidate_rows_step [OF assms, rotated 3]) (auto intro: distinct_filter distinct_rows [OF assms])
  then show "invalidateEnvironment now i db = Inr db' \<Longrightarrow> db_step db db' \<and> well_formed db'"
    and "invalidateProject now i db = Inr db' \<Longrightarrow> db_step db db' \<and> well_formed db'"
    by (auto simp: invalidateEnvironment_def invalidateProject_def rbind_Inr_iff)
qed

lemma list_tx_step: "well_formed db \<Longrightarrow> list_tx now projectId request db = Inr (page, db') \<Longrightarrow> db_step db db' \<and> well_formed db'"
  by (auto simp: list_tx_def rbind_Inr_iff dest: recover_step)

section \<open>Submission\<close>

lemma next_rowid_above: "r \<in> set rows \<Longrightarrow> cr_rowid r < next_rowid rows"
proof -
  have "k \<in> set ks \<Longrightarrow> k \<le> foldr max ks (0::int)" for k ks by (induction ks) auto
  then show "r \<in> set rows \<Longrightarrow> ?thesis" by (auto simp: next_rowid_def intro: zle_add1_eq_le [THEN iffD2])
qed

lemma admit_capacity_Inr:
  assumes "admit_capacity projectId i db = Inr ()"
  shows "\<forall>r \<in> set (commands db). outstanding r \<longrightarrow> cr_project_id r \<noteq> projectId"
    and "int (length (active_in i (commands db))) < activeCommandsPerAgent"
  using assms by (auto simp: admit_capacity_def active_in_def find_None_mem split: option.splits if_splits)

lemma command_row_fields [simp]:
  "cr_project_id (command_row_of k c) = cm_projectId c" "cr_environment_id (command_row_of k c) = cm_environmentId c"
  "cr_command_id (command_row_of k c) = cm_commandId c" "cr_rowid (command_row_of k c) = k"
  "cr_state (command_row_of k c) = cm_state c" "cr_actor (command_row_of k c) = cm_actor c"
  "cr_idempotency_key (command_row_of k c) = cm_idempotencyKey c" "cr_closed_at (command_row_of k c) = None"
  by (simp_all add: command_row_of_def)

lemma new_row:
  assumes "new_command uuid projectId operation key t now = Inr c" "command_ok c" "states_agree c"
  shows "row_valid (command_row_of k c)" "fresh_row (command_row_of k c)"
proof -
  have c: "cm_state c = ''accepted''" "cm_claimedAt c = None" "cm_owner c = None" "cm_completedAt c = None" "cm_evidence c = None"
    "cm_diagnostic c = None" "cm_closure c = None" "cm_actor c = OPERATOR_ACTOR"
    using assms(1) by (auto simp: new_command_def rbind_Inr_iff)
  have "command_of_row (command_row_of k c) = c"
    using c by (intro command.equality) (simp_all add: command_of_row_def command_row_of_def text_present_def)
  then show "row_valid (command_row_of k c)"
    using assms(2,3) c by (simp add: row_valid_def row_check_def command_row_of_def COMMAND_STATES_def OPERATOR_ACTOR_def command_ok_def)
  show "fresh_row (command_row_of k c)" using c by (simp add: fresh_row_def command_row_of_def)
qed

lemma accept_command_cases:
  assumes "accept_command peers uuid now projectId key operation db = Inr (i, db')"
  obtains db1 t c a where "recover now db = Inr db1" "pe_resolveTarget peers projectId db1 = Inr (Some t)"
    "admit_target projectId operation (Some t) db1 = Inr t" "admit_capacity projectId (ct_environmentId t) db1 = Inr ()"
    "new_command uuid projectId operation key t now = Inr c" "command_ok c" "states_agree c" "i = uuid"
    "commands_ok (commands db1 @ [command_row_of (next_rowid (commands db1)) c])"
    "ad_target a = uuid" "ad_outcome a = ''accepted''"
    "db' = db1\<lparr>commands := commands db1 @ [command_row_of (next_rowid (commands db1)) c], audits := audits db1 @ [a]\<rparr>"
proof -
  from assms obtain db1 target t c w db2 where
    recovered: "recover now db = Inr db1" and resolved: "pe_resolveTarget peers projectId db1 = Inr target" and
    admitted: "admit_target projectId operation target db1 = Inr t" and
    capacity: "admit_capacity projectId (ct_environmentId t) db1 = Inr ()" and
    new: "new_command uuid projectId operation key t now = Inr c" and
    doc: "parse_protocol commandRecordSchema (Some (command_json c)) = Inr w" and
    inserted: "insert_command c db1 = Inr db2" and
    audited: "audit c ''command.submit'' OPERATOR_ACTOR None now db2 = Inr db'" and i: "i = cm_commandId c"
    by (auto simp: accept_command_def rbind_Inr_iff)
  have target: "target = Some t"
    using admitted by (cases target) (auto simp: admit_target_def rbind_Inr_iff split: if_splits)
  have ok: "command_ok c \<and> states_agree c"
    using doc parse_protocol_ok [of commandRecordSchema "Some (command_json c)"] by (simp add: command_document_ok)
  have c: "cm_commandId c = uuid" "cm_state c = ''accepted''" using new by (auto simp: new_command_def rbind_Inr_iff)
  from inserted have db2: "commands_ok (commands db1 @ [command_row_of (next_rowid (commands db1)) c])"
    "db2 = db1\<lparr>commands := commands db1 @ [command_row_of (next_rowid (commands db1)) c]\<rparr>"
    by (auto simp: insert_command_def write_commands_def split: if_splits)
  from audited obtain a where "db' = db2\<lparr>audits := audits db2 @ [a]\<rparr>" "ad_target a = cm_commandId c" "ad_outcome a = cm_state c"
    by (auto simp: audit_def rbind_Inr_iff)
  with that [of db1 t c a] recovered resolved admitted capacity new ok db2 i c target show thesis by simp
qed

lemma accept_command_step:
  assumes wf: "well_formed db" and ok: "accept_command peers uuid now projectId key operation db = Inr (i, db')"
  shows "commands_step (commands db) (commands db') \<and> well_formed db'"
  using ok
proof (cases rule: accept_command_cases)
  case (1 db1 t c a)
  let ?new = "command_row_of (next_rowid (commands db1)) c"
  have step: "db_step db db1" and wf1: "well_formed db1" using recover_step [OF wf 1(1)] by simp_all
  note row = new_row [OF 1(5-7), of "next_rowid (commands db1)"]
  have c: "cm_projectId c = projectId" "cm_environmentId c = ct_environmentId t" using 1(5) by (auto simp: new_command_def rbind_Inr_iff)
  have "int (length (active_in e (commands db1 @ [?new]))) \<le> activeCommandsPerAgent" for e
    using wf1 admit_capacity_Inr(2) [OF 1(4)] c by (cases "e = ct_environmentId t") (auto simp: active_in_def well_formed_def)
  moreover have "sorted_wrt (<) (map cr_rowid (commands db1 @ [?new]))"
    using wf1 next_rowid_above by (auto simp: well_formed_def sorted_wrt_append)
  ultimately have "well_formed db'" using wf1 row(1) 1(9,12) by (simp add: well_formed_def)
  moreover have "commands_step (commands db) (commands db')"
  proof -
    from step obtain as where "list_all2 (moved as) (commands db) (commands db1)" unfolding db_step_def by auto
    then have "list_all2 row_step\<^sup>*\<^sup>* (commands db) (commands db1)" by (rule list_all2_mono) (simp add: moved_def)
    with row(2) 1(12) show ?thesis unfolding commands_step_def by (auto intro!: exI [of _ "commands db1"])
  qed
  ultimately show ?thesis by simp
qed

lemma submit_tx_step:
  assumes wf: "well_formed db" and ok: "submit_tx peers uuid now projectId key operation db = Inr (i, db')"
  shows "commands_step (commands db) (commands db') \<and> well_formed db'"
proof (cases "find (\<lambda>r. cr_actor r = OPERATOR_ACTOR \<and> cr_idempotency_key r = key) (commands db)")
  case None
  with ok accept_command_step [OF wf] show ?thesis by (simp add: submit_tx_def)
next
  case (Some r)
  with ok have "db' = db" by (auto simp: submit_tx_def resubmit_command_def rbind_Inr_iff split: if_splits)
  with wf db_step_commands [OF db_step_refl] show ?thesis by simp
qed

text \<open>Within the constraints: a submission with a new identifier never trips over the table.\<close>

lemma insert_unconstrained:
  assumes wf: "well_formed db" and new: "new_command uuid projectId operation key t now = Inr c" "command_ok c" "states_agree c"
    and fresh: "uuid \<notin> cr_command_id ` set (commands db)"
    and key: "find (\<lambda>r. cr_actor r = OPERATOR_ACTOR \<and> cr_idempotency_key r = key) (commands db) = None"
    and capacity: "admit_capacity projectId (ct_environmentId t) db = Inr ()"
    and admitted: "admit_target projectId operation (Some t) db = Inr t"
  shows "\<exists>db'. insert_command c db = Inr db'"
proof -
  let ?new = "command_row_of (next_rowid (commands db)) c"
  have c: "cm_commandId c = uuid" "cm_projectId c = projectId" "cm_actor c = OPERATOR_ACTOR" "cm_idempotencyKey c = key"
    "cm_environmentId c = ct_environmentId t"
    using new(1) by (auto simp: new_command_def rbind_Inr_iff)
  have "environment_row_of (ct_environmentId t) db \<noteq> None"
    using admitted by (auto simp: admit_target_def rbind_Inr_iff split: if_splits)
  moreover have "row_check ?new" using new_row(1) [OF new] by (simp add: row_valid_def)
  moreover have "(OPERATOR_ACTOR, key) \<notin> (\<lambda>r. (cr_actor r, cr_idempotency_key r)) ` set (commands db)"
    using key by (auto simp: find_None_mem)
  moreover have "projectId \<notin> cr_project_id ` {r \<in> set (commands db). outstanding r}"
    using admit_capacity_Inr(1) [OF capacity] by auto
  ultimately show ?thesis
    using wf fresh c by (auto simp: insert_command_def write_commands_def well_formed_def commands_ok_def)
qed

section \<open>Retention\<close>

lemma prune_tx_cases:
  assumes "prune_tx now db = Inr (n, db')"
  obtains db1 cutoff where "recover now db = Inr db1" "clock_text (now - terminalCommandRetentionMs) = Inr cutoff"
    "db' = db1\<lparr>audits := audits db', commands := filter (\<lambda>r. \<not> command_prunable cutoff (audits db') r) (commands db1)\<rparr>"
    "audits db' = filter (\<lambda>a. \<not> audit_prunable cutoff (commands db1) a) (audits db1)"
  using assms by (auto simp: prune_tx_def rbind_Inr_iff Let_def)

lemma prunable_not_outstanding: "command_prunable cutoff as r \<Longrightarrow> \<not> outstanding r"
  by (auto simp: command_prunable_def outstanding_def column_until_def split: option.splits)

lemma well_formed_filter:
  assumes "well_formed db"
  shows "well_formed (db\<lparr>audits := as, commands := filter p (commands db)\<rparr>)"
proof -
  let ?rows = "filter p (commands db)"
  from assms have v: "list_all row_valid ?rows" "list_all row_check ?rows" by (simp_all add: well_formed_def commands_ok_def list_all_iff)
  from assms have d: "distinct (map cr_command_id ?rows)" "distinct (map (\<lambda>r. (cr_actor r, cr_idempotency_key r)) ?rows)"
    by (simp_all add: well_formed_def commands_ok_def distinct_map_filter)
  have "filter outstanding ?rows = filter p (filter outstanding (commands db))" by (simp add: conj_commute)
  with assms have f: "distinct (map cr_project_id (filter outstanding ?rows))"
    using distinct_map_filter [of cr_project_id "filter outstanding (commands db)" p]
    by (simp add: well_formed_def commands_ok_def conj_commute)
  have "length (active_in i ?rows) \<le> length (active_in i (commands db))" for i
  proof -
    have "active_in i ?rows = filter p (active_in i (commands db))" by (simp add: active_in_def conj_ac)
    then show ?thesis by simp
  qed
  with assms have c: "int (length (active_in i ?rows)) \<le> activeCommandsPerAgent" for i
    unfolding well_formed_def by (meson of_nat_le_iff order_trans)
  have "sorted_wrt (<) (map cr_rowid ?rows)" using assms by (simp add: well_formed_def sorted_wrt_map sorted_wrt_filter)
  with v d f c show ?thesis by (simp add: well_formed_def commands_ok_def)
qed

lemma prune_tx_step: "well_formed db \<Longrightarrow> prune_tx now db = Inr (n, db') \<Longrightarrow> well_formed db'"
  by (erule prune_tx_cases) (use recover_step well_formed_filter in metis)

end
