(* ===== verification/FleetService.thy ===== *)
theory FleetService
  imports FleetCommandLaws
begin

text \<open>
  The command service as its callers use it: one call at a time on the shared database, between
  changes the other services make to their own tables. The laws of \<open>FleetCommandLaws\<close> become
  invariants of the reachable databases.
\<close>

section \<open>Calls\<close>

datatype command_call =
    SubmitCommand string string string "json option"
  | GetCommand string
  | ListCommands string "json option"
  | CloseUnresolved string "json option"
  | ClaimCommand agent_identity "json option"
  | PublishResult agent_identity "json option"
  | RecoverCommands
  | TransferOwnership agent_identity string
  | InvalidateEnvironment string
  | InvalidateProject string
  | PruneCommands

text \<open>An invalidation runs inside the transaction of its caller.\<close>

definition as_transaction :: "(fleet_db \<Rightarrow> fleet_error + fleet_db) \<Rightarrow> fleet_db \<Rightarrow> (fleet_error + unit) \<times> fleet_db" where
  "as_transaction m = transaction (\<lambda>db. rbind (m db) (\<lambda>db. Inr ((), db)))"

fun call_commands :: "command_peers \<Rightarrow> int \<Rightarrow> command_call \<Rightarrow> fleet_db \<Rightarrow> fleet_db" where
  "call_commands peers now (SubmitCommand uuid projectId key input) db = snd (submitCommand peers uuid now projectId key input db)"
| "call_commands peers now (GetCommand i) db = snd (getCommand now i db)"
| "call_commands peers now (ListCommands projectId input) db = snd (listCommands now projectId input db)"
| "call_commands peers now (CloseUnresolved i input) db = snd (closeUnresolved now i input db)"
| "call_commands peers now (ClaimCommand identity input) db = snd (claim peers now identity input db)"
| "call_commands peers now (PublishResult identity input) db = snd (publishResult peers now identity input db)"
| "call_commands peers now RecoverCommands db = snd (recoverCommands now db)"
| "call_commands peers now (TransferOwnership identity i) db = snd (transferOwnership peers now identity i db)"
| "call_commands peers now (InvalidateEnvironment i) db = snd (as_transaction (invalidateEnvironment now i) db)"
| "call_commands peers now (InvalidateProject i) db = snd (as_transaction (invalidateProject now i) db)"
| "call_commands peers now PruneCommands db = snd (prune now db)"

text \<open>What a call commits: nothing, or what its transaction returned.\<close>

lemma snd_transaction:
  "snd (transaction m db) = db \<or> (\<exists>x. m db = Inr (x, snd (transaction m db)))"
  by (cases "m db") (auto simp: transaction_def)

lemma transaction_step:
  assumes "\<And>x db'. m db = Inr (x, db') \<Longrightarrow> P db'" "P db"
  shows "P (snd (transaction m db))"
  using snd_transaction [of m db] assms by metis

definition call_step :: "fleet_db \<Rightarrow> fleet_db \<Rightarrow> bool" where
  "call_step db db' \<longleftrightarrow> commands_step (commands db) (commands db') \<and> well_formed db'"

lemma call_step_refl: "well_formed db \<Longrightarrow> call_step db db"
  by (simp add: call_step_def db_step_commands [OF db_step_refl])

lemma call_stepI: "db_step db db' \<and> well_formed db' \<Longrightarrow> call_step db db'"
  by (simp add: call_step_def db_step_commands)

lemma transaction_db_step:
  assumes "well_formed db" "\<And>x db'. m db = Inr (x, db') \<Longrightarrow> db_step db db' \<and> well_formed db'"
  shows "db_step db (snd (transaction m db)) \<and> well_formed (snd (transaction m db))"
  by (rule transaction_step) (use assms db_step_refl in blast)+

lemma claim_snd:
  "snd (claim peers now identity input db) = db \<or>
   (\<exists>request. snd (claim peers now identity input db) = snd (transaction (claim_tx peers now identity request) db))"
proof (cases "parse_command_input claimRequestSchema input")
  case (Inr request)
  then have "snd (claim peers now identity input db) = snd (transaction (claim_tx peers now identity request) db)"
    by (cases "transaction (claim_tx peers now identity request) db") (auto simp: claim_def split: sum.splits)
  then show ?thesis by blast
qed (simp add: claim_def)

text \<open>Every call but \<open>submitCommand\<close> and \<open>prune\<close> only moves commands along their life cycle.\<close>

fun adds_or_drops :: "command_call \<Rightarrow> bool" where
  "adds_or_drops (SubmitCommand _ _ _ _) = True"
| "adds_or_drops PruneCommands = True"
| "adds_or_drops _ = False"

lemma call_moves:
  assumes wf: "well_formed db" and call: "\<not> adds_or_drops c"
  shows "db_step db (call_commands peers now c db) \<and> well_formed (call_commands peers now c db)"
proof (cases c)
  case (GetCommand i)
  show ?thesis unfolding GetCommand call_commands.simps getCommand_def
    by (rule transaction_db_step [OF wf]) (rule read_tx_step [OF wf])
next
  case (ListCommands projectId input)
  note tx = transaction_db_step [OF wf, of "list_tx now projectId request" for request, OF list_tx_step [OF wf]]
  from tx wf show ?thesis by (simp add: ListCommands listCommands_def split: sum.splits)
next
  case (CloseUnresolved i input)
  note tx = transaction_db_step [OF wf, of "close_tx now i reason" for reason, OF close_tx_step [OF wf]]
  from tx wf show ?thesis by (simp add: CloseUnresolved closeUnresolved_def Let_def split: sum.splits)
next
  case (ClaimCommand identity input)
  note tx = transaction_db_step [OF wf, of "claim_tx peers now identity request" for request, OF claim_tx_step [OF wf]]
  from claim_snd [of peers now identity input db] show ?thesis
    unfolding ClaimCommand call_commands.simps using tx wf by (elim disjE exE) simp_all
next
  case (PublishResult identity input)
  have "db_step db (snd (transaction (publish_tx peers now identity request result) db)) \<and>
      well_formed (snd (transaction (publish_tx peers now identity request result) db))"
    if "parse_command_input resultRequestSchema input = Inr request" "result = getOr (value_at (Some request) [''result'']) JNull"
      "field result [''kind''] = ''command''" for request result
    using result_parsed [OF that] by (intro transaction_db_step [OF wf]) (auto dest: publish_tx_step [OF wf])
  then show ?thesis using wf by (simp add: PublishResult publishResult_def Let_def split: sum.splits)
next
  case RecoverCommands
  show ?thesis unfolding RecoverCommands call_commands.simps recoverCommands_def
    by (rule transaction_db_step [OF wf]) (auto simp: rbind_Inr_iff dest: recover_step [OF wf])
next
  case (TransferOwnership identity i)
  show ?thesis unfolding TransferOwnership call_commands.simps transferOwnership_def
    by (rule transaction_db_step [OF wf]) (rule transfer_tx_step [OF wf])
next
  case (InvalidateEnvironment i)
  show ?thesis unfolding InvalidateEnvironment call_commands.simps as_transaction_def
    by (rule transaction_db_step [OF wf]) (auto simp: rbind_Inr_iff dest: invalidate_step(1) [OF wf])
next
  case (InvalidateProject i)
  show ?thesis unfolding InvalidateProject call_commands.simps as_transaction_def
    by (rule transaction_db_step [OF wf]) (auto simp: rbind_Inr_iff dest: invalidate_step(2) [OF wf])
qed (use call in simp_all)

text \<open>Every call but \<open>prune\<close> moves commands along their life cycle and adds at most one.\<close>

lemma call_refines:
  assumes wf: "well_formed db" and call: "c \<noteq> PruneCommands"
  shows "call_step db (call_commands peers now c db)"
proof (cases "adds_or_drops c")
  case False
  from call_stepI [OF call_moves [OF wf False]] show ?thesis .
next
  case True
  with call obtain uuid projectId key input where c: "c = SubmitCommand uuid projectId key input" by (cases c) auto
  have "call_step db (snd (transaction (submit_tx peers uuid now projectId key operation) db))" for operation
    by (rule transaction_step) (auto simp: call_step_def dest: submit_tx_step [OF wf] intro: wf db_step_commands)
  then show ?thesis using call_step_refl [OF wf]
    by (simp add: c submitCommand_def split: sum.splits)
qed

lemma call_well_formed: "well_formed db \<Longrightarrow> well_formed (call_commands peers now c db)"
proof (cases "c = PruneCommands")
  case True
  assume wf: "well_formed db"
  show ?thesis unfolding True call_commands.simps prune_def
    by (rule transaction_step) (auto intro: wf dest: prune_tx_step [OF wf])
next
  case False
  assume "well_formed db"
  from call_refines [OF this False] show ?thesis by (simp add: call_step_def)
qed

section \<open>Reachable databases\<close>

inductive reachable_db :: "fleet_db \<Rightarrow> bool" where
  start: "commands db = [] \<Longrightarrow> reachable_db db"
| called: "reachable_db db \<Longrightarrow> reachable_db (call_commands peers now c db)"
| elsewhere: "reachable_db db \<Longrightarrow> commands db' = commands db \<Longrightarrow> reachable_db db'"

lemma reachable_well_formed: "reachable_db db \<Longrightarrow> well_formed db"
proof (induction rule: reachable_db.induct)
  case (start db)
  then show ?case by (simp add: well_formed_def commands_ok_def active_in_def activeCommandsPerAgent_def)
next
  case (called db peers now c)
  then show ?case by (simp add: call_well_formed)
next
  case (elsewhere db db')
  then show ?case by (simp add: well_formed_def)
qed

lemma list_all2_right: "list_all2 P xs ys \<Longrightarrow> y \<in> set ys \<Longrightarrow> \<exists>x \<in> set xs. P x y"
  by (induction rule: list_all2_induct) auto

lemma list_all2_left: "list_all2 P xs ys \<Longrightarrow> x \<in> set xs \<Longrightarrow> \<exists>y \<in> set ys. P x y"
  by (induction rule: list_all2_induct) auto

lemma commands_step_origin:
  assumes "commands_step rows rows'" "r' \<in> set rows'"
  shows "fresh_row r' \<or> (\<exists>r \<in> set rows. row_step\<^sup>*\<^sup>* r r')"
proof -
  from assms(1) obtain mid where mid: "list_all2 row_step\<^sup>*\<^sup>* rows mid" "rows' = mid \<or> (\<exists>r. fresh_row r \<and> rows' = mid @ [r])"
    unfolding commands_step_def by blast
  with assms(2) have "fresh_row r' \<or> r' \<in> set mid" by auto
  with list_all2_right [OF mid(1)] show ?thesis by blast
qed

lemma prune_cases:
  obtains (aborted) "snd (prune now db) = db"
  | (committed) db1 cutoff where "recover now db = Inr db1" "clock_text (now - terminalCommandRetentionMs) = Inr cutoff"
    "commands (snd (prune now db)) = filter (\<lambda>r. \<not> command_prunable cutoff (audits (snd (prune now db))) r) (commands db1)"
    "audits (snd (prune now db)) = filter (\<lambda>a. \<not> audit_prunable cutoff (commands db1) a) (audits db1)"
proof (cases "snd (prune now db) = db")
  case False
  then obtain n where "prune_tx now db = Inr (n, snd (prune now db))"
    using snd_transaction [of "prune_tx now" db] by (auto simp: prune_def)
  then show thesis by (rule prune_tx_cases) (metis committed fleet_db.select_convs(6) fleet_db.surjective fleet_db.update_convs(6))
qed (rule aborted)

text \<open>Every row of a later table is new or comes from a row of the earlier one.\<close>

lemma call_origin:
  assumes wf: "well_formed db" and r: "r' \<in> set (commands (call_commands peers now c db))"
  shows "fresh_row r' \<or> (\<exists>r \<in> set (commands db). row_step\<^sup>*\<^sup>* r r')"
proof (cases "c = PruneCommands")
  case False
  then have "commands_step (commands db) (commands (call_commands peers now c db))"
    using call_refines [OF wf] by (simp add: call_step_def)
  from commands_step_origin [OF this r] show ?thesis .
next
  case True
  show ?thesis
  proof (cases rule: prune_cases [of now db])
    case aborted
    with r True show ?thesis by auto
  next
    case (committed db1 cutoff)
    then have "r' \<in> set (commands db1)" using r True by simp
    moreover have "db_step db db1" using recover_step [OF wf committed(1)] by simp
    ultimately show ?thesis using commands_step_origin db_step_commands by blast
  qed
qed

text \<open>A command keeps its row: the row with its identifier in a later table is the one it became.\<close>

lemma ids_of_step:
  assumes "list_all2 row_step\<^sup>*\<^sup>* rows mid" "distinct (map cr_command_id rows)" "r \<in> set rows" "r' \<in> set mid"
    "cr_command_id r' = cr_command_id r"
  shows "row_step\<^sup>*\<^sup>* r r'"
proof -
  obtain x where x: "x \<in> set rows" "row_step\<^sup>*\<^sup>* x r'" using list_all2_right [OF assms(1,4)] by blast
  with assms(5) have "cr_command_id x = cr_command_id r" using row_steps_order [OF x(2)] by (simp add: row_order_def)
  with assms(2,3) x show ?thesis by (auto simp: distinct_map inj_on_def)
qed

lemma call_same_id:
  assumes wf: "well_formed db" and r: "r \<in> set (commands db)"
    and r': "r' \<in> set (commands (call_commands peers now c db))" "cr_command_id r' = cr_command_id r"
  shows "row_step\<^sup>*\<^sup>* r r'"
proof (cases "c = PruneCommands")
  case False
  note step = call_refines [OF wf False, of peers now, unfolded call_step_def]
  then obtain mid where mid: "list_all2 row_step\<^sup>*\<^sup>* (commands db) mid"
    "commands (call_commands peers now c db) = mid \<or> (\<exists>x. fresh_row x \<and> commands (call_commands peers now c db) = mid @ [x])"
    unfolding commands_step_def by blast
  have "r' \<in> set mid"
  proof (rule ccontr)
    assume "r' \<notin> set mid"
    with mid(2) r'(1) have rows: "commands (call_commands peers now c db) = mid @ [r']" by auto
    obtain y where y: "y \<in> set mid" "row_step\<^sup>*\<^sup>* r y" using list_all2_left [OF mid(1) r] by blast
    then have "cr_command_id y = cr_command_id r'" using row_steps_order [OF y(2)] r'(2) by (simp add: row_order_def)
    with y(1) distinct_ids [of "call_commands peers now c db"] step show False
      by (simp add: rows) (metis image_eqI)
  qed
  with ids_of_step [OF mid(1) distinct_ids [OF wf] r _ r'(2)] show ?thesis by blast
next
  case True
  show ?thesis
  proof (cases rule: prune_cases [of now db])
    case aborted
    with r r' True same_id [OF wf] show ?thesis by auto
  next
    case (committed db1 cutoff)
    have "db_step db db1" using recover_step [OF wf committed(1)] by simp
    then have "list_all2 row_step\<^sup>*\<^sup>* (commands db) (commands db1)"
      unfolding db_step_def moved_def by (auto elim: list_all2_mono)
    moreover have "r' \<in> set (commands db1)" using r'(1) True committed(3) by simp
    ultimately show ?thesis using ids_of_step distinct_ids [OF wf] r r'(2) by blast
  qed
qed

lemma call_keeps:
  assumes wf: "well_formed db" and r: "r \<in> set (commands db)" and call: "c \<noteq> PruneCommands"
  shows "\<exists>r' \<in> set (commands (call_commands peers now c db)). row_step\<^sup>*\<^sup>* r r'"
proof -
  obtain mid where mid: "list_all2 row_step\<^sup>*\<^sup>* (commands db) mid"
    "commands (call_commands peers now c db) = mid \<or> (\<exists>x. fresh_row x \<and> commands (call_commands peers now c db) = mid @ [x])"
    using call_refines [OF wf call, of peers now] unfolding call_step_def commands_step_def by blast
  with list_all2_left [OF mid(1) r] show ?thesis by auto
qed

text \<open>Only the session a command targets executes it.\<close>

definition executes_on_target :: "command_row \<Rightarrow> bool" where
  "executes_on_target r \<longleftrightarrow> (cr_state r = ''executing'' \<longrightarrow> cr_owner_session_id r = Some (cr_session_id r))"

lemma row_step_target: "row_step r r' \<Longrightarrow> executes_on_target r \<Longrightarrow> executes_on_target r'"
  by (erule row_stepE) (auto simp: executes_on_target_def)

lemma row_steps_target: "row_step\<^sup>*\<^sup>* r r' \<Longrightarrow> executes_on_target r \<Longrightarrow> executes_on_target r'"
  by (induction rule: rtranclp_induct) (auto dest: row_step_target)

lemma reachable_on_target: "reachable_db db \<Longrightarrow> r \<in> set (commands db) \<Longrightarrow> executes_on_target r"
proof (induction arbitrary: r rule: reachable_db.induct)
  case (called db peers now c)
  from call_origin [OF reachable_well_formed [OF called.hyps] called.prems] called.IH row_steps_target show ?case
    by (auto simp: fresh_row_def executes_on_target_def)
qed simp_all

section \<open>Sample\<close>

definition sample_env :: string where "sample_env = ''11111111-1111-1111-1111-111111111111''"
definition sample_project :: string where "sample_project = ''22222222-2222-2222-2222-222222222222''"
definition sample_agent :: string where "sample_agent = ''33333333-3333-3333-3333-333333333333''"
definition sample_session :: string where "sample_session = ''44444444-4444-4444-4444-444444444444''"
definition sample_command :: string where "sample_command = ''55555555-5555-5555-5555-555555555555''"

definition sample_target :: command_target where
  "sample_target = \<lparr>ct_projectId = sample_project, ct_environmentId = sample_env, ct_localProjectId = ''app'',
     ct_agentId = sample_agent, ct_sessionId = sample_session, ct_managed = True, ct_online = True, ct_valid = True,
     ct_supported = True\<rparr>"

definition sample_peers :: command_peers where
  "sample_peers = \<lparr>pe_resolveTarget = (\<lambda>_ _. Inr (Some sample_target)), pe_verifyAgent = (\<lambda>_ _. Inr True)\<rparr>"

definition sample_identity :: agent_identity where
  "sample_identity = \<lparr>ai_environmentId = sample_env, ai_agentId = sample_agent, ai_credential = ''c'', ai_sessionId = sample_session\<rparr>"

definition sample_fleet :: fleet_db where
  "sample_fleet = empty_db\<lparr>
     environments := [\<lparr>en_id = sample_env, en_name = ''laptop'', en_enrollment = ''enrolled'', en_connection = ''online'',
       en_last_contact_at = None\<rparr>],
     credentials := [\<lparr>cd_environment_id = sample_env, cd_agent_id = sample_agent, cd_verifier = ''v''\<rparr>]\<rparr>"

definition sample_time :: int where "sample_time = 1700000000000"

definition start_request :: "json option" where "start_request = Some (JObj [(''operation'', JStr ''start'')])"

definition agent_request :: "(string \<times> json) list \<Rightarrow> json option" where
  "agent_request extra = Some (JObj ([(''protocolVersion'', JNum 1), (''requestId'', JStr sample_command),
     (''environmentId'', JStr sample_env), (''sessionId'', JStr sample_session)] @ extra))"

definition sample_submit :: command_call where
  "sample_submit = SubmitCommand sample_command sample_project ''key-1'' start_request"

definition sample_claim :: command_call where
  "sample_claim = ClaimCommand sample_identity (agent_request [(''commandId'', JStr sample_command)])"

definition sample_result :: command_call where
  "sample_result = PublishResult sample_identity (agent_request [(''result'',
     JObj [(''kind'', JStr ''command''), (''commandId'', JStr sample_command), (''state'', JStr ''succeeded''),
       (''observedAt'', JStr ''2023-11-14T22:13:30Z''), (''evidence'', JObj [])])])"

text \<open>The sample command as it is submitted, claimed and finished, with its audit records.\<close>

definition waiting_row :: command_row where
  "waiting_row =
     \<lparr>cr_rowid = 1, cr_command_id = sample_command, cr_project_id = sample_project, cr_environment_id = sample_env,
      cr_local_project_id = ''app'', cr_session_id = sample_session, cr_operation = ''start'', cr_actor = ''local-owner'',
      cr_idempotency_key = ''key-1'', cr_submitted_at = ''2023-11-14T22:13:20.000Z'',
      cr_expires_at = ''2023-11-14T22:13:50.000Z'', cr_state = ''accepted'', cr_claimed_at = None,
      cr_owner_agent_id = None, cr_owner_session_id = None, cr_completed_at = None, cr_evidence = None,
      cr_diagnostic = None, cr_closed_at = None, cr_closed_actor = None, cr_closed_reason = None\<rparr>"

definition executing_row :: command_row where
  "executing_row = waiting_row\<lparr>cr_state := ''executing'', cr_claimed_at := Some ''2023-11-14T22:13:21.000Z'',
     cr_owner_agent_id := Some sample_agent, cr_owner_session_id := Some sample_session\<rparr>"

definition succeeded_row :: command_row where
  "succeeded_row = executing_row\<lparr>cr_state := ''succeeded'', cr_completed_at := Some ''2023-11-14T22:13:29.000Z'',
     cr_evidence := Some (JObj [])\<rparr>"

definition sample_audit :: "string \<Rightarrow> string \<Rightarrow> string option \<Rightarrow> string \<Rightarrow> string \<Rightarrow> audit_row" where
  "sample_audit actor operation request t outcome =
     \<lparr>ad_actor = actor, ad_target = sample_command, ad_operation = operation, ad_request_id = request,
      ad_occurred_at = t, ad_outcome = outcome\<rparr>"

definition submitted_fleet :: fleet_db where
  "submitted_fleet = sample_fleet\<lparr>commands := [waiting_row],
     audits := [sample_audit ''local-owner'' ''command.submit'' None ''2023-11-14T22:13:20.000Z'' ''accepted'']\<rparr>"

definition claimed_fleet :: fleet_db where
  "claimed_fleet = submitted_fleet\<lparr>commands := [executing_row],
     audits := audits submitted_fleet @ [sample_audit (''agent:'' @ sample_agent) ''command.claim'' (Some sample_command)
       ''2023-11-14T22:13:21.000Z'' ''executing'']\<rparr>"

definition finished_fleet :: fleet_db where
  "finished_fleet = claimed_fleet\<lparr>commands := [succeeded_row],
     audits := audits claimed_fleet @ [sample_audit (''agent:'' @ sample_agent) ''command.result'' (Some sample_command)
       ''2023-11-14T22:13:29.000Z'' ''succeeded'']\<rparr>"

lemma sample_calls:
  "call_commands sample_peers sample_time sample_submit sample_fleet = submitted_fleet"
  "call_commands sample_peers (sample_time + 1000) sample_claim submitted_fleet = claimed_fleet"
  "call_commands sample_peers (sample_time + 9000) sample_result claimed_fleet = finished_fleet"
  by code_simp+

lemma reachable_samples: "reachable_db submitted_fleet" "reachable_db claimed_fleet" "reachable_db finished_fleet"
proof -
  have "reachable_db sample_fleet" by (rule reachable_db.start) (simp add: sample_fleet_def empty_db_def)
  then show "reachable_db submitted_fleet" unfolding sample_calls(1) [symmetric] by (rule reachable_db.called)
  then show "reachable_db claimed_fleet" unfolding sample_calls(2) [symmetric] by (rule reachable_db.called)
  then show "reachable_db finished_fleet" unfolding sample_calls(3) [symmetric] by (rule reachable_db.called)
qed

lemma sample_commands [simp]:
  "commands submitted_fleet = [waiting_row]" "commands claimed_fleet = [executing_row]" "commands finished_fleet = [succeeded_row]"
  by (simp_all add: submitted_fleet_def claimed_fleet_def finished_fleet_def)

end
