(* ===== verification/FleetGuarantees.thy ===== *)
theory FleetGuarantees
  imports FleetService
begin

text \<open>
  What the command service guarantees its callers, over every database that calls can reach:
  idempotent submission, complete history pages, claims, retention, constraints.
\<close>

section \<open>Submission\<close>

lemma uuid_parsed: "uuid_ok s \<Longrightarrow> \<exists>j. parse_uuid s = Inr j"
  using is_ok_scalars(2) [of s "''$''"] by (auto simp: parse_uuid_def parse_command_input_def is_ok_iff)

lemma operation_parsed:
  assumes "op \<in> {''start'', ''stop''}"
  shows "parse_command_input submitCommandRequestSchema (Some (JObj [(''operation'', JStr op)])) = Inr (JObj [(''operation'', JStr op)])"
  using assms by (auto simp: parse_command_input_def submitCommandRequestSchema_def object_schema_def enumeration_schema_def members_def)

lemma resubmission:
  assumes db: "reachable_db db" and r: "r \<in> set (commands db)"
    and op: "op \<in> {''start'', ''stop''}" and project: "uuid_ok projectId" and key: "utf8Bytes (cr_idempotency_key r) \<le> 256"
  shows "submitCommand peers uuid now projectId (cr_idempotency_key r) (Some (JObj [(''operation'', JStr op)])) db =
    (if cr_project_id r = projectId \<and> cr_operation r = op then Inr (cr_command_id r)
     else Inl (FleetError ''idempotency_conflict'' ''Key already identifies another operation/target''), db)"
proof -
  note wf = reachable_well_formed [OF db]
  note valid = row_valid_in [OF wf r]
  have actor: "cr_actor r = OPERATOR_ACTOR" using valid by (simp add: row_valid_def row_check_def OPERATOR_ACTOR_def)
  have words: "js_trim (cr_idempotency_key r) \<noteq> []"
    using valid by (simp add: row_valid_def command_ok_def text_ok_def) (simp add: command_of_row_def)
  have keys: "distinct (map (\<lambda>r. (cr_actor r, cr_idempotency_key r)) (commands db))"
    using wf by (simp add: well_formed_def commands_ok_def)
  have "find (\<lambda>x. cr_actor x = OPERATOR_ACTOR \<and> cr_idempotency_key x = cr_idempotency_key r) (commands db) = Some r"
    using find_distinct [OF keys r] actor by simp
  then have "submit_tx peers uuid now projectId (cr_idempotency_key r) op db = resubmit_command projectId op r db"
    by (simp add: submit_tx_def)
  moreover obtain j where "parse_uuid projectId = Inr j" using uuid_parsed [OF project] by blast
  moreover have "field (JObj [(''operation'', JStr op)]) [''operation''] = op" by (simp add: field_def string_at_def members_def)
  ultimately show ?thesis
    using key words by (simp add: submitCommand_def operation_parsed [OF op] transaction_def resubmit_command_def
      record_of_valid [OF valid])
qed

section \<open>History\<close>

fun history_walk :: "nat \<Rightarrow> string \<Rightarrow> nat \<Rightarrow> string option \<Rightarrow> fleet_db \<Rightarrow> fleet_error + command list" where
  "history_walk 0 projectId limit cursor db = Inr []"
| "history_walk (Suc n) projectId limit cursor db =
     rbind (page_cursor projectId cursor db) (\<lambda>from.
     rbind (history_page projectId limit from db) (\<lambda>(items, next_cursor).
       case next_cursor of
         None \<Rightarrow> Inr items
       | Some c \<Rightarrow> rbind (history_walk n projectId limit (Some c) db) (\<lambda>rest. Inr (items @ rest))))"

lemma records_of_valid: "list_all row_valid rows \<Longrightarrow> records_of rows = Inr (map command_of_row rows)"
  by (induction rows) (auto simp: record_of_valid)

definition project_rows :: "string \<Rightarrow> fleet_db \<Rightarrow> command_row list" where
  "project_rows projectId db = filter (\<lambda>r. cr_project_id r = projectId) (commands db)"

lemma sort_key_sorted: "sorted_wrt (<) (map f xs) \<Longrightarrow> sort_key f xs = (xs :: 'a list)" for f :: "'a \<Rightarrow> int"
  by (rule sort_key_id_if_sorted) (metis sorted_wrt_mono_rel less_imp_le)

text \<open>The rows older than the \<open>k\<close>-th of a project, newest first.\<close>

lemma page_rows:
  assumes wf: "well_formed db" and split: "project_rows projectId db = older @ r # newer"
  shows "filter (\<lambda>x. cr_project_id x = projectId \<and> cr_rowid x < cr_rowid r) (commands db) = older"
proof -
  have "sorted_wrt (<) (map cr_rowid (project_rows projectId db))"
    using wf by (simp add: project_rows_def well_formed_def sorted_wrt_map sorted_wrt_filter)
  then have "filter (\<lambda>x. cr_rowid x < cr_rowid r) (older @ r # newer) = older"
    unfolding split by (auto simp: sorted_wrt_append filter_id_conv filter_empty_conv)
  moreover have "filter (\<lambda>x. cr_project_id x = projectId \<and> cr_rowid x < cr_rowid r) (commands db) =
      filter (\<lambda>x. cr_rowid x < cr_rowid r) (project_rows projectId db)"
    by (simp add: project_rows_def conj_commute)
  ultimately show ?thesis by (simp add: split)
qed


lemma history_page_rows:
  assumes wf: "well_formed db" and "limit > 0"
    and older: "filter (\<lambda>x. cr_project_id x = projectId \<and> cr_rowid x < k) (commands db) = older"
  shows "history_page projectId limit k db =
    Inr (map command_of_row (take limit (rev older)),
      if limit < length older then Some (cr_command_id (rev older ! (limit - 1))) else None)"
proof -
  have "sorted_wrt (<) (map cr_rowid older)"
    using wf by (simp add: well_formed_def sorted_wrt_map sorted_wrt_filter flip: older)
  then have sort: "sort_key cr_rowid older = older" by (rule sort_key_sorted)
  have valid: "list_all row_valid older" using wf by (simp add: well_formed_def list_all_iff flip: older)
  then have items: "records_of (take limit (rev older)) = Inr (map command_of_row (take limit (rev older)))"
    by (intro records_of_valid) (auto simp: list_all_iff dest: in_set_takeD)
  have cut: "take limit (take (limit + 1) (rev older)) = take limit (rev older)" by (simp add: min_def)
  have "cm_commandId (last (map command_of_row (take limit (rev older)))) = cr_command_id (rev older ! (limit - 1))"
    if "limit < length older"
  proof -
    have "take limit (rev older) \<noteq> []" using that \<open>limit > 0\<close> by auto
    then have "last (map command_of_row (take limit (rev older))) = command_of_row (take limit (rev older) ! (limit - 1))"
      using that by (simp add: last_conv_nth)
    then show ?thesis using \<open>limit > 0\<close> by simp
  qed
  then show ?thesis
    unfolding history_page_def older sort Let_def cut items by (simp add: min_def)
qed

lemma find_unique:
  assumes "r \<in> set rows" "P r" "\<And>x. x \<in> set rows \<Longrightarrow> P x \<Longrightarrow> x = r"
  shows "find P rows = Some r"
proof (cases "find P rows")
  case None
  with assms(1,2) show ?thesis by (simp add: find_None_mem)
next
  case (Some y)
  from find_Some_mem [OF this] assms(3) [of y] Some show ?thesis by simp
qed

lemma cursor_row:
  assumes wf: "well_formed db" and r: "r \<in> set (commands db)" "cr_project_id r = projectId"
  shows "page_cursor projectId (Some (cr_command_id r)) db = Inr (cr_rowid r)"
proof -
  have id: "uuid_ok (cr_command_id r)"
    using row_valid_in [OF wf r(1)] by (simp add: row_valid_def command_ok_def)
  then have "cr_command_id r \<noteq> []" by (auto simp: uuid_ok_def)
  moreover have "find (\<lambda>x. cr_command_id x = cr_command_id r \<and> cr_project_id x = projectId) (commands db) = Some r"
    by (rule find_unique) (use r same_id [OF wf r(1)] in auto)
  ultimately show ?thesis using uuid_parsed [OF id] by (auto simp: page_cursor_def text_present_def)
qed

lemma walk_older:
  assumes wf: "well_formed db" and limit: "limit > 0"
  shows "project_rows projectId db = older @ newer \<Longrightarrow> page_cursor projectId cursor db = Inr k \<Longrightarrow>
    filter (\<lambda>x. cr_project_id x = projectId \<and> cr_rowid x < k) (commands db) = older \<Longrightarrow> length older \<le> n \<Longrightarrow>
    history_walk n projectId limit cursor db = Inr (map command_of_row (rev older))"
proof (induction n arbitrary: older newer cursor k)
  case (Suc n)
  note page = history_page_rows [OF wf limit Suc.prems(3)]
  show ?case
  proof (cases "limit < length older")
    case False
    then show ?thesis using page Suc.prems(2) by simp
  next
    case True
    let ?m = "length older - limit"
    define r where "r = older ! ?m"
    have split: "older = take ?m older @ r # drop (Suc ?m) older"
      using True limit by (simp add: r_def id_take_nth_drop)
    have last: "rev older ! (limit - 1) = r" using True limit by (simp add: r_def rev_nth)
    have items: "take limit (rev older) = rev (r # drop (Suc ?m) older)"
      using True limit by (simp add: take_rev r_def Cons_nth_drop_Suc)
    have rows: "project_rows projectId db = take ?m older @ r # (drop (Suc ?m) older @ newer)"
      using Suc.prems(1) split by (metis append.assoc append_Cons)
    have "r \<in> set (project_rows projectId db)" by (simp add: rows)
    then have r: "r \<in> set (commands db)" "cr_project_id r = projectId" by (simp_all add: project_rows_def)
    have "length (take ?m older) \<le> n" using Suc.prems(4) limit True by simp
    from Suc.IH [OF rows cursor_row [OF wf r] page_rows [OF wf rows] this]
    have rest: "history_walk n projectId limit (Some (cr_command_id r)) db = Inr (map command_of_row (rev (take ?m older)))" .
    have "rev older = take limit (rev older) @ rev (take ?m older)"
      using split items by (metis rev_append)
    then have "map command_of_row (rev older) = map command_of_row (take limit (rev older)) @ map command_of_row (rev (take ?m older))"
      by (metis map_append)
    with True rest page last Suc.prems(2) show ?thesis by simp
  qed
qed simp

lemma history_complete:
  assumes "well_formed db" "limit > 0" "\<forall>r \<in> set (commands db). cr_rowid r < max_safe"
    and "length (project_rows projectId db) \<le> n"
  shows "history_walk n projectId limit None db = Inr (map command_of_row (rev (project_rows projectId db)))"
proof -
  have "filter (\<lambda>x. cr_project_id x = projectId \<and> cr_rowid x < max_safe) (commands db) = project_rows projectId db"
    using assms(3) unfolding project_rows_def by (intro filter_cong) auto
  from walk_older [OF assms(1,2) _ _ this assms(4), of "[]"] show ?thesis by (simp add: page_cursor_def text_present_def)
qed


section \<open>Claims\<close>

lemma expire_keeps:
  "expire now c db = Inr (c', db') \<Longrightarrow>
     cm_owner c' = cm_owner c \<and> cm_claimedAt c' = cm_claimedAt c \<and> cm_commandId c' = cm_commandId c"
  by (auto simp: expire_def save_audited_def rbind_Inr_iff split: if_splits)

lemma claim_Inr:
  assumes "claim peers now identity input db = (Inr resp, db')"
  obtains request where "claim_tx peers now identity request db = Inr (cl_command resp, db')" "cm_state (cl_command resp) \<noteq> ''expired''"
proof (cases "parse_command_input claimRequestSchema input")
  case (Inr request)
  with assms that [of request] show thesis
    by (cases "transaction (claim_tx peers now identity request) db")
      (auto simp: claim_def transaction_Inr split: sum.splits if_splits)
qed (use assms in \<open>simp add: claim_def\<close>)

lemma envelope_verified: "check_envelope peers identity request db = Inr () \<Longrightarrow> pe_verifyAgent peers identity db = Inr True"
  by (auto simp: check_envelope_def verify_agent_def rbind_Inr_iff split: if_splits)

lemma claimed_for_target:
  assumes db: "reachable_db db" and ok: "claim peers now identity input db = (Inr resp, db')"
  obtains r where "r \<in> set (commands db)" "cr_command_id r = cm_commandId (cl_command resp)"
    "cr_environment_id r = ai_environmentId identity" "pe_verifyAgent peers identity db = Inr True"
    "cm_owner (cl_command resp) = Some (ai_agentId identity, ai_sessionId identity)"
    "cr_state r = ''accepted'' \<Longrightarrow> cr_session_id r = ai_sessionId identity \<and> cm_state (cl_command resp) = ''executing'' \<and>
       \<not> elapsed (Some (cr_expires_at r)) 0 now"
    "cr_state r \<noteq> ''accepted'' \<Longrightarrow> cm_claimedAt (cl_command resp) = cr_claimed_at r"
proof -
  note wf = reachable_well_formed [OF db]
  obtain request where tx: "claim_tx peers now identity request db = Inr (cl_command resp, db')"
    and live: "cm_state (cl_command resp) \<noteq> ''expired''" by (rule claim_Inr [OF ok])
  from tx show thesis
  proof (cases rule: claim_tx_cases)
    case (again c0)
    from get_command_Inr [OF wf again(2)] obtain r where r: "r \<in> set (commands db)" "c0 = command_of_row r" by blast
    note valid = row_valid_in [OF wf r(1)]
    have owner: "cm_owner c0 = Some (ai_agentId identity, ai_sessionId identity)"
      using again(4) by (auto simp: check_owner_def split: if_splits)
    have "cr_state r \<noteq> ''accepted''"
      using owner row_columns(2) [OF valid] valid by (auto simp: r(2) row_valid_def row_check_def)
    then show thesis
      using that [OF r(1)] expire_keeps [OF again(5)] again(1,3) owner r(2) row_columns(1) [OF valid] envelope_verified by simp
  next
    case (first c0 c db1)
    from get_command_Inr [OF wf first(2)] obtain r where r: "r \<in> set (commands db)" "c0 = command_of_row r" by blast
    have "cm_state c \<noteq> ''expired''"
    proof
      assume "cm_state c = ''expired''"
      with first(7) have "cl_command resp = c" by (simp add: grant_claim_def)
      with live \<open>cm_state c = ''expired''\<close> show False by simp
    qed
    from expire_unowned [OF row_valid_in [OF wf r(1)] _ _ this, of now db db1] first(4,6) r(2)
    have c: "c = command_of_row r" "db1 = db" "cr_state r = ''accepted''" "\<not> elapsed (Some (cr_expires_at r)) 0 now" by simp_all
    have session: "cr_session_id r = ai_sessionId identity" and unowned: "cm_owner (command_of_row r) = None"
      using first(4,5) r(2) by simp_all
    from grant_step [OF wf r(1) unowned session c(3)] first(7) c(1,2) obtain t where
      "cl_command resp = (command_of_row r)\<lparr>cm_state := ''executing'', cm_claimedAt := Some t,
         cm_owner := Some (ai_agentId identity, ai_sessionId identity)\<rparr>" by metis
    with that [OF r(1)] first(1,3) r(2) c(3,4) session envelope_verified show thesis by simp
  qed
qed

section \<open>Retention\<close>



text \<open>
  When a command was over: a result ends it when it was completed, an unclaimed one ends when it
  expires, and one of unknown outcome when the operator closes it. Before that it has no end.
\<close>

definition ended_at :: "command_row \<Rightarrow> string option" where
  "ended_at r =
     (if cr_state r = ''succeeded'' \<or> cr_state r = ''failed'' then cr_completed_at r
      else if cr_state r = ''expired'' then Some (cr_expires_at r)
      else if cr_state r = ''unknown'' then cr_closed_at r
      else None)"



lemma ended_not_outstanding: "ended_at r = Some t \<Longrightarrow> \<not> outstanding r"
  by (auto simp: ended_at_def outstanding_def split: if_splits)



section \<open>The constraints of the table\<close>

lemma unconstrained_simps [simp]:
  "FleetError a b \<noteq> constraint_error" "ProtocolError m \<noteq> constraint_error"
  "clock_text t \<noteq> Inl constraint_error" "parse_protocol s v \<noteq> Inl constraint_error"
  "parse_command_input s v \<noteq> Inl constraint_error" "parse_uuid i \<noteq> Inl constraint_error"
  by (auto simp: constraint_error_def clock_text_def toISOString_def parse_protocol_def parse_command_input_def parse_uuid_def
      split: sum.splits if_splits)

lemma saved_unconstrained:
  assumes "well_formed db" "r \<in> set (commands db)" "names_row c r" "row_step r (store_command c r)"
  shows "save_audited c operation actor request now db \<noteq> Inl constraint_error"
  using save_cases [OF assms(1-3) r_into_rtranclp [of row_step, OF assms(4)]]
  by cases (auto simp: save_audited_def audit_def rbind_Inl_iff)

lemma expire_unconstrained:
  assumes wf: "well_formed db" and r: "r \<in> set (commands db)"
  shows "expire now (command_of_row r) db \<noteq> Inl constraint_error"
proof -
  note self = store_self [OF row_valid_in [OF wf r]]
  have e: "cr_state r = ''accepted'' \<Longrightarrow> row_step r (store_command (command_of_row r\<lparr>cm_state := ''expired''\<rparr>) r)"
    by (simp add: store_columns self row_step.expired)
  have u: "cr_state r = ''executing'' \<Longrightarrow> row_step r (store_command (command_of_row r\<lparr>cm_state := ''unknown'',
      cm_diagnostic := Some (''unresolved_command'', ''Execution result not observed before timeout'')\<rparr>) r)"
    using row_step.timed_out [of r] by (simp add: store_columns self)
  from saved_unconstrained [OF wf r _ e] saved_unconstrained [OF wf r _ u] show ?thesis
    by (simp add: expire_def)
qed

lemma expire_rows_unconstrained:
  "well_formed db \<Longrightarrow> set rs \<subseteq> set (commands db) \<Longrightarrow> distinct rs \<Longrightarrow> expire_rows now rs db \<noteq> Inl constraint_error"
proof (induction rs arbitrary: db)
  case (Cons r rs)
  then have r: "r \<in> set (commands db)" by simp
  show ?case
  proof (cases "expire now (command_of_row r) db")
    case (Inl e)
    then have "e \<noteq> constraint_error" using expire_unconstrained [OF Cons.prems(1) r, of now] by auto
    with Inl show ?thesis by (simp add: record_of_valid [OF row_valid_in [OF Cons.prems(1) r]])
  next
    case (Inr x)
    obtain c db1 where x: "x = (c, db1)" by (cases x)
    note tx = expire_tx [OF Cons.prems(1) r Inr [unfolded x]]
    then have "set rs \<subseteq> set (commands db1)" using Cons.prems(2,3) by (auto simp: row_tx_def)
    with Cons tx Inr x show ?thesis by (simp add: record_of_valid [OF row_valid_in [OF Cons.prems(1) r]])
  qed
qed simp

lemma admission_unconstrained:
  "admit_target projectId operation target db \<noteq> Inl constraint_error"
  "admit_capacity projectId i db \<noteq> Inl constraint_error" "new_command uuid projectId operation key t now \<noteq> Inl constraint_error"
proof -
  have "Failure ''Peer returned a different project identity'' \<noteq> constraint_error" by (simp add: constraint_error_def)
  then show "admit_target projectId operation target db \<noteq> Inl constraint_error"
    by (auto simp: admit_target_def rbind_Inl_iff split: option.splits if_splits)
  show "admit_capacity projectId i db \<noteq> Inl constraint_error" "new_command uuid projectId operation key t now \<noteq> Inl constraint_error"
    by (auto simp: admit_capacity_def new_command_def rbind_Inl_iff split: option.splits if_splits)
qed

lemma submission_unconstrained:
  assumes db: "reachable_db db" and fresh: "uuid \<notin> cr_command_id ` set (commands db)"
    and peers: "\<And>d. pe_resolveTarget peers projectId d \<noteq> Inl constraint_error"
  shows "fst (submitCommand peers uuid now projectId key input db) \<noteq> Inl constraint_error"
proof -
  note wf = reachable_well_formed [OF db]
  have "submit_tx peers uuid now projectId key operation db \<noteq> Inl constraint_error" for operation
  proof (cases "find (\<lambda>r. cr_actor r = OPERATOR_ACTOR \<and> cr_idempotency_key r = key) (commands db)")
    case (Some r)
    then have "r \<in> set (commands db)" using find_Some_mem by fast
    from record_of_valid [OF row_valid_in [OF wf this]] Some show ?thesis
      by (simp add: submit_tx_def resubmit_command_def)
  next
    case None
    show ?thesis
    proof
      assume "submit_tx peers uuid now projectId key operation db = Inl constraint_error"
      with None have failed: "accept_command peers uuid now projectId key operation db = Inl constraint_error"
        by (simp add: submit_tx_def)
      have "recover now db \<noteq> Inl constraint_error"
        unfolding recover_def by (rule expire_rows_unconstrained [OF wf]) (auto simp: distinct_rows [OF wf])
      with failed peers obtain db1 target t c where
        recovered: "recover now db = Inr db1" and target: "admit_target projectId operation target db1 = Inr t"
          "admit_capacity projectId (ct_environmentId t) db1 = Inr ()" and
        new: "new_command uuid projectId operation key t now = Inr c" and
        document: "is_ok (parse_protocol commandRecordSchema (Some (command_json c)))" and
        insert: "insert_command c db1 = Inl constraint_error"
        by (auto simp: accept_command_def rbind_Inl_iff admission_unconstrained audit_def)
      have step: "db_step db db1" and wf1: "well_formed db1" using recover_step [OF wf recovered] by simp_all
      then have "list_all2 row_step\<^sup>*\<^sup>* (commands db) (commands db1)"
        unfolding db_step_def moved_def by (auto elim: list_all2_mono)
      note same = moved_rows(2,3) [OF this]
      have "cr_command_id ` set (commands db1) = cr_command_id ` set (commands db)" using same(1) by (metis list.set_map)
      with fresh have "uuid \<notin> cr_command_id ` set (commands db1)" by simp
      moreover have "find (\<lambda>r. cr_actor r = OPERATOR_ACTOR \<and> cr_idempotency_key r = key) (commands db1) = None"
      proof -
        have "(OPERATOR_ACTOR, key) \<notin> set (map (\<lambda>r. (cr_actor r, cr_idempotency_key r)) (commands db))"
          using None by (auto simp: find_None_mem)
        then show ?thesis unfolding same(2) [symmetric] find_None_mem set_map by (metis (mono_tags, lifting) image_eqI)
      qed
      moreover have "command_ok c" "states_agree c"
        using document by (simp_all add: parse_protocol_ok command_document_ok)
      moreover have "target = Some t" using target(1) by (cases target) (auto simp: admit_target_def rbind_Inr_iff split: if_splits)
      ultimately show False using insert_unconstrained [OF wf1 new] target insert by auto
    qed
  qed
  then show ?thesis
    by (auto simp: submitCommand_def transaction_def Let_def rbind_Inl_iff split: sum.splits prod.splits)
qed


section \<open>Properties\<close>

text \<open>
  C13. The command service refines the life cycle of a command: in every reachable database, every
  row a call leaves in the table is a newly accepted command or comes from the row of the same
  command by steps of the life cycle (expire, claim, time out, publish, transfer, close).
\<close>

theorem commands_follow_their_lifecycle:
  assumes "reachable_db db" and "r' \<in> set (commands (call_commands peers now c db))"
  shows "fresh_row r' \<or> (\<exists>r \<in> set (commands db). row_step\<^sup>*\<^sup>* r r' \<and> row_order r' = row_order r)"
  using call_origin [OF reachable_well_formed [OF assms(1)] assms(2)] row_steps_order by blast

lemma commands_follow_their_lifecycle_witness:
  "fresh_row executing_row \<or> (\<exists>r \<in> set (commands submitted_fleet). row_step\<^sup>*\<^sup>* r executing_row \<and> row_order executing_row = row_order r)"
  by (rule commands_follow_their_lifecycle [OF reachable_samples(1),
      of executing_row sample_peers "sample_time + 1000" sample_claim]) (simp add: sample_calls)

text \<open>
  C14. At most one command of a project is outstanding (accepted, executing, or unknown and not
  closed), and at most four of an environment, whatever calls were made.
\<close>

theorem project_slot_is_exclusive:
  assumes "reachable_db db"
  shows "(\<forall>r \<in> set (commands db). \<forall>r' \<in> set (commands db). outstanding r \<longrightarrow> outstanding r' \<longrightarrow>
      cr_project_id r = cr_project_id r' \<longrightarrow> r = r') \<and>
    length (filter (\<lambda>r. cr_environment_id r = i \<and> outstanding r) (commands db)) \<le> 4"
proof -
  note wf = reachable_well_formed [OF assms]
  then have "distinct (map cr_project_id (filter outstanding (commands db)))" by (simp add: well_formed_def commands_ok_def)
  moreover from wf have "int (length (active_in i (commands db))) \<le> 4" by (simp add: well_formed_def activeCommandsPerAgent_def)
  ultimately show ?thesis by (auto simp: distinct_map inj_on_def active_in_def)
qed

lemma project_slot_is_exclusive_witness:
  "length (filter (\<lambda>r. cr_environment_id r = sample_env \<and> outstanding r) (commands claimed_fleet)) \<le> 4"
  using project_slot_is_exclusive [OF reachable_samples(2), of sample_env] by simp

text \<open>
  C15. A finished command is durable: once a command succeeded, failed or expired, no call changes its
  state, evidence, diagnostic or time of completion, and only pruning removes it.
\<close>

theorem finished_outcome_is_durable:
  assumes "reachable_db db" "r \<in> set (commands db)" "cr_state r \<in> {''succeeded'', ''failed'', ''expired''}"
  shows "(\<forall>r' \<in> set (commands (call_commands peers now c db)). cr_command_id r' = cr_command_id r \<longrightarrow> row_outcome r' = row_outcome r) \<and>
    (c \<noteq> PruneCommands \<longrightarrow> (\<exists>r' \<in> set (commands (call_commands peers now c db)). cr_command_id r' = cr_command_id r))"
proof -
  note wf = reachable_well_formed [OF assms(1)]
  have "\<exists>r' \<in> set (commands (call_commands peers now c db)). cr_command_id r' = cr_command_id r" if "c \<noteq> PruneCommands"
    using call_keeps [OF wf assms(2) that] row_steps_order by (fastforce simp: row_order_def)
  then show ?thesis using call_same_id [OF wf assms(2)] row_steps_final [OF _ assms(3)] by blast
qed

lemma finished_outcome_is_durable_witness:
  "filter (\<lambda>r'. cr_command_id r' = sample_command \<and> row_outcome r' \<noteq> row_outcome succeeded_row)
     (commands (call_commands sample_peers (sample_time + 20000) sample_result finished_fleet)) = []"
proof -
  have "cr_state succeeded_row \<in> {''succeeded'', ''failed'', ''expired''}" "cr_command_id succeeded_row = sample_command"
    by (simp_all add: succeeded_row_def executing_row_def waiting_row_def)
  with finished_outcome_is_durable [OF reachable_samples(3), of succeeded_row] show ?thesis
    by (simp add: filter_empty_conv)
qed

text \<open>
  C17. Permission to execute never moves: a command that is executing is owned by the session it was
  submitted to, even when agents reconnect and take ownership over.
\<close>

theorem execution_stays_on_its_session:
  assumes "reachable_db db" "r \<in> set (commands db)" "cr_state r = ''executing''"
  shows "cr_owner_session_id r = Some (cr_session_id r)"
  using reachable_on_target [OF assms(1,2)] assms(3) by (simp add: executes_on_target_def)

lemma execution_stays_on_its_session_witness: "cr_owner_session_id executing_row = Some (cr_session_id executing_row)"
  by (rule execution_stays_on_its_session [OF reachable_samples(2)])
    (simp_all add: executing_row_def)

text \<open>
  C16. A claim that is answered belongs to the verified agent: the command is in its environment and
  owned by its session. A waiting command starts executing only for the session it targets and before
  its deadline; a command that was claimed before keeps the time of its first claim.
\<close>

theorem claim_is_for_the_target:
  assumes "reachable_db db" and "claim peers now identity input db = (Inr resp, db')"
  shows "\<exists>r \<in> set (commands db). cr_command_id r = cm_commandId (cl_command resp) \<and>
      cr_environment_id r = ai_environmentId identity \<and> pe_verifyAgent peers identity db = Inr True \<and>
      cm_owner (cl_command resp) = Some (ai_agentId identity, ai_sessionId identity) \<and>
      (if cr_state r = ''accepted''
       then cr_session_id r = ai_sessionId identity \<and> cm_state (cl_command resp) = ''executing'' \<and>
            \<not> elapsed (Some (cr_expires_at r)) 0 now
       else cm_claimedAt (cl_command resp) = cr_claimed_at r)"
  by (rule claimed_for_target [OF assms]) (auto split: if_splits)

lemma claim_is_for_the_target_witness:
  "\<exists>r \<in> set (commands submitted_fleet). cr_command_id r = sample_command \<and> cr_environment_id r = sample_env \<and> cr_session_id r = sample_session"
proof -
  define answer where "answer = claim sample_peers (sample_time + 1000) sample_identity (agent_request [(''commandId'', JStr sample_command)]) submitted_fleet"
  have "case fst answer of Inl e \<Rightarrow> False | Inr resp \<Rightarrow> cm_commandId (cl_command resp) = sample_command"
    unfolding answer_def by code_simp
  then obtain resp where resp: "fst answer = Inr resp" "cm_commandId (cl_command resp) = sample_command"
    by (cases "fst answer") auto
  then have "claim sample_peers (sample_time + 1000) sample_identity (agent_request [(''commandId'', JStr sample_command)]) submitted_fleet = (Inr resp, snd answer)"
    by (cases answer) (simp add: answer_def)
  from claim_is_for_the_target [OF reachable_samples(1) this] resp(2) show ?thesis
    by (auto simp: waiting_row_def sample_identity_def split: if_splits)
qed

text \<open>
  C35. Submitting again under a key that is in use, at any time and whatever became of the command,
  returns the receipt of the first submission and changes nothing; with another operation or project
  it is refused as a conflict.
\<close>

theorem resubmission_returns_the_receipt:
  assumes "reachable_db db" "r \<in> set (commands db)" "op \<in> {''start'', ''stop''}" "uuid_ok projectId"
    and "utf8Bytes (cr_idempotency_key r) \<le> 256"
  shows "submitCommand peers uuid now projectId (cr_idempotency_key r) (Some (JObj [(''operation'', JStr op)])) db =
    (if cr_project_id r = projectId \<and> cr_operation r = op then Inr (cr_command_id r)
     else Inl (FleetError ''idempotency_conflict'' ''Key already identifies another operation/target''), db)"
  using assms by (rule resubmission)

lemma resubmission_returns_the_receipt_witness:
  "submitCommand sample_peers sample_agent 0 sample_project ''key-1'' (Some (JObj [(''operation'', JStr ''start'')])) finished_fleet =
     (Inr sample_command, finished_fleet)"
proof -
  have "uuid_ok sample_project" by code_simp
  moreover have "utf8Bytes (cr_idempotency_key succeeded_row) \<le> 256" by code_simp
  moreover have "cr_idempotency_key succeeded_row = ''key-1''" "cr_project_id succeeded_row = sample_project"
    "cr_operation succeeded_row = ''start''" "cr_command_id succeeded_row = sample_command"
    by (simp_all add: succeeded_row_def executing_row_def waiting_row_def)
  ultimately show ?thesis
    using resubmission_returns_the_receipt [OF reachable_samples(3), of succeeded_row "''start''" sample_project sample_peers sample_agent 0]
    by simp
qed

text \<open>
  C34. Following the cursors of the history from the first page to the last yields every command of
  the project exactly once, newest first, whatever the size of a page.
\<close>

theorem history_pages_enumerate_once:
  assumes "reachable_db db" "limit > 0" "\<forall>r \<in> set (commands db). cr_rowid r < max_safe"
    and "length (project_rows projectId db) \<le> n"
  shows "history_walk n projectId limit None db = Inr (map command_of_row (rev (project_rows projectId db)))"
  using history_complete [OF reachable_well_formed [OF assms(1)] assms(2-4)] .

lemma history_pages_enumerate_once_witness:
  "history_walk 1 sample_project 1 None finished_fleet = Inr [command_of_row succeeded_row]"
proof -
  have "project_rows sample_project finished_fleet = [succeeded_row]" "cr_rowid succeeded_row < max_safe"
    by (simp_all add: project_rows_def succeeded_row_def executing_row_def waiting_row_def max_safe_def)
  with history_pages_enumerate_once [OF reachable_samples(3), of 1 sample_project 1] show ?thesis by simp
qed



text \<open>
  The checks of the service imply the constraints of its table: with a new identifier, no
  submission ever fails because a row violates a constraint or one of the unique indexes.
\<close>

theorem submission_meets_the_constraints:
  assumes "reachable_db db" and "uuid \<notin> cr_command_id ` set (commands db)"
    and "\<And>d. pe_resolveTarget peers projectId d \<noteq> Inl constraint_error"
  shows "fst (submitCommand peers uuid now projectId key input db) \<noteq> Inl constraint_error"
  using assms by (rule submission_unconstrained)

lemma submission_meets_the_constraints_witness:
  "fst (submitCommand sample_peers sample_agent sample_time sample_project ''key-2'' start_request finished_fleet) \<noteq> Inl constraint_error"
proof (rule submission_meets_the_constraints [OF reachable_samples(3)])
  show "sample_agent \<notin> cr_command_id ` set (commands finished_fleet)"
    by (simp add: succeeded_row_def executing_row_def waiting_row_def sample_agent_def sample_command_def)
qed (simp add: sample_peers_def)

end
