(* ===== verification/FleetObservations.thy ===== *)
theory FleetObservations
  imports FleetCommands
begin

text \<open>
  \<open>packages/fleet-control-plane/src/observations.ts\<close>: the inventory an agent publishes page by page,
  the projects it makes known, and what is shown of them. An observation is the document the agent
  sent; the body of a request is parsed before it gets here. \<open>localeCompare\<close> and the encoding of a
  cursor are parameters. The JSON texts that the code compares as keys are compared as values.
\<close>

section \<open>Environments and projects\<close>

record environment_join =
  ej_enrollment :: string
  ej_connection :: string
  ej_last_contact_at :: "string option"
  ej_agent_id :: "string option"
  ej_session_id :: "string option"
  ej_expires_at :: "string option"
  ej_enrollment_agent_id :: "string option"

definition joined_environment :: "string \<Rightarrow> fleet_db \<Rightarrow> environment_join option" where
  "joined_environment i db =
     map_option (\<lambda>e. let s = session_of i db
       in \<lparr>ej_enrollment = en_enrollment e, ej_connection = en_connection e, ej_last_contact_at = en_last_contact_at e,
           ej_agent_id = map_option sn_agent_id s, ej_session_id = map_option sn_session_id s,
           ej_expires_at = map_option sn_expires_at s,
           ej_enrollment_agent_id = map_option cd_agent_id (credential_of i db)\<rparr>) (environment_row_of i db)"

definition invalid_inventory :: fleet_error where
  "invalid_inventory = FleetError ''invalid_input'' ''Invalid inventory revision or identity''"

text \<open>\<open>Date.parse(s) + delay > now\<close>, false for a missing or unreadable date.\<close>

definition lives :: "string option \<Rightarrow> int \<Rightarrow> int \<Rightarrow> bool" where
  "lives s delay now = (case s of None \<Rightarrow> False | Some t \<Rightarrow> after t (now - delay))"

definition online :: "int \<Rightarrow> environment_join \<Rightarrow> bool" where
  "online now env \<longleftrightarrow>
     ej_enrollment env = ''enrolled'' \<and> ej_connection env = ''online'' \<and>
     lives (ej_last_contact_at env) SESSION_LIFETIME_MS now \<and> lives (ej_expires_at env) 0 now"

record observed_project =
  op_projectId :: string
  op_environmentId :: string
  op_localProjectId :: string
  op_managed :: bool
  op_connection :: string
  op_lastReceivedAt :: "string option"
  op_observation :: json
  op_fresh :: bool
  op_snapshotStale :: bool
  op_warnings :: "(string \<times> string list) list"

definition marked_unmanaged :: "json \<Rightarrow> bool" where
  "marked_unmanaged observation \<longleftrightarrow>
     string_at (Some observation) [''validation'', ''state''] = Some ''invalid'' \<and>
     string_at (Some observation) [''validation'', ''diagnostic'', ''code''] = Some ''project_unmanaged''"

definition project_view :: "int \<Rightarrow> project_row \<Rightarrow> environment_join \<Rightarrow> observed_project" where
  "project_view now row env =
     (let observation = getOr (pj_observation row) JNull;
          fresh = (online now env \<and> pj_agent_id row \<noteq> None \<and> pj_agent_id row = ej_agent_id env \<and>
                   lives (pj_received_at row) SESSION_LIFETIME_MS now)
      in \<lparr>op_projectId = pj_project_id row, op_environmentId = pj_environment_id row,
          op_localProjectId = pj_local_project_id row,
          op_managed = (pj_managed row \<and> pj_agent_id row \<noteq> None \<and> pj_agent_id row = ej_enrollment_agent_id env \<and>
                        \<not> marked_unmanaged observation),
          op_connection = (if online now env then ''online'' else ''offline''),
          op_lastReceivedAt = pj_received_at row, op_observation = observation, op_fresh = fresh,
          op_snapshotStale = (\<not> fresh \<or> truthy (value_at (Some observation) [''snapshotError'']) \<or>
                              \<not> present_at (Some observation) [''snapshot'']),
          op_warnings = []\<rparr>)"

text \<open>The environment of a row: its foreign key exists.\<close>

definition environment_of_row :: "project_row \<Rightarrow> fleet_db \<Rightarrow> fleet_error + environment_join" where
  "environment_of_row row db =
     (case joined_environment (pj_environment_id row) db of
        None \<Rightarrow> Inl (Failure ''Cannot read properties of undefined'') | Some env \<Rightarrow> Inr env)"

definition resolveTarget :: "int \<Rightarrow> string \<Rightarrow> fleet_db \<Rightarrow> fleet_error + command_target option" where
  "resolveTarget now i db =
     (case find (\<lambda>r. pj_project_id r = i) (projects db) of
        None \<Rightarrow> Inr None
      | Some row \<Rightarrow>
          if pj_observation row = None then Inr None
          else rbind (environment_of_row row db) (\<lambda>env.
            let v = project_view now row env
            in Inr (Some \<lparr>ct_projectId = i, ct_environmentId = pj_environment_id row,
              ct_localProjectId = pj_local_project_id row, ct_agentId = getOr (ej_agent_id env) [],
              ct_sessionId = getOr (ej_session_id env) [], ct_managed = op_managed v, ct_online = op_fresh v,
              ct_valid = (string_at (Some (op_observation v)) [''validation'', ''state''] = Some ''valid''),
              ct_supported = True\<rparr>)))"

section \<open>Identities\<close>

definition insert_project :: "project_row \<Rightarrow> fleet_db \<Rightarrow> fleet_error + fleet_db" where
  "insert_project r db =
     (if \<exists>p \<in> set (projects db). pj_project_id p = pj_project_id r \<or>
           pj_environment_id p = pj_environment_id r \<and> pj_agent_id p = pj_agent_id r \<and> pj_agent_id r \<noteq> None \<and>
           pj_local_project_id p = pj_local_project_id r
      then Inl constraint_error else Inr (db\<lparr>projects := projects db @ [r]\<rparr>))"

text \<open>The identifiers of new projects come from \<open>uuids\<close>; \<open>pending\<close> counts the unpublished ones.\<close>

fun identify_all ::
  "string \<Rightarrow> string \<Rightarrow> (nat \<Rightarrow> string) \<Rightarrow> string list \<Rightarrow> int \<Rightarrow> fleet_db \<Rightarrow> fleet_error + string list \<times> fleet_db" where
  "identify_all i agent uuids [] pending db = Inr ([], db)"
| "identify_all i agent uuids (localId # ids) pending db =
     (case find (\<lambda>p. pj_environment_id p = i \<and> pj_agent_id p = Some agent \<and> pj_local_project_id p = localId) (projects db) of
        Some p \<Rightarrow>
          rbind (identify_all i agent uuids ids pending db) (\<lambda>(out, db). Inr (pj_project_id p # out, db))
      | None \<Rightarrow>
          if managedProjectsPerAgent \<le> pending then Inl invalid_inventory
          else rbind (insert_project \<lparr>pj_project_id = uuids 0, pj_environment_id = i, pj_local_project_id = localId,
                 pj_managed = False, pj_published = False, pj_observation = None, pj_received_at = None,
                 pj_agent_id = Some agent\<rparr> db) (\<lambda>db.
               rbind (identify_all i agent (\<lambda>k. uuids (Suc k)) ids (pending + 1) db) (\<lambda>(out, db).
                 Inr (uuids 0 # out, db))))"

definition local_id_ok :: "string \<Rightarrow> bool" where
  "local_id_ok s = (js_trim s \<noteq> [] \<and> utf8Bytes s \<le> 4096)"

definition identify_tx :: "string \<Rightarrow> (nat \<Rightarrow> string) \<Rightarrow> string list \<Rightarrow> string list tx" where
  "identify_tx i uuids ids db =
     (case joined_environment i db of
        None \<Rightarrow> Inl (FleetError ''unauthenticated'' ''Enrolled environment required'')
      | Some env \<Rightarrow>
          if ej_enrollment env \<noteq> ''enrolled'' \<or> \<not> text_present (ej_enrollment_agent_id env)
          then Inl (FleetError ''unauthenticated'' ''Enrolled environment required'')
          else let agent = getOr (ej_enrollment_agent_id env) [];
                   db = db\<lparr>projects := filter (\<lambda>p. \<not> (pj_environment_id p = i \<and> \<not> pj_published p \<and> pj_agent_id p \<noteq> Some agent))
                            (projects db)\<rparr>;
                   pending = int (length (filter (\<lambda>p. pj_environment_id p = i \<and> \<not> pj_published p) (projects db)))
               in identify_all i agent uuids ids pending db)"

definition identifyProjects :: "(nat \<Rightarrow> string) \<Rightarrow> string \<Rightarrow> string list \<Rightarrow> fleet_db \<Rightarrow> (fleet_error + string list) \<times> fleet_db" where
  "identifyProjects uuids i ids db =
     (case parse_protocol uuidSchema (Some (JStr i)) of
        Inl e \<Rightarrow> (Inl e, db)
      | Inr _ \<Rightarrow>
          if managedProjectsPerAgent < int (length ids) \<or> \<not> distinct ids \<or> \<not> list_all local_id_ok ids
          then (Inl invalid_inventory, db) else transaction (identify_tx i uuids ids) db)"

section \<open>Receiving an inventory\<close>

text \<open>Members of a document replaced or dropped, up to their order; the runs of an observation in the order they are stored.\<close>

definition jset :: "json \<Rightarrow> string \<Rightarrow> json \<Rightarrow> json" where
  "jset o' k v = (case o' of JObj kvs \<Rightarrow> JObj (filter (\<lambda>(k', _). k' \<noteq> k) kvs @ [(k, v)]) | _ \<Rightarrow> o')"

definition jdelete :: "json \<Rightarrow> string \<Rightarrow> json" where
  "jdelete o' k = (case o' of JObj kvs \<Rightarrow> JObj (filter (\<lambda>(k', _). k' \<noteq> k) kvs) | _ \<Rightarrow> o')"

definition run_cmp :: "(string \<Rightarrow> string \<Rightarrow> int) \<Rightarrow> json \<Rightarrow> json \<Rightarrow> int" where
  "run_cmp localeCompare =
     then_cmp (\<lambda>a b. localeCompare (field b [''updatedAt'']) (field a [''updatedAt'']))
       (\<lambda>a b. localeCompare (field a [''runId'']) (field b [''runId'']))"

definition sort_runs :: "(string \<Rightarrow> string \<Rightarrow> int) \<Rightarrow> json \<Rightarrow> json" where
  "sort_runs localeCompare observation =
     jset observation ''runs'' (JArr (js_sort (run_cmp localeCompare) (getOr (jlist (value_at (Some observation) [''runs''])) [])))"

text \<open>An observation without a snapshot keeps the last one, marked as not current.\<close>

definition retain_snapshot :: "json option \<Rightarrow> json \<Rightarrow> json" where
  "retain_snapshot previous observation =
     (case (value_at (Some observation) [''snapshot''], value_at previous [''snapshot'']) of
        (None, Some old) \<Rightarrow>
          let kept = jset observation ''snapshot'' old;
              dated = (case value_at previous [''snapshotObservedAt''] of None \<Rightarrow> jdelete kept ''snapshotObservedAt''
                     | Some t \<Rightarrow> jset kept ''snapshotObservedAt'' t)
          in if nullish (value_at (Some observation) [''snapshotError''])
             then jset dated ''snapshotError'' (diagnostic_json (''log_unavailable'', ''Latest snapshot unavailable''))
             else dated
      | _ \<Rightarrow> observation)"

definition update_projects :: "(project_row \<Rightarrow> bool) \<Rightarrow> (project_row \<Rightarrow> project_row) \<Rightarrow> fleet_db \<Rightarrow> fleet_db" where
  "update_projects p f db = db\<lparr>projects := update_where p f (projects db)\<rparr>"

definition receive_project ::
  "(string \<Rightarrow> fleet_db \<Rightarrow> fleet_error + fleet_db) \<Rightarrow> int \<Rightarrow> string \<Rightarrow> json \<Rightarrow> fleet_db \<Rightarrow> fleet_error + fleet_db" where
  "receive_project invalidate now i observation db =
     (let projectId = field observation [''projectId'']
      in case find (\<lambda>r. pj_project_id r = projectId) (projects db) of
           None \<Rightarrow> Inl invalid_inventory
         | Some row \<Rightarrow>
             if pj_environment_id row \<noteq> i \<or>
                (case joined_environment i db of None \<Rightarrow> True | Some env \<Rightarrow> pj_agent_id row \<noteq> ej_agent_id env) \<or>
                pj_local_project_id row \<noteq> field observation [''localProjectId'']
             then Inl invalid_inventory
             else rbind (clock_text now) (\<lambda>t.
               let db = update_projects (\<lambda>r. pj_project_id r = projectId)
                     (\<lambda>r. r\<lparr>pj_observation := Some (retain_snapshot (pj_observation row) observation),
                        pj_received_at := Some t\<rparr>) db
               in if pj_managed row \<and> marked_unmanaged observation then invalidate projectId db else Inr db))"

fun receive_projects ::
  "(string \<Rightarrow> fleet_db \<Rightarrow> fleet_error + fleet_db) \<Rightarrow> int \<Rightarrow> string \<Rightarrow> json list \<Rightarrow> fleet_db \<Rightarrow> fleet_error + fleet_db" where
  "receive_projects invalidate now i [] db = Inr db"
| "receive_projects invalidate now i (x # xs) db =
     rbind (receive_project invalidate now i x db) (\<lambda>db. receive_projects invalidate now i xs db)"

text \<open>The revision an inventory page belongs to: a new one starts at its first page.\<close>

definition open_revision :: "string \<Rightarrow> string \<Rightarrow> json \<Rightarrow> fleet_db \<Rightarrow> fleet_error + fleet_db" where
  "open_revision i sid inventory db =
     (let revision = field inventory [''revisionId'']; pageCount = \<lfloor>getOr (number_at (Some inventory) [''pageCount'']) 0\<rfloor>;
          pageIndex = \<lfloor>getOr (number_at (Some inventory) [''pageIndex'']) 0\<rfloor>;
          current = find (\<lambda>r. rv_environment_id r = i) (revisions db)
      in if (case current of None \<Rightarrow> True | Some c \<Rightarrow> rv_session_id c \<noteq> sid \<or> rv_revision_id c \<noteq> revision)
         then if pageIndex \<noteq> 0 then Inl invalid_inventory
              else Inr (db\<lparr>pages := filter (\<lambda>p. pg_environment_id p \<noteq> i) (pages db),
                revisions := upsert rv_environment_id \<lparr>rv_environment_id = i, rv_session_id = sid,
                  rv_revision_id = revision, rv_page_count = pageCount, rv_complete = False\<rparr> (revisions db)\<rparr>)
         else if (case current of None \<Rightarrow> False | Some c \<Rightarrow> rv_complete c \<or> rv_page_count c \<noteq> pageCount)
         then Inl invalid_inventory else Inr db)"

definition known_ids :: "string \<Rightarrow> fleet_db \<Rightarrow> string list" where
  "known_ids i db = concat (map pg_project_ids (filter (\<lambda>p. pg_environment_id p = i) (pages db)))"

text \<open>A complete inventory decides which projects are managed.\<close>

fun settle_projects ::
  "(string \<Rightarrow> fleet_db \<Rightarrow> fleet_error + fleet_db) \<Rightarrow> string list \<Rightarrow> project_row list \<Rightarrow> fleet_db \<Rightarrow> fleet_error + fleet_db" where
  "settle_projects invalidate ids [] db = Inr db"
| "settle_projects invalidate ids (row # rows) db =
     (let managed = (pj_project_id row \<in> set ids)
      in rbind (if pj_managed row \<and> \<not> managed then invalidate (pj_project_id row) db else Inr db) (\<lambda>db.
           settle_projects invalidate ids rows
             (update_projects (\<lambda>r. pj_project_id r = pj_project_id row)
               (\<lambda>r. r\<lparr>pj_managed := managed, pj_published := (managed \<or> pj_published r)\<rparr>) db)))"

definition complete_revision ::
  "(string \<Rightarrow> fleet_db \<Rightarrow> fleet_error + fleet_db) \<Rightarrow> string \<Rightarrow> string list \<Rightarrow> fleet_db \<Rightarrow> fleet_error + fleet_db" where
  "complete_revision invalidate i ids db =
     rbind (settle_projects invalidate ids (filter (\<lambda>r. pj_environment_id r = i) (projects db)) db) (\<lambda>db.
       Inr (db\<lparr>revisions := update_where (\<lambda>r. rv_environment_id r = i) (\<lambda>r. r\<lparr>rv_complete := True\<rparr>) (revisions db),
         pages := filter (\<lambda>p. pg_environment_id p \<noteq> i) (pages db)\<rparr>))"

definition receiveObservation ::
  "(string \<Rightarrow> string \<Rightarrow> int) \<Rightarrow> (string \<Rightarrow> fleet_db \<Rightarrow> fleet_error + fleet_db) \<Rightarrow> int \<Rightarrow> observation_request \<Rightarrow>
     fleet_db \<Rightarrow> fleet_error + fleet_db" where
  "receiveObservation localeCompare invalidate now request db =
     (let i = ob_environmentId request; inventory = ob_inventory request;
          observations = map (sort_runs localeCompare) (getOr (jlist (value_at (Some inventory) [''projects''])) []);
          pageIndex = \<lfloor>getOr (number_at (Some inventory) [''pageIndex'']) 0\<rfloor>;
          pageCount = \<lfloor>getOr (number_at (Some inventory) [''pageCount'']) 0\<rfloor>;
          ids = map (\<lambda>x. field x [''projectId'']) observations
      in rbind (open_revision i (ob_sessionId request) inventory db) (\<lambda>db.
         if \<exists>p \<in> set (pages db). pg_environment_id p = i \<and> pg_page_index p = pageIndex then Inl invalid_inventory
         else let previous = known_ids i db
              in if managedProjectsPerAgent < int (length previous + length ids) \<or> (\<exists>x \<in> set ids. x \<in> set previous)
                 then Inl invalid_inventory
                 else rbind (receive_projects invalidate now i observations db) (\<lambda>db.
                   let db = db\<lparr>pages := pages db @ [\<lparr>pg_environment_id = i, pg_page_index = pageIndex, pg_project_ids = ids\<rparr>]\<rparr>
                   in if int (length (filter (\<lambda>p. pg_environment_id p = i) (pages db))) = pageCount
                      then complete_revision invalidate i (previous @ ids) db else Inr db)))"

section \<open>Scopes and warnings\<close>

text \<open>Adapter, binding and repository of a tracker scope; with them the sets it is restricted to.\<close>

type_synonym scope_identity = "string \<times> string \<times> string"
type_synonym scope_key = "scope_identity \<times> string list list"

definition nonblank :: "string option \<Rightarrow> bool" where
  "nonblank s = (case s of None \<Rightarrow> False | Some t \<Rightarrow> js_trim t \<noteq> [])"

definition string_set :: "json option \<Rightarrow> string list option" where
  "string_set v =
     (case jlist v of
        None \<Rightarrow> None
      | Some xs \<Rightarrow>
          if list_all (\<lambda>x. nonblank (jstring (Some x))) xs
          then Some (sort (remdups (map (\<lambda>x. js_trim (getOr (jstring (Some x)) [])) xs))) else None)"

definition scopeKey :: "json \<Rightarrow> scope_key option" where
  "scopeKey observation =
     (case value_at (Some observation) [''snapshot'', ''trackerScope''] of
        Some (JObj kvs) \<Rightarrow>
          let scope = Some (JObj kvs); read = (\<lambda>k. string_at scope [k]);
              sets = map (\<lambda>k. string_set (value_at scope [k])) [''activeStates'', ''includeLabels'', ''excludeLabels'']
          in if \<not> list_all (\<lambda>k. nonblank (read k)) [''adapter'', ''bindingId'', ''repository''] \<or> None \<in> set sets then None
             else Some ((js_lower (js_trim (getOr (read ''adapter'') [])), js_trim (getOr (read ''bindingId'') []),
                         js_trim (getOr (read ''repository'') [])), map (\<lambda>s. getOr s []) sets)
      | _ \<Rightarrow> None)"

text \<open>The counters of the code as the list of counted projects.\<close>

definition outside :: "observed_project list \<Rightarrow> string \<Rightarrow> nat" where
  "outside counted i = length (filter (\<lambda>p. op_environmentId p \<noteq> i) counted)"

definition scope_of :: "observed_project \<Rightarrow> scope_key option" where
  "scope_of p = (if op_fresh p \<and> \<not> op_snapshotStale p then scopeKey (op_observation p) else None)"

definition warnings_of :: "observed_project list \<Rightarrow> observed_project \<Rightarrow> (string \<times> string list) list" where
  "warnings_of items p =
     (let managed = filter op_managed items; i = op_environmentId p
      in if \<not> op_managed p then []
         else case scope_of p of
             None \<Rightarrow> [(''unverified'', [op_projectId p])]
           | Some key \<Rightarrow>
               let unknown = filter (\<lambda>q. scope_of q = None) managed;
                   same_identity = filter (\<lambda>q. map_option fst (scope_of q) = Some (fst key)) managed;
                   same_key = filter (\<lambda>q. scope_of q = Some key) managed;
                   related = take (nat (maximumPageSize - 1)) (map op_projectId (filter (\<lambda>q. op_environmentId q \<noteq> i) same_key))
               in (if outside same_key i \<noteq> 0 then [(''identical'', sort (op_projectId p # related))] else []) @
                  (if outside unknown i \<noteq> 0 \<or> outside same_identity i > outside same_key i
                   then [(''unverified'', [op_projectId p])] else []))"

fun project_views :: "int \<Rightarrow> fleet_db \<Rightarrow> project_row list \<Rightarrow> fleet_error + observed_project list" where
  "project_views now db [] = Inr []"
| "project_views now db (row # rows) =
     rbind (environment_of_row row db) (\<lambda>env. rbind (project_views now db rows) (\<lambda>vs. Inr (project_view now row env # vs)))"

definition projected :: "int \<Rightarrow> fleet_db \<Rightarrow> fleet_error + observed_project list" where
  "projected now db =
     rbind (project_views now db (sort_key pj_project_id (filter (\<lambda>r. pj_observation r \<noteq> None \<and> pj_published r) (projects db))))
       (\<lambda>items. Inr (map (\<lambda>p. p\<lparr>op_warnings := warnings_of items p\<rparr>) items))"

section \<open>Reading projects\<close>

text \<open>A cursor encodes the last identifier shown and the filter it was shown under.\<close>

type_synonym filter_scope = "string option \<times> string option \<times> string option"

record cursor_codec =
  cc_encode :: "string \<times> filter_scope \<Rightarrow> string"
  cc_decode :: "string \<Rightarrow> (string \<times> filter_scope) option"

definition filter_scope_of :: "json \<Rightarrow> filter_scope" where
  "filter_scope_of request =
     (string_at (Some request) [''environmentId''], string_at (Some request) [''process''], string_at (Some request) [''connection''])"

definition cursor_after :: "cursor_codec \<Rightarrow> filter_scope \<Rightarrow> string option \<Rightarrow> fleet_error + string" where
  "cursor_after codec scope cursor =
     (if \<not> text_present cursor then Inr []
      else case cc_decode codec (getOr cursor []) of
          None \<Rightarrow> Inl (FleetError ''cursor_reset'' ''Invalid project cursor or filter changed'')
        | Some (after_id, known) \<Rightarrow>
            if \<not> is_ok (parse_protocol uuidSchema (Some (JStr after_id))) \<or> known \<noteq> scope
            then Inl (FleetError ''cursor_reset'' ''Invalid project cursor or filter changed'') else Inr after_id)"

definition project_matches :: "filter_scope \<Rightarrow> string \<Rightarrow> observed_project \<Rightarrow> bool" where
  "project_matches scope after_id p \<longleftrightarrow>
     (case scope of (environment, process, connection) \<Rightarrow>
        after_id < op_projectId p \<and>
        (\<not> text_present environment \<or> Some (op_environmentId p) = environment) \<and>
        (\<not> text_present process \<or> string_at (Some (op_observation p)) [''process'', ''state''] = process) \<and>
        (\<not> text_present connection \<or> Some (op_connection p) = connection))"

definition defaultPageSize :: int where
  "defaultPageSize = 25"

text \<open>A filter without a limit asks for the default page.\<close>

definition with_limit :: "json \<Rightarrow> json" where
  "with_limit input =
     (if nullish (value_at (Some input) [''limit'']) then jset input ''limit'' (JNum (of_int defaultPageSize)) else input)"

definition listProjects ::
  "cursor_codec \<Rightarrow> int \<Rightarrow> json \<Rightarrow> fleet_db \<Rightarrow> fleet_error + observed_project list \<times> string option" where
  "listProjects codec now input db =
     rbind (parse_protocol projectFilterSchema (Some (with_limit input))) (\<lambda>request.
       let scope = filter_scope_of request; limit = nat \<lfloor>getOr (number_at (Some request) [''limit'']) 0\<rfloor>
       in rbind (cursor_after codec scope (string_at (Some request) [''cursor''])) (\<lambda>after_id.
          rbind (projected now db) (\<lambda>items.
            let found = filter (project_matches scope after_id) items; shown = take limit found
            in Inr (shown, if limit < length found then Some (cc_encode codec (op_projectId (last shown), scope)) else None))))"

definition getProject :: "int \<Rightarrow> string \<Rightarrow> fleet_db \<Rightarrow> fleet_error + observed_project" where
  "getProject now i db =
     rbind (parse_protocol uuidSchema (Some (JStr i))) (\<lambda>_.
     rbind (projected now db) (\<lambda>items.
       case find (\<lambda>p. op_projectId p = i) items of
         None \<Rightarrow> Inl (FleetError ''not_found'' ''Project has no observations'') | Some p \<Rightarrow> Inr p))"

definition summary :: "int \<Rightarrow> fleet_db \<Rightarrow> fleet_error + nat \<times> nat" where
  "summary now db =
     rbind (projected now db) (\<lambda>all.
       let items = filter op_managed all
       in Inr (length (filter (\<lambda>p. op_fresh p \<and> string_at (Some (op_observation p)) [''process'', ''state''] = Some ''running'') items),
               length (filter (\<lambda>p. \<not> op_fresh p) items)))"

end
