(* ===== verification/FleetReads.thy ===== *)
theory FleetReads
  imports FleetCommands
begin

text \<open>
  \<open>packages/fleet-control-plane/src/reads.ts\<close>: reads of runs and logs that an operator asks of an
  agent. The registry lives in memory: a list of entries in the order of insertion beside the
  database, which a failing operation leaves as far as it got. The size of \<open>JSON.stringify\<close> of a
  document and the optional projection of run summaries are parameters.
\<close>

section \<open>The registry\<close>

definition readLifetimeMs :: int where
  "readLifetimeMs = 30000"

definition completedReadRetentionMs :: int where
  "completedReadRetentionMs = 60000"

record read_request =
  rr_readId :: string
  rr_projectId :: string
  rr_localProjectId :: string
  rr_sessionId :: string
  rr_submittedAt :: string
  rr_expiresAt :: string
  rr_selection :: json

record read_entry =
  re_request :: read_request
  re_target :: command_target
  re_result :: json
  re_retainUntil :: "int option"

type_synonym registry = "read_entry list"

definition re_id :: "read_entry \<Rightarrow> string" where
  "re_id e = rr_readId (re_request e)"

definition read_state :: "read_entry \<Rightarrow> string" where
  "read_state e = field (re_result e) [''state'']"

definition pending :: "read_entry \<Rightarrow> bool" where
  "pending e \<longleftrightarrow> read_state e = ''pending''"

definition read_enrolled :: "command_target \<Rightarrow> fleet_db \<Rightarrow> bool" where
  "read_enrolled t db \<longleftrightarrow>
     map_option en_enrollment (environment_row_of (ct_environmentId t) db) = Some ''enrolled'' \<and>
     map_option cd_agent_id (credential_of (ct_environmentId t) db) = Some (ct_agentId t)"

definition targetChanged :: "read_entry \<Rightarrow> command_target option \<Rightarrow> fleet_db \<Rightarrow> bool" where
  "targetChanged e current db \<longleftrightarrow>
     (case current of
        None \<Rightarrow> True
      | Some t \<Rightarrow> \<not> ct_online t \<or> \<not> ct_managed t \<or> \<not> read_enrolled t db \<or>
          ct_sessionId t \<noteq> ct_sessionId (re_target e) \<or> ct_agentId t \<noteq> ct_agentId (re_target e) \<or>
          ct_environmentId t \<noteq> ct_environmentId (re_target e) \<or> ct_localProjectId t \<noteq> ct_localProjectId (re_target e))"

text \<open>A result that is not the agent's: its state, the code and the message of its diagnostic.\<close>

definition closed_result :: "string \<Rightarrow> string \<Rightarrow> string \<Rightarrow> string \<Rightarrow> json" where
  "closed_result i state code message =
     JObj [(''readId'', JStr i), (''state'', JStr state), (''diagnostic'', diagnostic_json (code, message))]"

definition unavailable :: "int \<Rightarrow> string \<Rightarrow> read_entry \<Rightarrow> read_entry" where
  "unavailable now code e =
     e\<lparr>re_result := closed_result (re_id e) ''unavailable'' code
         ''Read target or result is unavailable; request again when online'',
       re_retainUntil := Some (now + completedReadRetentionMs)\<rparr>"

definition expired_read :: "int \<Rightarrow> read_entry \<Rightarrow> read_entry" where
  "expired_read now e =
     e\<lparr>re_result := closed_result (re_id e) ''expired'' ''log_unavailable'' ''Read deadline elapsed'',
       re_retainUntil := Some (now + completedReadRetentionMs)\<rparr>"

definition sweep_entry :: "command_peers \<Rightarrow> int \<Rightarrow> fleet_db \<Rightarrow> read_entry \<Rightarrow> fleet_error + read_entry" where
  "sweep_entry peers now db e =
     (if \<not> pending e then Inr e
      else if elapsed (Some (rr_expiresAt (re_request e))) 0 now then Inr (expired_read now e)
      else rbind (pe_resolveTarget peers (rr_projectId (re_request e)) db) (\<lambda>current.
             Inr (if targetChanged e current db then unavailable now ''agent_offline'' e else e)))"

definition retained :: "int \<Rightarrow> read_entry \<Rightarrow> bool" where
  "retained now e = (case re_retainUntil e of None \<Rightarrow> True | Some t \<Rightarrow> now < t)"

fun sweep :: "command_peers \<Rightarrow> int \<Rightarrow> fleet_db \<Rightarrow> registry \<Rightarrow> (fleet_error + unit) \<times> registry" where
  "sweep peers now db [] = (Inr (), [])"
| "sweep peers now db (e # es) =
     (case sweep_entry peers now db e of
        Inl x \<Rightarrow> (Inl x, e # es)
      | Inr e \<Rightarrow> (case sweep peers now db es of
          (r, es) \<Rightarrow> (r, if retained now e then e # es else es)))"

definition find_read :: "string \<Rightarrow> registry \<Rightarrow> read_entry option" where
  "find_read i es = find (\<lambda>e. re_id e = i) es"

section \<open>The operations\<close>

definition verify_reader :: "command_peers \<Rightarrow> agent_identity \<Rightarrow> fleet_db \<Rightarrow> fleet_error + unit" where
  "verify_reader peers identity db =
     rbind (pe_verifyAgent peers identity db) (\<lambda>verified.
       if \<not> verified then Inl (FleetError ''claim_owner_conflict'' ''Current authenticated session required'') else Inr ())"

text \<open>Input that does not meet its schema is reported under one message.\<close>

definition parse_read_input :: "string \<Rightarrow> schema \<Rightarrow> json option \<Rightarrow> fleet_error + json" where
  "parse_read_input message s v =
     (case s v ''$'' of Inl _ \<Rightarrow> Inl (FleetError ''invalid_input'' message) | Inr w \<Rightarrow> Inr (getOr w JNull))"

definition admit_read :: "nat \<Rightarrow> string \<Rightarrow> command_target option \<Rightarrow> fleet_db \<Rightarrow> registry \<Rightarrow> fleet_error + command_target" where
  "admit_read maximumEntries projectId target db es =
     (case target of
        None \<Rightarrow> Inl (FleetError ''not_found'' ''Project does not exist'')
      | Some t \<Rightarrow>
          if ct_projectId t \<noteq> projectId then Inl (Failure ''Peer returned different project identity'')
          else if \<not> ct_managed t then Inl (FleetError ''project_unmanaged'' ''Project is unmanaged'')
          else if \<not> ct_supported t then Inl (FleetError ''unsupported_protocol'' ''Unsupported target protocol'')
          else if \<not> ct_valid t then Inl (FleetError ''project_invalid'' ''Invalid project'')
          else if \<not> ct_online t then Inl (FleetError ''agent_offline'' ''Agent is offline'')
          else if \<not> read_enrolled t db then Inl (FleetError ''access_revoked'' ''Target enrollment is not active'')
          else if maximumEntries \<le> length es
          then Inl (FleetError ''read_busy'' ''Read result registry capacity reached'')
          else if pendingReadsPerAgent \<le> int (length (filter (\<lambda>e. pending e \<and> ct_agentId (re_target e) = ct_agentId t) es)) \<or>
                  (\<exists>e \<in> set es. pending e \<and> rr_projectId (re_request e) = projectId)
          then Inl (FleetError ''read_busy'' ''Read capacity reached'') else Inr t)"

definition new_read :: "string \<Rightarrow> int \<Rightarrow> string \<Rightarrow> json \<Rightarrow> command_target \<Rightarrow> fleet_error + read_entry" where
  "new_read uuid now projectId selection t =
     rbind (clock_text now) (\<lambda>submittedAt. rbind (clock_text (now + readLifetimeMs)) (\<lambda>expiresAt.
       Inr \<lparr>re_request = \<lparr>rr_readId = uuid, rr_projectId = projectId, rr_localProjectId = ct_localProjectId t,
              rr_sessionId = ct_sessionId t, rr_submittedAt = submittedAt, rr_expiresAt = expiresAt, rr_selection = selection\<rparr>,
            re_target = t, re_result = JObj [(''readId'', JStr uuid), (''state'', JStr ''pending'')], re_retainUntil = None\<rparr>))"

text \<open>\<open>Map.set\<close>: the entry takes the place of the one with its id.\<close>

definition submitRead ::
  "command_peers \<Rightarrow> nat \<Rightarrow> string \<Rightarrow> int \<Rightarrow> string \<Rightarrow> json option \<Rightarrow> fleet_db \<Rightarrow> registry \<Rightarrow>
     (fleet_error + string) \<times> registry" where
  "submitRead peers maximumEntries uuid now projectId input db es =
     (case rbind (parse_read_input ''Invalid read selection'' uuidSchema (Some (JStr projectId)))
             (\<lambda>_. parse_read_input ''Invalid read selection'' readSelectionSchema input) of
        Inl e \<Rightarrow> (Inl e, es)
      | Inr selection \<Rightarrow>
          (case sweep peers now db es of
             (Inl e, es) \<Rightarrow> (Inl e, es)
           | (Inr _, es) \<Rightarrow>
               (case rbind (pe_resolveTarget peers projectId db) (\<lambda>target.
                   rbind (admit_read maximumEntries projectId target db es) (new_read uuid now projectId selection)) of
                  Inl e \<Rightarrow> (Inl e, es)
                | Inr entry \<Rightarrow> (Inr uuid, upsert re_id entry es))))"

text \<open>The result of a read and whether the project it was read from is gone.\<close>

definition getReadView ::
  "command_peers \<Rightarrow> int \<Rightarrow> string \<Rightarrow> fleet_db \<Rightarrow> registry \<Rightarrow> (fleet_error + json \<times> bool) \<times> registry" where
  "getReadView peers now i db es =
     (case parse_read_input ''Invalid read identity'' uuidSchema (Some (JStr i)) of
        Inl e \<Rightarrow> (Inl e, es)
      | Inr _ \<Rightarrow>
          (case sweep peers now db es of
             (Inl e, es) \<Rightarrow> (Inl e, es)
           | (Inr _, es) \<Rightarrow>
               (case find_read i es of
                  None \<Rightarrow> (Inr (closed_result i ''unavailable'' ''log_unavailable''
                     ''Read is unknown, restarted or no longer retained'', True), es)
                | Some e \<Rightarrow>
                    (rbind (pe_resolveTarget peers (rr_projectId (re_request e)) db) (\<lambda>current.
                       Inr (re_result e, targetChanged e current db)), es))))"

definition getRead ::
  "command_peers \<Rightarrow> int \<Rightarrow> string \<Rightarrow> fleet_db \<Rightarrow> registry \<Rightarrow> (fleet_error + json) \<times> registry" where
  "getRead peers now i db es =
     (case getReadView peers now i db es of
        (Inl e, es) \<Rightarrow> (Inl e, es) | (Inr (result, historical), es) \<Rightarrow> (Inr result, es))"

definition addressed :: "agent_identity \<Rightarrow> read_entry \<Rightarrow> bool" where
  "addressed identity e \<longleftrightarrow>
     ct_environmentId (re_target e) = ai_environmentId identity \<and> ct_agentId (re_target e) = ai_agentId identity \<and>
     ct_sessionId (re_target e) = ai_sessionId identity"

definition poll_reads ::
  "command_peers \<Rightarrow> int \<Rightarrow> agent_identity \<Rightarrow> fleet_db \<Rightarrow> registry \<Rightarrow> (fleet_error + read_request list) \<times> registry" where
  "poll_reads peers now identity db es =
     (case verify_reader peers identity db of
        Inl e \<Rightarrow> (Inl e, es)
      | Inr _ \<Rightarrow>
          (case sweep peers now db es of
             (Inl e, es) \<Rightarrow> (Inl e, es)
           | (Inr _, es) \<Rightarrow> (Inr (map re_request (filter (\<lambda>e. pending e \<and> addressed identity e) es)), es)))"

text \<open>A completed result has to answer the selection within its bounds.\<close>

definition payload_allowance :: "json \<Rightarrow> int" where
  "payload_allowance payload = logChunkBytes + (if field payload [''kind''] = ''log-chunk'' then 1024 else 0)"

definition answers :: "json \<Rightarrow> json \<Rightarrow> bool" where
  "answers selection payload \<longleftrightarrow>
     (let kind = field selection [''kind'']
      in field payload [''kind''] = kind \<and>
         (kind \<noteq> ''runs'' \<longrightarrow> string_at (Some payload) [''runId''] = string_at (Some selection) [''runId'']) \<and>
         (kind = ''runs'' \<longrightarrow>
            rat_of_int (int (length (getOr (jlist (value_at (Some payload) [''runs''])) []))) \<le>
              getOr (number_at (Some selection) [''limit'']) 0) \<and>
         (kind = ''log-chunk'' \<longrightarrow>
            string_at (Some payload) [''stream''] = string_at (Some selection) [''stream''] \<and>
            rat_of_int (utf8Bytes (field payload [''text''])) \<le> getOr (number_at (Some selection) [''maxBytes'']) 0))"

definition check_payload :: "(json \<Rightarrow> int) \<Rightarrow> read_entry \<Rightarrow> json \<Rightarrow> fleet_error + unit" where
  "check_payload encodedBytes e result =
     (if field result [''state''] \<noteq> ''completed'' then Inr ()
      else let payload = getOr (value_at (Some result) [''payload'']) JNull
           in if payload_allowance payload < encodedBytes payload
              then Inl (FleetError ''invalid_input'' ''Read payload exceeds byte limit'')
              else if \<not> answers (rr_selection (re_request e)) payload
              then Inl (FleetError ''invalid_input'' ''Result does not match read selection'') else Inr ())"

text \<open>The document stored for a result, its completion dated by the server.\<close>

definition stored_result :: "string \<Rightarrow> json \<Rightarrow> json" where
  "stored_result receivedAt result =
     (if field result [''state''] = ''completed''
      then (case result of JObj kvs \<Rightarrow> JObj (filter (\<lambda>(k, _). k \<noteq> ''completedAt'') kvs @ [(''completedAt'', JStr receivedAt)])
            | _ \<Rightarrow> result)
      else result)"

definition latest_runs :: "json \<Rightarrow> json list" where
  "latest_runs payload =
     take (nat runSummariesPerProject)
       (js_sort (\<lambda>a b. getOr (date_at (Some b) [''updatedAt'']) 0 - getOr (date_at (Some a) [''updatedAt'']) 0)
         (getOr (jlist (value_at (Some payload) [''runs''])) []))"

type_synonym summaries_hook = "string \<Rightarrow> json list \<Rightarrow> string \<Rightarrow> fleet_db \<Rightarrow> fleet_error + fleet_db"

definition receive_summaries ::
  "summaries_hook option \<Rightarrow> read_entry \<Rightarrow> json \<Rightarrow> string \<Rightarrow> fleet_db \<Rightarrow> (fleet_error + unit) \<times> fleet_db" where
  "receive_summaries hook e result receivedAt db =
     (case hook of
        None \<Rightarrow> (Inr (), db)
      | Some receive \<Rightarrow>
          if field result [''state''] = ''completed'' \<and> field result [''payload'', ''kind''] = ''runs''
          then transaction (\<lambda>db. rbind (receive (rr_projectId (re_request e))
                 (latest_runs (getOr (value_at (Some result) [''payload'']) JNull)) receivedAt db) (\<lambda>db. Inr ((), db))) db
          else (Inr (), db))"

definition settle_read :: "int \<Rightarrow> string \<Rightarrow> json \<Rightarrow> read_entry \<Rightarrow> fleet_error + read_entry" where
  "settle_read now receivedAt result e =
     rbind (parse_protocol readResultSchema (Some (stored_result receivedAt result))) (\<lambda>stored.
       Inr (e\<lparr>re_result := stored, re_retainUntil := Some (now + completedReadRetentionMs)\<rparr>))"

definition conflicts_with :: "json \<Rightarrow> read_entry \<Rightarrow> bool" where
  "conflicts_with result e \<longleftrightarrow>
     field result [''state''] \<noteq> ''completed'' \<or>
     map_option canon (value_at (Some (re_result e)) [''payload'']) \<noteq> map_option canon (value_at (Some result) [''payload''])"

definition accept_result ::
  "(json \<Rightarrow> int) \<Rightarrow> summaries_hook option \<Rightarrow> int \<Rightarrow> agent_identity \<Rightarrow> json \<Rightarrow> fleet_db \<Rightarrow> registry \<Rightarrow>
     (fleet_error + string) \<times> fleet_db \<times> registry" where
  "accept_result encodedBytes hook now identity result db es =
     (case find_read (field result [''readId'']) es of
        None \<Rightarrow> (Inl (FleetError ''not_found'' ''Read no longer retained''), db, es)
      | Some e \<Rightarrow>
          if \<not> addressed identity e
          then (Inl (FleetError ''claim_owner_conflict'' ''Read belongs to another session''), db, es)
          else case rbind (check_payload encodedBytes e result) (\<lambda>_. clock_text now) of
            Inl x \<Rightarrow> (Inl x, db, es)
          | Inr receivedAt \<Rightarrow>
              if pending e
              then (case receive_summaries hook e result receivedAt db of
                      (Inl x, db) \<Rightarrow> (Inl x, db, es)
                    | (Inr _, db) \<Rightarrow>
                        (case settle_read now receivedAt result e of
                           Inl x \<Rightarrow> (Inl x, db, es)
                         | Inr e' \<Rightarrow> (Inr receivedAt, db, update_where (\<lambda>x. re_id x = re_id e) (\<lambda>_. e') es)))
              else if read_state e = ''completed'' \<and> conflicts_with result e
              then (Inl (FleetError ''invalid_input'' ''Conflicting read result''), db, es)
              else (Inr receivedAt, db, es))"

definition publishReadResult ::
  "(json \<Rightarrow> int) \<Rightarrow> summaries_hook option \<Rightarrow> command_peers \<Rightarrow> int \<Rightarrow> agent_identity \<Rightarrow> json option \<Rightarrow>
     fleet_db \<Rightarrow> registry \<Rightarrow> (fleet_error + string) \<times> fleet_db \<times> registry" where
  "publishReadResult encodedBytes hook peers now identity input db es =
     (case rbind (parse_read_input ''Invalid read result'' resultRequestSchema input) (\<lambda>request.
             rbind (verify_reader peers identity db) (\<lambda>_.
               if field request [''environmentId''] \<noteq> ai_environmentId identity \<or>
                  field request [''sessionId''] \<noteq> ai_sessionId identity
               then Inl (FleetError ''claim_owner_conflict'' ''Envelope identity mismatch'')
               else if field request [''result'', ''kind''] \<noteq> ''read''
               then Inl (FleetError ''invalid_input'' ''Command result belongs to command service'') else Inr request)) of
        Inl x \<Rightarrow> (Inl x, db, es)
      | Inr request \<Rightarrow>
          (case sweep peers now db es of
             (Inl x, es) \<Rightarrow> (Inl x, db, es)
           | (Inr _, es) \<Rightarrow>
               accept_result encodedBytes hook now identity
                 (getOr (value_at (Some request) [''result'', ''result'']) JNull) db es))"

definition recoverReads :: "int \<Rightarrow> registry \<Rightarrow> registry" where
  "recoverReads now es = map (\<lambda>e. if pending e then unavailable now ''log_unavailable'' e else e) es"

end
