(* ===== verification/FleetReadLaws.thy ===== *)
theory FleetReadLaws
  imports FleetReads FleetService "HOL-Library.Sublist"
begin

text \<open>
  The laws of \<open>FleetReads\<close>: how an operation changes the registry, as a step relation on its entries,
  and the bounds that every operation keeps.
\<close>

section \<open>Entries\<close>

definition payload_of :: "read_entry \<Rightarrow> json" where
  "payload_of e = getOr (value_at (Some (re_result e)) [''payload'']) JNull"

definition answered :: "read_entry \<Rightarrow> bool" where
  "answered e \<longleftrightarrow> (read_state e = ''completed'' \<longrightarrow> answers (rr_selection (re_request e)) (payload_of e))"

definition read_ok :: "read_entry \<Rightarrow> bool" where
  "read_ok e \<longleftrightarrow> (pending e \<longleftrightarrow> re_retainUntil e = None) \<and> answered e"

text \<open>An entry stays, or its result arrives; it is dropped when its time has passed.\<close>

definition entry_next :: "read_entry \<Rightarrow> read_entry \<Rightarrow> bool" where
  "entry_next e e' \<longleftrightarrow> e' = e \<or>
     pending e \<and> \<not> pending e' \<and> re_retainUntil e' \<noteq> None \<and> re_request e' = re_request e \<and> re_target e' = re_target e \<and> answered e'"

inductive registry_step :: "int \<Rightarrow> registry \<Rightarrow> registry \<Rightarrow> bool" for now :: int where
  none: "registry_step now [] []"
| drop: "re_retainUntil e = Some t \<Longrightarrow> t \<le> now \<Longrightarrow> registry_step now es es' \<Longrightarrow> registry_step now (e # es) es'"
| keep: "entry_next e e' \<Longrightarrow> registry_step now es es' \<Longrightarrow> registry_step now (e # es) (e' # es')"

inductive_cases registry_step_ConsE: "registry_step now (e # es) es'"

lemma entry_next_refl [simp]: "entry_next e e"
  by (simp add: entry_next_def)

lemma registry_step_refl [simp]: "registry_step now es es"
  by (induction es) (auto intro: registry_step.intros)

lemma registry_step_map: "(\<And>e. e \<in> set es \<Longrightarrow> entry_next e (f e)) \<Longrightarrow> registry_step now es (map f es)"
  by (induction es) (auto intro: registry_step.intros)

lemma closed_result_reads [simp]: "field (closed_result i s c m) [''state''] = s"
  by (simp add: closed_result_def field_def string_at_def)

lemma closing_steps:
  assumes "pending e"
  shows "entry_next e (unavailable now code e)" "entry_next e (expired_read now e)"
  using assms by (simp_all add: entry_next_def unavailable_def expired_read_def pending_def read_state_def answered_def)

lemma closed_retained [simp]: "retained now (unavailable now code e)" "retained now (expired_read now e)"
  by (simp_all add: retained_def unavailable_def expired_read_def completedReadRetentionMs_def)

lemma sweep_entry_next: "sweep_entry peers now db e = Inr e' \<Longrightarrow> entry_next e e' \<and> (e' = e \<or> retained now e')"
  by (auto simp: sweep_entry_def rbind_Inr_iff closing_steps split: if_splits)

lemma sweep_step: "sweep peers now db es = (r, es') \<Longrightarrow> registry_step now es es'"
proof (induction es arbitrary: r es')
  case (Cons e es)
  obtain r2 es2 where tail: "sweep peers now db es = (r2, es2)" by force
  show ?case
  proof (cases "sweep_entry peers now db e")
    case (Inr e2)
    with Cons.prems tail have es': "es' = (if retained now e2 then e2 # es2 else es2)" by (auto split: if_splits)
    from sweep_entry_next [OF Inr] Cons.IH [OF tail] es' show ?thesis
      by (auto simp: retained_def split: option.splits intro: registry_step.intros)
  qed (use Cons.prems in auto)
qed (auto intro: registry_step.intros)

section \<open>What a step keeps\<close>

lemma step_pending: "registry_step now es es' \<Longrightarrow> subseq (filter pending es') (filter pending es)"
proof (induction rule: registry_step.induct)
  case (drop e t es es')
  then show ?case by (cases "pending e") auto
qed (auto simp: entry_next_def)

lemma step_ids: "registry_step now es es' \<Longrightarrow> subseq (map re_id es') (map re_id es)"
  by (induction rule: registry_step.induct) (auto simp: entry_next_def re_id_def)

lemma step_ok: "registry_step now es es' \<Longrightarrow> list_all read_ok es \<Longrightarrow> list_all read_ok es'"
  by (induction rule: registry_step.induct) (auto simp: entry_next_def read_ok_def)

lemma step_settled:
  "registry_step now es es' \<Longrightarrow> e \<in> set es \<Longrightarrow> \<not> pending e \<Longrightarrow> retained now e \<Longrightarrow> e \<in> set es'"
  by (induction rule: registry_step.induct) (auto simp: entry_next_def retained_def)

definition agent_load :: "string \<Rightarrow> registry \<Rightarrow> nat" where
  "agent_load agent es = length (filter (\<lambda>e. pending e \<and> ct_agentId (re_target e) = agent) es)"

definition registry_ok :: "nat \<Rightarrow> registry \<Rightarrow> bool" where
  "registry_ok maximum es \<longleftrightarrow>
     length es \<le> maximum \<and> distinct (map re_id es) \<and>
     distinct (map (\<lambda>e. rr_projectId (re_request e)) (filter pending es)) \<and>
     (\<forall>agent. int (agent_load agent es) \<le> pendingReadsPerAgent) \<and> list_all read_ok es"

lemma agent_load_pending: "agent_load agent es = length (filter (\<lambda>e. ct_agentId (re_target e) = agent) (filter pending es))"
  by (simp add: agent_load_def conj_commute)

lemma subseq_distinct: "subseq xs ys \<Longrightarrow> distinct ys \<Longrightarrow> distinct xs"
  unfolding subseq_conv_nths by (auto intro: distinct_nthsI)

lemma subseq_filter_length: "subseq xs ys \<Longrightarrow> length (filter P xs) \<le> length (filter P ys)"
  by (meson list_emb_length subseq_filter)

lemma subseq_distinct_map: "subseq xs ys \<Longrightarrow> distinct (map f ys) \<Longrightarrow> distinct (map f xs)"
  by (meson subseq_distinct subseq_map)

lemma step_registry_ok:
  assumes "registry_step now es es'" "registry_ok maximum es"
  shows "registry_ok maximum es'"
proof -
  note p = step_pending [OF assms(1)] and i = step_ids [OF assms(1)]
  from assms(2) have a: "length es \<le> maximum" "distinct (map re_id es)"
    "distinct (map (\<lambda>e. rr_projectId (re_request e)) (filter pending es))"
    "\<And>agent. int (agent_load agent es) \<le> pendingReadsPerAgent" "list_all read_ok es"
    by (auto simp: registry_ok_def)
  have "length es' \<le> length es" using list_emb_length [OF i] by simp
  moreover have "agent_load agent es' \<le> agent_load agent es" for agent
    unfolding agent_load_pending by (rule subseq_filter_length [OF p])
  then have "int (agent_load agent es') \<le> pendingReadsPerAgent" for agent
    using a(4) [of agent] by (meson of_nat_le_iff order_trans)
  ultimately show ?thesis
    using a subseq_distinct [OF i] subseq_distinct_map [OF p] step_ok [OF assms(1)]
    by (auto simp: registry_ok_def)
qed

section \<open>Submitting\<close>

lemma map_upsert_new: "key r \<notin> key ` set rows \<Longrightarrow> upsert key r rows = rows @ [r]"
  by (simp add: upsert_def)

lemma update_where_split:
  assumes "distinct (map key rows)" "key r \<in> key ` set rows"
  obtains as x bs where "rows = as @ x # bs" "update_where (\<lambda>x. key x = key r) (\<lambda>_. r) rows = as @ r # bs" "key x = key r"
proof -
  from assms(2) obtain x where x: "x \<in> set rows" "key x = key r" by auto
  then obtain as bs where rows: "rows = as @ x # bs" by (meson split_list)
  with assms(1) x(2) have "\<forall>y \<in> set as \<union> set bs. key y \<noteq> key r" by auto (metis image_eqI)+
  then have "update_where (\<lambda>x. key x = key r) (\<lambda>_. r) zs = zs" if "set zs \<subseteq> set as \<union> set bs" for zs
    using that unfolding update_where_def by (intro map_idI) auto
  then show ?thesis using that [OF rows _ x(2)] x(2) by (simp add: rows update_where_def)
qed

text \<open>A new pending entry, admitted, keeps the bounds even when its id is taken.\<close>

lemma admitted_keeps_ok:
  assumes ok: "registry_ok maximum es" and len: "length es < maximum"
    and load: "int (agent_load (ct_agentId (re_target e)) es) < pendingReadsPerAgent"
    and free: "\<forall>x \<in> set es. pending x \<longrightarrow> rr_projectId (re_request x) \<noteq> rr_projectId (re_request e)"
    and new: "read_ok e" "pending e"
  shows "registry_ok maximum (upsert re_id e es)"
proof -
  from ok have a: "distinct (map re_id es)" "distinct (map (\<lambda>e. rr_projectId (re_request e)) (filter pending es))"
    "\<And>agent. int (agent_load agent es) \<le> pendingReadsPerAgent" "list_all read_ok es"
    by (auto simp: registry_ok_def)
  have ids: "distinct (map re_id (upsert re_id e es))" by (rule distinct_upsert [OF a(1)])
  show ?thesis
  proof (cases "re_id e \<in> re_id ` set es")
    case False
    have "agent_load agent (es @ [e]) \<le> agent_load agent es + (if agent = ct_agentId (re_target e) then 1 else 0)" for agent
      by (simp add: agent_load_def)
    then have "int (agent_load agent (es @ [e])) \<le> pendingReadsPerAgent" for agent
      using load a(3) [of agent] by (smt (verit) of_nat_1 of_nat_add of_nat_mono add_0_right)
    with False ok len free new ids show ?thesis by (auto simp: registry_ok_def map_upsert_new)
  next
    case True
    with update_where_split [OF a(1) True] obtain as x bs
      where es: "es = as @ x # bs" "upsert re_id e es = as @ e # bs" by (metis upsert_def)
    have "agent_load agent (as @ e # bs) \<le> agent_load agent es + (if agent = ct_agentId (re_target e) then 1 else 0)" for agent
      by (simp add: es(1) agent_load_def)
    then have "int (agent_load agent (as @ e # bs)) \<le> pendingReadsPerAgent" for agent
      using load a(3) [of agent] by (smt (verit) of_nat_1 of_nat_add of_nat_mono add_0_right)
    moreover have "distinct (map (\<lambda>e. rr_projectId (re_request e)) (filter pending (as @ e # bs)))"
      using a(2) free new(2) by (auto simp: es(1) split: if_splits)
    ultimately show ?thesis using ok len new ids es a(4) by (auto simp: registry_ok_def)
  qed
qed

lemma new_read_entry:
  assumes "new_read uuid now projectId selection t = Inr e"
  shows "pending e \<and> read_ok e \<and> re_id e = uuid \<and> re_target e = t \<and> rr_projectId (re_request e) = projectId"
  using assms by (auto simp: new_read_def rbind_Inr_iff pending_def read_state_def read_ok_def answered_def re_id_def
      field_def string_at_def)

lemma submitRead_step:
  assumes "submitRead peers maximum uuid now projectId input db es = (r, es')"
  shows "registry_step now es es' \<or>
    (\<exists>es1 e. registry_step now es es1 \<and> es' = upsert re_id e es1 \<and> pending e \<and> read_ok e \<and> re_id e = uuid \<and>
       length es1 < maximum \<and> int (agent_load (ct_agentId (re_target e)) es1) < pendingReadsPerAgent \<and>
       (\<forall>x \<in> set es1. pending x \<longrightarrow> rr_projectId (re_request x) \<noteq> rr_projectId (re_request e)))"
proof (cases "rbind (parse_read_input ''Invalid read selection'' uuidSchema (Some (JStr projectId)))
             (\<lambda>_. parse_read_input ''Invalid read selection'' readSelectionSchema input)")
  case (Inr selection)
  obtain r1 es1 where sw: "sweep peers now db es = (r1, es1)" by force
  show ?thesis
  proof (cases r1)
    case (Inl x)
    with assms Inr sw show ?thesis using sweep_step [OF sw] by (simp add: submitRead_def)
  next
    case swept: (Inr u)
    show ?thesis
    proof (cases "rbind (pe_resolveTarget peers projectId db) (\<lambda>target.
                   rbind (admit_read maximum projectId target db es1) (new_read uuid now projectId selection))")
      case (Inl x)
      with assms Inr sw swept show ?thesis using sweep_step [OF sw] by (simp add: submitRead_def)
    next
      case made: (Inr e)
      then obtain target t where t: "admit_read maximum projectId target db es1 = Inr t"
        "new_read uuid now projectId selection t = Inr e" by (auto simp: rbind_Inr_iff)
      from t(1) have "length es1 < maximum" "int (agent_load (ct_agentId t) es1) < pendingReadsPerAgent"
        "\<forall>x \<in> set es1. pending x \<longrightarrow> rr_projectId (re_request x) \<noteq> projectId"
        by (auto simp: admit_read_def agent_load_def split: option.splits if_splits)
      moreover from assms Inr sw swept made have "es' = upsert re_id e es1" by (simp add: submitRead_def)
      ultimately show ?thesis using sweep_step [OF sw] new_read_entry [OF t(2)] by auto
    qed
  qed
qed (use assms in \<open>simp add: submitRead_def\<close>)

section \<open>Publishing\<close>

lemma parse_read_command: "parse_read_input m s v = Inr w \<longleftrightarrow> parse_command_input s v = Inr w"
  by (auto simp: parse_read_input_def parse_command_input_def split: sum.splits)

lemma field_text: "field j ks = s \<Longrightarrow> s \<noteq> [] \<Longrightarrow> value_at (Some j) ks = Some (JStr s)"
  by (cases "jstring (value_at (Some j) ks)") (auto simp: field_def string_at_def)

lemma read_result_fields:
  assumes ok: "is_ok (agentResultSchema v p)" and kind: "value_at v [''kind''] = Some (JStr ''read'')"
  shows "not_pending (value_at v [''result''])"
proof -
  let ?command = "object_schema [(''kind'', literal_schema (JStr ''command'')), (''commandId'', uuidSchema),
       (''state'', enumeration_schema [''succeeded'', ''failed'', ''unknown'']), (''observedAt'', timestampSchema),
       (''evidence'', jsonValueSchema), (''diagnostic'', optional_schema diagnosticSchema)]"
  let ?read = "object_schema [(''kind'', literal_schema (JStr ''read'')),
       (''result'', refine_schema readResultSchema not_pending ''cannot publish pending read'')]"
  have "\<not> is_ok (?command v p)"
  proof
    assume "is_ok (?command v p)"
    from object_ok_field [OF this, of "''kind''" "literal_schema (JStr ''command'')"]
    have "value_at v [''kind''] = Some (JStr ''command'')" by (simp add: literal_ok_dest del: value_at.simps)
    with kind show False by (simp del: value_at.simps)
  qed
  with ok have "is_ok (?read v p)" by (simp add: agentResultSchema_def split: sum.splits)
  from object_ok_field [OF this, of "''result''"]
  have "is_ok (refine_schema readResultSchema not_pending ''cannot publish pending read'' (value_at v [''result''])
      (p @ ''.'' @ ''result''))" by simp
  then show ?thesis by (subst (asm) is_ok_refine) (simp_all add: schema_intros)
qed

lemma read_result_parsed:
  assumes parsed: "parse_read_input m resultRequestSchema input = Inr request"
    and kind: "field request [''result'', ''kind''] = ''read''"
  shows "field (getOr (value_at (Some request) [''result'', ''result'']) JNull) [''state''] \<noteq> ''pending''"
proof -
  have faithful: "faithful_schema resultRequestSchema" by (simp add: schema_intros)
  note again = parsed_again [OF faithful parsed [unfolded parse_read_command] resultRequestSchema_def]
  have "is_ok (agentResultSchema (value_at (Some request) [''result'']) (''$'' @ ''.'' @ ''result''))"
    by (rule object_ok_field [OF again [unfolded resultRequestSchema_def]]) simp
  moreover have "value_at (value_at (Some request) [''result'']) [''kind''] = Some (JStr ''read'')"
    using field_text [OF kind] by simp
  ultimately have "not_pending (value_at (value_at (Some request) [''result'']) [''result''])" by (rule read_result_fields)
  then show ?thesis
    using field_text [of "getOr (value_at (Some request) [''result'', ''result'']) JNull" "[''state'']" "''pending''"]
    by (cases "value_at (Some request) [''result'', ''result'']") (auto simp: not_pending_def string_at_def)
qed

lemma answers_canon: "canon x = canon y \<Longrightarrow> answers selection x = answers selection y"
proof -
  assume "canon x = canon y"
  then have "equivalent (Some x) (Some y)" by (simp add: equivalent_def)
  note reads = scalars_equivalent [OF this]
  have "length (getOr (jlist (value_at v ks)) []) = length (strings_at v ks [])" for v ks by (simp add: strings_at_def)
  then have "length (getOr (jlist (value_at (Some x) ks)) []) = length (getOr (jlist (value_at (Some y) ks)) [])" for ks
    by (simp only: reads)
  with reads show ?thesis by (simp add: answers_def field_def del: value_at.simps)
qed

lemma stored_result_members:
  assumes "k \<noteq> ''completedAt''"
  shows "value_at (Some (stored_result t result)) [k] = value_at (Some result) [k]"
proof -
  have "map_of (filter (\<lambda>(k, _). k \<noteq> ''completedAt'') ys) k = map_of ys k" for ys :: "(string \<times> json) list"
    using assms by (induction ys) auto
  with assms show ?thesis by (cases result) (simp_all add: stored_result_def rev_filter)
qed

lemma settled_entry:
  assumes settle: "settle_read now t result e = Inr e'" and e: "pending e" and check: "check_payload encodedBytes e result = Inr ()"
    and state: "field result [''state''] \<noteq> ''pending''"
  shows "entry_next e e'"
proof -
  from settle obtain stored where parsed: "parse_protocol readResultSchema (Some (stored_result t result)) = Inr stored"
    and e': "e' = e\<lparr>re_result := stored, re_retainUntil := Some (now + completedReadRetentionMs)\<rparr>"
    by (auto simp: settle_read_def rbind_Inr_iff)
  from parsed obtain w where w: "readResultSchema (Some (stored_result t result)) ''$'' = Inr w" "stored = getOr w JNull"
    by (auto simp: parse_protocol_def split: sum.splits)
  have "faithful_schema readResultSchema" by (simp add: schema_intros)
  from faithful_schema.same_document [OF this w(1)] w(2) have eq: "equivalent (Some stored) (Some (stored_result t result))"
    by (cases w) (simp_all add: equivalent_def)
  have "field stored [''state''] = field result [''state'']"
    using scalars_equivalent(1) [OF eq, of "[''state'']"] stored_result_members [of "''state''" t result]
    by (simp add: field_def string_at_def del: value_at.simps)
  moreover have "equivalent (value_at (Some stored) [''payload'']) (value_at (Some result) [''payload''])"
    using equivalent_value_at [OF eq, of "[''payload'']"] stored_result_members [of "''payload''" t result]
    by (simp del: value_at.simps)
  then have "canon (getOr (value_at (Some stored) [''payload'']) JNull) = canon (getOr (value_at (Some result) [''payload'']) JNull)"
    by (cases "value_at (Some stored) [''payload'']"; cases "value_at (Some result) [''payload'']")
      (simp_all add: equivalent_def del: value_at.simps)
  note answers_canon [OF this]
  ultimately show ?thesis using check state e
    by (auto simp: e' entry_next_def pending_def read_state_def answered_def payload_of_def check_payload_def Let_def
        simp del: value_at.simps split: if_splits)
qed

lemma found_read: "find_read i es = Some e \<Longrightarrow> e \<in> set es \<and> re_id e = i"
  by (auto simp: find_read_def dest: find_Some_mem)

lemma accept_result_step:
  assumes ids: "distinct (map re_id es)" and state: "field result [''state''] \<noteq> ''pending''"
    and out: "accept_result encodedBytes hook now identity result db es = (r, db', es')"
  shows "registry_step now es es'"
proof (cases "find_read (field result [''readId'']) es")
  case None
  with out show ?thesis by (simp add: accept_result_def)
next
  case (Some e)
  show ?thesis
  proof (cases "addressed identity e \<and> pending e \<and> check_payload encodedBytes e result = Inr ()")
    case False
    then have "\<not> addressed identity e \<or> \<not> pending e \<or> (\<exists>x. check_payload encodedBytes e result = Inl x)"
      by (cases "check_payload encodedBytes e result") auto
    with Some out show ?thesis by (auto simp: accept_result_def split: if_splits sum.splits)
  next
    case True
    then have cp: "check_payload encodedBytes e result = Inr ()" and e: "pending e" by auto
    have "registry_step now es (update_where (\<lambda>x. re_id x = re_id e) (\<lambda>_. e') es)" if "settle_read now t result e = Inr e'" for t e'
      unfolding update_where_def
    proof (rule registry_step_map)
      fix x assume "x \<in> set es"
      then have "re_id x = re_id e \<Longrightarrow> x = e"
        using ids found_read [OF Some] by (auto simp: distinct_map inj_on_def)
      then show "entry_next x (if re_id x = re_id e then e' else x)"
        using settled_entry [OF that e cp state] by auto
    qed
    with Some out True show ?thesis
      by (auto simp: accept_result_def split: sum.splits prod.splits)
  qed
qed

lemma publish_step:
  assumes ids: "distinct (map re_id es)"
    and out: "publishReadResult encodedBytes hook peers now identity input db es = (r, db', es')"
  shows "\<exists>es1. registry_step now es es1 \<and> registry_step now es1 es'"
proof (cases "rbind (parse_read_input ''Invalid read result'' resultRequestSchema input) (\<lambda>request.
             rbind (verify_reader peers identity db) (\<lambda>_.
               if field request [''environmentId''] \<noteq> ai_environmentId identity \<or>
                  field request [''sessionId''] \<noteq> ai_sessionId identity
               then Inl (FleetError ''claim_owner_conflict'' ''Envelope identity mismatch'')
               else if field request [''result'', ''kind''] \<noteq> ''read''
               then Inl (FleetError ''invalid_input'' ''Command result belongs to command service'') else Inr request))")
  case (Inl x)
  with out have "es' = es" by (simp add: publishReadResult_def)
  then show ?thesis using registry_step_refl by blast
next
  case (Inr request)
  then have parsed: "parse_read_input ''Invalid read result'' resultRequestSchema input = Inr request"
    and kind: "field request [''result'', ''kind''] = ''read''" by (auto simp: rbind_Inr_iff split: if_splits)
  obtain r1 es1 where sw: "sweep peers now db es = (r1, es1)" by force
  note swept = sweep_step [OF sw]
  have ids1: "distinct (map re_id es1)" by (rule subseq_distinct [OF step_ids [OF swept] ids])
  show ?thesis
  proof (cases r1)
    case (Inl x)
    with out Inr sw show ?thesis using swept registry_step_refl by (auto simp: publishReadResult_def)
  next
    case ok: (Inr u)
    with out Inr sw have "accept_result encodedBytes hook now identity
        (getOr (value_at (Some request) [''result'', ''result'']) JNull) db es1 = (r, db', es')"
      by (simp add: publishReadResult_def del: value_at.simps)
    from accept_result_step [OF ids1 read_result_parsed [OF parsed kind] this] swept show ?thesis by blast
  qed
qed

section \<open>Calls\<close>

datatype read_call =
    SubmitRead string string "json option"
  | GetRead string
  | PollReads agent_identity
  | PublishRead agent_identity "json option"
  | RecoverReads

fun call_reads ::
  "(json \<Rightarrow> int) \<Rightarrow> summaries_hook option \<Rightarrow> command_peers \<Rightarrow> nat \<Rightarrow> int \<Rightarrow> read_call \<Rightarrow> fleet_db \<Rightarrow> registry \<Rightarrow> registry" where
  "call_reads bytes hook peers maximum now (SubmitRead uuid projectId input) db es =
     snd (submitRead peers maximum uuid now projectId input db es)"
| "call_reads bytes hook peers maximum now (GetRead i) db es = snd (getRead peers now i db es)"
| "call_reads bytes hook peers maximum now (PollReads identity) db es = snd (poll_reads peers now identity db es)"
| "call_reads bytes hook peers maximum now (PublishRead identity input) db es =
     snd (snd (publishReadResult bytes hook peers now identity input db es))"
| "call_reads bytes hook peers maximum now RecoverReads db es = recoverReads now es"

lemma getRead_step: "registry_step now es (snd (getRead peers now i db es))"
proof -
  obtain r1 es1 where sw: "sweep peers now db es = (r1, es1)" by force
  have "snd (getRead peers now i db es) = snd (getReadView peers now i db es)"
    by (auto simp: getRead_def split: prod.splits sum.splits)
  moreover have "snd (getReadView peers now i db es) \<in> {es, es1}"
    by (auto simp: getReadView_def sw split: sum.splits option.splits)
  ultimately show ?thesis using sweep_step [OF sw] by auto
qed

lemma poll_step: "registry_step now es (snd (poll_reads peers now identity db es))"
proof -
  obtain r1 es1 where sw: "sweep peers now db es = (r1, es1)" by force
  have "snd (poll_reads peers now identity db es) \<in> {es, es1}"
    by (auto simp: poll_reads_def sw split: sum.splits)
  then show ?thesis using sweep_step [OF sw] by auto
qed

lemma call_keeps_registry_ok:
  assumes ok: "registry_ok maximum es"
  shows "registry_ok maximum (call_reads bytes hook peers maximum now c db es)"
proof (cases c)
  case (SubmitRead uuid projectId input)
  obtain r es' where out: "submitRead peers maximum uuid now projectId input db es = (r, es')" by force
  from submitRead_step [OF out] show ?thesis
  proof
    assume "registry_step now es es'"
    with ok out show ?thesis by (simp add: SubmitRead step_registry_ok)
  next
    assume "\<exists>es1 e. registry_step now es es1 \<and> es' = upsert re_id e es1 \<and> pending e \<and> read_ok e \<and> re_id e = uuid \<and>
       length es1 < maximum \<and> int (agent_load (ct_agentId (re_target e)) es1) < pendingReadsPerAgent \<and>
       (\<forall>x \<in> set es1. pending x \<longrightarrow> rr_projectId (re_request x) \<noteq> rr_projectId (re_request e))"
    then obtain es1 e where e: "registry_step now es es1" "es' = upsert re_id e es1" "pending e" "read_ok e"
       "length es1 < maximum" "int (agent_load (ct_agentId (re_target e)) es1) < pendingReadsPerAgent"
       "\<forall>x \<in> set es1. pending x \<longrightarrow> rr_projectId (re_request x) \<noteq> rr_projectId (re_request e)" by blast
    from admitted_keeps_ok [OF step_registry_ok [OF e(1) ok] e(5,6,7,4,3)] out e(2) show ?thesis by (simp add: SubmitRead)
  qed
next
  case (PublishRead identity input)
  obtain r db' es' where out: "publishReadResult bytes hook peers now identity input db es = (r, db', es')"
    using prod_cases3 by blast
  from ok have "distinct (map re_id es)" by (simp add: registry_ok_def)
  from publish_step [OF this out] ok out show ?thesis by (auto simp: PublishRead intro: step_registry_ok)
next
  case RecoverReads
  have "registry_step now es (recoverReads now es)"
    unfolding recoverReads_def by (rule registry_step_map) (simp add: closing_steps)
  with ok show ?thesis by (simp add: RecoverReads step_registry_ok)
next
  case (GetRead i)
  show ?thesis unfolding GetRead call_reads.simps by (rule step_registry_ok [OF getRead_step ok])
next
  case (PollReads identity)
  show ?thesis unfolding PollReads call_reads.simps by (rule step_registry_ok [OF poll_step ok])
qed

text \<open>A result that has arrived survives every call until its retention ends.\<close>

lemma call_keeps_settled:
  assumes ok: "registry_ok maximum es" and e: "e \<in> set es" "\<not> pending e" "retained now e"
    and new: "\<And>uuid projectId input. c = SubmitRead uuid projectId input \<Longrightarrow> uuid \<noteq> re_id e"
  shows "e \<in> set (call_reads bytes hook peers maximum now c db es)"
proof (cases c)
  case (SubmitRead uuid projectId input)
  obtain r es' where out: "submitRead peers maximum uuid now projectId input db es = (r, es')" by force
  have "e \<in> set (upsert re_id x es1)" if "registry_step now es es1" "re_id x = uuid" for es1 x
    using step_settled [OF that(1) e] new [OF SubmitRead] that(2) by (auto simp: upsert_def set_update_where)
  with submitRead_step [OF out] out step_settled [OF _ e] show ?thesis by (auto simp: SubmitRead)
next
  case (PublishRead identity input)
  obtain r db' es' where out: "publishReadResult bytes hook peers now identity input db es = (r, db', es')"
    using prod_cases3 by blast
  from ok have "distinct (map re_id es)" by (simp add: registry_ok_def)
  from publish_step [OF this out] out e show ?thesis by (auto simp: PublishRead dest: step_settled)
next
  case RecoverReads
  with e show ?thesis by (force simp: recoverReads_def)
next
  case (GetRead i)
  show ?thesis unfolding GetRead call_reads.simps by (rule step_settled [OF getRead_step e])
next
  case (PollReads identity)
  show ?thesis unfolding PollReads call_reads.simps by (rule step_settled [OF poll_step e])
qed

text \<open>A registry reached from the empty one; clock and database change between the calls.\<close>

inductive reachable_reads ::
  "(json \<Rightarrow> int) \<Rightarrow> summaries_hook option \<Rightarrow> command_peers \<Rightarrow> nat \<Rightarrow> registry \<Rightarrow> bool"
  for bytes hook peers maximum where
  start: "reachable_reads bytes hook peers maximum []"
| called: "reachable_reads bytes hook peers maximum es \<Longrightarrow>
    reachable_reads bytes hook peers maximum (call_reads bytes hook peers maximum now c db es)"

lemma reachable_registry_ok: "reachable_reads bytes hook peers maximum es \<Longrightarrow> registry_ok maximum es"
proof (induction rule: reachable_reads.induct)
  case start
  show ?case by (simp add: registry_ok_def agent_load_def pendingReadsPerAgent_def)
qed (rule call_keeps_registry_ok)

definition reuses_id :: "string \<Rightarrow> read_call \<Rightarrow> bool" where
  "reuses_id i c = (case c of SubmitRead uuid _ _ \<Rightarrow> uuid = i | _ \<Rightarrow> False)"

section \<open>Properties\<close>

definition sample_selection :: "json option" where
  "sample_selection = Some (JObj [(''kind'', JStr ''run-detail''), (''runId'', JStr ''run-1'')])"

definition sample_read :: read_call where
  "sample_read = SubmitRead sample_command sample_project sample_selection"

definition sample_read_result :: read_call where
  "sample_read_result = PublishRead sample_identity (agent_request [(''result'',
     JObj [(''kind'', JStr ''read''), (''result'', JObj [(''readId'', JStr sample_command), (''state'', JStr ''completed''),
       (''completedAt'', JStr ''2023-11-14T22:13:22Z''),
       (''payload'', JObj [(''kind'', JStr ''run-detail''), (''runId'', JStr ''run-1''), (''detail'', JObj [])])])])])"

abbreviation read_once :: "int \<Rightarrow> read_call \<Rightarrow> registry \<Rightarrow> registry" where
  "read_once now c \<equiv> call_reads (\<lambda>_. 2) None sample_peers 8 now c sample_fleet"

definition waiting_registry :: registry where
  "waiting_registry = read_once sample_time sample_read []"

definition answered_registry :: registry where
  "answered_registry = read_once (sample_time + 1000) sample_read_result waiting_registry"

lemma sample_registries:
  "map read_state waiting_registry = [''pending'']" "map read_state answered_registry = [''completed'']"
  by code_simp+

lemma sample_reads_reachable:
  "reachable_reads (\<lambda>_. 2) None sample_peers 8 waiting_registry"
  "reachable_reads (\<lambda>_. 2) None sample_peers 8 answered_registry"
  unfolding answered_registry_def waiting_registry_def by (intro reachable_reads.intros)+

text \<open>
  C32. The registry of reads stays within its bounds whatever operators and agents call: at most
  \<open>maximumEntries\<close> entries with distinct ids, at most one pending read of a project and at most
  \<open>pendingReadsPerAgent\<close> of an agent; an entry has a retention time exactly when it is not
  pending, and a completed payload answers the selection it was asked for.
\<close>

theorem reads_stay_bounded:
  assumes "reachable_reads bytes hook peers maximum es"
  shows "length es \<le> maximum \<and> distinct (map re_id es) \<and>
    distinct (map (\<lambda>e. rr_projectId (re_request e)) (filter pending es)) \<and>
    (\<forall>agent. int (agent_load agent es) \<le> pendingReadsPerAgent) \<and>
    list_all (\<lambda>e. (pending e \<longleftrightarrow> re_retainUntil e = None) \<and>
      (read_state e = ''completed'' \<longrightarrow> answers (rr_selection (re_request e)) (payload_of e))) es"
  using reachable_registry_ok [OF assms] unfolding registry_ok_def read_ok_def answered_def by blast

lemma reads_stay_bounded_witness:
  "map read_state answered_registry = [''completed''] \<and> distinct (map re_id answered_registry) \<and>
   map (\<lambda>e. field (payload_of e) [''runId'']) answered_registry = [''run-1'']"
proof -
  have "map (\<lambda>e. field (payload_of e) [''runId'']) answered_registry = [''run-1'']" by code_simp
  with reads_stay_bounded [OF sample_reads_reachable(2)] sample_registries(2) show ?thesis by blast
qed

end
