(* ===== verification/FleetServer.thy ===== *)
theory FleetServer
  imports FleetObservations FleetReadLaws
begin

text \<open>
  \<open>packages/fleet-control-plane/src/server.ts\<close>: the services composed over one database, and the
  routes of the agents. A request arrives with its parsed body; cookies and the origin header are a
  flag. A poll is one round of its loop: the code repeats the round until there is work or the
  deadline has passed. The size of an encoded document and SHA-256 are parameters.
\<close>

section \<open>Composition\<close>

text \<open>The read service is created without bounds of its own: its default applies.\<close>

definition maximum_entries :: nat where
  "maximum_entries = 1024"

record fleet_env =
  fe_sha :: "string \<Rightarrow> string"
  fe_localeCompare :: "string \<Rightarrow> string \<Rightarrow> int"
  fe_encodedBytes :: "json \<Rightarrow> int"

definition fleet_peers :: "fleet_env \<Rightarrow> int \<Rightarrow> command_peers" where
  "fleet_peers env now =
     \<lparr>pe_resolveTarget = resolveTarget now,
      pe_verifyAgent = (\<lambda>identity db. rbind (authenticateSession (fe_sha env) now identity db) (\<lambda>_. Inr True))\<rparr>"

definition invalidateManagementAccess :: "int \<Rightarrow> string \<Rightarrow> fleet_db \<Rightarrow> fleet_error + fleet_db" where
  "invalidateManagementAccess now i db = invalidateEnvironment now i (invalidate_session i db)"

definition project_observation :: "fleet_env \<Rightarrow> int \<Rightarrow> observation_request \<Rightarrow> fleet_db \<Rightarrow> fleet_error + fleet_db" where
  "project_observation env now = receiveObservation (fe_localeCompare env) (invalidateProject now) now"

text \<open>\<open>readBody\<close> has parsed the body; the observation it holds is valid and within its bound.\<close>

definition observation_fields :: "(string \<times> schema) list" where
  "observation_fields =
     envelope_fields @ [(''sequence'', integer_schema 0 max_safe), (''observedAt'', timestampSchema), (''inventory'', inventory_schema)]"

definition observationBodyBytes :: int where
  "observationBodyBytes = 4 * 1024 * 1024"

definition observationRequestSchema :: "(json \<Rightarrow> int) \<Rightarrow> schema" where
  "observationRequestSchema encodedBytes value path =
     (case value of
        None \<Rightarrow> schema_fail path ''observation body exceeds limit or is missing''
      | Some v \<Rightarrow>
          if observationBodyBytes < encodedBytes v then schema_fail path ''observation body exceeds limit or is missing''
          else object_schema observation_fields value path)"

definition observation_of :: "json \<Rightarrow> observation_request" where
  "observation_of request =
     \<lparr>ob_environmentId = field request [''environmentId''], ob_sessionId = field request [''sessionId''],
      ob_sequence = \<lfloor>getOr (number_at (Some request) [''sequence'']) 0\<rfloor>,
      ob_inventory = getOr (value_at (Some request) [''inventory'']) JNull\<rparr>"

text \<open>The managed projects of the environments whose inventory is complete.\<close>

definition projectCounts :: "fleet_db \<Rightarrow> (string \<times> nat) list" where
  "projectCounts db =
     concat (map (\<lambda>r.
       if \<not> rv_complete r then []
       else case session_of (rv_environment_id r) db of
           None \<Rightarrow> []
         | Some s \<Rightarrow>
             if sn_session_id s \<noteq> rv_session_id r then []
             else [(rv_environment_id r, length (filter (\<lambda>p. pj_environment_id p = rv_environment_id r \<and>
                      pj_agent_id p = Some (sn_agent_id s) \<and> pj_published p \<and> pj_managed p) (projects db)))])
       (revisions db))"

section \<open>Credentials of a request\<close>

definition denied :: fleet_error where
  "denied = FleetError ''unauthenticated'' ''Fleet authentication boundary rejected request''"

definition is_base64url :: "char \<Rightarrow> bool" where
  "is_base64url c = (c \<in> set (''ABCDEFGHIJKLMNOPQRSTUVWXYZ'' @ ''abcdefghijklmnopqrstuvwxyz'' @ ''0123456789_-''))"

definition bearer_text :: "string \<Rightarrow> bool" where
  "bearer_text s = (starts_with ''Bearer '' s \<and> length s = 50 \<and> list_all is_base64url (drop 7 s))"

definition request_credential :: "fleet_env \<Rightarrow> string option \<Rightarrow> string \<Rightarrow> fleet_db \<Rightarrow> fleet_error + agent_identity" where
  "request_credential env auth i db =
     rbind (parse_protocol uuidSchema (Some (JStr i))) (\<lambda>_.
       case auth of
         None \<Rightarrow> Inl denied
       | Some s \<Rightarrow>
           if \<not> bearer_text s then Inl denied
           else case credential_of i db of
               None \<Rightarrow> Inl denied
             | Some row \<Rightarrow>
                 let identity = \<lparr>ai_environmentId = i, ai_agentId = cd_agent_id row, ai_credential = drop 7 s, ai_sessionId = []\<rparr>
                 in rbind (authenticate (fe_sha env) identity db) (\<lambda>_. Inr identity))"

text \<open>The identity of a request that names its session.\<close>

definition session_identity :: "fleet_env \<Rightarrow> string option \<Rightarrow> json \<Rightarrow> fleet_db \<Rightarrow> fleet_error + agent_identity" where
  "session_identity env auth request db =
     rbind (request_credential env auth (field request [''environmentId'']) db) (\<lambda>identity.
       Inr (identity\<lparr>ai_sessionId := field request [''sessionId'']\<rparr>))"

section \<open>Routes of the agents\<close>

datatype agent_response =
    Enrolled "string \<times> string \<times> string"
  | SessionOpened "string \<times> string"
  | Claimed claim_response
  | Acknowledged string
  | Work json
  | Idle

definition command_result_route ::
  "fleet_env \<Rightarrow> int \<Rightarrow> agent_identity \<Rightarrow> json option \<Rightarrow> string \<Rightarrow> fleet_db \<Rightarrow> (fleet_error + agent_response) \<times> fleet_db" where
  "command_result_route env now identity body commandId db =
     (case getCommand now commandId db of
        (Inl e, db) \<Rightarrow> (Inl e, db)
      | (Inr c, db) \<Rightarrow>
          (case (if (case cm_owner c of None \<Rightarrow> False | Some (_, session) \<Rightarrow> session \<noteq> ai_sessionId identity)
                 then transferOwnership (fleet_peers env now) now identity (cm_commandId c) db else (Inr c, db)) of
             (Inl e, db) \<Rightarrow> (Inl e, db)
           | (Inr _, db) \<Rightarrow>
               (case publishResult (fleet_peers env now) now identity body db of
                  (Inl e, db) \<Rightarrow> (Inl e, db) | (Inr t, db) \<Rightarrow> (Inr (Acknowledged t), db))))"

definition result_route ::
  "fleet_env \<Rightarrow> int \<Rightarrow> string option \<Rightarrow> json option \<Rightarrow> fleet_db \<Rightarrow> registry \<Rightarrow>
     (fleet_error + agent_response) \<times> fleet_db \<times> registry" where
  "result_route env now auth body db es =
     (case rbind (parse_protocol resultRequestSchema body) (\<lambda>request.
             rbind (session_identity env auth request db) (\<lambda>identity.
             rbind (authenticateSession (fe_sha env) now identity db) (\<lambda>_. Inr (request, identity)))) of
        Inl e \<Rightarrow> (Inl e, db, es)
      | Inr (request, identity) \<Rightarrow>
          if field request [''result'', ''kind''] = ''read''
          then (case publishReadResult (fe_encodedBytes env) None (fleet_peers env now) now identity (Some request) db es of
                  (Inl e, db, es) \<Rightarrow> (Inl e, db, es) | (Inr t, db, es) \<Rightarrow> (Inr (Acknowledged t), db, es))
          else case command_result_route env now identity (Some request) (field request [''result'', ''commandId'']) db of
                 (r, db) \<Rightarrow> (r, db, es))"

fun queue_commands :: "int \<Rightarrow> string list \<Rightarrow> fleet_db \<Rightarrow> (fleet_error + command list) \<times> fleet_db" where
  "queue_commands now [] db = (Inr [], db)"
| "queue_commands now (i # is) db =
     (case getCommand now i db of
        (Inl e, db) \<Rightarrow> (Inl e, db)
      | (Inr c, db) \<Rightarrow>
          (case queue_commands now is db of
             (Inl e, db) \<Rightarrow> (Inl e, db)
           | (Inr cs, db) \<Rightarrow> (Inr (if cm_state c = ''accepted'' then c # cs else cs), db)))"

definition waiting_ids :: "agent_identity \<Rightarrow> fleet_db \<Rightarrow> string list" where
  "waiting_ids identity db =
     take (nat activeCommandsPerAgent) (map cr_command_id (sort_key cr_submitted_at (sort_key cr_command_id
       (filter (\<lambda>r. cr_environment_id r = ai_environmentId identity \<and> cr_session_id r = ai_sessionId identity \<and>
                    cr_state r = ''accepted'') (commands db)))))"

definition lifecycle_json :: "command \<Rightarrow> json" where
  "lifecycle_json c =
     JObj [(''commandId'', JStr (cm_commandId c)), (''projectId'', JStr (cm_projectId c)),
       (''environmentId'', JStr (cm_environmentId c)), (''localProjectId'', JStr (cm_localProjectId c)),
       (''sessionId'', JStr (cm_sessionId c)), (''operation'', JStr (cm_operation c)), (''actor'', JStr (cm_actor c)),
       (''idempotencyKey'', JStr (cm_idempotencyKey c)), (''submittedAt'', JStr (cm_submittedAt c)),
       (''expiresAt'', JStr (cm_expiresAt c))]"

definition read_request_json :: "read_request \<Rightarrow> json" where
  "read_request_json r =
     JObj [(''readId'', JStr (rr_readId r)), (''projectId'', JStr (rr_projectId r)),
       (''localProjectId'', JStr (rr_localProjectId r)), (''sessionId'', JStr (rr_sessionId r)),
       (''submittedAt'', JStr (rr_submittedAt r)), (''expiresAt'', JStr (rr_expiresAt r)), (''selection'', rr_selection r)]"

definition poll_response :: "json \<Rightarrow> command list \<Rightarrow> read_request list \<Rightarrow> fleet_error + json" where
  "poll_response request queued reads =
     parse_protocol pollResponseSchema (Some (JObj
       ((case request of JObj kvs \<Rightarrow> kvs | _ \<Rightarrow> []) @
        [(''commands'', JArr (map lifecycle_json queued)), (''reads'', JArr (map read_request_json reads))])))"

definition poll_round ::
  "fleet_env \<Rightarrow> int \<Rightarrow> int \<Rightarrow> agent_identity \<Rightarrow> json \<Rightarrow> fleet_db \<Rightarrow> registry \<Rightarrow>
     (fleet_error + agent_response) \<times> fleet_db \<times> registry" where
  "poll_round env deadline now identity request db es =
     (case authenticateSession (fe_sha env) now identity db of
        Inl e \<Rightarrow> (Inl e, db, es)
      | Inr _ \<Rightarrow>
          (case recoverCommands now db of
             (Inl e, db) \<Rightarrow> (Inl e, db, es)
           | (Inr _, db) \<Rightarrow>
               (case queue_commands now (waiting_ids identity db) db of
                  (Inl e, db) \<Rightarrow> (Inl e, db, es)
                | (Inr queued, db) \<Rightarrow>
                    (case poll_reads (fleet_peers env now) now identity db es of
                       (Inl e, es) \<Rightarrow> (Inl e, db, es)
                     | (Inr reads, es) \<Rightarrow>
                         (if queued = [] \<and> reads = [] \<and> now < deadline then Inr Idle
                          else rbind (poll_response request queued reads) (\<lambda>w. Inr (Work w)), db, es)))))"

text \<open>The requests of an agent; \<open>browser\<close> is set when the request carries an origin or a cookie.\<close>

datatype agent_route =
    EnrollRoute string string "json option"
  | SessionRoute string "json option"
  | ObservationRoute "json option"
  | ClaimRoute string "json option"
  | ResultRoute "json option"
  | PollRoute int "json option"
  | OtherRoute

definition respond :: "('a \<Rightarrow> agent_response) \<Rightarrow> (fleet_error + 'a) \<times> fleet_db \<Rightarrow> registry \<Rightarrow>
    (fleet_error + agent_response) \<times> fleet_db \<times> registry" where
  "respond f out es = (rbind (fst out) (\<lambda>x. Inr (f x)), snd out, es)"

definition session_route ::
  "fleet_env \<Rightarrow> int \<Rightarrow> string \<Rightarrow> string option \<Rightarrow> json option \<Rightarrow> fleet_db \<Rightarrow> (fleet_error + string \<times> string) \<times> fleet_db" where
  "session_route env now sessionId auth body db =
     (if value_at body [''protocolVersion''] \<noteq> Some (JNum 1)
      then (Inl (FleetError ''unsupported_protocol'' ''Unsupported management protocol''), db)
      else case rbind (parse_protocol sessionRequestSchema body) (\<lambda>request.
               rbind (request_credential env auth (field request [''environmentId'']) db) (\<lambda>identity. Inr (request, identity))) of
             Inl e \<Rightarrow> (Inl e, db)
           | Inr (request, identity) \<Rightarrow> openSession (fe_sha env) sessionId now identity (Some request) db)"

definition observation_route ::
  "fleet_env \<Rightarrow> int \<Rightarrow> string option \<Rightarrow> json option \<Rightarrow> fleet_db \<Rightarrow> (fleet_error + string) \<times> fleet_db" where
  "observation_route env now auth body db =
     (case rbind (parse_protocol (observationRequestSchema (fe_encodedBytes env)) body) (\<lambda>request.
             rbind (request_credential env auth (field request [''environmentId'']) db) (\<lambda>identity. Inr (request, identity))) of
        Inl e \<Rightarrow> (Inl e, db)
      | Inr (request, identity) \<Rightarrow>
          (case observe (fe_sha env) (project_observation env now) now identity (observation_of request) db of
             (Inl e, db) \<Rightarrow> (Inl e, db) | (Inr _, db) \<Rightarrow> (clock_text now, db)))"

definition claim_route ::
  "fleet_env \<Rightarrow> int \<Rightarrow> string \<Rightarrow> string option \<Rightarrow> json option \<Rightarrow> fleet_db \<Rightarrow> (fleet_error + claim_response) \<times> fleet_db" where
  "claim_route env now commandId auth body db =
     (case rbind (parse_protocol claimRequestSchema body) (\<lambda>request.
             if field request [''commandId''] \<noteq> commandId
             then Inl (FleetError ''invalid_input'' ''Command path does not match envelope'')
             else rbind (session_identity env auth request db) (\<lambda>identity. Inr (request, identity))) of
        Inl e \<Rightarrow> (Inl e, db)
      | Inr (request, identity) \<Rightarrow> claim (fleet_peers env now) now identity (Some request) db)"

fun agentRoute ::
  "fleet_env \<Rightarrow> int \<Rightarrow> bool \<Rightarrow> string option \<Rightarrow> agent_route \<Rightarrow> fleet_db \<Rightarrow> registry \<Rightarrow>
     (fleet_error + agent_response) \<times> fleet_db \<times> registry" where
  "agentRoute env now True auth route db es = (Inl denied, db, es)"
| "agentRoute env now False auth (EnrollRoute agentId credential body) db es =
     (case parse_protocol enrollmentRequestSchema body of
        Inl e \<Rightarrow> (Inl e, db, es)
      | Inr request \<Rightarrow> respond Enrolled (enroll (fe_sha env) agentId credential now (Some request) db) es)"
| "agentRoute env now False auth (SessionRoute sessionId body) db es =
     respond SessionOpened (session_route env now sessionId auth body db) es"
| "agentRoute env now False auth (ObservationRoute body) db es =
     respond Acknowledged (observation_route env now auth body db) es"
| "agentRoute env now False auth (ClaimRoute commandId body) db es =
     respond Claimed (claim_route env now commandId auth body db) es"
| "agentRoute env now False auth (ResultRoute body) db es = result_route env now auth body db es"
| "agentRoute env now False auth (PollRoute deadline body) db es =
     (case rbind (parse_protocol agentEnvelopeSchema body) (\<lambda>request.
             rbind (session_identity env auth request db) (\<lambda>identity. Inr (request, identity))) of
        Inl e \<Rightarrow> (Inl e, db, es)
      | Inr (request, identity) \<Rightarrow> poll_round env deadline now identity request db es)"
| "agentRoute env now False auth OtherRoute db es =
     (Inl (FleetError ''not_found'' ''Unknown agent route or method''), db, es)"

section \<open>Requests\<close>

text \<open>
  What reaches the server: a request of an agent, an operation of the operator, or a restart. The
  sessions that ran out are marked before a request is routed.
\<close>

datatype fleet_call =
    AgentCall bool "string option" agent_route
  | CreateEnvironment string string "json option"
  | RegenerateEnrollment string string
  | RevokeEnvironment string
  | OperatorCommand command_call
  | OperatorRead read_call
  | IdentifyProjects "nat \<Rightarrow> string" string "string list"
  | Restart

fun fleet_operation :: "fleet_env \<Rightarrow> int \<Rightarrow> fleet_call \<Rightarrow> fleet_db \<Rightarrow> registry \<Rightarrow> fleet_db \<times> registry" where
  "fleet_operation env now (AgentCall browser auth route) db es = snd (agentRoute env now browser auth route db es)"
| "fleet_operation env now (CreateEnvironment uuid secret body) db es =
     (snd (createEnvironment (fe_sha env) uuid secret now body db), es)"
| "fleet_operation env now (RegenerateEnrollment secret i) db es = (snd (regenerateEnrollment (fe_sha env) secret now i db), es)"
| "fleet_operation env now (RevokeEnvironment i) db es = (snd (revoke (invalidateManagementAccess now) now i db), es)"
| "fleet_operation env now (OperatorCommand c) db es = (call_commands (fleet_peers env now) now c db, es)"
| "fleet_operation env now (OperatorRead c) db es =
     (db, call_reads (fe_encodedBytes env) None (fleet_peers env now) maximum_entries now c db es)"
| "fleet_operation env now (IdentifyProjects uuids i ids) db es = (snd (identifyProjects uuids i ids db), es)"
| "fleet_operation env now Restart db es =
     (snd (recoverCommands now (snd (recoverAfterRestart now db))), recoverReads now [])"

fun starts_up :: "fleet_call \<Rightarrow> bool" where
  "starts_up Restart = True"
| "starts_up _ = False"

definition serve :: "fleet_env \<Rightarrow> int \<Rightarrow> fleet_call \<Rightarrow> fleet_db \<times> registry \<Rightarrow> fleet_db \<times> registry" where
  "serve env now c world =
     (case world of (db, es) \<Rightarrow> fleet_operation env now c (if starts_up c then db else snd (expire_sessions now db)) es)"

fun serve_all :: "fleet_env \<Rightarrow> (int \<times> fleet_call) list \<Rightarrow> fleet_db \<times> registry \<Rightarrow> fleet_db \<times> registry" where
  "serve_all env [] world = world"
| "serve_all env ((now, c) # calls) world = serve_all env calls (serve env now c world)"

end
