(* ===== verification/FleetAccessFrames.thy ===== *)
theory FleetAccessFrames
  imports FleetServer
begin

text \<open>
  The frames of the fleet's services, that is, which tables an operation leaves alone, and when the
  tables of access (tokens, credentials, sessions) are consistent.
\<close>

section \<open>What the services leave alone\<close>

definition enrollments :: "fleet_db \<Rightarrow> (string \<times> string) list" where
  "enrollments db = map (\<lambda>r. (en_id r, en_enrollment r)) (environments db)"

definition session_owners :: "fleet_db \<Rightarrow> (string \<times> string \<times> string) list" where
  "session_owners db = map (\<lambda>s. (sn_environment_id s, sn_agent_id s, sn_session_id s)) (sessions db)"

definition access_view :: "fleet_db \<Rightarrow> _" where
  "access_view db = (enrollments db, tokens db, credentials db, session_owners db)"

definition inventory_view :: "fleet_db \<Rightarrow> _" where
  "inventory_view db = (projects db, revisions db, pages db)"

named_theorems access_frames
named_theorems inventory_frames

lemma access_view_updates [simp]:
  "access_view (db\<lparr>commands := x\<rparr>) = access_view db" "access_view (db\<lparr>audits := a\<rparr>) = access_view db"
  "access_view (db\<lparr>projects := p\<rparr>) = access_view db" "access_view (db\<lparr>revisions := r\<rparr>) = access_view db"
  "access_view (db\<lparr>pages := g\<rparr>) = access_view db"
  by (simp_all add: access_view_def enrollments_def session_owners_def)

lemma inventory_view_updates [simp]:
  "inventory_view (db\<lparr>commands := x\<rparr>) = inventory_view db" "inventory_view (db\<lparr>audits := a\<rparr>) = inventory_view db"
  "inventory_view (db\<lparr>environments := e\<rparr>) = inventory_view db" "inventory_view (db\<lparr>tokens := t\<rparr>) = inventory_view db"
  "inventory_view (db\<lparr>credentials := c\<rparr>) = inventory_view db" "inventory_view (db\<lparr>sessions := s\<rparr>) = inventory_view db"
  by (simp_all add: inventory_view_def)

text \<open>Both views at once, for the commands.\<close>

definition other_tables :: "fleet_db \<Rightarrow> _" where
  "other_tables db = db\<lparr>commands := [], audits := []\<rparr>"

lemma other_tables_updates [simp]:
  "other_tables (db\<lparr>commands := x\<rparr>) = other_tables db" "other_tables (db\<lparr>audits := a\<rparr>) = other_tables db"
  by (simp_all add: other_tables_def)

lemma other_tables_views:
  "other_tables db' = other_tables db \<Longrightarrow> access_view db' = access_view db \<and> inventory_view db' = inventory_view db"
  unfolding other_tables_def by (metis access_view_updates(1,2) inventory_view_updates(1,2))

lemma audit_frame: "audit c operation actor requestId now db = Inr db' \<Longrightarrow> other_tables db' = other_tables db"
  by (auto simp: audit_def rbind_Inr_iff)

lemma save_frame: "save c db = Inr db' \<Longrightarrow> other_tables db' = other_tables db"
  by (auto simp: save_def rbind_Inr_iff write_commands_def split: if_splits)

lemma save_audited_frame: "save_audited c operation actor requestId now db = Inr (x, db') \<Longrightarrow> other_tables db' = other_tables db"
  by (auto simp: save_audited_def rbind_Inr_iff dest!: save_frame audit_frame)

lemma expire_frame: "expire now c db = Inr (x, db') \<Longrightarrow> other_tables db' = other_tables db"
  by (auto simp: expire_def dest!: save_audited_frame split: if_splits)

lemma expire_rows_frame: "expire_rows now rs db = Inr db' \<Longrightarrow> other_tables db' = other_tables db"
  by (induction rs arbitrary: db) (auto simp: rbind_Inr_iff dest!: expire_frame)

lemma recover_frame: "recover now db = Inr db' \<Longrightarrow> other_tables db' = other_tables db"
  unfolding recover_def by (rule expire_rows_frame)

lemma invalidate_rows_frame: "invalidate_rows now rs db = Inr db' \<Longrightarrow> other_tables db' = other_tables db"
  by (induction rs arbitrary: db) (auto simp: rbind_Inr_iff dest!: save_audited_frame)

lemma invalidate_frame:
  "invalidateEnvironment now i db = Inr db' \<Longrightarrow> other_tables db' = other_tables db"
  "invalidateProject now i db = Inr db' \<Longrightarrow> other_tables db' = other_tables db"
  by (auto simp: invalidateEnvironment_def invalidateProject_def rbind_Inr_iff dest!: invalidate_rows_frame)

lemma transaction_frame:
  "(\<And>x db'. m db = Inr (x, db') \<Longrightarrow> f db' = f db) \<Longrightarrow> f (snd (transaction m db)) = f db"
  by (cases "m db") (auto simp: transaction_def)

lemma tx_frames:
  "read_tx now i db = Inr (c, db') \<Longrightarrow> other_tables db' = other_tables db"
  "list_tx now projectId request db = Inr (page, db') \<Longrightarrow> other_tables db' = other_tables db"
  "close_tx now i reason db = Inr (c, db') \<Longrightarrow> other_tables db' = other_tables db"
  "claim_tx peers now identity request db = Inr (c, db') \<Longrightarrow> other_tables db' = other_tables db"
  "publish_tx peers now identity request result db = Inr (t, db') \<Longrightarrow> other_tables db' = other_tables db"
  "transfer_tx peers now identity i db = Inr (c, db') \<Longrightarrow> other_tables db' = other_tables db"
  "prune_tx now db = Inr (n, db') \<Longrightarrow> other_tables db' = other_tables db"
proof -
  show "read_tx now i db = Inr (c, db') \<Longrightarrow> other_tables db' = other_tables db"
    by (auto simp: read_tx_def rbind_Inr_iff dest!: expire_frame)
  show "list_tx now projectId request db = Inr (page, db') \<Longrightarrow> other_tables db' = other_tables db"
    by (auto simp: list_tx_def rbind_Inr_iff dest!: recover_frame)
  show "close_tx now i reason db = Inr (c, db') \<Longrightarrow> other_tables db' = other_tables db"
    by (auto simp: close_tx_def rbind_Inr_iff split: if_splits option.splits dest!: expire_frame save_audited_frame)
  show "claim_tx peers now identity request db = Inr (c, db') \<Longrightarrow> other_tables db' = other_tables db"
    by (auto simp: claim_tx_def grant_claim_def rbind_Inr_iff split: if_splits option.splits
        dest!: expire_frame save_audited_frame)
  show "publish_tx peers now identity request result db = Inr (t, db') \<Longrightarrow> other_tables db' = other_tables db"
    by (auto simp: publish_tx_def rbind_Inr_iff split: if_splits dest!: save_audited_frame)
  show "transfer_tx peers now identity i db = Inr (c, db') \<Longrightarrow> other_tables db' = other_tables db"
    by (auto simp: transfer_tx_def rbind_Inr_iff split: if_splits option.splits dest!: expire_frame save_audited_frame)
  show "prune_tx now db = Inr (n, db') \<Longrightarrow> other_tables db' = other_tables db"
    by (auto simp: prune_tx_def rbind_Inr_iff Let_def dest!: recover_frame)
qed

lemma submit_tx_frame: "submit_tx peers uuid now projectId key operation db = Inr (i, db') \<Longrightarrow> other_tables db' = other_tables db"
  by (auto simp: submit_tx_def resubmit_command_def accept_command_def insert_command_def write_commands_def rbind_Inr_iff
      split: option.splits if_splits dest!: recover_frame audit_frame)

lemma command_frames:
  "other_tables (snd (getCommand now i db)) = other_tables db"
  "other_tables (snd (recoverCommands now db)) = other_tables db"
  "other_tables (snd (transferOwnership peers now identity i db)) = other_tables db"
  "other_tables (snd (publishResult peers now identity input db)) = other_tables db"
  "other_tables (snd (claim peers now identity input db)) = other_tables db"
proof -
  show "other_tables (snd (getCommand now i db)) = other_tables db"
    unfolding getCommand_def by (rule transaction_frame) (rule tx_frames(1))
  show "other_tables (snd (recoverCommands now db)) = other_tables db"
    unfolding recoverCommands_def by (rule transaction_frame) (auto simp: rbind_Inr_iff dest: recover_frame)
  show "other_tables (snd (transferOwnership peers now identity i db)) = other_tables db"
    unfolding transferOwnership_def by (rule transaction_frame) (rule tx_frames(6))
  show "other_tables (snd (publishResult peers now identity input db)) = other_tables db"
    by (auto simp: publishResult_def Let_def split: sum.splits intro!: transaction_frame [where f = other_tables] dest: tx_frames(5))
  have "other_tables (snd (transaction (claim_tx peers now identity request) db)) = other_tables db" for request
    by (rule transaction_frame) (rule tx_frames(4))
  then show "other_tables (snd (claim peers now identity input db)) = other_tables db"
    using claim_snd [of peers now identity input db] by auto
qed

lemma call_commands_frame: "other_tables (call_commands peers now c db) = other_tables db"
proof (cases c)
  case (SubmitCommand uuid projectId key input)
  have "other_tables (snd (transaction (submit_tx peers uuid now projectId key operation) db)) = other_tables db" for operation
    by (rule transaction_frame) (rule submit_tx_frame)
  then show ?thesis by (simp add: SubmitCommand submitCommand_def split: sum.splits)
next
  case (ListCommands projectId input)
  have "other_tables (snd (transaction (list_tx now projectId request) db)) = other_tables db" for request
    by (rule transaction_frame) (rule tx_frames(2))
  then show ?thesis by (simp add: ListCommands listCommands_def split: sum.splits)
next
  case (CloseUnresolved i input)
  have "other_tables (snd (transaction (close_tx now i reason) db)) = other_tables db" for reason
    by (rule transaction_frame) (rule tx_frames(3))
  then show ?thesis by (simp add: CloseUnresolved closeUnresolved_def Let_def split: sum.splits)
next
  case (InvalidateEnvironment i)
  show ?thesis unfolding InvalidateEnvironment call_commands.simps as_transaction_def
    by (rule transaction_frame) (auto simp: rbind_Inr_iff dest: invalidate_frame)
next
  case (InvalidateProject i)
  show ?thesis unfolding InvalidateProject call_commands.simps as_transaction_def
    by (rule transaction_frame) (auto simp: rbind_Inr_iff dest: invalidate_frame)
next
  case PruneCommands
  show ?thesis unfolding PruneCommands call_commands.simps prune_def
    by (rule transaction_frame [where f = other_tables]) (use tx_frames(7) in force)
qed (simp_all add: command_frames)

section \<open>Consistent access\<close>

definition set_state :: "string \<Rightarrow> 's \<Rightarrow> (string \<times> 's) list \<Rightarrow> (string \<times> 's) list" where
  "set_state i s es = map (\<lambda>(k, x). (k, if k = i then s else x)) es"

lemma set_state_keys [simp]: "map fst (set_state i s es) = map fst es" "fst ` set (set_state i s es) = fst ` set es"
proof -
  show keys: "map fst (set_state i s es) = map fst es" by (auto simp: set_state_def)
  show "fst ` set (set_state i s es) = fst ` set es" using arg_cong [OF keys, of set] by simp
qed

lemma in_set_state: "(k, x) \<in> set (set_state i s es) \<longleftrightarrow> (if k = i then x = s \<and> i \<in> fst ` set es else (k, x) \<in> set es)"
  by (force simp: set_state_def)

text \<open>\<open>P\<close>, \<open>E\<close> and \<open>R\<close> stand for the states pending, enrolled and revoked.\<close>

definition consistent_access ::
  "'s \<Rightarrow> 's \<Rightarrow> (string \<times> 's) list \<Rightarrow> token_row list \<Rightarrow> credential_row list \<Rightarrow> (string \<times> string \<times> string) list \<Rightarrow> bool" where
  "consistent_access P E es ts cs ss \<longleftrightarrow>
     distinct (map fst es) \<and> distinct (map tk_environment_id ts) \<and> distinct (map tk_verifier ts) \<and>
     distinct (map cd_environment_id cs) \<and> distinct (map fst ss) \<and>
     (\<forall>t \<in> set ts. (tk_environment_id t, P) \<in> set es) \<and>
     (\<forall>c \<in> set cs. (cd_environment_id c, E) \<in> set es) \<and>
     (\<forall>i. (i, E) \<in> set es \<longrightarrow> (\<exists>c \<in> set cs. cd_environment_id c = i)) \<and>
     (\<forall>(i, a, s) \<in> set ss. \<exists>c \<in> set cs. cd_environment_id c = i \<and> cd_agent_id c = a)"

abbreviation "access_inv \<equiv> consistent_access ''pending'' ''enrolled''"

definition access_ok :: "fleet_db \<Rightarrow> bool" where
  "access_ok db \<longleftrightarrow> access_inv (enrollments db) (tokens db) (credentials db) (session_owners db)"

lemma access_ok_view: "access_view db' = access_view db \<Longrightarrow> access_ok db' = access_ok db"
  by (simp add: access_view_def access_ok_def)

lemma one_state: "distinct (map fst es) \<Longrightarrow> (i, s) \<in> set es \<Longrightarrow> (i, s') \<in> set es \<Longrightarrow> s = s'"
  by (metis eq_key_imp_eq_value)

lemma access_new_environment:
  assumes "consistent_access P E es ts cs ss" "i \<notin> fst ` set es" "P \<noteq> E"
  shows "consistent_access P E (es @ [(i, P)]) ts cs ss"
  using assms unfolding consistent_access_def by auto

lemma access_token:
  assumes ok: "consistent_access P E es ts cs ss" and state: "(tk_environment_id t, P) \<in> set es"
    and verifier: "\<forall>x \<in> set ts. tk_verifier x = tk_verifier t \<longrightarrow> tk_environment_id x = tk_environment_id t"
  shows "consistent_access P E es (upsert tk_environment_id t ts) cs ss"
proof -
  from ok have d: "distinct (map tk_environment_id ts)" "distinct (map tk_verifier ts)" by (auto simp: consistent_access_def)
  have "distinct (map tk_verifier (upsert tk_environment_id t ts))"
  proof (cases "tk_environment_id t \<in> tk_environment_id ` set ts")
    case True
    with update_where_split [OF d(1) True] obtain as x bs
      where ts: "ts = as @ x # bs" "upsert tk_environment_id t ts = as @ t # bs" "tk_environment_id x = tk_environment_id t"
      by (metis upsert_def)
    from d(1) ts(1,3) have "tk_environment_id t \<notin> tk_environment_id ` set as" "tk_environment_id t \<notin> tk_environment_id ` set bs"
      by auto
    with verifier ts(1) have "tk_verifier t \<notin> tk_verifier ` set as" "tk_verifier t \<notin> tk_verifier ` set bs"
      unfolding image_iff by auto
    with d(2) ts(1,2) show ?thesis by simp
  next
    case False
    with verifier have "tk_verifier t \<notin> tk_verifier ` set ts" by (metis (no_types, lifting) imageE imageI)
    with d(2) False show ?thesis by (simp add: map_upsert_new)
  qed
  moreover have "distinct (map tk_environment_id (upsert tk_environment_id t ts))" by (rule distinct_upsert [OF d(1)])
  moreover have "x \<in> set (upsert tk_environment_id t ts) \<Longrightarrow> x = t \<or> x \<in> set ts" for x
    by (auto simp: upsert_def set_update_where split: if_splits)
  ultimately show ?thesis using ok state unfolding consistent_access_def by blast
qed

lemma access_pending:
  assumes ok: "consistent_access P E es ts cs ss" and state: "(i, s) \<in> set es" "s \<noteq> E" and P: "P \<noteq> E"
  shows "consistent_access P E (set_state i P es) ts cs ss"
proof -
  from ok have d: "distinct (map fst es)" by (simp add: consistent_access_def)
  have none: "cd_environment_id c \<noteq> i" if "c \<in> set cs" for c
    using ok that state one_state [OF d state(1)] unfolding consistent_access_def by metis
  have "i \<in> fst ` set es" using state(1) by force
  with ok none P show ?thesis unfolding consistent_access_def by (simp add: in_set_state)
qed

lemma access_enroll:
  assumes ok: "consistent_access P E es ts cs ss" and state: "(i, P) \<in> set es" and c: "cd_environment_id c = i" and P: "P \<noteq> E"
  shows "consistent_access P E (set_state i E es) (filter (\<lambda>t. tk_environment_id t \<noteq> i) ts) (cs @ [c]) ss"
proof -
  from ok have d: "distinct (map fst es)" by (simp add: consistent_access_def)
  have "cd_environment_id x \<noteq> i" if "x \<in> set cs" for x
    using ok that P one_state [OF d state] unfolding consistent_access_def by metis
  then have "distinct (map cd_environment_id (cs @ [c]))" using ok c by (auto simp: consistent_access_def)
  moreover have "i \<in> fst ` set es" using state by force
  ultimately show ?thesis using ok c unfolding consistent_access_def
    by (simp add: in_set_state distinct_map_filter) blast
qed

lemma access_revoke:
  assumes ok: "consistent_access P E es ts cs ss" and R: "R \<noteq> E"
  shows "consistent_access P E (set_state i R es) (filter (\<lambda>t. tk_environment_id t \<noteq> i) ts)
     (filter (\<lambda>c. cd_environment_id c \<noteq> i) cs) (filter (\<lambda>s. fst s \<noteq> i) ss)"
proof -
  have "\<exists>c \<in> set cs. cd_environment_id c \<noteq> i \<and> cd_environment_id c = k \<and> cd_agent_id c = a"
    if "(k, a, s) \<in> set ss" "k \<noteq> i" for k a s
    using ok that unfolding consistent_access_def by fastforce
  with ok R show ?thesis unfolding consistent_access_def by (simp add: in_set_state distinct_map_filter) blast
qed

lemma access_session:
  assumes ok: "consistent_access P E es ts cs ss" and c: "c \<in> set cs" "cd_environment_id c = i" "cd_agent_id c = a"
  shows "consistent_access P E es ts cs (upsert fst (i, a, s) ss)"
proof -
  have "distinct (map fst (upsert fst (i, a, s) ss))" by (rule distinct_upsert) (use ok in \<open>simp add: consistent_access_def\<close>)
  moreover have "x \<in> set (upsert fst (i, a, s) ss) \<Longrightarrow> x = (i, a, s) \<or> x \<in> set ss" for x
    by (auto simp: upsert_def set_update_where split: if_splits)
  ultimately show ?thesis using ok c unfolding consistent_access_def by blast
qed

section \<open>Enrollment and sessions keep access consistent\<close>

lemma enrollments_set:
  assumes "\<And>r. en_id (f r) = en_id r" "\<And>r. en_enrollment (f r) = s"
  shows "enrollments (set_environment i f db) = set_state i s (enrollments db)"
  using assms by (simp add: enrollments_def set_environment_def set_state_def update_where_def)

lemma enrollments_same:
  assumes "\<And>r. en_id (f r) = en_id r" "\<And>r. en_enrollment (f r) = en_enrollment r"
  shows "enrollments (set_environment i f db) = enrollments db"
  using assms by (simp add: enrollments_def set_environment_def update_where_def)

lemma set_environment_tables [simp]:
  "tokens (set_environment i f db) = tokens db" "credentials (set_environment i f db) = credentials db"
  "sessions (set_environment i f db) = sessions db" "session_owners (set_environment i f db) = session_owners db"
  "commands (set_environment i f db) = commands db" "inventory_view (set_environment i f db) = inventory_view db"
  by (simp_all add: set_environment_def session_owners_def inventory_view_def)

lemma map_upsert:
  assumes "\<And>x. key' (f x) = key x"
  shows "map f (upsert key r rows) = upsert key' (f r) (map f rows)"
  using assms by (auto simp: upsert_def update_where_def image_iff)

lemma enrollment_row: "environment_row_of i db = Some r \<Longrightarrow> (i, en_enrollment r) \<in> set (enrollments db)"
  by (auto simp: environment_row_of_def enrollments_def dest: find_Some_mem)

lemma environment_record_Inr: "environment_record i db = Inr r \<Longrightarrow> environment_row_of i db = Some r"
  by (auto simp: environment_record_def rbind_Inr_iff split: option.splits)

lemma issueToken_Inr:
  assumes "issueToken sha secret i now db = Inr (out, db')"
  obtains t where "db' = db\<lparr>tokens := upsert tk_environment_id t (tokens db)\<rparr>" "tk_environment_id t = i" "tk_verifier t = sha secret"
    "\<forall>x \<in> set (tokens db). tk_verifier x = tk_verifier t \<longrightarrow> tk_environment_id x = tk_environment_id t"
proof -
  from assms obtain e where u: "upsert_token \<lparr>tk_environment_id = i, tk_verifier = sha secret, tk_expires_at = e\<rparr> db = Inr db'"
    unfolding issueToken_def by (auto simp: rbind_Inr_iff)
  let ?t = "\<lparr>tk_environment_id = i, tk_verifier = sha secret, tk_expires_at = e\<rparr>"
  from u have "db' = db\<lparr>tokens := upsert tk_environment_id ?t (tokens db)\<rparr>"
    "\<forall>x \<in> set (tokens db). tk_verifier x = tk_verifier ?t \<longrightarrow> tk_environment_id x = tk_environment_id ?t"
    unfolding upsert_token_def by (simp_all split: if_splits)
  then show thesis using that [of ?t] by simp
qed

lemma enrollment_audit_Inr: "enrollment_audit actor target operation request now db = Inr db' \<Longrightarrow> other_tables db' = other_tables db"
  by (auto simp: enrollment_audit_def rbind_Inr_iff)

lemma other_tables_access: "other_tables db' = other_tables db \<Longrightarrow> access_ok db' = access_ok db"
  using other_tables_views access_ok_view by blast

lemma access_transaction:
  assumes "access_ok db" "\<And>x db'. m db = Inr (x, db') \<Longrightarrow> access_ok db'"
  shows "access_ok (snd (transaction m db))"
  by (rule transaction_step) (use assms in auto)

lemma two_states [simp]: "''pending'' \<noteq> ''enrolled''" "''revoked'' \<noteq> ''enrolled''" "''revoked'' \<noteq> ''pending''"
  by simp_all

lemma access_issueToken:
  assumes ok: "access_ok db" and state: "(i, ''pending'') \<in> set (enrollments db)" and issued: "issueToken sha secret i now db = Inr (out, db')"
  shows "access_ok db'"
proof -
  obtain t where t: "db' = db\<lparr>tokens := upsert tk_environment_id t (tokens db)\<rparr>" "tk_environment_id t = i"
    "\<forall>x \<in> set (tokens db). tk_verifier x = tk_verifier t \<longrightarrow> tk_environment_id x = tk_environment_id t"
    using issueToken_Inr [OF issued] by metis
  from access_token [OF ok [unfolded access_ok_def] _ t(3)] t(2) state show ?thesis
    by (simp add: access_ok_def t(1) enrollments_def session_owners_def)
qed

lemma access_createEnvironment: "access_ok db \<Longrightarrow> access_ok (snd (createEnvironment sha uuid secret now input db))"
proof -
  assume ok: "access_ok db"
  have "access_ok (snd (transaction (\<lambda>db.
       rbind (insert_environment \<lparr>en_id = uuid, en_name = name, en_enrollment = ''pending'',
                   en_connection = ''awaiting-signal'', en_last_contact_at = None\<rparr> db) (\<lambda>db.
               rbind (issueToken sha secret uuid now db) (\<lambda>(token, db).
               rbind (enrollment_audit OPERATOR_ACTOR uuid ''environment.create'' None now db) (\<lambda>db.
                 Inr (token, db))))) db))" for name
  proof (rule access_transaction [OF ok])
    fix x db'
    let ?r = "\<lparr>en_id = uuid, en_name = name, en_enrollment = ''pending'', en_connection = ''awaiting-signal'',
      en_last_contact_at = None\<rparr>"
    assume "rbind (insert_environment ?r db) (\<lambda>db.
               rbind (issueToken sha secret uuid now db) (\<lambda>(token, db).
               rbind (enrollment_audit OPERATOR_ACTOR uuid ''environment.create'' None now db) (\<lambda>db.
                 Inr (token, db)))) = Inr (x, db')"
    then obtain db1 db2 where steps: "insert_environment ?r db = Inr db1" "issueToken sha secret uuid now db1 = Inr (x, db2)"
      "enrollment_audit OPERATOR_ACTOR uuid ''environment.create'' None now db2 = Inr db'"
      by (auto simp: rbind_Inr_iff)
    from steps(1) have db1: "uuid \<notin> en_id ` set (environments db)" "db1 = db\<lparr>environments := environments db @ [?r]\<rparr>"
      by (simp_all add: insert_environment_def split: if_splits)
    then have "uuid \<notin> fst ` set (enrollments db)" by (auto simp: enrollments_def)
    from access_new_environment [OF ok [unfolded access_ok_def] this two_states(1)]
    have "access_ok db1" by (simp add: access_ok_def db1(2) enrollments_def session_owners_def)
    moreover have "(uuid, ''pending'') \<in> set (enrollments db1)" by (simp add: db1(2) enrollments_def)
    ultimately have "access_ok db2" using steps(2) by (rule access_issueToken)
    with other_tables_access [OF enrollment_audit_Inr [OF steps(3)]] show "access_ok db'" by simp
  qed
  with ok show ?thesis by (simp add: createEnvironment_def Let_def split: sum.splits)
qed

lemma regenerate_cases:
  assumes "regenerateEnrollment sha secret now i db = (Inr out, db')"
  obtains r t where "environment_row_of i db = Some r" "en_enrollment r \<noteq> ''enrolled''" "tk_environment_id t = i" "tk_verifier t = sha secret"
    "\<forall>x \<in> set (tokens db). tk_verifier x = tk_verifier t \<longrightarrow> tk_environment_id x = tk_environment_id t"
    "other_tables db' = other_tables (set_environment i (\<lambda>r. r\<lparr>en_enrollment := ''pending'', en_connection := ''awaiting-signal'',
       en_last_contact_at := None\<rparr>) (db\<lparr>tokens := upsert tk_environment_id t (tokens db)\<rparr>))"
proof -
  from assms obtain r db1 where r: "environment_record i db = Inr r" "en_enrollment r \<noteq> ''enrolled''"
    "issueToken sha secret i now db = Inr (out, db1)"
    "enrollment_audit OPERATOR_ACTOR i ''enrollment.regenerate'' None now
       (set_environment i (\<lambda>r. r\<lparr>en_enrollment := ''pending'', en_connection := ''awaiting-signal'',
                  en_last_contact_at := None\<rparr>) db1) = Inr db'"
    unfolding regenerateEnrollment_def transaction_Inr by (auto simp: rbind_Inr_iff split: if_splits)
  obtain t where "db1 = db\<lparr>tokens := upsert tk_environment_id t (tokens db)\<rparr>" "tk_environment_id t = i" "tk_verifier t = sha secret"
    "\<forall>x \<in> set (tokens db). tk_verifier x = tk_verifier t \<longrightarrow> tk_environment_id x = tk_environment_id t"
    by (rule issueToken_Inr [OF r(3)])
  with that environment_record_Inr [OF r(1)] r(2) enrollment_audit_Inr [OF r(4)] show ?thesis by metis
qed

lemma access_regenerate: "access_ok db \<Longrightarrow> access_ok (snd (regenerateEnrollment sha secret now i db))"
proof (cases "regenerateEnrollment sha secret now i db")
  case (Pair r db')
  assume ok: "access_ok db"
  show ?thesis
  proof (cases r)
    case (Inl e)
    with Pair have "db' = db" unfolding regenerateEnrollment_def by (simp add: transaction_Inl)
    with ok Pair show ?thesis by simp
  next
    case (Inr out)
    have reg: "regenerateEnrollment sha secret now i db = (Inr out, db')" using Pair Inr by simp
    obtain r t where r: "environment_row_of i db = Some r" "en_enrollment r \<noteq> ''enrolled''" "tk_environment_id t = i"
      "tk_verifier t = sha secret" "\<forall>x \<in> set (tokens db). tk_verifier x = tk_verifier t \<longrightarrow> tk_environment_id x = tk_environment_id t"
      "other_tables db' = other_tables (set_environment i (\<lambda>r. r\<lparr>en_enrollment := ''pending'', en_connection := ''awaiting-signal'',
         en_last_contact_at := None\<rparr>) (db\<lparr>tokens := upsert tk_environment_id t (tokens db)\<rparr>))"
      by (rule regenerate_cases [OF reg])
    note state = enrollment_row [OF r(1)]
    note pending = access_pending [OF ok [unfolded access_ok_def] state r(2) two_states(1)]
    have "(i, ''pending'') \<in> set (set_state i ''pending'' (enrollments db))" using state by (force simp: in_set_state)
    from access_token [OF pending _ r(5)] this r(3)
    have "access_inv (set_state i ''pending'' (enrollments db)) (upsert tk_environment_id t (tokens db)) (credentials db)
      (session_owners db)" by simp
    then have "access_ok (set_environment i (\<lambda>r. r\<lparr>en_enrollment := ''pending'', en_connection := ''awaiting-signal'',
         en_last_contact_at := None\<rparr>) (db\<lparr>tokens := upsert tk_environment_id t (tokens db)\<rparr>))"
      unfolding access_ok_def by (subst enrollments_set) (simp_all add: enrollments_def session_owners_def)
    with other_tables_access [OF r(6)] show ?thesis by (simp only: Pair snd_conv)
  qed
qed

text \<open>The token of an enrollment: the secret is the one the request carries.\<close>

definition enroll_secret :: "json option \<Rightarrow> string" where
  "enroll_secret input = getOr (string_at input [''token'']) []"

lemma enroll_cases:
  assumes "enroll sha agentId credential now input db = (Inr out, db')"
  obtains t where "pending_token (sha (enroll_secret input)) db = Some t" "after (tk_expires_at t) now"
    "out = (tk_environment_id t, agentId, credential)"
    "\<forall>c \<in> set (credentials db). cd_environment_id c \<noteq> tk_environment_id t \<and> cd_agent_id c \<noteq> agentId \<and>
       cd_verifier c \<noteq> sha credential"
    "other_tables db' = other_tables (set_environment (tk_environment_id t)
       (\<lambda>r. r\<lparr>en_enrollment := ''enrolled'', en_connection := ''awaiting-signal'', en_last_contact_at := None\<rparr>)
       (delete_tokens (tk_environment_id t) db\<lparr>credentials := credentials db @
          [\<lparr>cd_environment_id = tk_environment_id t, cd_agent_id = agentId, cd_verifier = sha credential\<rparr>]\<rparr>))"
proof -
  from assms obtain request where request: "parse_protocol enrollmentRequestSchema input = Inr request"
    by (auto simp: enroll_def split: sum.splits if_splits)
  then obtain w where w: "enrollmentRequestSchema input ''$'' = Inr w" "request = getOr w JNull"
    by (auto simp: parse_protocol_def split: sum.splits)
  have "faithful_schema enrollmentRequestSchema" by (simp add: schema_intros)
  from faithful_schema.same_document [OF this w(1)] faithful_schema.reparse [OF this w(1), of "''$''"]
  have "equivalent w input" "is_ok (enrollmentRequestSchema w ''$'')" by simp_all
  moreover from this(2) obtain j where "w = Some j" using object_ok_obj unfolding enrollmentRequestSchema_def by blast
  ultimately have secret: "getOr (string_at (Some request) [''token'']) [] = enroll_secret input"
    using scalars_equivalent(1) w(2) by (simp add: enroll_secret_def)
  let ?i = tk_environment_id
  from assms request secret obtain t db1 db2 where t: "pending_token (sha (enroll_secret input)) db = Some t"
    "after (tk_expires_at t) now" "out = (?i t, agentId, credential)"
    "insert_credential \<lparr>cd_environment_id = ?i t, cd_agent_id = agentId, cd_verifier = sha credential\<rparr> (delete_tokens (?i t) db) = Inr db1"
    "enrollment_audit (''agent:'' @ agentId) (?i t) ''agent.enroll'' (string_at (Some request) [''requestId'']) now
       (set_environment (?i t) (\<lambda>r. r\<lparr>en_enrollment := ''enrolled'', en_connection := ''awaiting-signal'',
          en_last_contact_at := None\<rparr>) db1) = Inr db'"
    unfolding enroll_def by (auto simp: transaction_Inr rbind_Inr_iff Let_def split: if_splits option.splits)
  from t(4) have "db1 = delete_tokens (?i t) db\<lparr>credentials := credentials db @
      [\<lparr>cd_environment_id = ?i t, cd_agent_id = agentId, cd_verifier = sha credential\<rparr>]\<rparr>"
    "\<forall>c \<in> set (credentials db). cd_environment_id c \<noteq> ?i t \<and> cd_agent_id c \<noteq> agentId \<and> cd_verifier c \<noteq> sha credential"
    by (auto simp: insert_credential_def delete_tokens_def split: if_splits)
  with that [OF t(1-3)] enrollment_audit_Inr [OF t(5)] show ?thesis by simp
qed

lemma enroll_Inl: "enroll sha agentId credential now input db = (Inl e, db') \<Longrightarrow> db' = db"
  by (auto simp: enroll_def transaction_Inl Let_def split: if_splits sum.splits)

lemma pending_tokenD:
  "pending_token v db = Some t \<Longrightarrow> t \<in> set (tokens db) \<and> tk_verifier t = v \<and> (tk_environment_id t, ''pending'') \<in> set (enrollments db)"
  unfolding pending_token_def by (drule find_Some_mem) (force simp: enrollments_def)

lemma access_enrolled: "access_ok db \<Longrightarrow> access_ok (snd (enroll sha agentId credential now input db))"
proof (cases "enroll sha agentId credential now input db")
  case (Pair r db')
  assume ok: "access_ok db"
  show ?thesis
  proof (cases r)
    case (Inl e)
    with Pair enroll_Inl ok show ?thesis by fastforce
  next
    case (Inr out)
    have done': "enroll sha agentId credential now input db = (Inr out, db')" using Pair Inr by simp
    obtain t where t: "pending_token (sha (enroll_secret input)) db = Some t" "after (tk_expires_at t) now"
      "out = (tk_environment_id t, agentId, credential)"
      "\<forall>c \<in> set (credentials db). cd_environment_id c \<noteq> tk_environment_id t \<and> cd_agent_id c \<noteq> agentId \<and>
         cd_verifier c \<noteq> sha credential"
      "other_tables db' = other_tables (set_environment (tk_environment_id t)
         (\<lambda>r. r\<lparr>en_enrollment := ''enrolled'', en_connection := ''awaiting-signal'', en_last_contact_at := None\<rparr>)
         (delete_tokens (tk_environment_id t) db\<lparr>credentials := credentials db @
            [\<lparr>cd_environment_id = tk_environment_id t, cd_agent_id = agentId, cd_verifier = sha credential\<rparr>]\<rparr>))"
      by (rule enroll_cases [OF done'])
    from pending_tokenD [OF t(1)] have "(tk_environment_id t, ''pending'') \<in> set (enrollments db)" by simp
    from access_enroll [OF ok [unfolded access_ok_def] this, of "\<lparr>cd_environment_id = tk_environment_id t,
        cd_agent_id = agentId, cd_verifier = sha credential\<rparr>"]
    have "access_ok (set_environment (tk_environment_id t)
         (\<lambda>r. r\<lparr>en_enrollment := ''enrolled'', en_connection := ''awaiting-signal'', en_last_contact_at := None\<rparr>)
         (delete_tokens (tk_environment_id t) db\<lparr>credentials := credentials db @
            [\<lparr>cd_environment_id = tk_environment_id t, cd_agent_id = agentId, cd_verifier = sha credential\<rparr>]\<rparr>))"
      unfolding access_ok_def by (subst enrollments_set) (simp_all add: enrollments_def session_owners_def delete_tokens_def)
    with other_tables_access [OF t(5)] show ?thesis by (simp only: Pair snd_conv)
  qed
qed

text \<open>What a revocation leaves in the tables of access.\<close>

definition revoked_db :: "string \<Rightarrow> fleet_db \<Rightarrow> fleet_db" where
  "revoked_db i db = invalidate_session i (set_environment i (\<lambda>r. r\<lparr>en_enrollment := ''revoked'', en_connection := ''offline''\<rparr>)
     (delete_credentials i (delete_tokens i db)))"

lemma revoke_cases:
  assumes "revoke (invalidateManagementAccess now) now i db = (Inr u, db')"
  obtains (already) r where "environment_row_of i db = Some r" "en_enrollment r = ''revoked''" "db' = db"
  | (revoked) r db1 where "environment_row_of i db = Some r" "en_enrollment r \<noteq> ''revoked''"
      "invalidateEnvironment now i (revoked_db i db) = Inr db1" "commands db' = commands db1"
      "other_tables db' = other_tables (revoked_db i db)"
proof -
  from assms obtain r where r: "environment_record i db = Inr r"
    and rest: "(if en_enrollment r = ''revoked'' then Inr ((), db)
         else rbind (invalidateManagementAccess now i (set_environment i (\<lambda>r. r\<lparr>en_enrollment := ''revoked'', en_connection := ''offline''\<rparr>)
                (delete_credentials i (delete_tokens i db)))) (\<lambda>db.
              rbind (enrollment_audit OPERATOR_ACTOR i ''environment.revoke'' None now db) (\<lambda>db.
                Inr ((), db)))) = Inr (u, db')"
    unfolding revoke_def transaction_Inr by (auto simp: rbind_Inr_iff)
  note row = environment_record_Inr [OF r]
  show ?thesis
  proof (cases "en_enrollment r = ''revoked''")
    case True
    with rest have "db' = db" by simp
    from already [OF row True this] show ?thesis .
  next
    case False
    with rest obtain db1 where "invalidateEnvironment now i (revoked_db i db) = Inr db1"
      "enrollment_audit OPERATOR_ACTOR i ''environment.revoke'' None now db1 = Inr db'"
      unfolding revoked_db_def invalidateManagementAccess_def by (auto simp only: if_False rbind_Inr_iff Inr_inject prod.inject)
    with revoked [OF row False this(1)] enrollment_audit_Inr invalidate_frame(1) show ?thesis
      by (auto simp: enrollment_audit_def rbind_Inr_iff)
  qed
qed

lemma session_owners_invalidate: "session_owners (invalidate_session i db) = filter (\<lambda>s. fst s \<noteq> i) (session_owners db)"
  by (simp add: session_owners_def invalidate_session_def filter_map comp_def)

lemma revoked_view:
  "enrollments (revoked_db i db) = set_state i ''revoked'' (enrollments db)"
  "tokens (revoked_db i db) = filter (\<lambda>t. tk_environment_id t \<noteq> i) (tokens db)"
  "credentials (revoked_db i db) = filter (\<lambda>c. cd_environment_id c \<noteq> i) (credentials db)"
  "session_owners (revoked_db i db) = filter (\<lambda>s. fst s \<noteq> i) (session_owners db)"
proof -
  have "enrollments (revoked_db i db) = enrollments (set_environment i (\<lambda>r. r\<lparr>en_enrollment := ''revoked'', en_connection := ''offline''\<rparr>)
     (delete_credentials i (delete_tokens i db)))"
    by (simp add: revoked_db_def invalidate_session_def enrollments_def)
  also have "\<dots> = set_state i ''revoked'' (enrollments db)"
    by (subst enrollments_set) (simp_all add: delete_credentials_def delete_tokens_def enrollments_def)
  finally show "enrollments (revoked_db i db) = set_state i ''revoked'' (enrollments db)" .
  show "tokens (revoked_db i db) = filter (\<lambda>t. tk_environment_id t \<noteq> i) (tokens db)"
    "credentials (revoked_db i db) = filter (\<lambda>c. cd_environment_id c \<noteq> i) (credentials db)"
    by (simp_all add: revoked_db_def invalidate_session_def delete_credentials_def delete_tokens_def)
  show "session_owners (revoked_db i db) = filter (\<lambda>s. fst s \<noteq> i) (session_owners db)"
    unfolding revoked_db_def session_owners_invalidate
    by (simp add: session_owners_def delete_credentials_def delete_tokens_def)
qed

lemma access_revoked_db: "access_ok db \<Longrightarrow> access_ok (revoked_db i db)"
  unfolding access_ok_def revoked_view by (rule access_revoke) simp_all

lemma access_revoked: "access_ok db \<Longrightarrow> access_ok (snd (revoke (invalidateManagementAccess now) now i db))"
proof (cases "revoke (invalidateManagementAccess now) now i db")
  case (Pair r db')
  assume ok: "access_ok db"
  show ?thesis
  proof (cases r)
    case (Inl e)
    with Pair have "db' = db" unfolding revoke_def by (simp add: transaction_Inl)
    with ok Pair show ?thesis by simp
  next
    case (Inr u)
    with Pair have "revoke (invalidateManagementAccess now) now i db = (Inr u, db')" by simp
    then show ?thesis
    proof (cases rule: revoke_cases)
      case already
      with ok Pair show ?thesis by simp
    next
      case (revoked r db1)
      from other_tables_access [OF revoked(5)] access_revoked_db [OF ok] show ?thesis by (simp only: Pair snd_conv)
    qed
  qed
qed

lemma enrolled_credentialD:
  "enrolled_credential i agent db = Some c \<Longrightarrow> c \<in> set (credentials db) \<and> cd_environment_id c = i \<and> cd_agent_id c = agent \<and>
     (i, ''enrolled'') \<in> set (enrollments db)"
  unfolding enrolled_credential_def by (drule find_Some_mem) (force simp: enrollments_def)

lemma authenticate_Inr:
  assumes "authenticate sha identity db = Inr ()"
  obtains c where "enrolled_credential (ai_environmentId identity) (ai_agentId identity) db = Some c"
    "cd_verifier c = sha (ai_credential identity)"
  using assms by (auto simp: authenticate_def rbind_Inr_iff split: if_splits option.splits)

lemma openSession_cases:
  assumes "openSession sha sessionId now identity input db = (Inr (sid, expiresAt), db')"
  obtains row where "authenticate sha identity db = Inr ()" "sid = sessionId" "clock_text (now + SESSION_LIFETIME_MS) = Inr expiresAt"
    "case session_of (ai_environmentId identity) db of None \<Rightarrow> True | Some s \<Rightarrow> \<not> after (sn_expires_at s) now"
    "sn_environment_id row = ai_environmentId identity" "sn_agent_id row = ai_agentId identity" "sn_session_id row = sessionId"
    "sn_expires_at row = expiresAt" "sn_sequence row = -1"
    "\<forall>s \<in> set (sessions db). sn_session_id s = sessionId \<longrightarrow> sn_environment_id s = ai_environmentId identity"
    "db' = set_environment (ai_environmentId identity) (\<lambda>r. r\<lparr>en_connection :=
        (if en_last_contact_at r = None then ''awaiting-signal'' else ''offline'')\<rparr>)
       (db\<lparr>sessions := upsert sn_environment_id row (sessions db)\<rparr>)"
proof -
  from assms obtain request where request: "session_matches identity (field request [''environmentId'']) (Some (field request [''agentId''])) = Inr ()"
    "transaction (\<lambda>db.
          let i = field request [''environmentId'']
          in rbind (authenticate sha identity db) (\<lambda>_.
             if (case session_of i db of None \<Rightarrow> False | Some current \<Rightarrow> after (sn_expires_at current) now)
             then Inl (FleetError ''session_conflict'' ''Agent already has a live session'')
             else rbind (clock_text (now + SESSION_LIFETIME_MS)) (\<lambda>expiresAt.
               rbind (upsert_session
                 \<lparr>sn_environment_id = i, sn_agent_id = field request [''agentId''], sn_session_id = sessionId,
                  sn_expires_at = expiresAt, sn_sequence = -1, sn_agent_version = field request [''agentVersion''],
                  sn_hostname = field request [''host'', ''hostname''], sn_os = field request [''host'', ''os'']\<rparr> db)
                 (\<lambda>db. Inr ((sessionId, expiresAt),
                    set_environment i (\<lambda>r. r\<lparr>en_connection :=
                      (if en_last_contact_at r = None then ''awaiting-signal'' else ''offline'')\<rparr>) db))))) db = (Inr (sid, expiresAt), db')"
    unfolding openSession_def by (auto simp: rbind_Inr_iff split: if_splits sum.splits)
  from request(1) have names: "field request [''environmentId''] = ai_environmentId identity"
    "field request [''agentId''] = ai_agentId identity" by (auto simp: session_matches_def split: if_splits)
  let ?row = "\<lparr>sn_environment_id = ai_environmentId identity, sn_agent_id = ai_agentId identity, sn_session_id = sessionId,
                  sn_expires_at = expiresAt, sn_sequence = -1, sn_agent_version = field request [''agentVersion''],
                  sn_hostname = field request [''host'', ''hostname''], sn_os = field request [''host'', ''os'']\<rparr>"
  from request(2) obtain db1 where steps: "authenticate sha identity db = Inr ()" "sid = sessionId"
    "clock_text (now + SESSION_LIFETIME_MS) = Inr expiresAt" "upsert_session ?row db = Inr db1"
    "\<not> (case session_of (ai_environmentId identity) db of None \<Rightarrow> False | Some current \<Rightarrow> after (sn_expires_at current) now)"
    "db' = set_environment (ai_environmentId identity) (\<lambda>r. r\<lparr>en_connection :=
                      (if en_last_contact_at r = None then ''awaiting-signal'' else ''offline'')\<rparr>) db1"
    unfolding transaction_Inr names Let_def rbind_Inr_iff by (auto simp: rbind_Inr_iff split: if_splits)
  from steps(4) have "db1 = db\<lparr>sessions := upsert sn_environment_id ?row (sessions db)\<rparr>"
    "\<forall>s \<in> set (sessions db). sn_session_id s = sessionId \<longrightarrow> sn_environment_id s = ai_environmentId identity"
    by (auto simp: upsert_session_def split: if_splits)
  with that [of ?row] steps show ?thesis by (simp split: option.splits)
qed

lemma openSession_Inl: "openSession sha sessionId now identity input db = (Inl e, db') \<Longrightarrow> db' = db"
  by (auto simp: openSession_def transaction_Inl split: if_splits sum.splits)

lemma access_openSession: "access_ok db \<Longrightarrow> access_ok (snd (openSession sha sessionId now identity input db))"
proof (cases "openSession sha sessionId now identity input db")
  case (Pair r db')
  assume ok: "access_ok db"
  show ?thesis
  proof (cases r)
    case (Inl e)
    with Pair openSession_Inl ok show ?thesis by fastforce
  next
    case (Inr out)
    obtain sid t where "out = (sid, t)" by force
    with Pair Inr have opened: "openSession sha sessionId now identity input db = (Inr (sid, t), db')" by simp
    then show ?thesis
    proof (cases rule: openSession_cases)
      case (1 row)
      obtain c where c: "enrolled_credential (ai_environmentId identity) (ai_agentId identity) db = Some c"
        by (rule authenticate_Inr [OF 1(1)])
      let ?db = "db\<lparr>sessions := upsert sn_environment_id row (sessions db)\<rparr>"
      have "session_owners ?db = upsert fst (ai_environmentId identity, ai_agentId identity, sessionId) (session_owners db)"
        by (simp add: session_owners_def map_upsert [where key' = fst] 1(5-7))
      moreover have "enrollments db' = enrollments ?db" unfolding 1(11) by (rule enrollments_same) simp_all
      moreover have "tokens db' = tokens db" "credentials db' = credentials db" "session_owners db' = session_owners ?db"
        by (simp_all add: 1(11))
      ultimately show ?thesis
        using access_session [OF ok [unfolded access_ok_def], of c "ai_environmentId identity" "ai_agentId identity" sessionId]
          enrolled_credentialD [OF c] Pair by (simp add: access_ok_def) (simp add: enrollments_def)
    qed
  qed
qed

section \<open>Observations leave access alone\<close>

text \<open>
  A view of the database that the tables of the inventory do not show, nor those of the commands. An
  observation leaves it alone as long as the cancellation of commands does.
\<close>

locale inventory_frame =
  fixes view :: "fleet_db \<Rightarrow> 'v"
  assumes commands_hidden: "view (db\<lparr>commands := c\<rparr>) = view db" and audits_hidden: "view (db\<lparr>audits := a\<rparr>) = view db"
    and projects_hidden: "view (db\<lparr>projects := p\<rparr>) = view db" and revisions_hidden: "view (db\<lparr>revisions := r\<rparr>) = view db"
    and pages_hidden: "view (db\<lparr>pages := g\<rparr>) = view db"
begin

lemmas hidden = commands_hidden audits_hidden projects_hidden revisions_hidden pages_hidden

lemma command_change: "other_tables db' = other_tables db \<Longrightarrow> view db' = view db"
  unfolding other_tables_def by (metis hidden(1,2))

lemma cancel: "invalidateProject now i db = Inr db' \<Longrightarrow> view db' = view db"
  by (rule command_change [OF invalidate_frame(2)])

lemma receive_project: "receive_project (invalidateProject now) t i x db = Inr db' \<Longrightarrow> view db' = view db"
  by (auto simp: receive_project_def rbind_Inr_iff Let_def update_projects_def hidden split: option.splits if_splits dest!: cancel)

lemma receive_projects: "receive_projects (invalidateProject now) t i xs db = Inr db' \<Longrightarrow> view db' = view db"
  by (induction xs arbitrary: db) (auto simp: rbind_Inr_iff dest!: receive_project)

lemma open_revision: "open_revision i sid inventory db = Inr db' \<Longrightarrow> view db' = view db"
  by (auto simp: open_revision_def Let_def hidden split: if_splits)

lemma settle_projects: "settle_projects (invalidateProject now) ids rows db = Inr db' \<Longrightarrow> view db' = view db"
proof (induction rows arbitrary: db)
  case (Cons r rows)
  then obtain db1 where step: "(if pj_managed r \<and> pj_project_id r \<notin> set ids then invalidateProject now (pj_project_id r) db else Inr db) = Inr db1"
    "settle_projects (invalidateProject now) ids rows (update_projects (\<lambda>x. pj_project_id x = pj_project_id r)
       (\<lambda>x. x\<lparr>pj_managed := pj_project_id r \<in> set ids, pj_published := (pj_project_id r \<in> set ids \<or> pj_published x)\<rparr>) db1) = Inr db'"
    by (auto simp: rbind_Inr_iff Let_def)
  from step(1) have "view db1 = view db" by (auto dest: cancel split: if_splits)
  with Cons.IH [OF step(2)] show ?case by (simp add: update_projects_def hidden)
qed simp

lemma complete_revision: "complete_revision (invalidateProject now) i ids db = Inr db' \<Longrightarrow> view db' = view db"
  by (auto simp: complete_revision_def rbind_Inr_iff hidden dest!: settle_projects)

lemma receive:
  assumes "project_observation env now request db = Inr db'"
  shows "view db' = view db"
  using assms unfolding project_observation_def receiveObservation_def Let_def rbind_Inr_iff
  by (auto simp: rbind_Inr_iff hidden split: if_splits dest!: open_revision receive_projects complete_revision)

lemma identify_all: "identify_all i agent uuids ids n db = Inr (out, db') \<Longrightarrow> view db' = view db"
proof (induction ids arbitrary: uuids n db out)
  case (Cons x ids)
  show ?case
  proof (cases "find (\<lambda>p. pj_environment_id p = i \<and> pj_agent_id p = Some agent \<and> pj_local_project_id p = x) (projects db)")
    case None
    with Cons.prems show ?thesis
      by (auto simp: rbind_Inr_iff insert_project_def hidden split: if_splits dest!: Cons.IH)
  next
    case (Some p)
    with Cons.prems show ?thesis by (auto simp: rbind_Inr_iff dest!: Cons.IH)
  qed
qed simp

lemma identify: "view (snd (identifyProjects uuids i ids db)) = view db"
proof -
  have "view (snd (transaction (identify_tx i uuids ids) db)) = view db"
    by (rule transaction_frame) (auto simp: identify_tx_def Let_def hidden split: option.splits if_splits dest!: identify_all)
  then show ?thesis by (simp add: identifyProjects_def split: sum.splits)
qed

end

interpretation access: inventory_frame access_view
  by unfold_locales simp_all

interpretation session_rows: inventory_frame sessions
  by unfold_locales simp_all

lemma set_session_owners:
  "(\<And>s. (sn_environment_id (f s), sn_agent_id (f s), sn_session_id (f s)) = (sn_environment_id s, sn_agent_id s, sn_session_id s)) \<Longrightarrow>
   access_view (set_session i sid f db) = access_view db"
  by (auto simp: access_view_def set_session_def session_owners_def enrollments_def update_where_def)

lemma observe_session_access:
  assumes "\<And>db db'. receive request db = Inr db' \<Longrightarrow> access_view db' = access_view db"
    and "observe_session receive now request identity db = Inr (b, db')"
  shows "access_view db' = access_view db"
  using assms(2) unfolding observe_session_def
  by (auto simp: rbind_Inr_iff set_session_owners split: if_splits dest!: assms(1))

lemma set_environment_view:
  "(\<And>r. en_id (f r) = en_id r) \<Longrightarrow> (\<And>r. en_enrollment (f r) = en_enrollment r) \<Longrightarrow>
   access_view (set_environment i f db) = access_view db"
  using enrollments_same [of f i db] by (simp add: access_view_def)

lemma observe_access:
  assumes "\<And>db db'. receive request db = Inr db' \<Longrightarrow> access_view db' = access_view db"
  shows "access_view (snd (observe sha receive now identity request db)) = access_view db"
proof -
  have "access_view (snd (recordAuthenticatedSignal sha (observe_session receive now request) now x db)) = access_view db" for x
    unfolding recordAuthenticatedSignal_def
    using observe_session_access [of receive request, OF assms]
    by (fastforce split: sum.splits if_splits intro!: transaction_frame [where f = access_view]
        simp: rbind_Inr_iff set_environment_view)
  then show ?thesis by (simp add: observe_def split: sum.splits)
qed

lemma recover_sessions_access:
  "access_view (snd (expire_sessions now db)) = access_view db" "access_view (snd (recoverAfterRestart now db)) = access_view db"
  unfolding expire_sessions_def recoverAfterRestart_def
  by (rule transaction_frame [where f = access_view];
      auto simp: rbind_Inr_iff access_view_def enrollments_def session_owners_def update_where_def comp_def)+

section \<open>Every request\<close>

lemma queue_commands_frame: "other_tables (snd (queue_commands now is db)) = other_tables db"
proof (induction "is" arbitrary: db)
  case (Cons i "is")
  have "other_tables (snd (queue_commands now (i # is) db)) =
      other_tables (snd (getCommand now i db)) \<or>
    other_tables (snd (queue_commands now (i # is) db)) =
      other_tables (snd (queue_commands now is (snd (getCommand now i db))))"
    by (auto split: prod.splits sum.splits)
  with Cons.IH command_frames(1) show ?case by metis
qed simp

lemma poll_round_frame: "other_tables (fst (snd (poll_round env deadline now identity request db es))) = other_tables db"
proof -
  let ?db1 = "snd (recoverCommands now db)"
  let ?db2 = "snd (queue_commands now (waiting_ids identity ?db1) ?db1)"
  have "fst (snd (poll_round env deadline now identity request db es)) \<in> {db, ?db1, ?db2}"
    unfolding poll_round_def by (auto split: prod.splits sum.splits)
  then show ?thesis using command_frames(2) queue_commands_frame by auto
qed

lemma command_result_route_frame:
  "other_tables (snd (command_result_route env now identity body commandId db)) = other_tables db"
proof -
  let ?p = "fleet_peers env now"
  obtain r1 db1 where got: "getCommand now commandId db = (r1, db1)" by force
  then have one: "other_tables db1 = other_tables db" using command_frames(1) by (metis snd_conv)
  show ?thesis
  proof (cases r1)
    case (Inl e)
    with got one show ?thesis by (simp add: command_result_route_def)
  next
    case (Inr c)
    define moved where "moved = (if (case cm_owner c of None \<Rightarrow> False | Some (_, session) \<Rightarrow> session \<noteq> ai_sessionId identity)
      then transferOwnership ?p now identity (cm_commandId c) db1 else (Inr c, db1))"
    have two: "other_tables (snd moved) = other_tables db1" by (simp add: moved_def command_frames(3))
    have "snd (command_result_route env now identity body commandId db) \<in>
      {snd moved, snd (publishResult ?p now identity body (snd moved))}"
      using got Inr unfolding command_result_route_def by (simp flip: moved_def split: prod.splits sum.splits)
    with one two command_frames(4) show ?thesis by auto
  qed
qed

end
