(* ===== verification/FleetAccess.thy ===== *)
theory FleetAccess
  imports FleetAccessFrames
begin

text \<open>
  Who may act on behalf of an environment: tokens, credentials, sessions and waiting commands under
  every sequence of requests the fleet server serves.
\<close>

section \<open>Access under every request\<close>

lemma access_ok_other: "access_ok db \<Longrightarrow> other_tables db' = other_tables db \<Longrightarrow> access_ok db'"
  using other_tables_access by blast

lemma snd_respond [simp]: "snd (respond f out es) = (snd out, es)"
  by (simp add: respond_def)

lemma route_dbs:
  "snd (session_route env now sessionId auth body db) = db \<or>
     (\<exists>identity input. snd (session_route env now sessionId auth body db) = snd (openSession (fe_sha env) sessionId now identity input db))"
  "snd (observation_route env now auth body db) = db \<or>
     (\<exists>identity request. snd (observation_route env now auth body db) =
        snd (observe (fe_sha env) (project_observation env now) now identity request db))"
  "snd (claim_route env now commandId auth body db) = db \<or>
     (\<exists>identity input. snd (claim_route env now commandId auth body db) = snd (claim (fleet_peers env now) now identity input db))"
proof -
  show "snd (session_route env now sessionId auth body db) = db \<or>
     (\<exists>identity input. snd (session_route env now sessionId auth body db) = snd (openSession (fe_sha env) sessionId now identity input db))"
    unfolding session_route_def by (auto split: sum.splits prod.splits)
  show "snd (observation_route env now auth body db) = db \<or>
     (\<exists>identity request. snd (observation_route env now auth body db) =
        snd (observe (fe_sha env) (project_observation env now) now identity request db))"
  proof (cases "rbind (parse_protocol (observationRequestSchema (fe_encodedBytes env)) body) (\<lambda>request.
             rbind (request_credential env auth (field request [''environmentId'']) db) (\<lambda>identity. Inr (request, identity)))")
    case (Inr pair)
    obtain request identity where pair: "pair = (request, identity)" by force
    obtain r db' where out: "observe (fe_sha env) (project_observation env now) now identity (observation_of request) db = (r, db')"
      by force
    with Inr pair have "snd (observation_route env now auth body db) = db'"
      by (cases r) (simp_all add: observation_route_def)
    with out show ?thesis by (metis snd_conv)
  qed (simp add: observation_route_def)
  show "snd (claim_route env now commandId auth body db) = db \<or>
     (\<exists>identity input. snd (claim_route env now commandId auth body db) = snd (claim (fleet_peers env now) now identity input db))"
    unfolding claim_route_def by (auto split: sum.splits prod.splits)
qed

lemma publishReadResult_db: "fst (snd (publishReadResult bytes None peers now identity input db es)) = db"
proof -
  have "fst (snd (accept_result bytes None now identity result db es)) = db" for result es
    by (auto simp: accept_result_def receive_summaries_def split: option.splits sum.splits)
  then show ?thesis by (auto simp: publishReadResult_def split: sum.splits prod.splits)
qed

lemma result_route_db:
  "fst (snd (result_route env now auth body db es)) = db \<or>
   (\<exists>identity input i. fst (snd (result_route env now auth body db es)) = snd (command_result_route env now identity input i db))"
proof (cases "rbind (parse_protocol resultRequestSchema body) (\<lambda>request.
             rbind (session_identity env auth request db) (\<lambda>identity.
             rbind (authenticateSession (fe_sha env) now identity db) (\<lambda>_. Inr (request, identity))))")
  case (Inr pair)
  obtain request identity where pair: "pair = (request, identity)" by force
  show ?thesis
  proof (cases "field request [''result'', ''kind''] = ''read''")
    case True
    obtain r db' es' where out: "publishReadResult (fe_encodedBytes env) None (fleet_peers env now) now identity (Some request) db es = (r, db', es')"
      using prod_cases3 by blast
    then have "db' = db"
      using publishReadResult_db [of "fe_encodedBytes env" "fleet_peers env now" now identity "Some request" db es] by simp
    with Inr pair True out have "fst (snd (result_route env now auth body db es)) = db"
      by (cases r) (simp_all add: result_route_def)
    then show ?thesis by blast
  next
    case False
    obtain r db' where out: "command_result_route env now identity (Some request) (field request [''result'', ''commandId'']) db = (r, db')"
      by force
    with Inr pair False have "fst (snd (result_route env now auth body db es)) = db'" by (simp add: result_route_def)
    with out show ?thesis by (metis snd_conv)
  qed
qed (simp add: result_route_def)

lemma agentRoute_access:
  assumes ok: "access_ok db"
  shows "access_ok (fst (snd (agentRoute env now browser auth route db es)))"
proof (cases browser)
  case False
  show ?thesis
  proof (cases route)
    case (EnrollRoute agentId credential body)
    with ok False access_enrolled show ?thesis by (simp split: sum.splits)
  next
    case (SessionRoute sessionId body)
    with ok False route_dbs(1) [of env now sessionId auth body db] access_openSession [OF ok]
    show ?thesis by auto
  next
    case (ObservationRoute body)
    have "access_view (snd (observe (fe_sha env) (project_observation env now) now identity request db)) = access_view db"
      for identity request by (rule observe_access) (rule access.receive)
    then have "access_view (snd (observation_route env now auth body db)) = access_view db"
      using route_dbs(2) [of env now auth body db] by auto
    from access_ok_view [OF this] ok False show ?thesis by (simp add: ObservationRoute)
  next
    case (ClaimRoute commandId body)
    have "other_tables (snd (claim_route env now commandId auth body db)) = other_tables db"
      using route_dbs(3) [of env now commandId auth body db] command_frames(5) by auto
    with access_ok_other [OF ok] False show ?thesis by (simp add: ClaimRoute)
  next
    case (ResultRoute body)
    have "other_tables (fst (snd (result_route env now auth body db es))) = other_tables db"
      using result_route_db [of env now auth body db es] command_result_route_frame by (elim disjE exE) simp_all
    with access_ok_other [OF ok] False show ?thesis by (simp add: ResultRoute)
  next
    case (PollRoute deadline body)
    with ok False access_ok_other [OF ok poll_round_frame] show ?thesis by (auto split: sum.splits)
  qed (use ok False in simp)
qed (use ok in simp)

lemma serve_access:
  assumes ok: "access_ok (fst w)"
  shows "access_ok (fst (serve env now c w))"
proof -
  obtain db es where w: "w = (db, es)" by force
  define db1 where "db1 = (if starts_up c then db else snd (expire_sessions now db))"
  have ok1: "access_ok db1"
    using ok access_ok_view [OF recover_sessions_access(1)] by (simp add: db1_def w)
  have "access_ok (fst (fleet_operation env now c db1 es))"
  proof (cases c)
    case (AgentCall browser auth route)
    with agentRoute_access [OF ok1] show ?thesis by simp
  next
    case (CreateEnvironment uuid secret body)
    with access_createEnvironment [OF ok1] show ?thesis by simp
  next
    case (RegenerateEnrollment secret i)
    with access_regenerate [OF ok1] show ?thesis by simp
  next
    case (RevokeEnvironment i)
    with access_revoked [OF ok1] show ?thesis by simp
  next
    case (OperatorCommand x)
    with access_ok_other [OF ok1 call_commands_frame] show ?thesis by simp
  next
    case (OperatorRead x)
    with ok1 show ?thesis by simp
  next
    case (IdentifyProjects uuids i ids)
    with access_ok_view [OF access.identify] ok1 show ?thesis by simp
  next
    case Restart
    have "access_ok (snd (recoverAfterRestart now db1))" using access_ok_view [OF recover_sessions_access(2)] ok1 by simp
    from access_ok_other [OF this command_frames(2)] show ?thesis by (simp add: Restart)
  qed
  then show ?thesis by (simp add: serve_def w flip: db1_def)
qed

section \<open>Commands under every request\<close>

text \<open>Databases that follow by calls that add no command, and changes to the other tables.\<close>

inductive quiet_path :: "fleet_db \<Rightarrow> fleet_db \<Rightarrow> bool" where
  here: "quiet_path db db"
| call: "quiet_path db db1 \<Longrightarrow> \<not> adds_or_drops c \<Longrightarrow> quiet_path db (call_commands peers now c db1)"
| elsewhere: "quiet_path db db1 \<Longrightarrow> commands db2 = commands db1 \<Longrightarrow> quiet_path db db2"

lemma quiet_trans: "quiet_path db1 db2 \<Longrightarrow> quiet_path db db1 \<Longrightarrow> quiet_path db db2"
  by (induction rule: quiet_path.induct) (auto intro: quiet_path.intros)

lemma quiet_other: "commands db' = commands db \<Longrightarrow> quiet_path db db'"
  by (rule quiet_path.elsewhere [OF quiet_path.here])

lemma quiet_calls:
  "quiet_path db (snd (getCommand now i db))" "quiet_path db (snd (recoverCommands now db))"
  "quiet_path db (snd (claim peers now identity input db))" "quiet_path db (snd (publishResult peers now identity input db))"
  "quiet_path db (snd (transferOwnership peers now identity i db))"
  using quiet_path.call [OF quiet_path.here, of "GetCommand i" db] quiet_path.call [OF quiet_path.here, of RecoverCommands db]
    quiet_path.call [OF quiet_path.here, of "ClaimCommand identity input" db peers now]
    quiet_path.call [OF quiet_path.here, of "PublishResult identity input" db peers now]
    quiet_path.call [OF quiet_path.here, of "TransferOwnership identity i" db peers now] by simp_all

lemma quiet_invalidate:
  "invalidateEnvironment now i db = Inr db' \<Longrightarrow> quiet_path db db'" "invalidateProject now i db = Inr db' \<Longrightarrow> quiet_path db db'"
  using quiet_path.call [OF quiet_path.here, of "InvalidateEnvironment i" db _ now]
    quiet_path.call [OF quiet_path.here, of "InvalidateProject i" db _ now]
  by (simp_all add: as_transaction_def transaction_def)

definition moved_rows_only :: "fleet_db \<Rightarrow> fleet_db \<Rightarrow> bool" where
  "moved_rows_only db db' \<longleftrightarrow> list_all2 row_step\<^sup>*\<^sup>* (commands db) (commands db')"

lemma moved_rows_refl: "list_all2 row_step\<^sup>*\<^sup>* rows rows"
  by (simp add: list_all2_refl)

lemma quiet_path_moves:
  "quiet_path db db' \<Longrightarrow> reachable_db db \<Longrightarrow> reachable_db db' \<and> list_all2 row_step\<^sup>*\<^sup>* (commands db) (commands db')"
proof (induction rule: quiet_path.induct)
  case (call db db1 c peers now)
  then have one: "reachable_db db1" "list_all2 row_step\<^sup>*\<^sup>* (commands db) (commands db1)" by simp_all
  from call_moves [OF reachable_well_formed [OF one(1)] call.hyps(2)]
  have "db_step db1 (call_commands peers now c db1)" by simp
  then have "list_all2 row_step\<^sup>*\<^sup>* (commands db1) (commands (call_commands peers now c db1))"
    unfolding db_step_def moved_def by (auto elim: list_all2_mono)
  with one(2) have "list_all2 row_step\<^sup>*\<^sup>* (commands db) (commands (call_commands peers now c db1))"
    by (rule list_all2_trans [rotated]) (rule rtranclp_trans)
  with reachable_db.called [OF one(1)] show ?case by blast
qed (auto simp: moved_rows_refl intro: reachable_db.elsewhere)

lemma quiet_receive_project:
  assumes "receive_project (invalidateProject now) now i x db = Inr db'"
  shows "quiet_path db db'"
proof -
  have u: "quiet_path db (update_projects p f db)" for p f by (rule quiet_other) (simp add: update_projects_def)
  have cancel: "invalidateProject now k (update_projects p f db) = Inr db' \<Longrightarrow> quiet_path db db'" for k p f
    by (rule quiet_trans [OF quiet_invalidate(2) u])
  from assms show ?thesis
    by (auto simp: receive_project_def Let_def rbind_Inr_iff u split: option.splits if_splits intro: cancel)
qed

lemma quiet_receive_projects: "receive_projects (invalidateProject now) now i xs db = Inr db' \<Longrightarrow> quiet_path db db'"
  by (induction xs arbitrary: db) (auto simp: rbind_Inr_iff intro: quiet_path.here quiet_trans dest: quiet_receive_project)

lemma quiet_settle: "settle_projects (invalidateProject now) ids rows db = Inr db' \<Longrightarrow> quiet_path db db'"
proof (induction rows arbitrary: db)
  case (Cons r rows)
  then obtain db1 where step: "(if pj_managed r \<and> pj_project_id r \<notin> set ids then invalidateProject now (pj_project_id r) db else Inr db) = Inr db1"
    "settle_projects (invalidateProject now) ids rows (update_projects (\<lambda>x. pj_project_id x = pj_project_id r)
       (\<lambda>x. x\<lparr>pj_managed := pj_project_id r \<in> set ids, pj_published := (pj_project_id r \<in> set ids \<or> pj_published x)\<rparr>) db1) = Inr db'"
    by (auto simp: rbind_Inr_iff Let_def)
  from step(1) have "quiet_path db db1" by (auto split: if_splits intro: quiet_path.here dest: quiet_invalidate)
  moreover have "quiet_path db1 db'"
    by (rule quiet_trans [OF Cons.IH [OF step(2)] quiet_other]) (simp add: update_projects_def)
  ultimately show ?case by (rule quiet_trans [rotated])
qed (simp add: quiet_path.here)

lemma quiet_complete: "complete_revision (invalidateProject now) i ids db = Inr db' \<Longrightarrow> quiet_path db db'"
  by (auto simp: complete_revision_def rbind_Inr_iff intro: quiet_trans [OF quiet_other quiet_settle])

lemma quiet_project_observation:
  assumes "project_observation env now request db = Inr db'"
  shows "quiet_path db db'"
proof -
  have opened: "open_revision i sid inventory db = Inr d \<Longrightarrow> quiet_path db d" for i sid inventory d
    by (rule quiet_other) (auto simp: open_revision_def Let_def split: if_splits)
  have received: "receive_projects (invalidateProject now) now i xs d = Inr e \<Longrightarrow> quiet_path db d \<Longrightarrow> quiet_path db e" for i xs d e
    by (rule quiet_trans [OF quiet_receive_projects])
  have paged: "quiet_path db d \<Longrightarrow> quiet_path db (d\<lparr>pages := p\<rparr>)" for d p
    by (erule quiet_path.elsewhere) simp
  have completed: "complete_revision (invalidateProject now) i ids d = Inr e \<Longrightarrow> quiet_path db d \<Longrightarrow> quiet_path db e" for i ids d e
    by (rule quiet_trans [OF quiet_complete])
  from assms show ?thesis
    unfolding project_observation_def receiveObservation_def Let_def rbind_Inr_iff
    by (elim exE conjE) (simp add: rbind_Inr_iff split: if_splits; use opened received paged completed in blast)
qed

lemma quiet_transaction:
  assumes "\<And>x db'. m db = Inr (x, db') \<Longrightarrow> quiet_path db db'"
  shows "quiet_path db (snd (transaction m db))"
  by (rule transaction_step) (use assms quiet_path.here in auto)

lemma quiet_observe:
  assumes "\<And>db db'. receive request db = Inr db' \<Longrightarrow> quiet_path db db'"
  shows "quiet_path db (snd (observe sha receive now identity request db))"
proof -
  have session: "quiet_path db db'" if ok: "observe_session receive now request x db = Inr (b, db')" for x b db db'
  proof -
    from ok obtain current :: session_row and db1 t where step: "(if sn_sequence current < ob_sequence request
            then rbind (receive request db) (\<lambda>db. Inr (set_session (ob_environmentId request) (ob_sessionId request)
                (\<lambda>s. s\<lparr>sn_sequence := ob_sequence request\<rparr>) db)) else Inr db) = Inr db1"
      "db' = set_session (ob_environmentId request) (ob_sessionId request) (\<lambda>s. s\<lparr>sn_expires_at := t\<rparr>) db1"
      unfolding observe_session_def rbind_Inr_iff sum.inject prod.inject by blast
    have set: "quiet_path d (set_session i sid f d)" for i sid f d by (rule quiet_other) (simp add: set_session_def)
    from step(1) have "quiet_path db db1"
      by (auto simp: rbind_Inr_iff split: if_splits intro: quiet_path.here quiet_trans [OF set assms])
    with step(2) set quiet_trans show ?thesis by blast
  qed
  have "quiet_path db (snd (recordAuthenticatedSignal sha (observe_session receive now request) now x db))" for x
  proof (cases "parse_protocol uuidSchema (Some (JStr (ai_sessionId x)))")
    case (Inr u)
    have "quiet_path db (set_environment i f d)" if "quiet_path db d" for i f d
      by (rule quiet_path.elsewhere [OF that]) simp
    then show ?thesis using session Inr unfolding recordAuthenticatedSignal_def
      by (auto simp: rbind_Inr_iff split: if_splits intro!: quiet_transaction)
  qed (simp add: recordAuthenticatedSignal_def quiet_path.here)
  then show ?thesis by (simp add: observe_def quiet_path.here split: sum.splits)
qed

lemma quiet_queue: "quiet_path db (snd (queue_commands now is db))"
proof (induction "is" arbitrary: db)
  case (Cons i "is")
  obtain r db1 where got: "getCommand now i db = (r, db1)" by force
  then have one: "quiet_path db db1" using quiet_calls(1) by (metis snd_conv)
  obtain r2 db2 where rest: "queue_commands now is db1 = (r2, db2)" by force
  with Cons.IH [of db1] have "quiet_path db1 db2" by simp
  with got rest one show ?case by (cases r; cases r2) (auto intro: quiet_trans)
qed (simp add: quiet_path.here)

lemma quiet_poll: "quiet_path db (fst (snd (poll_round env deadline now identity request db es)))"
proof -
  let ?db1 = "snd (recoverCommands now db)"
  let ?db2 = "snd (queue_commands now (waiting_ids identity ?db1) ?db1)"
  have "fst (snd (poll_round env deadline now identity request db es)) \<in> {db, ?db1, ?db2}"
    unfolding poll_round_def by (auto split: prod.splits sum.splits)
  moreover have "quiet_path db ?db2" by (rule quiet_trans [OF quiet_queue quiet_calls(2)])
  ultimately show ?thesis using quiet_path.here quiet_calls(2) by auto
qed

lemma quiet_command_result: "quiet_path db (snd (command_result_route env now identity body commandId db))"
proof -
  let ?p = "fleet_peers env now"
  obtain r1 db1 where got: "getCommand now commandId db = (r1, db1)" by force
  then have one: "quiet_path db db1" using quiet_calls(1) by (metis snd_conv)
  show ?thesis
  proof (cases r1)
    case (Inl e)
    with got one show ?thesis by (simp add: command_result_route_def)
  next
    case (Inr c)
    define moved where "moved = (if (case cm_owner c of None \<Rightarrow> False | Some (_, session) \<Rightarrow> session \<noteq> ai_sessionId identity)
      then transferOwnership ?p now identity (cm_commandId c) db1 else (Inr c, db1))"
    have two: "quiet_path db (snd moved)" by (simp add: moved_def one quiet_trans [OF quiet_calls(5) one])
    have "snd (command_result_route env now identity body commandId db) \<in>
      {snd moved, snd (publishResult ?p now identity body (snd moved))}"
      using got Inr unfolding command_result_route_def by (simp flip: moved_def split: prod.splits sum.splits)
    with two quiet_trans [OF quiet_calls(4) two] show ?thesis by auto
  qed
qed

lemma enroll_commands: "commands (snd (enroll sha agentId credential now input db)) = commands db"
proof (cases "enroll sha agentId credential now input db")
  case (Pair r db')
  show ?thesis
  proof (cases r)
    case (Inl e)
    with Pair enroll_Inl show ?thesis by fastforce
  next
    case (Inr out)
    with Pair show ?thesis
      by (auto simp: enroll_def transaction_Inr rbind_Inr_iff Let_def insert_credential_def delete_tokens_def enrollment_audit_def
          split: if_splits sum.splits option.splits)
  qed
qed

lemma quiet_agentRoute: "quiet_path db (fst (snd (agentRoute env now browser auth route db es)))"
proof (cases browser)
  case False
  show ?thesis
  proof (cases route)
    case (EnrollRoute agentId credential body)
    with False show ?thesis by (auto intro: quiet_path.here quiet_other [OF enroll_commands] split: sum.splits)
  next
    case (SessionRoute sessionId body)
    have "commands (snd (openSession sha sessionId now identity input db)) = commands db" for sha identity input
    proof (cases "openSession sha sessionId now identity input db")
      case (Pair r db')
      show ?thesis
      proof (cases r)
        case (Inl e)
        with Pair openSession_Inl show ?thesis by fastforce
      next
        case (Inr out)
        obtain sid t where "out = (sid, t)" by force
        with Pair Inr have "openSession sha sessionId now identity input db = (Inr (sid, t), db')" by simp
        then show ?thesis by (cases rule: openSession_cases) (simp add: Pair)
      qed
    qed
    then have "commands (snd (session_route env now sessionId auth body db)) = commands db"
      using route_dbs(1) [of env now sessionId auth body db] by auto
    with False show ?thesis by (simp add: SessionRoute quiet_other)
  next
    case (ObservationRoute body)
    have "quiet_path db (snd (observe (fe_sha env) (project_observation env now) now identity request db))" for identity request
      by (rule quiet_observe) (rule quiet_project_observation)
    then have "quiet_path db (snd (observation_route env now auth body db))"
      using route_dbs(2) [of env now auth body db] quiet_path.here by auto
    with False show ?thesis by (simp add: ObservationRoute)
  next
    case (ClaimRoute commandId body)
    have "quiet_path db (snd (claim_route env now commandId auth body db))"
      using route_dbs(3) [of env now commandId auth body db] quiet_calls(3) quiet_path.here by auto
    with False show ?thesis by (simp add: ClaimRoute)
  next
    case (ResultRoute body)
    have "quiet_path db (fst (snd (result_route env now auth body db es)))"
      using result_route_db [of env now auth body db es] quiet_command_result quiet_path.here by (elim disjE exE) simp_all
    with False show ?thesis by (simp add: ResultRoute)
  next
    case (PollRoute deadline body)
    with False quiet_poll quiet_path.here show ?thesis by (auto split: sum.splits)
  qed (use False quiet_path.here in simp)
qed (simp add: quiet_path.here)

lemma expire_sessions_commands: "commands (snd (expire_sessions now db)) = commands db"
  unfolding expire_sessions_def by (rule transaction_frame [where f = commands]) (auto simp: rbind_Inr_iff)

lemma recoverAfterRestart_commands: "commands (snd (recoverAfterRestart now db)) = commands db"
  unfolding recoverAfterRestart_def by (rule transaction_frame [where f = commands]) (auto simp: rbind_Inr_iff)

lemma createEnvironment_commands: "commands (snd (createEnvironment sha uuid secret now input db)) = commands db"
  unfolding createEnvironment_def Let_def
  by (auto split: sum.splits intro!: transaction_frame [where f = commands]
      simp: rbind_Inr_iff insert_environment_def issueToken_def upsert_token_def enrollment_audit_def split: if_splits)

lemma regenerate_commands: "commands (snd (regenerateEnrollment sha secret now i db)) = commands db"
  unfolding regenerateEnrollment_def
  by (rule transaction_frame [where f = commands])
    (auto simp: rbind_Inr_iff issueToken_def upsert_token_def enrollment_audit_def split: if_splits)

lemma identify_all_commands: "identify_all i agent uuids ids n db = Inr (out, db') \<Longrightarrow> commands db' = commands db"
proof (induction ids arbitrary: uuids n db out)
  case (Cons x ids)
  show ?case
  proof (cases "find (\<lambda>p. pj_environment_id p = i \<and> pj_agent_id p = Some agent \<and> pj_local_project_id p = x) (projects db)")
    case None
    with Cons.prems show ?thesis
      by (auto simp: rbind_Inr_iff insert_project_def split: if_splits dest!: Cons.IH)
  next
    case (Some p)
    with Cons.prems show ?thesis by (auto simp: rbind_Inr_iff dest!: Cons.IH)
  qed
qed simp

lemma identify_commands: "commands (snd (identifyProjects uuids i ids db)) = commands db"
proof -
  have "commands (snd (transaction (identify_tx i uuids ids) db)) = commands db"
    by (rule transaction_frame) (auto simp: identify_tx_def Let_def split: option.splits if_splits dest!: identify_all_commands)
  then show ?thesis by (simp add: identifyProjects_def split: sum.splits)
qed

lemma quiet_revoke: "quiet_path db (snd (revoke (invalidateManagementAccess now) now i db))"
proof (cases "revoke (invalidateManagementAccess now) now i db")
  case (Pair r db')
  show ?thesis
  proof (cases r)
    case (Inl e)
    with Pair have "db' = db" unfolding revoke_def by (simp add: transaction_Inl)
    with Pair show ?thesis by (simp add: quiet_path.here)
  next
    case (Inr u)
    with Pair have "revoke (invalidateManagementAccess now) now i db = (Inr u, db')" by simp
    then show ?thesis
    proof (cases rule: revoke_cases)
      case already
      then show ?thesis by (simp add: Pair quiet_path.here)
    next
      case (revoked r db1)
      have "quiet_path db (revoked_db i db)"
        by (rule quiet_other) (simp add: revoked_db_def invalidate_session_def delete_credentials_def delete_tokens_def)
      from quiet_path.elsewhere [OF quiet_trans [OF quiet_invalidate(1) [OF revoked(3)] this] revoked(4)]
      show ?thesis by (simp add: Pair)
    qed
  qed
qed

fun is_command :: "fleet_call \<Rightarrow> bool" where
  "is_command (OperatorCommand _) = True"
| "is_command _ = False"

lemma serve_quiet:
  assumes "\<not> is_command c"
  shows "quiet_path (fst w) (fst (serve env now c w))"
proof -
  obtain db es where w: "w = (db, es)" by force
  define db1 where "db1 = (if starts_up c then db else snd (expire_sessions now db))"
  have one: "quiet_path db db1" by (rule quiet_other) (simp add: db1_def expire_sessions_commands)
  have "quiet_path db1 (fst (fleet_operation env now c db1 es))"
  proof (cases c)
    case (AgentCall browser auth route)
    then show ?thesis by (simp add: quiet_agentRoute)
  next
    case (CreateEnvironment uuid secret body)
    then show ?thesis by (simp add: quiet_other createEnvironment_commands)
  next
    case (RegenerateEnrollment secret i)
    then show ?thesis by (simp add: quiet_other regenerate_commands)
  next
    case (RevokeEnvironment i)
    then show ?thesis by (simp add: quiet_revoke)
  next
    case (OperatorRead x)
    then show ?thesis by (simp add: quiet_path.here)
  next
    case (IdentifyProjects uuids i ids)
    then show ?thesis by (simp add: quiet_other identify_commands)
  next
    case Restart
    have "quiet_path db1 (snd (recoverAfterRestart now db1))" by (rule quiet_other) (rule recoverAfterRestart_commands)
    with Restart show ?thesis by (auto intro: quiet_trans [OF quiet_calls(2)])
  qed (use assms in simp)
  with one show ?thesis by (simp add: serve_def w flip: db1_def) (rule quiet_trans)
qed

section \<open>Reachable servers\<close>

inductive reachable_fleet :: "fleet_env \<Rightarrow> fleet_db \<times> registry \<Rightarrow> bool" for env :: fleet_env where
  start: "reachable_fleet env (empty_db, [])"
| served: "reachable_fleet env w \<Longrightarrow> reachable_fleet env (serve env now c w)"

lemma serve_reachable_db:
  assumes "reachable_db (fst w)"
  shows "reachable_db (fst (serve env now c w))"
proof (cases "is_command c")
  case False
  from quiet_path_moves [OF serve_quiet [OF False] assms] show ?thesis by blast
next
  case True
  then obtain x where c: "c = OperatorCommand x" by (cases c) auto
  obtain db es where w: "w = (db, es)" by force
  have "reachable_db (snd (expire_sessions now db))"
    using assms w by (auto intro: reachable_db.elsewhere simp: expire_sessions_commands)
  then show ?thesis by (simp add: serve_def w c reachable_db.called)
qed

text \<open>What the route of an agent does to the registry is one call of the read service, if anything.\<close>

lemma agentRoute_reads:
  obtains (same) "snd (snd (agentRoute env now browser auth route db es)) = es"
  | (called) c db' where "\<And>i. \<not> reuses_id i c"
      "\<And>maximum. snd (snd (agentRoute env now browser auth route db es)) =
         call_reads (fe_encodedBytes env) None (fleet_peers env now) maximum now c db' es"
proof (cases browser)
  case False
  show ?thesis
  proof (cases route)
    case (ResultRoute body)
    show ?thesis
    proof (cases "rbind (parse_protocol resultRequestSchema body) (\<lambda>request.
             rbind (session_identity env auth request db) (\<lambda>identity.
             rbind (authenticateSession (fe_sha env) now identity db) (\<lambda>_. Inr (request, identity))))")
      case (Inl e)
      with same False show ?thesis by (simp add: ResultRoute result_route_def)
    next
      case (Inr pair)
      obtain request identity where pair: "pair = (request, identity)" by force
      obtain r db' es' where out: "publishReadResult (fe_encodedBytes env) None (fleet_peers env now) now identity (Some request) db es = (r, db', es')"
        using prod_cases3 by blast
      show ?thesis
      proof (cases "field request [''result'', ''kind''] = ''read''")
        case True
        with Inr pair out have "snd (snd (result_route env now auth body db es)) = es'"
          by (cases r) (simp_all add: result_route_def)
        with called [of "PublishRead identity (Some request)" db] False out show ?thesis
          by (simp add: ResultRoute reuses_id_def)
      next
        case kind: False
        with Inr pair same False show ?thesis by (simp add: ResultRoute result_route_def split: prod.splits)
      qed
    qed
  next
    case (PollRoute deadline body)
    have round: "snd (snd (poll_round env deadline now identity request db es)) = es \<or>
      (\<exists>db'. snd (snd (poll_round env deadline now identity request db es)) = snd (poll_reads (fleet_peers env now) now identity db' es))"
      for identity request
      unfolding poll_round_def by (auto split: sum.splits prod.splits; metis snd_conv)
    have "snd (snd (agentRoute env now browser auth route db es)) = es \<or>
      (\<exists>identity request. snd (snd (agentRoute env now browser auth route db es)) =
         snd (snd (poll_round env deadline now identity request db es)))"
      using False by (auto simp: PollRoute split: sum.splits prod.splits)
    with round have "snd (snd (agentRoute env now browser auth route db es)) = es \<or>
      (\<exists>identity db'. snd (snd (agentRoute env now browser auth route db es)) = snd (poll_reads (fleet_peers env now) now identity db' es))"
      by metis
    then show ?thesis
    proof (elim disjE exE)
      fix identity db'
      assume "snd (snd (agentRoute env now browser auth route db es)) = snd (poll_reads (fleet_peers env now) now identity db' es)"
      then show ?thesis by (intro called [of "PollReads identity" db']) (simp_all add: reuses_id_def)
    qed (rule same)
  qed (use False same in \<open>auto split: sum.splits\<close>)
qed (use same in simp)

lemma agentRoute_registry:
  assumes "registry_ok maximum es"
  shows "registry_ok maximum (snd (snd (agentRoute env now browser auth route db es)))"
proof (cases rule: agentRoute_reads [where env = env and now = now and browser = browser and auth = auth and
      route = route and db = db and es = es])
  case same
  with assms show ?thesis by simp
next
  case (called c db')
  show ?thesis unfolding called(2) [of maximum] by (rule call_keeps_registry_ok [OF assms])
qed

lemma serve_registry:
  assumes "registry_ok maximum_entries (snd w)"
  shows "registry_ok maximum_entries (snd (serve env now c w))"
proof -
  obtain db es where w: "w = (db, es)" by force
  have "registry_ok maximum_entries (recoverReads now [])"
    by (simp add: recoverReads_def registry_ok_def agent_load_def pendingReadsPerAgent_def)
  with assms show ?thesis
    by (cases c) (simp_all add: serve_def w agentRoute_registry call_keeps_registry_ok)
qed

lemma reachable_fleet_ok:
  "reachable_fleet env w \<Longrightarrow> access_ok (fst w) \<and> reachable_db (fst w) \<and> registry_ok maximum_entries (snd w)"
proof (induction rule: reachable_fleet.induct)
  case start
  have "access_ok empty_db"
    by (simp add: access_ok_def consistent_access_def enrollments_def session_owners_def empty_db_def)
  moreover have "reachable_db empty_db" by (rule reachable_db.start) (simp add: empty_db_def)
  ultimately show ?case by (simp add: registry_ok_def agent_load_def pendingReadsPerAgent_def)
next
  case (served w now c)
  then show ?case using serve_access serve_reachable_db serve_registry by blast
qed

section \<open>Revoked environments stay closed\<close>

definition no_waiting :: "string \<Rightarrow> fleet_db \<Rightarrow> bool" where
  "no_waiting i db \<longleftrightarrow> (\<forall>r \<in> set (commands db). cr_environment_id r = i \<longrightarrow> cr_state r \<noteq> ''accepted'')"

definition closed_environment :: "string \<Rightarrow> fleet_db \<Rightarrow> bool" where
  "closed_environment i db \<longleftrightarrow> (i, ''revoked'') \<in> set (enrollments db) \<and> no_waiting i db"

text \<open>How one request changes the enrollments.\<close>

lemma access_view_enrollments: "access_view db' = access_view db \<Longrightarrow> enrollments db' = enrollments db \<and> tokens db' = tokens db"
  by (simp add: access_view_def)

lemma other_tables_enrollments: "other_tables db' = other_tables db \<Longrightarrow> enrollments db' = enrollments db \<and> tokens db' = tokens db"
  using other_tables_views access_view_enrollments by blast

lemma enroll_enrollments:
  obtains (same) "enrollments (snd (enroll sha agentId credential now input db)) = enrollments db"
      "tokens (snd (enroll sha agentId credential now input db)) = tokens db"
  | (enrolled) t where "pending_token (sha (enroll_secret input)) db = Some t"
      "enrollments (snd (enroll sha agentId credential now input db)) = set_state (tk_environment_id t) ''enrolled'' (enrollments db)"
      "tokens (snd (enroll sha agentId credential now input db)) = filter (\<lambda>x. tk_environment_id x \<noteq> tk_environment_id t) (tokens db)"
proof (cases "enroll sha agentId credential now input db")
  case (Pair r db')
  show ?thesis
  proof (cases r)
    case (Inl e)
    with Pair enroll_Inl have "db' = db" by fastforce
    with Pair same show ?thesis by simp
  next
    case (Inr out)
    with Pair have "enroll sha agentId credential now input db = (Inr out, db')" by simp
    then show ?thesis
    proof (cases rule: enroll_cases)
      case (1 t)
      let ?db = "delete_tokens (tk_environment_id t) db\<lparr>credentials := credentials db @
          [\<lparr>cd_environment_id = tk_environment_id t, cd_agent_id = agentId, cd_verifier = sha credential\<rparr>]\<rparr>"
      have "enrollments (set_environment (tk_environment_id t)
         (\<lambda>r. r\<lparr>en_enrollment := ''enrolled'', en_connection := ''awaiting-signal'', en_last_contact_at := None\<rparr>) ?db) =
         set_state (tk_environment_id t) ''enrolled'' (enrollments db)"
        by (subst enrollments_set) (simp_all add: enrollments_def delete_tokens_def)
      with other_tables_enrollments [OF 1(5)]
      have "enrollments db' = set_state (tk_environment_id t) ''enrolled'' (enrollments db)"
        "tokens db' = filter (\<lambda>x. tk_environment_id x \<noteq> tk_environment_id t) (tokens db)" by (simp_all add: delete_tokens_def)
      with enrolled [OF 1(1)] Pair show ?thesis by simp
    qed
  qed
qed

lemma openSession_enrollments:
  "enrollments (snd (openSession sha sessionId now identity input db)) = enrollments db"
  "tokens (snd (openSession sha sessionId now identity input db)) = tokens db"
proof -
  have "enrollments (snd (openSession sha sessionId now identity input db)) = enrollments db \<and>
    tokens (snd (openSession sha sessionId now identity input db)) = tokens db"
  proof (cases "openSession sha sessionId now identity input db")
    case (Pair r db')
    show ?thesis
    proof (cases r)
      case (Inl e)
      with Pair openSession_Inl show ?thesis by fastforce
    next
      case (Inr out)
      obtain sid t where "out = (sid, t)" by force
      with Pair Inr have "openSession sha sessionId now identity input db = (Inr (sid, t), db')" by simp
      then show ?thesis
      proof (cases rule: openSession_cases)
        case (1 row)
        have "enrollments db' = enrollments (db\<lparr>sessions := upsert sn_environment_id row (sessions db)\<rparr>)"
          unfolding 1(11) by (rule enrollments_same) simp_all
        then show ?thesis by (simp add: Pair 1(11)) (simp add: enrollments_def)
      qed
    qed
  qed
  then show "enrollments (snd (openSession sha sessionId now identity input db)) = enrollments db"
    "tokens (snd (openSession sha sessionId now identity input db)) = tokens db" by blast+
qed

lemma agentRoute_enrollments:
  obtains (same) "enrollments (fst (snd (agentRoute env now browser auth route db es))) = enrollments db"
      "tokens (fst (snd (agentRoute env now browser auth route db es))) = tokens db"
  | (enrolled) t secret where "pending_token (fe_sha env secret) db = Some t"
      "enrollments (fst (snd (agentRoute env now browser auth route db es))) = set_state (tk_environment_id t) ''enrolled'' (enrollments db)"
      "tokens (fst (snd (agentRoute env now browser auth route db es))) =
         filter (\<lambda>x. tk_environment_id x \<noteq> tk_environment_id t) (tokens db)"
proof (cases browser)
  case True
  with same show ?thesis by simp
next
  case False
  let ?out = "fst (snd (agentRoute env now browser auth route db es))"
  have same_tables: ?thesis if "other_tables ?out = other_tables db \<or> access_view ?out = access_view db"
    using that same other_tables_enrollments access_view_enrollments by blast
  show ?thesis
  proof (cases route)
    case (EnrollRoute agentId credential body)
    show ?thesis
    proof (cases "parse_protocol enrollmentRequestSchema body")
      case (Inl e)
      with False EnrollRoute same show ?thesis by simp
    next
      case (Inr request)
      with False EnrollRoute have out: "?out = snd (enroll (fe_sha env) agentId credential now (Some request) db)" by simp
      show ?thesis
      proof (cases rule: enroll_enrollments [of "fe_sha env" agentId credential now "Some request" db])
        case same
        with that(1) out show ?thesis by simp
      next
        case (enrolled t)
        with that(2) [of "enroll_secret (Some request)" t] out show ?thesis by simp
      qed
    qed
  next
    case (SessionRoute sessionId body)
    have "enrollments (snd (session_route env now sessionId auth body db)) = enrollments db"
      "tokens (snd (session_route env now sessionId auth body db)) = tokens db"
      using route_dbs(1) [of env now sessionId auth body db] openSession_enrollments by auto
    with same False SessionRoute show ?thesis by simp
  next
    case (ObservationRoute body)
    have "access_view (snd (observe (fe_sha env) (project_observation env now) now identity request db)) = access_view db"
      for identity request by (rule observe_access) (rule access.receive)
    then have "access_view (snd (observation_route env now auth body db)) = access_view db"
      using route_dbs(2) [of env now auth body db] by auto
    with same_tables False show ?thesis by (simp add: ObservationRoute)
  next
    case (ClaimRoute commandId body)
    have "other_tables (snd (claim_route env now commandId auth body db)) = other_tables db"
      using route_dbs(3) [of env now commandId auth body db] command_frames(5) by auto
    with same_tables False show ?thesis by (simp add: ClaimRoute)
  next
    case (ResultRoute body)
    have "other_tables (fst (snd (result_route env now auth body db es))) = other_tables db"
      using result_route_db [of env now auth body db es] command_result_route_frame by (elim disjE exE) simp_all
    with same_tables False show ?thesis by (simp add: ResultRoute)
  next
    case (PollRoute deadline body)
    have "other_tables ?out = other_tables db" using False poll_round_frame by (auto simp: PollRoute split: sum.splits)
    with same_tables show ?thesis by blast
  qed (use False same in simp)
qed

lemma create_enrollments:
  obtains (same) "enrollments (snd (createEnvironment sha uuid secret now input db)) = enrollments db"
      "tokens (snd (createEnvironment sha uuid secret now input db)) = tokens db"
  | (created) t where "enrollments (snd (createEnvironment sha uuid secret now input db)) = enrollments db @ [(uuid, ''pending'')]"
      "tk_verifier t = sha secret" "tokens (snd (createEnvironment sha uuid secret now input db)) = upsert tk_environment_id t (tokens db)"
proof (cases "createEnvironment sha uuid secret now input db")
  case (Pair r db')
  show ?thesis
  proof (cases r)
    case (Inl e)
    with Pair have "db' = db" by (auto simp: createEnvironment_def Let_def transaction_Inl split: sum.splits if_splits)
    with Pair same show ?thesis by simp
  next
    case (Inr token)
    with Pair obtain name db1 db2 where steps: "insert_environment \<lparr>en_id = uuid, en_name = name, en_enrollment = ''pending'',
        en_connection = ''awaiting-signal'', en_last_contact_at = None\<rparr> db = Inr db1"
      "issueToken sha secret uuid now db1 = Inr (token, db2)"
      "enrollment_audit OPERATOR_ACTOR uuid ''environment.create'' None now db2 = Inr db'"
      by (auto simp: createEnvironment_def Let_def transaction_Inr rbind_Inr_iff split: sum.splits if_splits)
    obtain t where t: "db2 = db1\<lparr>tokens := upsert tk_environment_id t (tokens db1)\<rparr>" "tk_verifier t = sha secret"
      by (rule issueToken_Inr [OF steps(2)])
    from steps(1) have "enrollments db1 = enrollments db @ [(uuid, ''pending'')]" "tokens db1 = tokens db"
      by (auto simp: insert_environment_def enrollments_def split: if_splits)
    moreover have "enrollments db2 = enrollments db1" by (simp add: t(1) enrollments_def)
    ultimately show ?thesis
      using created [OF _ t(2)] other_tables_enrollments [OF enrollment_audit_Inr [OF steps(3)]] t(1) Pair by simp
  qed
qed

lemma regenerate_enrollments:
  obtains (same) "enrollments (snd (regenerateEnrollment sha secret now i db)) = enrollments db"
      "tokens (snd (regenerateEnrollment sha secret now i db)) = tokens db"
  | (renewed) t where "enrollments (snd (regenerateEnrollment sha secret now i db)) = set_state i ''pending'' (enrollments db)"
      "tk_verifier t = sha secret" "tokens (snd (regenerateEnrollment sha secret now i db)) = upsert tk_environment_id t (tokens db)"
proof (cases "regenerateEnrollment sha secret now i db")
  case (Pair r db')
  show ?thesis
  proof (cases r)
    case (Inl e)
    with Pair have "db' = db" unfolding regenerateEnrollment_def by (simp add: transaction_Inl)
    with Pair same show ?thesis by simp
  next
    case (Inr token)
    with Pair have "regenerateEnrollment sha secret now i db = (Inr token, db')" by simp
    then show ?thesis
    proof (cases rule: regenerate_cases)
      case (1 r t)
      have "enrollments (set_environment i (\<lambda>r. r\<lparr>en_enrollment := ''pending'', en_connection := ''awaiting-signal'',
         en_last_contact_at := None\<rparr>) (db\<lparr>tokens := upsert tk_environment_id t (tokens db)\<rparr>)) = set_state i ''pending'' (enrollments db)"
        by (subst enrollments_set) (simp_all add: enrollments_def)
      with renewed [OF _ 1(4)] other_tables_enrollments [OF 1(6)] Pair show ?thesis by simp
    qed
  qed
qed

lemma revoke_enrollments:
  obtains (same) "enrollments (snd (revoke (invalidateManagementAccess now) now i db)) = enrollments db"
      "tokens (snd (revoke (invalidateManagementAccess now) now i db)) = tokens db"
  | (closed) "enrollments (snd (revoke (invalidateManagementAccess now) now i db)) = set_state i ''revoked'' (enrollments db)"
      "tokens (snd (revoke (invalidateManagementAccess now) now i db)) = filter (\<lambda>t. tk_environment_id t \<noteq> i) (tokens db)"
proof (cases "revoke (invalidateManagementAccess now) now i db")
  case (Pair r db')
  show ?thesis
  proof (cases r)
    case (Inl e)
    with Pair have "db' = db" unfolding revoke_def by (simp add: transaction_Inl)
    with Pair same show ?thesis by simp
  next
    case (Inr u)
    with Pair have "revoke (invalidateManagementAccess now) now i db = (Inr u, db')" by simp
    then show ?thesis
    proof (cases rule: revoke_cases)
      case already
      with Pair same show ?thesis by simp
    next
      case (revoked r db1)
      from other_tables_enrollments [OF revoked(5)] revoked_view(1,2) [of i db] closed Pair show ?thesis by simp
    qed
  qed
qed

text \<open>The environments that a request can open again, and the secrets it issues.\<close>

fun reopens :: "string \<Rightarrow> fleet_call \<Rightarrow> bool" where
  "reopens i (RegenerateEnrollment _ j) = (j = i)"
| "reopens i _ = False"

fun issues :: "fleet_env \<Rightarrow> string \<Rightarrow> fleet_call \<Rightarrow> bool" where
  "issues env v (CreateEnvironment _ secret _) = (fe_sha env secret = v)"
| "issues env v (RegenerateEnrollment secret _) = (fe_sha env secret = v)"
| "issues env v _ = False"

lemma serve_tables:
  obtains db1 where "fst (serve env now c w) = fst (fleet_operation env now c db1 (snd w))"
    "enrollments db1 = enrollments (fst w)" "tokens db1 = tokens (fst w)" "commands db1 = commands (fst w)"
    "access_view db1 = access_view (fst w)"
proof -
  obtain db es where w: "w = (db, es)" by force
  let ?db1 = "if starts_up c then db else snd (expire_sessions now db)"
  have "access_view ?db1 = access_view db" by (simp add: recover_sessions_access(1))
  with that [of ?db1] access_view_enrollments [OF this] show ?thesis by (simp add: serve_def w expire_sessions_commands)
qed

lemma serve_revoked_state:
  assumes ok: "access_ok (fst w)" and revoked: "(i, ''revoked'') \<in> set (enrollments (fst w))" and keep: "\<not> reopens i c"
  shows "(i, ''revoked'') \<in> set (enrollments (fst (serve env now c w)))"
proof -
  obtain db1 where db1: "fst (serve env now c w) = fst (fleet_operation env now c db1 (snd w))"
    "enrollments db1 = enrollments (fst w)" "access_view db1 = access_view (fst w)" by (rule serve_tables)
  from ok have "distinct (map fst (enrollments db1))" by (simp add: db1(2) access_ok_def consistent_access_def)
  note one = one_state [OF this]
  have r: "(i, ''revoked'') \<in> set (enrollments db1)" by (simp add: db1(2) revoked)
  have stays: "(i, ''revoked'') \<in> set (set_state j s (enrollments db1))" if "(j, ''pending'') \<in> set (enrollments db1)" for j s
    using r one [OF r, of "''pending''"] that by (auto simp: in_set_state)
  show ?thesis
  proof (cases c)
    case (AgentCall browser auth route)
    show ?thesis
    proof (cases rule: agentRoute_enrollments [where env = env and now = now and browser = browser and auth = auth and
          route = route and db = db1 and es = "snd w"])
      case same
      with r db1(1) show ?thesis by (simp add: AgentCall)
    next
      case (enrolled t secret)
      with stays pending_tokenD [OF enrolled(1)] db1(1) show ?thesis by (simp add: AgentCall)
    qed
  next
    case (CreateEnvironment uuid secret body)
    show ?thesis
      by (cases rule: create_enrollments [of "fe_sha env" uuid secret now body db1]) (use r db1(1) in \<open>simp_all add: CreateEnvironment\<close>)
  next
    case (RegenerateEnrollment secret j)
    with keep have "j \<noteq> i" by simp
    then show ?thesis
      by (cases rule: regenerate_enrollments [of "fe_sha env" secret now j db1])
        (use r db1(1) in \<open>simp_all add: RegenerateEnrollment in_set_state\<close>)
  next
    case (RevokeEnvironment j)
    have "i = j \<longrightarrow> j \<in> fst ` set (enrollments db1)" using r by force
    then show ?thesis
      by (cases rule: revoke_enrollments [of now j db1]) (use r db1(1) in \<open>simp_all add: RevokeEnvironment in_set_state\<close>)
  next
    case (OperatorCommand x)
    with other_tables_enrollments [OF call_commands_frame, of "fleet_peers env now" now x db1] r db1(1) show ?thesis by simp
  next
    case (OperatorRead x)
    with r db1(1) show ?thesis by simp
  next
    case (IdentifyProjects uuids j ids)
    with access_view_enrollments [OF access.identify, of uuids j ids db1] r db1(1) show ?thesis by simp
  next
    case Restart
    with other_tables_enrollments [OF command_frames(2), of now "snd (recoverAfterRestart now db1)"]
      access_view_enrollments [OF recover_sessions_access(2), of now db1] r db1(1) show ?thesis by simp
  qed
qed

lemma row_step_waiting: "row_step r r' \<Longrightarrow> cr_state r' = ''accepted'' \<Longrightarrow> cr_state r = ''accepted''"
  by (erule row_stepE) (auto split: if_splits)

lemma row_steps_waiting: "row_step\<^sup>*\<^sup>* r r' \<Longrightarrow> cr_state r' = ''accepted'' \<Longrightarrow> cr_state r = ''accepted''"
  by (induction rule: rtranclp_induct) (auto dest: row_step_waiting)

lemma row_steps_environment: "row_step\<^sup>*\<^sup>* r r' \<Longrightarrow> cr_environment_id r' = cr_environment_id r"
  by (drule row_steps_order) (simp add: row_order_def)

lemma waiting_origin:
  assumes quiet: "no_waiting i db" and origin: "\<And>z. z \<in> set rows \<Longrightarrow> \<exists>y \<in> set (commands db). row_step\<^sup>*\<^sup>* y z"
  shows "\<forall>r \<in> set rows. cr_environment_id r = i \<longrightarrow> cr_state r \<noteq> ''accepted''"
proof (intro ballI impI notI)
  fix r assume r: "r \<in> set rows" "cr_environment_id r = i" "cr_state r = ''accepted''"
  obtain x where x: "x \<in> set (commands db)" "row_step\<^sup>*\<^sup>* x r" using origin [OF r(1)] by blast
  with row_steps_waiting [OF x(2) r(3)] row_steps_environment [OF x(2)] r(2) quiet show False by (simp add: no_waiting_def)
qed

lemma no_waiting_moves:
  assumes "no_waiting i db" "list_all2 row_step\<^sup>*\<^sup>* (commands db) rows"
  shows "\<forall>r \<in> set rows. cr_environment_id r = i \<longrightarrow> cr_state r \<noteq> ''accepted''"
  by (rule waiting_origin [OF assms(1) list_all2_right [OF assms(2)]])

text \<open>A submission adds at most a command of an enrolled environment.\<close>

lemma submitted_rows:
  assumes wf: "well_formed db" and ok: "submit_tx peers uuid now projectId key operation db = Inr (i, db')"
  obtains rows where "list_all2 row_step\<^sup>*\<^sup>* (commands db) rows"
    "commands db' = rows \<or> (\<exists>r. commands db' = rows @ [r] \<and> (cr_environment_id r, ''enrolled'') \<in> set (enrollments db))"
proof (cases "find (\<lambda>r. cr_actor r = OPERATOR_ACTOR \<and> cr_idempotency_key r = key) (commands db)")
  case (Some r)
  with ok have "db' = db" by (auto simp: submit_tx_def resubmit_command_def rbind_Inr_iff split: if_splits)
  with that [of "commands db"] moved_rows_refl show ?thesis by blast
next
  case None
  with ok have "accept_command peers uuid now projectId key operation db = Inr (i, db')" by (simp add: submit_tx_def)
  then show ?thesis
  proof (cases rule: accept_command_cases)
    case (1 db1 t c a)
    from recover_step [OF wf 1(1)] have "db_step db db1" by simp
    then have moves: "list_all2 row_step\<^sup>*\<^sup>* (commands db) (commands db1)"
      unfolding db_step_def moved_def by (auto elim: list_all2_mono)
    have "map_option en_enrollment (environment_row_of (ct_environmentId t) db1) = Some ''enrolled''"
      using 1(3) by (auto simp: admit_target_def rbind_Inr_iff split: if_splits)
    then have "(ct_environmentId t, ''enrolled'') \<in> set (enrollments db1)" using enrollment_row by force
    moreover have "cm_environmentId c = ct_environmentId t" using 1(5) by (auto simp: new_command_def rbind_Inr_iff)
    ultimately show ?thesis
      using that [OF moves] other_tables_enrollments [OF recover_frame [OF 1(1)]] 1(12) by simp
  qed
qed

lemma serve_closed:
  assumes ok: "access_ok (fst w)" "reachable_db (fst w)" and closed: "closed_environment i (fst w)" and keep: "\<not> reopens i c"
  shows "closed_environment i (fst (serve env now c w))"
proof -
  from closed have r: "(i, ''revoked'') \<in> set (enrollments (fst w))" and quiet: "no_waiting i (fst w)"
    by (simp_all add: closed_environment_def)
  have "no_waiting i (fst (serve env now c w))"
  proof (cases "is_command c")
    case False
    from no_waiting_moves [OF quiet] quiet_path_moves [OF serve_quiet [OF False] ok(2)] show ?thesis
      unfolding no_waiting_def by blast
  next
    case True
    then obtain x where c: "c = OperatorCommand x" by (cases c) auto
    obtain db1 where db1: "fst (serve env now c w) = fst (fleet_operation env now c db1 (snd w))"
      "enrollments db1 = enrollments (fst w)" "commands db1 = commands (fst w)" by (rule serve_tables)
    have wf: "well_formed db1" using reachable_well_formed [OF ok(2)] db1(3) by (simp add: well_formed_def)
    have quiet1: "no_waiting i db1" using quiet db1(3) by (simp add: no_waiting_def)
    let ?p = "fleet_peers env now"
    have "no_waiting i (call_commands ?p now x db1)"
    proof (cases "adds_or_drops x")
      case False
      from call_moves [OF wf False] have "db_step db1 (call_commands ?p now x db1)" by blast
      then have "list_all2 row_step\<^sup>*\<^sup>* (commands db1) (commands (call_commands ?p now x db1))"
        unfolding db_step_def moved_def by (auto elim: list_all2_mono)
      from no_waiting_moves [OF quiet1 this] show ?thesis by (simp add: no_waiting_def)
    next
      case True
      show ?thesis
      proof (cases "x = PruneCommands")
        case True
        have "\<exists>y \<in> set (commands db1). row_step\<^sup>*\<^sup>* y z" if "z \<in> set (commands (snd (prune now db1)))" for z
        proof (cases rule: prune_cases [of now db1])
          case aborted
          with that show ?thesis by auto
        next
          case (committed db2 cutoff)
          then have "db_step db1 db2" using recover_step [OF wf] by blast
          then have "list_all2 row_step\<^sup>*\<^sup>* (commands db1) (commands db2)"
            unfolding db_step_def moved_def by (auto elim: list_all2_mono)
          moreover from committed(3) that have "z \<in> set (commands db2)" by simp
          ultimately show ?thesis by (rule list_all2_right)
        qed
        from waiting_origin [OF quiet1 this] show ?thesis unfolding no_waiting_def True call_commands.simps by blast
      next
        case False
        with \<open>adds_or_drops x\<close> obtain uuid projectId key input where x: "x = SubmitCommand uuid projectId key input"
          by (cases x) auto
        have "no_waiting i (snd (transaction (submit_tx ?p uuid now projectId key operation) db1))" for operation
        proof (rule transaction_step)
          fix out db2 assume "submit_tx ?p uuid now projectId key operation db1 = Inr (out, db2)"
          then obtain rows where rows: "list_all2 row_step\<^sup>*\<^sup>* (commands db1) rows"
            "commands db2 = rows \<or> (\<exists>r. commands db2 = rows @ [r] \<and> (cr_environment_id r, ''enrolled'') \<in> set (enrollments db1))"
            by (rule submitted_rows [OF wf])
          have "distinct (map fst (enrollments db1))" using ok(1) by (simp add: db1(2) access_ok_def consistent_access_def)
          from one_state [OF this, of i "''revoked''" "''enrolled''"] r have "(i, ''enrolled'') \<notin> set (enrollments db1)"
            by (auto simp: db1(2))
          with no_waiting_moves [OF quiet1 rows(1)] rows(2) show "no_waiting i db2" unfolding no_waiting_def by auto
        qed (rule quiet1)
        then show ?thesis using quiet1 by (simp add: x submitCommand_def split: sum.splits)
      qed
    qed
    with db1(1) show ?thesis by (simp add: c)
  qed
  with serve_revoked_state [OF ok(1) r keep] show ?thesis by (simp add: closed_environment_def)
qed

text \<open>What every request of a kind keeps, every sequence of such requests keeps.\<close>

lemma serve_all_invariant:
  assumes step: "\<And>now c w. Q w \<Longrightarrow> P now c \<Longrightarrow> Q (serve env now c w)"
    and start: "Q w" and calls: "\<forall>(now, c) \<in> set calls. P now c"
  shows "Q (serve_all env calls w)"
  using start calls
proof (induction calls arbitrary: w)
  case (Cons x calls)
  obtain now c where "x = (now, c)" by force
  with Cons step show ?case by simp
qed simp

lemma serve_all_reachable: "reachable_fleet env w \<Longrightarrow> reachable_fleet env (serve_all env calls w)"
  by (rule serve_all_invariant [where P = "\<lambda>_ _. True"]) (auto intro: reachable_fleet.served)

lemma serve_all_closed:
  assumes "reachable_fleet env w" and "closed_environment i (fst w)" and "\<forall>(now, c) \<in> set calls. \<not> reopens i c"
  shows "closed_environment i (fst (serve_all env calls w))"
proof -
  have "reachable_fleet env (serve env now c x) \<and> closed_environment i (fst (serve env now c x))"
    if "reachable_fleet env x \<and> closed_environment i (fst x)" "\<not> reopens i c" for now c x
    using reachable_fleet_ok [of env x] that by (auto intro: reachable_fleet.served serve_closed)
  then have "reachable_fleet env (serve_all env calls w) \<and> closed_environment i (fst (serve_all env calls w))"
    by (rule serve_all_invariant [where P = "\<lambda>_ c. \<not> reopens i c"]) (use assms in auto)
  then show ?thesis by simp
qed

text \<open>A successful revocation closes the environment.\<close>

lemma invalidated_rows:
  "well_formed db \<Longrightarrow> set rs \<subseteq> set (commands db) \<Longrightarrow> distinct rs \<Longrightarrow> \<forall>r \<in> set rs. cr_state r = ''accepted'' \<Longrightarrow>
   invalidate_rows now rs db = Inr db' \<Longrightarrow>
   commands db' = map (\<lambda>x. if x \<in> set rs then x\<lparr>cr_state := ''expired''\<rparr> else x) (commands db)"
proof (induction rs arbitrary: db)
  case (Cons r rs)
  note wf = Cons.prems(1)
  from Cons.prems(2) have r: "r \<in> set (commands db)" by simp
  note valid = row_valid_in [OF wf r]
  let ?c = "(command_of_row r)\<lparr>cm_state := ''expired''\<rparr>"
  from Cons.prems(5) obtain c db1 where
    first: "save_audited ?c ''command.invalidate'' ''control-plane'' None now db = Inr (c, db1)" and
    rest: "invalidate_rows now rs db1 = Inr db'"
    by (auto simp: rbind_Inr_iff record_of_valid [OF valid])
  have stored: "store_command ?c r = r\<lparr>cr_state := ''expired''\<rparr>" by (simp add: store_columns store_self [OF valid])
  then have "row_step r (store_command ?c r)" using Cons.prems(4) row_step.expired [of r] by simp
  note saved = save_audited_tx [OF wf r _ this first]
  have one: "commands db1 = map (\<lambda>x. if x = r then r\<lparr>cr_state := ''expired''\<rparr> else x) (commands db)"
    using saved(4) stored by simp
  have "set rs \<subseteq> set (commands db1)" using Cons.prems(2,3) by (auto simp: one)
  then have two: "commands db' = map (\<lambda>x. if x \<in> set rs then x\<lparr>cr_state := ''expired''\<rparr> else x) (commands db1)"
    using Cons.IH [of db1] saved(3) Cons.prems(3,4) rest by simp
  have "r\<lparr>cr_state := ''expired''\<rparr> \<notin> set rs" using Cons.prems(4) by fastforce
  then show ?case using Cons.prems(3) by (simp add: two one comp_def)
qed simp

lemma invalidated_environment:
  assumes wf: "well_formed db" and ok: "invalidateEnvironment now i db = Inr db'"
  shows "no_waiting i db'"
proof -
  let ?rs = "filter (\<lambda>r. cr_environment_id r = i \<and> cr_state r = ''accepted'') (commands db)"
  from ok have "invalidate_rows now ?rs db = Inr db'" by (auto simp: invalidateEnvironment_def rbind_Inr_iff)
  then have rows: "commands db' = map (\<lambda>x. if x \<in> set ?rs then x\<lparr>cr_state := ''expired''\<rparr> else x) (commands db)"
    by (intro invalidated_rows [OF wf]) (auto intro: distinct_filter distinct_rows [OF wf])
  show ?thesis unfolding no_waiting_def
  proof (intro ballI impI)
    fix r assume "r \<in> set (commands db')" and env: "cr_environment_id r = i"
    then have "r \<in> (\<lambda>x. if x \<in> set ?rs then x\<lparr>cr_state := ''expired''\<rparr> else x) ` set (commands db)" by (simp only: rows set_map)
    then obtain x where x: "r = (if x \<in> set ?rs then x\<lparr>cr_state := ''expired''\<rparr> else x)" "x \<in> set (commands db)" by (rule imageE)
    show "cr_state r \<noteq> ''accepted''"
    proof (cases "x \<in> set ?rs")
      case True
      with x(1) have "r = x\<lparr>cr_state := ''expired''\<rparr>" by (simp only: if_True)
      then show ?thesis by simp
    next
      case False
      with x(1) have "r = x" by (simp only: if_False)
      with False x(2) env show ?thesis by simp
    qed
  qed
qed

text \<open>In every reachable server a revoked environment has no waiting command.\<close>

definition revoked_are_quiet :: "fleet_db \<Rightarrow> bool" where
  "revoked_are_quiet db \<longleftrightarrow> (\<forall>i. (i, ''revoked'') \<in> set (enrollments db) \<longrightarrow> no_waiting i db)"

lemma newly_revoked:
  assumes new: "(i, ''revoked'') \<in> set (enrollments (fst (serve env now c w)))" and old: "(i, ''revoked'') \<notin> set (enrollments (fst w))"
  shows "c = RevokeEnvironment i"
proof -
  obtain db1 where db1: "fst (serve env now c w) = fst (fleet_operation env now c db1 (snd w))"
    "enrollments db1 = enrollments (fst w)" by (rule serve_tables)
  have old1: "(i, ''revoked'') \<notin> set (enrollments db1)" using old by (simp add: db1(2))
  show ?thesis
  proof (cases c)
    case (AgentCall browser auth route)
    show ?thesis
      by (cases rule: agentRoute_enrollments [where env = env and now = now and browser = browser and auth = auth and
          route = route and db = db1 and es = "snd w"])
        (use new old1 db1(1) in \<open>simp_all add: AgentCall in_set_state split: if_splits\<close>)
  next
    case (CreateEnvironment uuid secret body)
    show ?thesis
      by (cases rule: create_enrollments [of "fe_sha env" uuid secret now body db1])
        (use new old1 db1(1) in \<open>simp_all add: CreateEnvironment\<close>)
  next
    case (RegenerateEnrollment secret j)
    show ?thesis
      by (cases rule: regenerate_enrollments [of "fe_sha env" secret now j db1])
        (use new old1 db1(1) in \<open>simp_all add: RegenerateEnrollment in_set_state split: if_splits\<close>)
  next
    case (RevokeEnvironment j)
    have "j = i"
      by (cases rule: revoke_enrollments [of now j db1])
        (use new old1 db1(1) in \<open>simp_all add: RevokeEnvironment in_set_state split: if_splits\<close>)
    with RevokeEnvironment show ?thesis by simp
  next
    case (OperatorCommand x)
    with other_tables_enrollments [OF call_commands_frame, of "fleet_peers env now" now x db1] new old1 db1(1) show ?thesis by simp
  next
    case (OperatorRead x)
    with new old1 db1(1) show ?thesis by simp
  next
    case (IdentifyProjects uuids j ids)
    with access_view_enrollments [OF access.identify, of uuids j ids db1] new old1 db1(1) show ?thesis by simp
  next
    case Restart
    with other_tables_enrollments [OF command_frames(2), of now "snd (recoverAfterRestart now db1)"]
      access_view_enrollments [OF recover_sessions_access(2), of now db1] new old1 db1(1) show ?thesis by simp
  qed
qed

lemma serve_revoked_quiet:
  assumes ok: "access_ok (fst w)" "reachable_db (fst w)" and quiet: "revoked_are_quiet (fst w)"
  shows "revoked_are_quiet (fst (serve env now c w))"
  unfolding revoked_are_quiet_def
proof (intro allI impI)
  fix i assume new: "(i, ''revoked'') \<in> set (enrollments (fst (serve env now c w)))"
  obtain db1 where db1: "fst (serve env now c w) = fst (fleet_operation env now c db1 (snd w))"
    "enrollments db1 = enrollments (fst w)" "commands db1 = commands (fst w)" by (rule serve_tables)
  show "no_waiting i (fst (serve env now c w))"
  proof (cases "(i, ''revoked'') \<in> set (enrollments (fst w))")
    case True
    with quiet have q: "no_waiting i (fst w)" by (simp add: revoked_are_quiet_def)
    show ?thesis
    proof (cases "reopens i c")
      case False
      from serve_closed [OF ok _ False] True q show ?thesis by (simp add: closed_environment_def)
    next
      case True
      then obtain secret where "c = RegenerateEnrollment secret i" by (cases c) auto
      with q db1(1,3) show ?thesis by (simp add: regenerate_commands no_waiting_def)
    qed
  next
    case False
    note c = newly_revoked [OF new False]
    with db1(1) have out: "fst (serve env now c w) = snd (revoke (invalidateManagementAccess now) now i db1)" by simp
    obtain r db' where rev: "revoke (invalidateManagementAccess now) now i db1 = (r, db')" by force
    have changed: "db' \<noteq> db1" using out rev new False db1(2) by auto
    show ?thesis
    proof (cases r)
      case (Inl e)
      with rev changed show ?thesis unfolding revoke_def by (simp add: transaction_Inl)
    next
      case (Inr u)
      with rev have "revoke (invalidateManagementAccess now) now i db1 = (Inr u, db')" by simp
      then show ?thesis
      proof (cases rule: revoke_cases)
        case already
        with changed show ?thesis by simp
      next
        case (revoked r db2)
        have "well_formed (revoked_db i db1)" using reachable_well_formed [OF ok(2)] db1(3)
          by (simp add: well_formed_def revoked_db_def invalidate_session_def delete_credentials_def delete_tokens_def)
        from invalidated_environment [OF this revoked(3)] revoked(4) out rev show ?thesis by (simp add: no_waiting_def)
      qed
    qed
  qed
qed

lemma reachable_revoked_quiet: "reachable_fleet env w \<Longrightarrow> revoked_are_quiet (fst w)"
proof (induction rule: reachable_fleet.induct)
  case start
  show ?case by (simp add: revoked_are_quiet_def no_waiting_def empty_db_def)
next
  case (served w now c)
  with reachable_fleet_ok [OF served.hyps] serve_revoked_quiet show ?case by blast
qed

text \<open>What a closed environment refuses.\<close>

lemma revoked_without_access:
  assumes ok: "access_ok db" and revoked: "(i, ''revoked'') \<in> set (enrollments db)"
  shows "\<forall>t \<in> set (tokens db). tk_environment_id t \<noteq> i" "\<forall>c \<in> set (credentials db). cd_environment_id c \<noteq> i"
    "session_of i db = None"
proof -
  from ok have d: "distinct (map fst (enrollments db))" by (simp add: access_ok_def consistent_access_def)
  note one = one_state [OF d revoked]
  show tokens: "\<forall>t \<in> set (tokens db). tk_environment_id t \<noteq> i"
    using ok one [of "''pending''"] by (auto simp: access_ok_def consistent_access_def)
  show creds: "\<forall>c \<in> set (credentials db). cd_environment_id c \<noteq> i"
    using ok one [of "''enrolled''"] by (auto simp: access_ok_def consistent_access_def)
  have "\<forall>s \<in> set (sessions db). sn_environment_id s \<noteq> i"
    using ok creds unfolding access_ok_def consistent_access_def session_owners_def by fastforce
  then show "session_of i db = None" by (simp add: session_of_def find_None_mem)
qed

lemma no_credential_no_authentication:
  "\<forall>c \<in> set (credentials db). cd_environment_id c \<noteq> ai_environmentId identity \<Longrightarrow> authenticate sha identity db \<noteq> Inr ()"
  by (auto dest!: enrolled_credentialD elim!: authenticate_Inr)

section \<open>Tokens\<close>

definition spent :: "string \<Rightarrow> fleet_db \<Rightarrow> bool" where
  "spent v db \<longleftrightarrow> (\<forall>t \<in> set (tokens db). tk_verifier t \<noteq> v)"

lemma spent_upsert: "spent v db \<Longrightarrow> tk_verifier t \<noteq> v \<Longrightarrow> \<forall>x \<in> set (upsert tk_environment_id t (tokens db)). tk_verifier x \<noteq> v"
  by (auto simp: spent_def upsert_def set_update_where)

lemma serve_spent:
  assumes "spent v (fst w)" "\<not> issues env v c"
  shows "spent v (fst (serve env now c w))"
proof -
  obtain db1 where db1: "fst (serve env now c w) = fst (fleet_operation env now c db1 (snd w))"
    "tokens db1 = tokens (fst w)" by (rule serve_tables)
  have old: "spent v db1" using assms(1) by (simp add: spent_def db1(2))
  show ?thesis
  proof (cases c)
    case (AgentCall browser auth route)
    show ?thesis
      by (cases rule: agentRoute_enrollments [where env = env and now = now and browser = browser and auth = auth and
          route = route and db = db1 and es = "snd w"])
        (use old db1(1) in \<open>simp_all add: AgentCall spent_def\<close>)
  next
    case (CreateEnvironment uuid secret body)
    with assms(2) have v: "fe_sha env secret \<noteq> v" by simp
    show ?thesis
    proof (cases rule: create_enrollments [of "fe_sha env" uuid secret now body db1])
      case same
      with old db1(1) show ?thesis by (simp add: CreateEnvironment spent_def)
    next
      case (created t)
      with v have "tk_verifier t \<noteq> v" by simp
      from spent_upsert [OF old this] created(3) db1(1) show ?thesis by (simp only: CreateEnvironment spent_def fleet_operation.simps fst_conv)
    qed
  next
    case (RegenerateEnrollment secret j)
    with assms(2) have v: "fe_sha env secret \<noteq> v" by simp
    show ?thesis
    proof (cases rule: regenerate_enrollments [of "fe_sha env" secret now j db1])
      case same
      with old db1(1) show ?thesis by (simp add: RegenerateEnrollment spent_def)
    next
      case (renewed t)
      with v have "tk_verifier t \<noteq> v" by simp
      from spent_upsert [OF old this] renewed(3) db1(1) show ?thesis by (simp only: RegenerateEnrollment spent_def fleet_operation.simps fst_conv)
    qed
  next
    case (RevokeEnvironment j)
    show ?thesis
      by (cases rule: revoke_enrollments [of now j db1]) (use old db1(1) in \<open>simp_all add: RevokeEnvironment spent_def\<close>)
  next
    case (OperatorCommand x)
    with other_tables_enrollments [OF call_commands_frame, of "fleet_peers env now" now x db1] old db1(1) show ?thesis
      by (simp add: spent_def)
  next
    case (OperatorRead x)
    with old db1(1) show ?thesis by simp
  next
    case (IdentifyProjects uuids j ids)
    with access_view_enrollments [OF access.identify, of uuids j ids db1] old db1(1) show ?thesis by (simp add: spent_def)
  next
    case Restart
    with other_tables_enrollments [OF command_frames(2), of now "snd (recoverAfterRestart now db1)"]
      access_view_enrollments [OF recover_sessions_access(2), of now db1] old db1(1) show ?thesis by (simp add: spent_def)
  qed
qed

lemma serve_all_spent:
  "spent v (fst w) \<Longrightarrow> \<forall>(now, c) \<in> set calls. \<not> issues env v c \<Longrightarrow> spent v (fst (serve_all env calls w))"
  by (rule serve_all_invariant [where P = "\<lambda>_ c. \<not> issues env v c"]) (auto intro: serve_spent)

lemma enroll_spends:
  assumes ok: "access_ok db" and enrolled: "enroll sha agentId credential now input db = (Inr out, db')"
  shows "spent (sha (enroll_secret input)) db'"
  using enrolled
proof (cases rule: enroll_cases)
  case (1 t)
  note t = pending_tokenD [OF 1(1)]
  have "distinct (map tk_verifier (tokens db))" using ok by (simp add: access_ok_def consistent_access_def)
  then have "x = t" if "x \<in> set (tokens db)" "tk_verifier x = sha (enroll_secret input)" for x
    using t that by (auto simp: distinct_map inj_on_def)
  moreover have "tokens db' = filter (\<lambda>x. tk_environment_id x \<noteq> tk_environment_id t) (tokens db)"
    using other_tables_enrollments [OF 1(5)] by (simp add: delete_tokens_def)
  ultimately show ?thesis by (auto simp: spent_def)
qed

lemma enroll_without_token:
  assumes "spent (sha (enroll_secret input)) db"
    and "enroll sha agentId credential now input db0 = (Inr out, db1)"
  shows "fst (enroll sha agentId' credential' now' input db) = Inl (FleetError ''unauthenticated'' ''Invalid or expired enrollment token'')"
proof -
  have "pending_token (sha (enroll_secret input)) db = None"
  proof (cases "pending_token (sha (enroll_secret input)) db")
    case (Some t)
    with pending_tokenD [OF Some] assms(1) show ?thesis unfolding spent_def by blast
  qed
  moreover from assms(2) obtain request where request: "value_at input [''protocolVersion''] = Some (JNum 1)"
    "parse_protocol enrollmentRequestSchema input = Inr request" "length (field request [''token'']) \<le> 256"
    by (auto simp: enroll_def field_def Let_def split: sum.splits if_splits)
  moreover have "field request [''token''] = enroll_secret input"
  proof -
    from request(2) obtain w where w: "enrollmentRequestSchema input ''$'' = Inr w" "request = getOr w JNull"
      by (auto simp: parse_protocol_def split: sum.splits)
    have f: "faithful_schema enrollmentRequestSchema" by (simp add: schema_intros)
    from faithful_schema.reparse [OF f w(1), of "''$''"] obtain j where "w = Some j"
      using object_ok_obj unfolding enrollmentRequestSchema_def is_ok_iff by blast
    with faithful_schema.same_document [OF f w(1)] w(2) show ?thesis
      using scalars_equivalent(1) [of w input "[''token'']"] by (simp add: enroll_secret_def field_def)
  qed
  ultimately show ?thesis by (simp add: enroll_def field_def transaction_def)
qed

section \<open>Sessions\<close>

lemma authenticateSession_Inr:
  assumes "authenticateSession sha now identity db = Inr ()"
  obtains s where "authenticate sha identity db = Inr ()" "session_of (ai_environmentId identity) db = Some s"
    "sn_agent_id s = ai_agentId identity" "sn_session_id s = ai_sessionId identity" "after (sn_expires_at s) now"
  using assms by (auto simp: authenticateSession_def verify_session_def rbind_Inr_iff split: option.splits if_splits)

lemma enrolled_by_state:
  "enrolled_credential i agent db =
     find (\<lambda>c. cd_environment_id c = i \<and> cd_agent_id c = agent \<and> (cd_environment_id c, ''enrolled'') \<in> set (enrollments db)) (credentials db)"
proof -
  have "(\<exists>e \<in> set (environments db). en_id e = x \<and> en_enrollment e = s) \<longleftrightarrow> (x, s) \<in> set (enrollments db)" for x s
    by (auto simp: enrollments_def)
  then show ?thesis by (simp add: enrolled_credential_def)
qed

lemma opened_session:
  assumes "openSession sha sessionId now identity input db = (Inr (sid, t), db')"
  obtains row where "session_of (ai_environmentId identity) db' = Some row" "sn_agent_id row = ai_agentId identity"
    "sn_session_id row = sessionId" "sn_expires_at row = t" "sn_sequence row = -1" "sid = sessionId"
    "authenticate sha identity db' = Inr ()"
    "case session_of (ai_environmentId identity) db of None \<Rightarrow> True | Some s \<Rightarrow> \<not> after (sn_expires_at s) now"
  using assms
proof (cases rule: openSession_cases)
  case (1 row)
  have "session_of (ai_environmentId identity) db' = Some row"
    unfolding 1(11) session_of_def using find_upsert [of sn_environment_id "ai_environmentId identity" row "sessions db"] 1(5) by simp
  moreover have "enrolled_credential i a db' = enrolled_credential i a db" for i a
    using openSession_enrollments(1) [of sha sessionId now identity input db] assms
    by (simp add: enrolled_by_state) (simp add: 1(11))
  then have "authenticate sha identity db' = authenticate sha identity db" unfolding authenticate_def by (simp only:)
  with 1(1) have "authenticate sha identity db' = Inr ()" by simp
  ultimately show ?thesis using that 1(2,4,6-9) by blast
qed

end
