(* ===== verification/FleetHistories.thy ===== *)
theory FleetHistories
  imports FleetAccess
begin

text \<open>
  What any history of requests keeps: the highest sequence number a session has reported, and the
  results of reads that have arrived.
\<close>

section \<open>Observations\<close>

lemma session_of_set:
  assumes "\<And>s. sn_environment_id (f s) = sn_environment_id s"
  shows "session_of i (set_session j sid f db) =
    map_option (\<lambda>s. if sn_environment_id s = j \<and> sn_session_id s = sid then f s else s) (session_of i db)"
proof -
  have "find (\<lambda>s. sn_environment_id s = i) (map (\<lambda>s. if sn_environment_id s = j \<and> sn_session_id s = sid then f s else s) ss) =
     map_option (\<lambda>s. if sn_environment_id s = j \<and> sn_session_id s = sid then f s else s) (find (\<lambda>s. sn_environment_id s = i) ss)" for ss
    using assms by (induction ss) auto
  then show ?thesis by (simp add: session_of_def set_session_def update_where_def)
qed

lemma session_of_owner:
  "session_owners db' = session_owners db \<Longrightarrow> session_of i db = Some s \<Longrightarrow>
   \<exists>s'. session_of i db' = Some s' \<and> sn_environment_id s' = i \<and> sn_session_id s' = sn_session_id s"
proof -
  have "map_option sn_session_id (find (\<lambda>s. sn_environment_id s = i) ss) =
      map_option (snd \<circ> snd) (find (\<lambda>(e, a, s). e = i) (map (\<lambda>s. (sn_environment_id s, sn_agent_id s, sn_session_id s)) ss))" for ss
    by (induction ss) auto
  then have view: "map_option sn_session_id (session_of i d) = map_option (snd \<circ> snd) (find (\<lambda>(e, a, s). e = i) (session_owners d))" for d
    by (simp add: session_of_def session_owners_def)
  assume "session_owners db' = session_owners db" "session_of i db = Some s"
  then have "map_option sn_session_id (session_of i db') = Some (sn_session_id s)" using view [of db] by (simp add: view)
  then obtain s' where "session_of i db' = Some s'" "sn_session_id s' = sn_session_id s" by auto
  moreover from this(1) have "sn_environment_id s' = i" by (auto simp: session_of_def dest: find_Some_mem)
  ultimately show ?thesis by blast
qed

lemma set_session_views [simp]:
  "inventory_view (set_session i sid f db) = inventory_view db" "commands (set_session i sid f db) = commands db"
  by (simp_all add: set_session_def)

lemma observe_Inr:
  assumes ok: "observe sha receive now identity request db = (Inr (), db')"
  obtains current db1 t u where "verify_session now (identity\<lparr>ai_sessionId := ob_sessionId request\<rparr>) db = Inr current"
    "ai_environmentId identity = ob_environmentId request"
    "if sn_sequence current < ob_sequence request
     then \<exists>d. receive request db = Inr d \<and> db1 = set_session (ob_environmentId request) (ob_sessionId request)
        (\<lambda>s. s\<lparr>sn_sequence := ob_sequence request\<rparr>) d
     else db1 = db"
    "db' = set_environment (ob_environmentId request) (\<lambda>r. r\<lparr>en_connection := ''online'', en_last_contact_at := Some u\<rparr>)
       (set_session (ob_environmentId request) (ob_sessionId request) (\<lambda>s. s\<lparr>sn_expires_at := t\<rparr>) db1)"
proof -
  let ?x = "identity\<lparr>ai_sessionId := ob_sessionId request\<rparr>"
  from ok have same: "ai_environmentId identity = ob_environmentId request"
    by (auto simp: observe_def session_matches_def split: if_splits)
  from ok obtain b db2 u where o: "observe_session receive now request ?x db = Inr (b, db2)" "clock_text now = Inr u"
    "db' = set_environment (ob_environmentId request) (\<lambda>r. r\<lparr>en_connection := ''online'', en_last_contact_at := Some u\<rparr>) db2"
    by (auto simp: observe_def recordAuthenticatedSignal_def same transaction_Inr rbind_Inr_iff split: sum.splits if_splits)
  from o(1) obtain current :: session_row and db1 t where "verify_session now ?x db = Inr current"
    "(if sn_sequence current < ob_sequence request
      then rbind (receive request db) (\<lambda>db. Inr (set_session (ob_environmentId request) (ob_sessionId request)
          (\<lambda>s. s\<lparr>sn_sequence := ob_sequence request\<rparr>) db)) else Inr db) = Inr db1"
    "db2 = set_session (ob_environmentId request) (ob_sessionId request) (\<lambda>s. s\<lparr>sn_expires_at := t\<rparr>) db1"
    unfolding observe_session_def rbind_Inr_iff sum.inject prod.inject by blast
  then show ?thesis using that [of current db1 u t] same o(3) by (auto simp: rbind_Inr_iff split: if_splits)
qed

lemma observe_Inl: "observe sha receive now identity request db = (Inl e, db') \<Longrightarrow> db' = db"
  by (auto simp: observe_def recordAuthenticatedSignal_def transaction_Inl split: sum.splits)

lemma verify_session_Inr:
  "verify_session now identity db = Inr s \<Longrightarrow>
   session_of (ai_environmentId identity) db = Some s \<and> sn_session_id s = ai_sessionId identity \<and> sn_agent_id s = ai_agentId identity"
  by (auto simp: verify_session_def rbind_Inr_iff split: option.splits if_splits)

lemma observed_sequence:
  assumes keeps: "\<And>d. receive request db = Inr d \<Longrightarrow> session_owners d = session_owners db"
    and ok: "observe sha receive now identity request db = (Inr (), db')"
  shows "\<exists>s. session_of (ob_environmentId request) db' = Some s \<and> ob_sequence request \<le> sn_sequence s"
proof -
  let ?i = "ob_environmentId request" and ?sid = "ob_sessionId request"
  obtain current db1 t u where o: "verify_session now (identity\<lparr>ai_sessionId := ob_sessionId request\<rparr>) db = Inr current"
    "ai_environmentId identity = ?i"
    "if sn_sequence current < ob_sequence request
     then \<exists>d. receive request db = Inr d \<and> db1 = set_session ?i ?sid (\<lambda>s. s\<lparr>sn_sequence := ob_sequence request\<rparr>) d else db1 = db"
    "db' = set_environment ?i (\<lambda>r. r\<lparr>en_connection := ''online'', en_last_contact_at := Some u\<rparr>)
       (set_session ?i ?sid (\<lambda>s. s\<lparr>sn_expires_at := t\<rparr>) db1)"
    by (rule observe_Inr [OF ok])
  have s: "session_of ?i db = Some current" "sn_session_id current = ?sid" using verify_session_Inr [OF o(1)] o(2) by auto
  have "\<exists>s1. session_of ?i db1 = Some s1 \<and> ob_sequence request \<le> sn_sequence s1"
  proof (cases "sn_sequence current < ob_sequence request")
    case True
    with o(3) obtain d where d: "receive request db = Inr d" "db1 = set_session ?i ?sid (\<lambda>s. s\<lparr>sn_sequence := ob_sequence request\<rparr>) d"
      by auto
    from session_of_owner [OF keeps [OF d(1)] s(1)] s(2) show ?thesis by (auto simp: d(2) session_of_set)
  next
    case False
    with o(3) s show ?thesis by auto
  qed
  then obtain s1 where s1: "session_of ?i db1 = Some s1" "ob_sequence request \<le> sn_sequence s1" by blast
  have "session_of ?i (set_environment ?i f d) = session_of ?i d" for f d by (simp add: session_of_def)
  with s1 show ?thesis by (auto simp: o(4) session_of_set)
qed

lemma stale_observation:
  assumes s: "session_of (ob_environmentId request) db = Some s" "ob_sequence request \<le> sn_sequence s"
  shows "inventory_view (snd (observe sha receive now identity request db)) = inventory_view db \<and>
    commands (snd (observe sha receive now identity request db)) = commands db"
proof (cases "observe sha receive now identity request db")
  case (Pair r db')
  show ?thesis
  proof (cases r)
    case (Inl e)
    with Pair observe_Inl show ?thesis by fastforce
  next
    case (Inr u)
    with Pair have "observe sha receive now identity request db = (Inr (), db')" by simp
    then show ?thesis
    proof (cases rule: observe_Inr)
      case (1 current db1 t u)
      with verify_session_Inr [OF 1(1)] s have "db1 = db" by auto
      then show ?thesis by (simp add: Pair 1(4))
    qed
  qed
qed

section \<open>The sessions table\<close>

lemmas same_sessions = session_rows.command_change

lemma enroll_sessions: "sessions (snd (enroll sha agentId credential now input db)) = sessions db"
proof (cases "enroll sha agentId credential now input db")
  case (Pair r db')
  show ?thesis
  proof (cases r)
    case (Inl e)
    with Pair enroll_Inl show ?thesis by fastforce
  next
    case (Inr out)
    with Pair have "enroll sha agentId credential now input db = (Inr out, db')" by simp
    then show ?thesis
    proof (cases rule: enroll_cases)
      case (1 t)
      from same_sessions [OF 1(5)] Pair show ?thesis by (simp add: delete_tokens_def)
    qed
  qed
qed

lemma create_sessions: "sessions (snd (createEnvironment sha uuid secret now input db)) = sessions db"
proof (cases "createEnvironment sha uuid secret now input db")
  case (Pair r db')
  show ?thesis
  proof (cases r)
    case (Inl e)
    with Pair have "db' = db" by (auto simp: createEnvironment_def Let_def transaction_Inl split: sum.splits if_splits)
    with Pair show ?thesis by simp
  next
    case (Inr token)
    with Pair obtain name db1 db2 where steps: "insert_environment \<lparr>en_id = uuid, en_name = name, en_enrollment = ''pending'',
        en_connection = ''awaiting-signal'', en_last_contact_at = None\<rparr> db = Inr db1"
      "issueToken sha secret uuid now db1 = Inr (token, db2)"
      "enrollment_audit OPERATOR_ACTOR uuid ''environment.create'' None now db2 = Inr db'"
      by (auto simp: createEnvironment_def Let_def transaction_Inr rbind_Inr_iff split: sum.splits if_splits)
    obtain t where "db2 = db1\<lparr>tokens := upsert tk_environment_id t (tokens db1)\<rparr>" by (rule issueToken_Inr [OF steps(2)])
    moreover have "sessions db1 = sessions db" using steps(1) by (auto simp: insert_environment_def split: if_splits)
    ultimately show ?thesis using same_sessions [OF enrollment_audit_Inr [OF steps(3)]] Pair by simp
  qed
qed

lemma regenerate_sessions: "sessions (snd (regenerateEnrollment sha secret now i db)) = sessions db"
proof (cases "regenerateEnrollment sha secret now i db")
  case (Pair r db')
  show ?thesis
  proof (cases r)
    case (Inl e)
    with Pair have "db' = db" unfolding regenerateEnrollment_def by (simp add: transaction_Inl)
    with Pair show ?thesis by simp
  next
    case (Inr token)
    with Pair have "regenerateEnrollment sha secret now i db = (Inr token, db')" by simp
    then show ?thesis
    proof (cases rule: regenerate_cases)
      case (1 r t)
      from same_sessions [OF 1(6)] Pair show ?thesis by (simp add: delete_tokens_def)
    qed
  qed
qed

lemma revoke_sessions:
  "sessions (snd (revoke (invalidateManagementAccess now) now i db)) \<in>
     {sessions db, filter (\<lambda>s. sn_environment_id s \<noteq> i) (sessions db)}"
proof (cases "revoke (invalidateManagementAccess now) now i db")
  case (Pair r db')
  show ?thesis
  proof (cases r)
    case (Inl e)
    with Pair have "db' = db" unfolding revoke_def by (simp add: transaction_Inl)
    with Pair show ?thesis by simp
  next
    case (Inr u)
    with Pair have "revoke (invalidateManagementAccess now) now i db = (Inr u, db')" by simp
    then show ?thesis
    proof (cases rule: revoke_cases)
      case (revoked r db1)
      have "sessions (revoked_db i db) = filter (\<lambda>s. sn_environment_id s \<noteq> i) (sessions db)"
        by (simp add: revoked_db_def invalidate_session_def delete_credentials_def delete_tokens_def)
      with same_sessions [OF revoked(5)] Pair show ?thesis by simp
    qed (use Pair in simp)
  qed
qed

section \<open>Sequence numbers\<close>

text \<open>As long as \<open>sid\<close> is the session of the environment, its sequence number is at least \<open>n\<close>.\<close>

definition past :: "string \<Rightarrow> string \<Rightarrow> int \<Rightarrow> fleet_db \<Rightarrow> bool" where
  "past i sid n db \<longleftrightarrow> (\<forall>s. session_of i db = Some s \<longrightarrow> sn_session_id s = sid \<longrightarrow> n \<le> sn_sequence s)"

fun opens :: "string \<Rightarrow> fleet_call \<Rightarrow> bool" where
  "opens sid (AgentCall _ _ (SessionRoute sessionId _)) = (sessionId = sid)"
| "opens sid _ = False"

lemma past_same: "past i sid n db \<Longrightarrow> sessions db' = sessions db \<Longrightarrow> past i sid n db'"
  by (simp add: past_def session_of_def)

lemma past_other_tables: "past i sid n db \<Longrightarrow> other_tables db' = other_tables db \<Longrightarrow> past i sid n db'"
  by (rule past_same [OF _ same_sessions])

lemma past_filter: "past i sid n db \<Longrightarrow> sessions db' = filter (\<lambda>s. sn_environment_id s \<noteq> j) (sessions db) \<Longrightarrow> past i sid n db'"
proof -
  assume old: "past i sid n db" and f: "sessions db' = filter (\<lambda>s. sn_environment_id s \<noteq> j) (sessions db)"
  have "find (\<lambda>s. sn_environment_id s = i) (filter (\<lambda>s. sn_environment_id s \<noteq> j) ss) =
      (if i = j then None else find (\<lambda>s. sn_environment_id s = i) ss)" for ss :: "session_row list"
    by (induction ss) auto
  with old show ?thesis by (simp add: past_def session_of_def f)
qed

lemma past_expired: "past i sid n db \<Longrightarrow> sessions db' = map (\<lambda>s. s\<lparr>sn_expires_at := t\<rparr>) (sessions db) \<Longrightarrow> past i sid n db'"
proof -
  assume old: "past i sid n db" and f: "sessions db' = map (\<lambda>s. s\<lparr>sn_expires_at := t\<rparr>) (sessions db)"
  have "find (\<lambda>s. sn_environment_id s = i) (map (\<lambda>s. s\<lparr>sn_expires_at := t\<rparr>) ss) =
      map_option (\<lambda>s. s\<lparr>sn_expires_at := t\<rparr>) (find (\<lambda>s. sn_environment_id s = i) ss)" for ss :: "session_row list"
    by (induction ss) auto
  with old show ?thesis by (auto simp: past_def session_of_def f)
qed

lemma past_openSession:
  assumes "past i sid n db" "sessionId \<noteq> sid"
  shows "past i sid n (snd (openSession sha sessionId now identity input db))"
proof (cases "openSession sha sessionId now identity input db")
  case (Pair r db')
  show ?thesis
  proof (cases r)
    case (Inl e)
    with Pair openSession_Inl assms(1) show ?thesis by fastforce
  next
    case (Inr out)
    obtain sid' t where "out = (sid', t)" by force
    with Pair Inr have "openSession sha sessionId now identity input db = (Inr (sid', t), db')" by simp
    then show ?thesis
    proof (cases rule: openSession_cases)
      case (1 row)
      have "session_of i db' = (if i = sn_environment_id row then Some row else session_of i db)"
        unfolding 1(11) using find_upsert [of sn_environment_id i row "sessions db"] by (simp add: session_of_def)
      with assms 1(7) show ?thesis by (simp add: past_def Pair)
    qed
  qed
qed

lemma past_observe:
  assumes keeps: "\<And>d. receive request db = Inr d \<Longrightarrow> sessions d = sessions db" and old: "past i sid n db"
  shows "past i sid n (snd (observe sha receive now identity request db))"
proof (cases "observe sha receive now identity request db")
  case (Pair r db')
  show ?thesis
  proof (cases r)
    case (Inl e)
    with Pair observe_Inl old show ?thesis by fastforce
  next
    case (Inr u)
    let ?e = "ob_environmentId request" and ?sid = "ob_sessionId request"
    from Inr Pair have "observe sha receive now identity request db = (Inr (), db')" by simp
    then obtain current db1 t u where o: "verify_session now (identity\<lparr>ai_sessionId := ?sid\<rparr>) db = Inr current"
      "ai_environmentId identity = ?e"
      "if sn_sequence current < ob_sequence request
       then \<exists>d. receive request db = Inr d \<and> db1 = set_session ?e ?sid (\<lambda>s. s\<lparr>sn_sequence := ob_sequence request\<rparr>) d else db1 = db"
      "db' = set_environment ?e (\<lambda>r. r\<lparr>en_connection := ''online'', en_last_contact_at := Some u\<rparr>)
         (set_session ?e ?sid (\<lambda>s. s\<lparr>sn_expires_at := t\<rparr>) db1)"
      by (rule observe_Inr)
    have current: "session_of ?e db = Some current" "sn_session_id current = ?sid" using verify_session_Inr [OF o(1)] o(2) by auto
    have "past i sid n db1"
    proof (cases "sn_sequence current < ob_sequence request")
      case True
      with o(3) obtain d where d: "receive request db = Inr d"
        "db1 = set_session ?e ?sid (\<lambda>s. s\<lparr>sn_sequence := ob_sequence request\<rparr>) d" by auto
      from keeps [OF d(1)] have same: "session_of j d = session_of j db" for j by (simp add: session_of_def)
      show ?thesis unfolding past_def
      proof (intro allI impI)
        fix s
        assume s: "session_of i db1 = Some s" "sn_session_id s = sid"
        then obtain s0 where s0: "session_of i db = Some s0"
          "s = (if sn_environment_id s0 = ?e \<and> sn_session_id s0 = ?sid then s0\<lparr>sn_sequence := ob_sequence request\<rparr> else s0)"
          by (auto simp: d(2) session_of_set same)
        show "n \<le> sn_sequence s"
        proof (cases "sn_environment_id s0 = ?e \<and> sn_session_id s0 = ?sid")
          case hit: True
          have "sn_environment_id s0 = i" using s0(1) by (auto simp: session_of_def dest: find_Some_mem)
          with hit s0(1) current have "s0 = current" by simp
          with old s0 hit s(2) current have "n \<le> sn_sequence current" by (auto simp: past_def)
          with True s0(2) hit show ?thesis by simp
        next
          case False
          with s0 s(2) old show ?thesis by (auto simp: past_def)
        qed
      qed
    qed (use o(3) old in simp)
    moreover have "session_of j (set_environment ?e f d) = session_of j d" for j f d by (simp add: session_of_def)
    ultimately show ?thesis by (auto simp: Pair o(4) past_def session_of_set split: if_splits)
  qed
qed

lemma past_agentRoute:
  assumes old: "past i sid n db" and new: "\<not> opens sid (AgentCall browser auth route)"
  shows "past i sid n (fst (snd (agentRoute env now browser auth route db es)))"
proof (cases browser)
  case False
  show ?thesis
  proof (cases route)
    case (EnrollRoute agentId credential body)
    with old False past_same [OF old enroll_sessions] show ?thesis by (simp split: sum.splits)
  next
    case (SessionRoute sessionId body)
    with old new False route_dbs(1) [of env now sessionId auth body db] past_openSession [OF old] show ?thesis by auto
  next
    case (ObservationRoute body)
    have "past i sid n (snd (observe (fe_sha env) (project_observation env now) now identity request db))" for identity request
      by (rule past_observe [OF session_rows.receive old])
    with route_dbs(2) [of env now auth body db] old False show ?thesis by (auto simp: ObservationRoute)
  next
    case (ClaimRoute commandId body)
    have "other_tables (snd (claim_route env now commandId auth body db)) = other_tables db"
      using route_dbs(3) [of env now commandId auth body db] command_frames(5) by auto
    with past_other_tables [OF old] False show ?thesis by (simp add: ClaimRoute)
  next
    case (ResultRoute body)
    have "other_tables (fst (snd (result_route env now auth body db es))) = other_tables db"
      using result_route_db [of env now auth body db es] command_result_route_frame by (elim disjE exE) simp_all
    with past_other_tables [OF old] False show ?thesis by (simp add: ResultRoute)
  next
    case (PollRoute deadline body)
    with old False past_other_tables [OF old poll_round_frame] show ?thesis by (auto split: sum.splits)
  qed (use old False in simp)
qed (use old in simp)

lemma serve_past:
  assumes "past i sid n (fst w)" "\<not> opens sid c"
  shows "past i sid n (fst (serve env now c w))"
proof -
  obtain db es where w: "w = (db, es)" by force
  define db1 where "db1 = (if starts_up c then db else snd (expire_sessions now db))"
  have "sessions (snd (expire_sessions now db)) = sessions db"
    unfolding expire_sessions_def by (rule transaction_frame [where f = sessions]) (auto simp: rbind_Inr_iff)
  with assms(1) have old: "past i sid n db1" by (auto simp: db1_def w intro: past_same)
  have "past i sid n (fst (fleet_operation env now c db1 es))"
  proof (cases c)
    case (AgentCall browser auth route)
    with past_agentRoute [OF old] assms(2) show ?thesis by simp
  next
    case (CreateEnvironment uuid secret body)
    with past_same [OF old create_sessions] show ?thesis by simp
  next
    case (RegenerateEnrollment secret j)
    with past_same [OF old regenerate_sessions] show ?thesis by simp
  next
    case (RevokeEnvironment j)
    with revoke_sessions [of now j db1] past_same [OF old] past_filter [OF old] show ?thesis by auto
  next
    case (OperatorCommand x)
    with past_other_tables [OF old call_commands_frame] show ?thesis by simp
  next
    case (OperatorRead x)
    with old show ?thesis by simp
  next
    case (IdentifyProjects uuids j ids)
    with past_same [OF old session_rows.identify] show ?thesis by simp
  next
    case Restart
    have "past i sid n (snd (recoverAfterRestart now db1))"
      using old by (auto simp: recoverAfterRestart_def transaction_def rbind_Inr_iff intro: past_expired split: sum.splits prod.splits)
    from past_other_tables [OF this command_frames(2)] show ?thesis by (simp add: Restart)
  qed
  then show ?thesis by (simp add: serve_def w flip: db1_def)
qed

lemma serve_all_past:
  "past i sid n (fst w) \<Longrightarrow> \<forall>(now, c) \<in> set calls. \<not> opens sid c \<Longrightarrow> past i sid n (fst (serve_all env calls w))"
  by (rule serve_all_invariant [where P = "\<lambda>_ c. \<not> opens sid c"]) (auto intro: serve_past)

text \<open>An observation of the session that is no news changes nothing, whoever sends it.\<close>

lemma past_observation:
  assumes "past (ob_environmentId request) (ob_sessionId request) (ob_sequence request) db"
  shows "inventory_view (snd (observe sha receive now identity request db)) = inventory_view db \<and>
    commands (snd (observe sha receive now identity request db)) = commands db"
proof (cases "observe sha receive now identity request db")
  case (Pair r db')
  show ?thesis
  proof (cases r)
    case (Inl e)
    with Pair observe_Inl show ?thesis by fastforce
  next
    case (Inr u)
    with Pair have "observe sha receive now identity request db = (Inr (), db')" by simp
    then show ?thesis
    proof (cases rule: observe_Inr)
      case (1 current db1 t u)
      with verify_session_Inr [OF 1(1)] assms have "db1 = db" by (fastforce simp: past_def)
      then show ?thesis by (simp add: Pair 1(4))
    qed
  qed
qed

section \<open>Reads\<close>

text \<open>A request that asks for a read under an id that is in use.\<close>

fun rereads :: "string \<Rightarrow> fleet_call \<Rightarrow> bool" where
  "rereads i (OperatorRead c) = reuses_id i c"
| "rereads i _ = False"

lemma serve_keeps_settled:
  assumes ok: "registry_ok maximum_entries (snd w)" and e: "e \<in> set (snd w)" "\<not> pending e" "retained now e"
    and c: "\<not> starts_up c" "\<not> rereads (re_id e) c"
  shows "e \<in> set (snd (serve env now c w))"
proof -
  obtain db es where w: "w = (db, es)" by force
  let ?db1 = "snd (expire_sessions now db)"
  have served: "snd (serve env now c w) = snd (fleet_operation env now c ?db1 es)" using c(1) by (simp add: serve_def w)
  show ?thesis
  proof (cases c)
    case (AgentCall browser auth route)
    show ?thesis
    proof (cases rule: agentRoute_reads [where env = env and now = now and browser = browser and auth = auth and
          route = route and db = ?db1 and es = es])
      case same
      with e(1) served w show ?thesis by (simp add: AgentCall)
    next
      case (called x db')
      from ok e w have "e \<in> set (call_reads (fe_encodedBytes env) None (fleet_peers env now) maximum_entries now x db' es)"
        by (intro call_keeps_settled) (use called(1) in \<open>auto simp: reuses_id_def\<close>)
      with called(2) [of maximum_entries] served show ?thesis by (simp add: AgentCall)
    qed
  next
    case (OperatorRead x)
    from ok e w c(2) have "e \<in> set (call_reads (fe_encodedBytes env) None (fleet_peers env now) maximum_entries now x ?db1 es)"
      by (intro call_keeps_settled) (auto simp: OperatorRead reuses_id_def)
    with served show ?thesis by (simp add: OperatorRead)
  qed (use e(1) served w c(1) in simp_all)
qed

lemma serve_all_keeps_settled:
  assumes "registry_ok maximum_entries (snd w)" and "e \<in> set (snd w)" "\<not> pending e"
    and "\<forall>(now, c) \<in> set calls. retained now e \<and> \<not> starts_up c \<and> \<not> rereads (re_id e) c"
  shows "e \<in> set (snd (serve_all env calls w))"
proof -
  have "registry_ok maximum_entries (snd (serve env now c x)) \<and> e \<in> set (snd (serve env now c x))"
    if "registry_ok maximum_entries (snd x) \<and> e \<in> set (snd x)" "retained now e \<and> \<not> starts_up c \<and> \<not> rereads (re_id e) c"
    for now c x using that serve_keeps_settled [of x e now c env] serve_registry [of x env now c] assms(3) by simp
  then have "registry_ok maximum_entries (snd (serve_all env calls w)) \<and> e \<in> set (snd (serve_all env calls w))"
    by (rule serve_all_invariant [where P = "\<lambda>now c. retained now e \<and> \<not> starts_up c \<and> \<not> rereads (re_id e) c"])
      (use assms in auto)
  then show ?thesis by simp
qed

end
