(* ===== verification/FleetSecurity.thy ===== *)
theory FleetSecurity
  imports FleetHistories
begin

text \<open>
  The properties of the fleet server that span its services: consistent access, revocation,
  enrollment tokens, the exclusive session of an agent, observations and the delivery of commands.
\<close>

section \<open>Sample\<close>

definition sample_server :: fleet_env where
  "sample_server = \<lparr>fe_sha = (\<lambda>s. replicate 63 CHR ''0'' @ (if take 1 s = ''t'' then ''a'' else ''b'')),
     fe_localeCompare = (\<lambda>_ _. 0), fe_encodedBytes = (\<lambda>_. 2)\<rparr>"

definition sample_secret :: string where "sample_secret = replicate 43 CHR ''c''"

definition create_sample :: fleet_call where
  "create_sample = CreateEnvironment sample_env ''token'' (Some (JObj [(''name'', JStr ''laptop'')]))"

definition enroll_body :: "json option" where
  "enroll_body = Some (JObj [(''protocolVersion'', JNum 1), (''requestId'', JStr sample_command), (''token'', JStr ''token'')])"

definition enroll_sample :: fleet_call where
  "enroll_sample = AgentCall False None (EnrollRoute sample_agent sample_secret enroll_body)"

definition session_body :: "json option" where
  "session_body = Some (JObj [(''protocolVersion'', JNum 1), (''requestId'', JStr sample_command),
     (''environmentId'', JStr sample_env), (''agentId'', JStr sample_agent), (''agentVersion'', JStr ''1.0''),
     (''host'', JObj [(''hostname'', JStr ''box''), (''os'', JStr ''linux'')])])"

definition session_sample :: fleet_call where
  "session_sample = AgentCall False (Some (''Bearer '' @ sample_secret)) (SessionRoute sample_session session_body)"

definition created_world :: "fleet_db \<times> registry" where
  "created_world = serve sample_server sample_time create_sample (empty_db, [])"

definition enrolled_world :: "fleet_db \<times> registry" where
  "enrolled_world = serve sample_server (sample_time + 1000) enroll_sample created_world"

definition session_world :: "fleet_db \<times> registry" where
  "session_world = serve sample_server (sample_time + 2000) session_sample enrolled_world"

definition revoked_world :: "fleet_db \<times> registry" where
  "revoked_world = serve sample_server (sample_time + 3000) (RevokeEnvironment sample_env) session_world"

lemma reachable_worlds:
  "reachable_fleet sample_server created_world" "reachable_fleet sample_server enrolled_world"
  "reachable_fleet sample_server session_world" "reachable_fleet sample_server revoked_world"
  unfolding created_world_def enrolled_world_def session_world_def revoked_world_def
  by (intro reachable_fleet.intros)+

lemma sample_worlds:
  "map tk_environment_id (tokens (fst created_world)) = [sample_env]"
  "map cd_agent_id (credentials (fst enrolled_world)) = [sample_agent]" "tokens (fst enrolled_world) = []"
  "map sn_session_id (sessions (fst session_world)) = [sample_session]"
  "map_option en_enrollment (environment_row_of sample_env (fst revoked_world)) = Some ''revoked''"
  by code_simp+

section \<open>Properties\<close>

text \<open>
  C28. Whatever agents and operators ask of the server, the tables of access agree: an environment has at
  most one token, credential and session; a token belongs to a pending environment, a credential to
  an enrolled one, which always has one; a session belongs to the agent that holds the credential.
\<close>

theorem access_stays_consistent:
  assumes "reachable_fleet env (db, es)"
  shows "distinct (map en_id (environments db)) \<and> distinct (map tk_environment_id (tokens db)) \<and>
    distinct (map tk_verifier (tokens db)) \<and> distinct (map cd_environment_id (credentials db)) \<and>
    distinct (map sn_environment_id (sessions db)) \<and>
    (\<forall>t \<in> set (tokens db). \<exists>e \<in> set (environments db). en_id e = tk_environment_id t \<and> en_enrollment e = ''pending'') \<and>
    (\<forall>c \<in> set (credentials db). \<exists>e \<in> set (environments db). en_id e = cd_environment_id c \<and> en_enrollment e = ''enrolled'') \<and>
    (\<forall>e \<in> set (environments db). en_enrollment e = ''enrolled'' \<longrightarrow> (\<exists>c \<in> set (credentials db). cd_environment_id c = en_id e)) \<and>
    (\<forall>s \<in> set (sessions db). \<exists>c \<in> set (credentials db). cd_environment_id c = sn_environment_id s \<and> cd_agent_id c = sn_agent_id s)"
proof -
  from reachable_fleet_ok [OF assms] have ok: "access_ok db" by simp
  have ids: "map fst (enrollments db) = map en_id (environments db)" "map fst (session_owners db) = map sn_environment_id (sessions db)"
    by (simp_all add: enrollments_def session_owners_def)
  have state: "(i, s) \<in> set (enrollments db) \<longleftrightarrow> (\<exists>e \<in> set (environments db). en_id e = i \<and> en_enrollment e = s)" for i s
    by (auto simp: enrollments_def)
  have owner: "(\<forall>(i, a, s) \<in> set (session_owners db). Q i a) \<longleftrightarrow> (\<forall>x \<in> set (sessions db). Q (sn_environment_id x) (sn_agent_id x))" for Q
    by (simp add: session_owners_def)
  from ok show ?thesis unfolding access_ok_def consistent_access_def ids owner state by blast
qed

lemma access_stays_consistent_witness:
  "map sn_session_id (sessions (fst session_world)) = [sample_session] \<and>
   (\<exists>c \<in> set (credentials (fst session_world)). cd_agent_id c = sn_agent_id (hd (sessions (fst session_world))))"
proof -
  have "hd (sessions (fst session_world)) \<in> set (sessions (fst session_world))"
    using sample_worlds(4) by (cases "sessions (fst session_world)") simp_all
  with access_stays_consistent [of sample_server "fst session_world" "snd session_world"] reachable_worlds(3) sample_worlds(4)
  show ?thesis by (metis prod.collapse)
qed

text \<open>
  C18. Revocation closes an environment: until the operator issues a new enrollment token, after any
  further requests, nobody authenticates for it, it has neither token nor session, no command of it
  waits to be claimed, and none is accepted.
\<close>

theorem revoked_environment_stays_closed:
  assumes "reachable_fleet env w" and "map_option en_enrollment (environment_row_of i (fst w)) = Some ''revoked''"
    and "\<forall>(now, c) \<in> set calls. \<not> reopens i c" and "db = fst (serve_all env calls w)"
  shows "(\<forall>identity. ai_environmentId identity = i \<longrightarrow> authenticate (fe_sha env) identity db \<noteq> Inr ()) \<and>
    session_of i db = None \<and> (\<forall>t \<in> set (tokens db). tk_environment_id t \<noteq> i) \<and>
    (\<forall>r \<in> set (commands db). cr_environment_id r = i \<longrightarrow> cr_state r \<noteq> ''accepted'')"
proof -
  from assms(2) enrollment_row have r: "(i, ''revoked'') \<in> set (enrollments (fst w))" by force
  with reachable_revoked_quiet [OF assms(1)] have "closed_environment i (fst w)"
    by (simp add: closed_environment_def revoked_are_quiet_def)
  from serve_all_closed [OF assms(1) this assms(3)] assms(4) have closed: "closed_environment i db" by simp
  have "access_ok db" using reachable_fleet_ok [OF serve_all_reachable [OF assms(1)]] assms(4) by simp
  note none = revoked_without_access [OF this, of i]
  from closed none no_credential_no_authentication [of db _ "fe_sha env"] show ?thesis
    unfolding closed_environment_def no_waiting_def by blast
qed

lemma revoked_environment_stays_closed_witness:
  "authenticate (fe_sha sample_server) (sample_identity\<lparr>ai_credential := sample_secret\<rparr>)
     (fst (serve_all sample_server [(sample_time + 4000, enroll_sample), (sample_time + 5000, session_sample)] revoked_world)) \<noteq> Inr ()"
proof -
  have "\<forall>(now, c) \<in> set [(sample_time + 4000, enroll_sample), (sample_time + 5000, session_sample)]. \<not> reopens sample_env c"
    by (simp add: enroll_sample_def session_sample_def)
  from revoked_environment_stays_closed [OF reachable_worlds(4) sample_worlds(5) this refl]
  show ?thesis by (simp add: sample_identity_def)
qed

text \<open>
  C29. An enrollment token works once: after a successful enrollment, and whatever requests follow, the
  same request is refused as long as no token with the same verifier is issued.
\<close>

theorem enrollment_token_works_once:
  assumes "reachable_fleet env (db, es)" and "enroll (fe_sha env) agentId credential now input db = (Inr out, db')"
    and "\<forall>(t, c) \<in> set calls. \<not> issues env (fe_sha env (enroll_secret input)) c"
  shows "fst (enroll (fe_sha env) agentId' credential' now' input (fst (serve_all env calls (db', es)))) =
    Inl (FleetError ''unauthenticated'' ''Invalid or expired enrollment token'')"
proof -
  from reachable_fleet_ok [OF assms(1)] have "access_ok db" by simp
  from enroll_spends [OF this assms(2)] have "spent (fe_sha env (enroll_secret input)) (fst (db', es))" by simp
  from enroll_without_token [OF serve_all_spent [OF this assms(3)] assms(2)] show ?thesis .
qed

lemma enrollment_token_works_once_witness:
  "fst (enroll (fe_sha sample_server) sample_project sample_secret (sample_time + 2000) enroll_body
     (snd (enroll (fe_sha sample_server) sample_agent sample_secret (sample_time + 1000) enroll_body (fst created_world)))) =
   Inl (FleetError ''unauthenticated'' ''Invalid or expired enrollment token'')"
proof -
  have "fst (enroll (fe_sha sample_server) sample_agent sample_secret (sample_time + 1000) enroll_body (fst created_world)) =
      Inr (sample_env, sample_agent, sample_secret)" by code_simp
  then obtain db' where "enroll (fe_sha sample_server) sample_agent sample_secret (sample_time + 1000) enroll_body (fst created_world) =
      (Inr (sample_env, sample_agent, sample_secret), db')" by (metis prod.collapse)
  with enrollment_token_works_once [of sample_server "fst created_world" "snd created_world" sample_agent sample_secret
      "sample_time + 1000" enroll_body _ db' "[]"] reachable_worlds(1) show ?thesis by simp
qed

text \<open>
  C30. An agent has one session at a time: a session is opened only when no session of the environment
  passes authentication, and on the database it leaves only the new session of that agent does,
  whatever the time, until it runs out.
\<close>

theorem session_is_exclusive:
  assumes "openSession sha sessionId now identity input db = (Inr (sid, t), db')"
  shows "(\<forall>other. ai_environmentId other = ai_environmentId identity \<longrightarrow> authenticateSession sha now other db \<noteq> Inr ()) \<and>
    (\<forall>other later. ai_environmentId other = ai_environmentId identity \<and> authenticateSession sha later other db' = Inr () \<longrightarrow>
       ai_agentId other = ai_agentId identity \<and> ai_sessionId other = sessionId \<and> after t later)"
proof (rule opened_session [OF assms], intro conjI allI impI)
  fix row
  assume live: "case session_of (ai_environmentId identity) db of None \<Rightarrow> True | Some s \<Rightarrow> \<not> after (sn_expires_at s) now"
  show "authenticateSession sha now other db \<noteq> Inr ()" if "ai_environmentId other = ai_environmentId identity" for other
    using live that by (auto elim!: authenticateSession_Inr)
next
  fix row other later
  assume row: "session_of (ai_environmentId identity) db' = Some row" "sn_agent_id row = ai_agentId identity"
    "sn_session_id row = sessionId" "sn_expires_at row = t"
    and other: "ai_environmentId other = ai_environmentId identity \<and> authenticateSession sha later other db' = Inr ()"
  from other have "authenticateSession sha later other db' = Inr ()" by simp
  then show "ai_agentId other = ai_agentId identity" "ai_sessionId other = sessionId" "after t later"
    using row other by (auto elim!: authenticateSession_Inr)
qed

lemma session_is_exclusive_witness:
  "authenticateSession (fe_sha sample_server) (sample_time + 2000)
     (sample_identity\<lparr>ai_credential := sample_secret, ai_sessionId := sample_project\<rparr>) (fst enrolled_world) \<noteq> Inr ()"
proof -
  let ?identity = "sample_identity\<lparr>ai_credential := sample_secret\<rparr>"
  have "is_ok (fst (openSession (fe_sha sample_server) sample_session (sample_time + 2000) ?identity session_body (fst enrolled_world)))"
    by code_simp
  then obtain sid t db' where "openSession (fe_sha sample_server) sample_session (sample_time + 2000) ?identity session_body (fst enrolled_world) =
      (Inr (sid, t), db')" by (metis is_ok_iff prod.collapse)
  from session_is_exclusive [OF this] show ?thesis by simp
qed

text \<open>
  C31. An observation of a session is projected once: after it has been received, and whatever requests
  are served in between, an observation of the same session with the same or an earlier sequence
  number changes neither the inventory nor any command, whoever sends it and whenever it comes. This
  holds unless a session is opened again under the same id; a session that replaces it has an id of
  its own and numbers its observations from the start.
\<close>

theorem observation_is_projected_once:
  assumes "observe (fe_sha env) (project_observation env now) now identity request db = (Inr (), db')"
    and "\<forall>(t, c) \<in> set calls. \<not> opens (ob_sessionId request) c"
    and "ob_environmentId replay = ob_environmentId request" "ob_sessionId replay = ob_sessionId request"
    and "ob_sequence replay \<le> ob_sequence request" and "served = fst (serve_all env calls (db', es))"
  shows "projects (snd (observe sha receive later sender replay served)) = projects served \<and>
    revisions (snd (observe sha receive later sender replay served)) = revisions served \<and>
    pages (snd (observe sha receive later sender replay served)) = pages served \<and>
    commands (snd (observe sha receive later sender replay served)) = commands served"
proof -
  have "session_owners d = session_owners db" if "project_observation env now request db = Inr d" for d
    using access.receive [OF that] by (simp add: access_view_def)
  from observed_sequence [OF this assms(1)] have "past (ob_environmentId request) (ob_sessionId request) (ob_sequence request) (fst (db', es))"
    by (auto simp: past_def)
  from serve_all_past [OF this assms(2), of env] assms(3-6)
  have "past (ob_environmentId replay) (ob_sessionId replay) (ob_sequence replay) served" by (fastforce simp: past_def)
  from past_observation [OF this, of sha receive later sender] show ?thesis by (simp add: inventory_view_def)
qed

definition sample_observation :: observation_request where
  "sample_observation = \<lparr>ob_environmentId = sample_env, ob_sessionId = sample_session, ob_sequence = 0,
     ob_inventory = JObj [(''revisionId'', JStr sample_command), (''pageIndex'', JNum 0), (''pageCount'', JNum 1),
       (''projects'', JArr [])]\<rparr>"

abbreviation observed_at :: "int \<Rightarrow> fleet_db \<Rightarrow> (fleet_error + unit) \<times> fleet_db" where
  "observed_at now \<equiv> observe (fe_sha sample_server) (project_observation sample_server now) now
     (sample_identity\<lparr>ai_credential := sample_secret\<rparr>) sample_observation"

definition observed_db :: fleet_db where
  "observed_db = snd (observed_at (sample_time + 3000) (fst session_world))"

definition other_calls :: "(int \<times> fleet_call) list" where
  "other_calls = [(sample_time + 4000, AgentCall False (Some (''Bearer '' @ sample_secret)) (SessionRoute sample_project session_body)),
     (sample_time + 5000, Restart)]"

lemma observed_sample:
  "observed_at (sample_time + 3000) (fst session_world) = (Inr (), observed_db)"
  "map rv_complete (revisions (fst (serve_all sample_server other_calls (observed_db, [])))) = [True]"
proof -
  have "fst (observed_at (sample_time + 3000) (fst session_world)) = Inr ()" by code_simp
  then show "observed_at (sample_time + 3000) (fst session_world) = (Inr (), observed_db)"
    unfolding observed_db_def by (metis prod.collapse)
qed code_simp

lemma observation_is_projected_once_witness:
  "map rv_complete (revisions (snd (observed_at (sample_time + 6000)
     (fst (serve_all sample_server other_calls (observed_db, [])))))) = [True]"
proof -
  have "\<forall>(t, c) \<in> set other_calls. \<not> opens (ob_sessionId sample_observation) c"
    by (simp add: other_calls_def sample_observation_def sample_session_def sample_project_def)
  note same = observation_is_projected_once [OF observed_sample(1) this refl refl order_refl refl]
  from same [THEN conjunct2, THEN conjunct1] observed_sample(2) show ?thesis by simp
qed

section \<open>Reads\<close>

text \<open>A project of the sample environment that can be read from, and a read that has been answered.\<close>

definition managed_sample :: fleet_call where
  "managed_sample = AgentCall False (Some (''Bearer '' @ sample_secret)) (ObservationRoute (agent_request
     [(''sequence'', JNum 0), (''observedAt'', JStr ''2023-11-14T22:13:22Z''), (''inventory'', JObj
       [(''revisionId'', JStr sample_command), (''pageIndex'', JNum 0), (''pageCount'', JNum 1), (''projects'', JArr [JObj
         [(''projectId'', JStr sample_project), (''localProjectId'', JStr ''one''), (''displayName'', JStr ''one''),
          (''canonicalPath'', JStr ''/one''), (''cliVersion'', JStr ''1.0''),
          (''validation'', JObj [(''state'', JStr ''valid'')]),
          (''process'', JObj [(''state'', JStr ''stopped''), (''observedAt'', JStr ''2023-11-14T22:13:22Z'')]),
          (''observedAt'', JStr ''2023-11-14T22:13:22Z''), (''runs'', JArr [])]])])]))"

definition read_calls :: "(int \<times> fleet_call) list" where
  "read_calls =
     [(sample_time + 2500, IdentifyProjects (\<lambda>k. sample_project) sample_env [''one'']),
      (sample_time + 3000, managed_sample),
      (sample_time + 4000, OperatorRead sample_read),
      (sample_time + 5000, AgentCall False (Some (''Bearer '' @ sample_secret)) (ResultRoute (agent_request [(''result'',
         JObj [(''kind'', JStr ''read''), (''result'', JObj [(''readId'', JStr sample_command), (''state'', JStr ''completed''),
           (''completedAt'', JStr ''2023-11-14T22:13:24Z''),
           (''payload'', JObj [(''kind'', JStr ''run-detail''), (''runId'', JStr ''run-1''), (''detail'', JObj [])])])])])))]"

definition answered_world :: "fleet_db \<times> registry" where
  "answered_world = serve_all sample_server read_calls session_world"

lemma answered_reachable: "reachable_fleet sample_server answered_world"
  unfolding answered_world_def by (rule serve_all_reachable [OF reachable_worlds(3)])

definition later_requests :: "(int \<times> fleet_call) list" where
  "later_requests = [(sample_time + 6000, RevokeEnvironment sample_env), (sample_time + 7000, OperatorRead (GetRead sample_command))]"

lemma answered_read:
  "map (\<lambda>e. (read_state e, list_all (\<lambda>(now, c). retained now e \<and> \<not> starts_up c \<and> \<not> rereads (re_id e) c) later_requests))
     (snd answered_world) = [(''completed'', True)]"
  by code_simp

text \<open>
  C33. While the server runs, a result that has arrived is final: until its retention ends, no sequence
  of requests by agents or operators, conflicting results, revocations and new sessions included,
  changes or drops it, unless a new read is given its id. Results do not outlive the process: a
  restarted server has none.
\<close>

theorem settled_read_is_final:
  assumes "reachable_fleet env w" and "e \<in> set (snd w)" and "read_state e \<noteq> ''pending''"
    and "\<forall>(now, c) \<in> set calls. retained now e \<and> \<not> starts_up c \<and> \<not> rereads (re_id e) c"
  shows "e \<in> set (snd (serve_all env calls w)) \<and> snd (serve env later Restart (serve_all env calls w)) = []"
proof -
  from reachable_fleet_ok [OF assms(1)] have "registry_ok maximum_entries (snd w)" by simp
  from serve_all_keeps_settled [OF this assms(2) _ assms(4)] assms(3) have "e \<in> set (snd (serve_all env calls w))"
    by (simp add: pending_def)
  moreover have "snd (serve env later Restart x) = []" for x by (cases x) (simp add: serve_def recoverReads_def)
  ultimately show ?thesis by blast
qed

lemma settled_read_is_final_witness:
  "hd (snd answered_world) \<in> set (snd (serve_all sample_server later_requests answered_world))"
proof -
  from answered_read obtain e where e: "snd answered_world = [e]" "read_state e = ''completed''"
    "\<forall>(now, c) \<in> set later_requests. retained now e \<and> \<not> starts_up c \<and> \<not> rereads (re_id e) c"
    by (auto simp only: map_eq_Cons_conv list.map_disc_iff Pair_inject list_all_iff)
  from settled_read_is_final [OF answered_reachable _ _ e(3)] e(1,2) show ?thesis by simp
qed

end
