(* ===== verification/AgentLifecycle.thy ===== *)
theory AgentLifecycle
  imports FleetEnrollment
begin

text \<open>
  \<open>packages/management-agent/src/lifecycle.ts\<close>: starting and stopping a local project through a
  runtime driver, and the read-only recovery of an interrupted command. The registry's resolution of
  a project, the driver, the clock and the timer are parameters; each takes the world and returns
  it changed. Reading the clock changes nothing. Operations of one project are serialized by the
  code, so each is modelled on its own. SHA-256 is a parameter.
\<close>

section \<open>The driver\<close>

datatype process_observation =
    Running int string string
  | Stopped string
  | UnknownProcess string "string \<times> string"

fun is_running :: "process_observation \<Rightarrow> bool" where
  "is_running (Running _ _ _) = True"
| "is_running _ = False"

fun is_stopped :: "process_observation \<Rightarrow> bool" where
  "is_stopped (Stopped _) = True"
| "is_stopped _ = False"

fun is_unknown :: "process_observation \<Rightarrow> bool" where
  "is_unknown (UnknownProcess _ _) = True"
| "is_unknown _ = False"

fun pid_of :: "process_observation \<Rightarrow> int" where
  "pid_of (Running pid _ _) = pid"
| "pid_of _ = 0"

fun identity_of :: "process_observation \<Rightarrow> string" where
  "identity_of (Running _ _ identity) = identity"
| "identity_of _ = []"

record registered_project =
  rp_localProjectId :: string
  rp_canonicalPath :: string
  rp_registeredPath :: string

record stop_target =
  st_canonicalPath :: string
  st_configDir :: string
  st_runtimeProjectId :: string
  st_pid :: int
  st_processIdentity :: string

record inspection =
  in_invalid :: bool
  in_process :: process_observation
  in_runtime :: "(string \<times> string) option"
  in_ready :: bool
  in_locksReleased :: bool

record lifecycle_result =
  lr_state :: string
  lr_process :: process_observation
  lr_diagnostic :: "(string \<times> string) option"

record 'w runtime_driver =
  dr_resolveManaged :: "string \<Rightarrow> 'w \<Rightarrow> registered_project result \<times> 'w"
  dr_inspect :: "registered_project \<Rightarrow> 'w \<Rightarrow> inspection result \<times> 'w"
  dr_start :: "registered_project \<Rightarrow> int \<Rightarrow> 'w \<Rightarrow> int option result \<times> 'w"
  dr_stop :: "registered_project \<Rightarrow> stop_target \<Rightarrow> int \<Rightarrow> 'w \<Rightarrow> string option result \<times> 'w"
  dr_targetExited :: "stop_target \<Rightarrow> 'w \<Rightarrow> bool result \<times> 'w"
  dr_now :: "'w \<Rightarrow> int"
  dr_delay :: "int \<Rightarrow> 'w \<Rightarrow> 'w"

record lifecycle_options =
  lo_timeoutMs :: "int option"
  lo_pollIntervalMs :: "int option"
  lo_sha :: "string \<Rightarrow> string"

text \<open>An awaited call: a rejection ends the operation.\<close>

definition await :: "'a result \<times> 'w \<Rightarrow> ('a \<Rightarrow> 'w \<Rightarrow> ('b result \<times> 'w) option) \<Rightarrow> ('b result \<times> 'w) option" where
  "await m f = (case m of (Inl e, w) \<Rightarrow> Some (Inl e, w) | (Inr x, w) \<Rightarrow> f x w)"

section \<open>Results\<close>

definition sameTarget :: "stop_target \<Rightarrow> stop_target \<Rightarrow> bool" where
  "sameTarget left right \<longleftrightarrow>
     st_canonicalPath left = st_canonicalPath right \<and> st_configDir left = st_configDir right \<and>
     st_runtimeProjectId left = st_runtimeProjectId right \<and> st_pid left = st_pid right \<and>
     st_processIdentity left = st_processIdentity right"

fun publicProcess :: "(string \<Rightarrow> string) \<Rightarrow> process_observation \<Rightarrow> process_observation" where
  "publicProcess sha (Running pid observedAt identity) = Running pid observedAt (sha identity)"
| "publicProcess sha process = process"

definition success :: "(string \<Rightarrow> string) \<Rightarrow> inspection \<Rightarrow> lifecycle_result" where
  "success sha current = \<lparr>lr_state = ''succeeded'', lr_process = publicProcess sha (in_process current), lr_diagnostic = None\<rparr>"

definition failure :: "(string \<Rightarrow> string) \<Rightarrow> inspection \<Rightarrow> string \<Rightarrow> string \<Rightarrow> lifecycle_result" where
  "failure sha current code message =
     \<lparr>lr_state = ''failed'', lr_process = publicProcess sha (in_process current), lr_diagnostic = Some (code, message)\<rparr>"

definition unresolved :: "(string \<Rightarrow> string) \<Rightarrow> inspection \<Rightarrow> lifecycle_result" where
  "unresolved sha current =
     \<lparr>lr_state = ''unknown'', lr_process = publicProcess sha (in_process current),
      lr_diagnostic = Some (''unresolved_command'',
        ''CLI effect could not be confirmed within the observation deadline; inspect locally without blind replay'')\<rparr>"

definition timeoutMs :: "lifecycle_options \<Rightarrow> int" where
  "timeoutMs options = max 1 (min (getOr (lo_timeoutMs options) executionObservationTimeoutMs) executionObservationTimeoutMs)"

definition deadline_of :: "lifecycle_options \<Rightarrow> 'w runtime_driver \<Rightarrow> int option \<Rightarrow> 'w \<Rightarrow> int" where
  "deadline_of options d observationDeadline w =
     (let own = dr_now d w + timeoutMs options
      in case observationDeadline of None \<Rightarrow> own | Some t \<Rightarrow> min own t)"

section \<open>Waiting for the effect\<close>

definition replaced :: "stop_target option \<Rightarrow> inspection \<Rightarrow> bool" where
  "replaced target current \<longleftrightarrow>
     (case target of None \<Rightarrow> False
      | Some t \<Rightarrow> is_running (in_process current) \<and>
          (pid_of (in_process current) \<noteq> st_pid t \<or> identity_of (in_process current) \<noteq> st_processIdentity t))"

definition pause :: "lifecycle_options \<Rightarrow> 'w runtime_driver \<Rightarrow> int \<Rightarrow> 'w \<Rightarrow> 'w" where
  "pause options d deadline w =
     dr_delay d (min (getOr (lo_pollIntervalMs options) 100) (max 0 (deadline - dr_now d w))) w"

text \<open>One pass of the loop of \<open>wait\<close>: its result, or the world in which the next one starts.\<close>

definition wait_pass ::
  "lifecycle_options \<Rightarrow> 'w runtime_driver \<Rightarrow> registered_project \<Rightarrow> (inspection \<Rightarrow> 'w \<Rightarrow> bool result \<times> 'w) \<Rightarrow>
     stop_target option \<Rightarrow> int \<Rightarrow> 'w \<Rightarrow> (lifecycle_result option result \<times> 'w) + 'w" where
  "wait_pass options d project completed target deadline w =
     (case dr_inspect d project w of
        (Inl e, w) \<Rightarrow> Inl (Inl e, w)
      | (Inr current, w) \<Rightarrow>
          if replaced target current
          then Inl (Inr (Some (failure (lo_sha options) current ''superseded_target''
                 ''Replacement process observed; stop cannot claim completion'')), w)
          else (case completed current w of
                  (Inl e, w) \<Rightarrow> Inl (Inl e, w)
                | (Inr finished, w) \<Rightarrow>
                    if finished then Inl (Inr (Some (success (lo_sha options) current)), w)
                    else if dr_now d (pause options d deadline w) < deadline then Inr (pause options d deadline w)
                    else Inl (Inr None, pause options d deadline w)))"

text \<open>A value \<open>None\<close> means that the loop does not return.\<close>

partial_function (option) wait_until ::
  "lifecycle_options \<Rightarrow> 'w runtime_driver \<Rightarrow> registered_project \<Rightarrow> (inspection \<Rightarrow> 'w \<Rightarrow> bool result \<times> 'w) \<Rightarrow>
     stop_target option \<Rightarrow> int \<Rightarrow> 'w \<Rightarrow> (lifecycle_result option result \<times> 'w) option" where
  "wait_until options d project completed target deadline w =
     (case wait_pass options d project completed target deadline w of
        Inl out \<Rightarrow> Some out
      | Inr w \<Rightarrow> wait_until options d project completed target deadline w)"

section \<open>Operations\<close>

definition after_start ::
  "lifecycle_options \<Rightarrow> 'w runtime_driver \<Rightarrow> registered_project \<Rightarrow> int option \<Rightarrow> lifecycle_result option \<Rightarrow> 'w \<Rightarrow>
     (lifecycle_result result \<times> 'w) option" where
  "after_start options d project exitCode waited w =
     (case waited of
        Some r \<Rightarrow> Some (Inr r, w)
      | None \<Rightarrow> await (dr_inspect d project w) (\<lambda>current w.
          Some (Inr (if exitCode = None \<or> exitCode = Some 0 then unresolved (lo_sha options) current
            else failure (lo_sha options) current ''project_invalid''
              ''CLI start failed; inspect workflow, credentials and overlap checks locally with project start''), w)))"

text \<open>What an inspection already decides about a start; \<open>None\<close> lets it go on.\<close>

definition refuse_start :: "(string \<Rightarrow> string) \<Rightarrow> inspection \<Rightarrow> lifecycle_result option" where
  "refuse_start sha observed =
     (if in_invalid observed
      then Some (failure sha observed ''project_invalid'' ''Workflow invalid; inspect the project locally before starting'')
      else if is_unknown (in_process observed)
      then Some (failure sha observed ''process_unverified'' ''Process ownership cannot be verified'')
      else if is_running (in_process observed) \<and> in_ready observed then Some (success sha observed)
      else if is_running (in_process observed) \<or> \<not> in_locksReleased observed
      then Some (failure sha observed ''process_unverified'' ''Project ownership or readiness is uncertain'')
      else None)"

definition start ::
  "lifecycle_options \<Rightarrow> 'w runtime_driver \<Rightarrow> string \<Rightarrow> int option \<Rightarrow> 'w \<Rightarrow> (lifecycle_result result \<times> 'w) option" where
  "start options d i observationDeadline w =
     (let deadline = deadline_of options d observationDeadline w
      in await (dr_resolveManaged d i w) (\<lambda>project w.
         await (dr_inspect d project w) (\<lambda>observed w.
         case refuse_start (lo_sha options) observed of
           Some r \<Rightarrow> Some (Inr r, w)
         | None \<Rightarrow>
             await (dr_resolveManaged d i w) (\<lambda>_ w.
             await (dr_start d project deadline w) (\<lambda>exitCode w.
             case wait_until options d project (\<lambda>c w. (Inr (is_running (in_process c) \<and> in_ready c), w)) None deadline w of
               None \<Rightarrow> None
             | Some out \<Rightarrow> await out (after_start options d project exitCode))))))"

definition observed_target :: "registered_project \<Rightarrow> inspection \<Rightarrow> string \<times> string \<Rightarrow> stop_target" where
  "observed_target project observed runtime =
     \<lparr>st_canonicalPath = rp_canonicalPath project, st_configDir = fst runtime, st_runtimeProjectId = snd runtime,
      st_pid = pid_of (in_process observed), st_processIdentity = identity_of (in_process observed)\<rparr>"

definition stop_completed :: "'w runtime_driver \<Rightarrow> stop_target \<Rightarrow> inspection \<Rightarrow> 'w \<Rightarrow> bool result \<times> 'w" where
  "stop_completed d target current w =
     (if is_stopped (in_process current) \<and> in_locksReleased current then dr_targetExited d target w else (Inr False, w))"

text \<open>The signal, and what follows it.\<close>

definition send_stop ::
  "lifecycle_options \<Rightarrow> 'w runtime_driver \<Rightarrow> registered_project \<Rightarrow> stop_target \<Rightarrow> int \<Rightarrow> 'w \<Rightarrow>
     (lifecycle_result result \<times> 'w) option" where
  "send_stop options d project target deadline w =
     await (dr_stop d project target deadline w) (\<lambda>outcome w.
       if outcome = Some ''superseded_target''
       then await (dr_inspect d project w) (\<lambda>current w.
              Some (Inr (failure (lo_sha options) current ''superseded_target''
                ''Expected target replaced; no replacement signal sent''), w))
       else if outcome \<noteq> Some ''signal_sent'' \<and> outcome \<noteq> Some ''already_stopped''
       then await (dr_inspect d project w) (\<lambda>current w. Some (Inr (unresolved (lo_sha options) current), w))
       else case wait_until options d project (stop_completed d target) (Some target) deadline w of
              None \<Rightarrow> None
            | Some out \<Rightarrow> await out (\<lambda>waited w.
                case waited of
                  Some r \<Rightarrow> Some (Inr r, w)
                | None \<Rightarrow> await (dr_inspect d project w) (\<lambda>current w. Some (Inr (unresolved (lo_sha options) current), w))))"

definition stop ::
  "lifecycle_options \<Rightarrow> 'w runtime_driver \<Rightarrow> (stop_target \<Rightarrow> 'w \<Rightarrow> unit result \<times> 'w) \<Rightarrow> string \<Rightarrow> stop_target option \<Rightarrow>
     int option \<Rightarrow> 'w \<Rightarrow> (lifecycle_result result \<times> 'w) option" where
  "stop options d persistStopTarget i expected observationDeadline w =
     (let deadline = deadline_of options d observationDeadline w; sha = lo_sha options
      in await (dr_resolveManaged d i w) (\<lambda>project w.
         await (dr_inspect d project w) (\<lambda>observed w.
         if (case expected of None \<Rightarrow> False | Some t \<Rightarrow> st_canonicalPath t \<noteq> rp_canonicalPath project)
         then Some (Inr (failure sha observed ''superseded_target'' ''Journaled folder does not match registration''), w)
         else if is_unknown (in_process observed)
         then Some (Inr (failure sha observed ''process_unverified'' ''Process ownership cannot be verified''), w)
         else if is_stopped (in_process observed)
         then (if \<not> in_locksReleased observed then Some (Inr (unresolved sha observed), w)
               else case expected of
                      None \<Rightarrow> Some (Inr (success sha observed), w)
                    | Some t \<Rightarrow> await (dr_targetExited d t w) (\<lambda>exited w.
                        Some (Inr (if exited then success sha observed else unresolved sha observed), w)))
         else case in_runtime observed of
                None \<Rightarrow> Some (Inr (failure sha observed ''process_unverified'' ''Runtime identity unavailable''), w)
              | Some runtime \<Rightarrow>
                  let current = observed_target project observed runtime; target = getOr expected current
                  in if \<not> sameTarget target current
                     then Some (Inr (failure sha observed ''superseded_target''
                            ''Journaled target has been replaced; no signal sent''), w)
                     else await (persistStopTarget target w) (\<lambda>_ w. send_stop options d project target deadline w))))"

text \<open>Recovery only looks.\<close>

definition reconcile ::
  "lifecycle_options \<Rightarrow> 'w runtime_driver \<Rightarrow> string \<Rightarrow> string \<Rightarrow> string \<Rightarrow> stop_target option \<Rightarrow> 'w \<Rightarrow>
     (lifecycle_result result \<times> 'w) option" where
  "reconcile options d i operation canonicalPath target w =
     (let sha = lo_sha options
      in await (dr_resolveManaged d i w) (\<lambda>project w.
         await (dr_inspect d project w) (\<lambda>current w.
         if canonicalPath \<noteq> rp_canonicalPath project
         then Some (Inr (failure sha current ''superseded_target''
                ''Registered folder no longer matches durable command''), w)
         else if operation = ''start''
         then Some (Inr (if is_running (in_process current) \<and> in_ready current then success sha current
                         else unresolved sha current), w)
         else case target of
                None \<Rightarrow> Some (Inr (unresolved sha current), w)
              | Some t \<Rightarrow>
                  if st_canonicalPath t \<noteq> canonicalPath
                  then Some (Inr (failure sha current ''superseded_target''
                         ''Stop target no longer matches durable folder''), w)
                  else if is_running (in_process current)
                  then Some (Inr (case in_runtime current of
                         Some runtime \<Rightarrow>
                           if \<not> sameTarget t ((observed_target project current runtime)\<lparr>st_canonicalPath := canonicalPath\<rparr>)
                           then failure sha current ''superseded_target''
                             ''Replacement process or runtime observed; recovery sent no signal''
                           else unresolved sha current
                       | None \<Rightarrow> unresolved sha current), w)
                  else if is_stopped (in_process current) \<and> in_locksReleased current
                  then await (dr_targetExited d t w) (\<lambda>exited w.
                         Some (Inr (if exited then success sha current else unresolved sha current), w))
                  else Some (Inr (unresolved sha current), w))))"

end
