(* ===== verification/AgentJournal.thy ===== *)
theory AgentJournal
  imports AgentLifecycle
begin

text \<open>
  \<open>packages/management-agent/src/journal.ts\<close>: the durable journal of an agent. A document of the wire
  is kept as it was parsed. The state in memory and the file are modelled apart: a change is checked,
  written to a temporary file and renamed; it may fail before the rename, or after it when the
  directory cannot be synchronized. A crash leaves the file.
\<close>

section \<open>Entries\<close>

record journal_entry =
  je_command :: json
  je_agentId :: string
  je_canonicalPath :: string
  je_claim :: "json option"
  je_effectStartedAt :: "string option"
  je_stopTarget :: "stop_target option"
  je_result :: "json option"
  je_acknowledged :: bool
  je_acknowledgedAt :: "string option"
  je_retiredAt :: "string option"

type_synonym journal = "journal_entry list"

definition entry_id :: "journal_entry \<Rightarrow> string" where
  "entry_id e = field (je_command e) [''commandId'']"

definition receipt_of :: "string \<Rightarrow> journal \<Rightarrow> journal_entry option" where
  "receipt_of i entries = find (\<lambda>e. entry_id e = i) entries"

text \<open>Session ownership may move; what was submitted may not.\<close>

definition immutable_fields :: "string list" where
  "immutable_fields =
     [''commandId'', ''projectId'', ''environmentId'', ''localProjectId'', ''operation'', ''actor'', ''idempotencyKey'',
      ''submittedAt'', ''expiresAt'']"

definition sameCommand :: "json \<Rightarrow> json \<Rightarrow> bool" where
  "sameCommand left right \<longleftrightarrow> list_all (\<lambda>k. field left [k] = field right [k]) immutable_fields"

definition parse_wire :: "schema \<Rightarrow> json option \<Rightarrow> json result" where
  "parse_wire s v = rbind (s v ''$'') (\<lambda>w. Inr (getOr w JNull))"

definition claimed :: "json option \<Rightarrow> bool" where
  "claimed claim \<longleftrightarrow> text_present (string_at claim [''claimedAt''])"

text \<open>\<open>claim.owner && claim.owner.agentId !== agentId\<close>\<close>

definition owned_elsewhere :: "json \<Rightarrow> string \<Rightarrow> bool" where
  "owned_elsewhere claim agent \<longleftrightarrow> present_at (Some claim) [''owner''] \<and> field claim [''owner'', ''agentId''] \<noteq> agent"

section \<open>What a journal file may hold\<close>

definition check_that :: "bool \<Rightarrow> string \<Rightarrow> unit result" where
  "check_that c message = (if c then Inr () else Inl message)"

definition check_claim :: "journal_entry \<Rightarrow> json \<Rightarrow> unit result" where
  "check_claim e command =
     (case je_claim e of
        None \<Rightarrow> Inr ()
      | Some c \<Rightarrow> rbind (parse_wire commandRecordSchema (Some c)) (\<lambda>claim.
          check_that (sameCommand command claim \<and> \<not> owned_elsewhere claim (je_agentId e)) ''Invalid journal claim''))"

definition check_effect :: "journal_entry \<Rightarrow> unit result" where
  "check_effect e =
     check_that (\<not> text_present (je_effectStartedAt e) \<or>
         claimed (je_claim e) \<and> date_parse (getOr (je_effectStartedAt e) []) \<noteq> None)
       ''Invalid durable effect marker''"

definition target_ok :: "journal_entry \<Rightarrow> stop_target \<Rightarrow> bool" where
  "target_ok e t \<longleftrightarrow>
     text_present (je_effectStartedAt e) \<and> field (je_command e) [''operation''] = ''stop'' \<and>
     st_canonicalPath t = je_canonicalPath e \<and> \<bar>st_pid t\<bar> \<le> max_safe \<and> 1 \<le> st_pid t \<and>
     st_processIdentity t \<noteq> [] \<and> st_configDir t \<noteq> [] \<and> st_runtimeProjectId t \<noteq> []"

definition check_target :: "journal_entry \<Rightarrow> unit result" where
  "check_target e =
     check_that (case je_stopTarget e of None \<Rightarrow> True | Some t \<Rightarrow> target_ok e t) ''Invalid journal stop target''"

definition result_for :: "string \<Rightarrow> journal_entry \<Rightarrow> json \<Rightarrow> bool" where
  "result_for i e result \<longleftrightarrow>
     field result [''kind''] = ''command'' \<and> field result [''commandId''] = i \<and> claimed (je_claim e)"

definition check_result :: "journal_entry \<Rightarrow> unit result" where
  "check_result e =
     (case je_result e of
        None \<Rightarrow> check_that (\<not> je_acknowledged e) ''Invalid result acknowledgment''
      | Some r \<Rightarrow> rbind (parse_wire agentResultSchema (Some r)) (\<lambda>result.
          check_that (result_for (entry_id e) e result) ''Invalid durable result''))"

definition check_entry :: "string list \<Rightarrow> journal_entry \<Rightarrow> unit result" where
  "check_entry ids e =
     rbind (parse_wire lifecycleCommandSchema (Some (je_command e))) (\<lambda>command.
     rbind (check_that (entry_id e \<notin> set ids \<and> starts_with ''/'' (je_canonicalPath e)) ''Invalid durable command identity'') (\<lambda>_.
     rbind (check_claim e command) (\<lambda>_. rbind (check_effect e) (\<lambda>_. rbind (check_target e) (\<lambda>_. check_result e)))))"

fun check_entries :: "string list \<Rightarrow> journal \<Rightarrow> unit result" where
  "check_entries ids [] = Inr ()"
| "check_entries ids (e # es) = rbind (check_entry ids e) (\<lambda>_. check_entries (entry_id e # ids) es)"

definition parseState :: "journal \<Rightarrow> journal result" where
  "parseState entries = rbind (check_entries [] entries) (\<lambda>_. Inr entries)"

section \<open>Memory and file\<close>

record journal_store =
  js_memory :: journal
  js_disk :: journal

datatype write_outcome = Written | Unwritten | Unsynced

fun write_journal :: "write_outcome \<Rightarrow> journal \<Rightarrow> journal_store \<Rightarrow> unit result \<times> journal_store" where
  "write_journal Written next s = (Inr (), \<lparr>js_memory = next, js_disk = next\<rparr>)"
| "write_journal Unwritten next s = (Inl ''EIO: write'', s)"
| "write_journal Unsynced next s = (Inl ''EIO: fsync'', s\<lparr>js_disk := next\<rparr>)"

definition update :: "write_outcome \<Rightarrow> (journal \<Rightarrow> journal result) \<Rightarrow> journal_store \<Rightarrow> unit result \<times> journal_store" where
  "update outcome action s =
     (case rbind (action (js_memory s)) parseState of
        Inl e \<Rightarrow> (Inl e, s)
      | Inr next \<Rightarrow> write_journal outcome next s)"

fun change_entry :: "string \<Rightarrow> (journal_entry \<Rightarrow> journal_entry result) \<Rightarrow> journal \<Rightarrow> journal result" where
  "change_entry i action [] = Inl ''Durable command receipt required''"
| "change_entry i action (e # es) =
     (if entry_id e = i then rbind (action e) (\<lambda>e. Inr (e # es))
      else rbind (change_entry i action es) (\<lambda>es. Inr (e # es)))"

definition change ::
  "write_outcome \<Rightarrow> string \<Rightarrow> (journal_entry \<Rightarrow> journal_entry result) \<Rightarrow> journal_store \<Rightarrow> unit result \<times> journal_store" where
  "change outcome i action = update outcome (change_entry i action)"

text \<open>Opening the journal reads the file; entries of another identity are refused.\<close>

definition load :: "(string \<times> string) option \<Rightarrow> journal \<Rightarrow> journal result" where
  "load identity entries =
     rbind (parseState entries) (\<lambda>entries.
       if list_ex (\<lambda>e. case identity of None \<Rightarrow> True
            | Some (environment, agent) \<Rightarrow> je_agentId e \<noteq> agent \<or> field (je_command e) [''environmentId''] \<noteq> environment) entries
       then Inl ''Journal belongs to another enrolled identity'' else Inr entries)"

section \<open>Operations\<close>

definition receipt :: "json \<Rightarrow> string \<Rightarrow> string \<Rightarrow> journal_entry" where
  "receipt command agent path =
     \<lparr>je_command = command, je_agentId = agent, je_canonicalPath = path, je_claim = None, je_effectStartedAt = None,
      je_stopTarget = None, je_result = None, je_acknowledged = False, je_acknowledgedAt = None, je_retiredAt = None\<rparr>"

definition add_receipt :: "json \<Rightarrow> string \<Rightarrow> string \<Rightarrow> journal \<Rightarrow> journal result" where
  "add_receipt command agent path entries =
     (case receipt_of (field command [''commandId'']) entries of
        Some e \<Rightarrow>
          if \<not> sameCommand (je_command e) command \<or> je_canonicalPath e \<noteq> path
          then Inl ''Command ID conflicts with durable receipt'' else Inr entries
      | None \<Rightarrow> Inr (entries @ [receipt command agent path]))"

text \<open>The project's folder, or why it is not managed, is the registry's answer.\<close>

definition receive ::
  "(string \<times> string) option \<Rightarrow> string result \<Rightarrow> write_outcome \<Rightarrow> json option \<Rightarrow> journal_store \<Rightarrow> unit result \<times> journal_store" where
  "receive identity resolved outcome command s =
     (case rbind (parse_wire lifecycleCommandSchema command) (\<lambda>parsed.
             case identity of
               None \<Rightarrow> Inl ''Command targets another enrolled identity''
             | Some (environment, agent) \<Rightarrow>
                 if field parsed [''environmentId''] \<noteq> environment then Inl ''Command targets another enrolled identity''
                 else Inr (parsed, agent)) of
        Inl e \<Rightarrow> (Inl e, s)
      | Inr (parsed, agent) \<Rightarrow>
          (case receipt_of (field parsed [''commandId'']) (js_memory s) of
             Some retained \<Rightarrow>
               (if sameCommand (je_command retained) parsed then Inr () else Inl ''Command ID conflicts with durable receipt'', s)
           | None \<Rightarrow>
               (case resolved of
                  Inl e \<Rightarrow> (Inl e, s)
                | Inr path \<Rightarrow> update outcome (add_receipt parsed agent path) s)))"

definition claim_entry :: "json \<Rightarrow> journal_entry \<Rightarrow> journal_entry result" where
  "claim_entry claim e =
     (if \<not> sameCommand (je_command e) claim \<or> owned_elsewhere claim (je_agentId e)
      then Inl ''Claim does not own durable command''
      else if claimed (je_claim e) \<and> string_at (je_claim e) [''claimedAt''] \<noteq> string_at (Some claim) [''claimedAt'']
      then Inl ''Claim replay changed original claim time''
      else Inr (e\<lparr>je_claim := Some claim\<rparr>))"

definition recordClaim :: "write_outcome \<Rightarrow> string \<Rightarrow> json \<Rightarrow> journal_store \<Rightarrow> unit result \<times> journal_store" where
  "recordClaim outcome i record s =
     (case parse_wire commandRecordSchema (Some record) of
        Inl e \<Rightarrow> (Inl e, s)
      | Inr claim \<Rightarrow> change outcome i (claim_entry claim) s)"

definition begun :: "journal_entry \<Rightarrow> bool" where
  "begun e \<longleftrightarrow> text_present (je_effectStartedAt e) \<or> je_result e \<noteq> None"

definition begin_entry :: "string \<Rightarrow> journal_entry \<Rightarrow> journal_entry result" where
  "begin_entry t e =
     (if begun e then Inr e
      else if string_at (je_claim e) [''state''] \<noteq> Some ''executing'' then Inl ''Executing claim required before effect''
      else Inr (e\<lparr>je_effectStartedAt := Some t\<rparr>))"

text \<open>Whether the effect starts now: no on every replay.\<close>

definition beginEffect :: "write_outcome \<Rightarrow> string \<Rightarrow> string \<Rightarrow> journal_store \<Rightarrow> bool result \<times> journal_store" where
  "beginEffect outcome t i s =
     (case change outcome i (begin_entry t) s of
        (Inl e, s') \<Rightarrow> (Inl e, s')
      | (Inr _, s') \<Rightarrow> (Inr (case receipt_of i (js_memory s) of None \<Rightarrow> False | Some e \<Rightarrow> \<not> begun e), s'))"

definition target_entry :: "stop_target \<Rightarrow> journal_entry \<Rightarrow> journal_entry result" where
  "target_entry target e =
     (if field (je_command e) [''operation''] \<noteq> ''stop'' \<or> \<not> text_present (je_effectStartedAt e) \<or>
         st_canonicalPath target \<noteq> je_canonicalPath e
      then Inl ''Stop target requires matching durable effect''
      else if je_stopTarget e \<noteq> None \<and> je_stopTarget e \<noteq> Some target
      then Inl ''Cannot replace journaled stop target''
      else Inr (e\<lparr>je_stopTarget := Some target\<rparr>))"

definition persistStopTarget :: "write_outcome \<Rightarrow> string \<Rightarrow> stop_target \<Rightarrow> journal_store \<Rightarrow> unit result \<times> journal_store" where
  "persistStopTarget outcome i target = change outcome i (target_entry target)"

definition result_state :: "journal_entry \<Rightarrow> string option" where
  "result_state e = string_at (je_result e) [''state'']"

text \<open>Only an unknown result gives way, to one that is known; it is then reported anew.\<close>

definition result_entry :: "string \<Rightarrow> json \<Rightarrow> journal_entry \<Rightarrow> journal_entry result" where
  "result_entry i result e =
     (if \<not> result_for i e result then Inl ''Result requires original durable claim''
      else if je_result e \<noteq> None \<and> je_result e \<noteq> Some result
      then (if result_state e \<noteq> Some ''unknown'' \<or> field result [''state''] = ''unknown''
            then Inl ''Cannot replace durable result''
            else Inr (e\<lparr>je_result := Some result, je_acknowledged := False, je_acknowledgedAt := None\<rparr>))
      else Inr (e\<lparr>je_result := Some result\<rparr>))"

definition saveResult :: "write_outcome \<Rightarrow> string \<Rightarrow> json \<Rightarrow> journal_store \<Rightarrow> unit result \<times> journal_store" where
  "saveResult outcome i value s =
     (case parse_wire agentResultSchema (Some value) of
        Inl e \<Rightarrow> (Inl e, s)
      | Inr result \<Rightarrow> change outcome i (result_entry i result) s)"

definition acknowledge_entry :: "string \<Rightarrow> journal_entry \<Rightarrow> journal_entry result" where
  "acknowledge_entry t e =
     (if je_result e = None then Inl ''Cannot acknowledge missing result''
      else Inr (e\<lparr>je_acknowledged := True, je_acknowledgedAt := orElse (je_acknowledgedAt e) (Some t)\<rparr>))"

definition acknowledge :: "write_outcome \<Rightarrow> string \<Rightarrow> string \<Rightarrow> journal_store \<Rightarrow> unit result \<times> journal_store" where
  "acknowledge outcome t i = change outcome i (acknowledge_entry t)"

definition retire :: "write_outcome \<Rightarrow> string \<Rightarrow> string \<Rightarrow> journal_store \<Rightarrow> unit result \<times> journal_store" where
  "retire outcome t i = change outcome i (\<lambda>e. Inr (e\<lparr>je_retiredAt := orElse (je_retiredAt e) (Some t)\<rparr>))"

text \<open>An entry goes when it was retired, or its known result acknowledged, long enough ago.\<close>

definition completed_at :: "journal_entry \<Rightarrow> string option" where
  "completed_at e =
     orElse (je_retiredAt e) (if result_state e \<noteq> Some ''unknown'' then je_acknowledgedAt e else None)"

definition outlived :: "int \<Rightarrow> journal_entry \<Rightarrow> bool" where
  "outlived now e \<longleftrightarrow>
     text_present (completed_at e) \<and>
     (case date_parse (getOr (completed_at e) []) of
        None \<Rightarrow> False | Some t \<Rightarrow> t \<le> now - journalRetentionAfterAcknowledgmentMs)"

definition prune_journal :: "write_outcome \<Rightarrow> int \<Rightarrow> journal_store \<Rightarrow> unit result \<times> journal_store" where
  "prune_journal outcome now = update outcome (\<lambda>entries. Inr (filter (\<lambda>e. \<not> outlived now e) entries))"

end
