(* ===== verification/AgentExecutor.thy ===== *)
theory AgentExecutor
  imports AgentJournal
begin

text \<open>
  \<open>packages/management-agent/src/executor.ts\<close>: the agent carries a command out. \<open>run\<close> awaits the
  server, the journal and the local lifecycle in turn; a phase is the position between two such
  awaits, and \<open>run_step\<close> continues it with the answer. Runs of different projects interleave;
  those of one project are serialized. A crash ends all runs and leaves the journal file.
\<close>

section \<open>Results on the wire\<close>

datatype agent_error =
    TransportError string bool
  | LocalError string

definition unknownOutcome :: "string \<Rightarrow> lifecycle_result" where
  "unknownOutcome t =
     (let diagnostic = (''unresolved_command'',
        ''Durable operation could not be verified; reconcile or explicitly close it without blind replay'')
      in \<lparr>lr_state = ''unknown'', lr_process = UnknownProcess t diagnostic, lr_diagnostic = Some diagnostic\<rparr>)"

definition wire_diagnostic :: "string \<times> string \<Rightarrow> json" where
  "wire_diagnostic d = JObj [(''code'', JStr (fst d)), (''message'', JStr (snd d))]"

fun process_evidence :: "process_observation \<Rightarrow> json" where
  "process_evidence (Running pid observedAt identity) =
     JObj [(''state'', JStr ''running''), (''observedAt'', JStr observedAt), (''pid'', JNum (of_int pid)), (''identity'', JStr identity)]"
| "process_evidence (UnknownProcess observedAt diagnostic) =
     JObj [(''state'', JStr ''unknown''), (''observedAt'', JStr observedAt), (''diagnostic'', wire_diagnostic diagnostic)]"
| "process_evidence (Stopped observedAt) = JObj [(''state'', JStr ''stopped''), (''observedAt'', JStr observedAt)]"

definition makeResult :: "string \<Rightarrow> string \<Rightarrow> lifecycle_result \<Rightarrow> json" where
  "makeResult t i outcome =
     JObj ([(''kind'', JStr ''command''), (''commandId'', JStr i), (''state'', JStr (lr_state outcome)), (''observedAt'', JStr t),
            (''evidence'', JObj [(''verified'', JBool (lr_state outcome \<noteq> ''unknown'')),
                                (''process'', process_evidence (lr_process outcome))])] @
           (case lr_diagnostic outcome of None \<Rightarrow> [] | Some d \<Rightarrow> [(''diagnostic'', wire_diagnostic d)]))"

text \<open>The envelope of a poll response with a request identifier of its own.\<close>

record wire_envelope =
  we_environmentId :: string
  we_sessionId :: string
  we_requestId :: string

definition correlate :: "json \<Rightarrow> wire_envelope \<Rightarrow> agent_error + unit" where
  "correlate response request =
     (if field response [''requestId''] \<noteq> we_requestId request \<or> field response [''environmentId''] \<noteq> we_environmentId request \<or>
         field response [''sessionId''] \<noteq> we_sessionId request
      then Inl (TransportError ''response_identity_mismatch'' False) else Inr ())"

section \<open>One run\<close>

text \<open>Where a run waits, with the entry and the claim it goes by.\<close>

datatype run_phase =
    Claiming journal_entry wire_envelope
  | Recording json
  | Retiring
  | Recovering journal_entry json
  | SavingRecovered json json
  | Beginning
  | Acting journal_entry
  | Inspecting
  | Saving json
  | Uploading json wire_envelope
  | Acknowledging
  | Finished
  | Failed agent_error

text \<open>
  What a run waited for: a response, an inspection or a lifecycle operation, a stop target to keep, a
  write. The clock is read when the answer is there.
\<close>

datatype answer =
    ClaimAnswer "agent_error + json"
  | Outcome int "lifecycle_result result"
  | Target int stop_target write_outcome
  | Wrote int write_outcome
  | UploadAnswer "agent_error + json"

definition is_unknown_result :: "journal_entry \<Rightarrow> bool" where
  "is_unknown_result e \<longleftrightarrow> result_state e = Some ''unknown''"

definition over :: "json \<Rightarrow> bool" where
  "over claim \<longleftrightarrow> field claim [''state''] = ''succeeded'' \<or> field claim [''state''] = ''failed''"

definition closed :: "json \<Rightarrow> bool" where
  "closed claim \<longleftrightarrow> present_at (Some claim) [''closure'']"

text \<open>Nothing is to be done for an entry whose known result is acknowledged, or that is retired.\<close>

definition settled_entry :: "journal_entry \<Rightarrow> bool" where
  "settled_entry e \<longleftrightarrow> je_acknowledged e \<and> \<not> is_unknown_result e \<or> text_present (je_retiredAt e)"

text \<open>The last part of \<open>run\<close>: the result, once there, is uploaded unless it was acknowledged.\<close>

definition upload_phase :: "wire_envelope \<Rightarrow> journal_entry \<Rightarrow> run_phase" where
  "upload_phase envelope e =
     (if je_acknowledged e then Finished
      else case je_result e of None \<Rightarrow> Failed (LocalError ''Cannot read properties of undefined'')
           | Some r \<Rightarrow> Uploading r envelope)"

text \<open>What to do about an entry under its claim.\<close>

definition choose_phase :: "wire_envelope \<Rightarrow> string \<Rightarrow> journal_entry \<Rightarrow> json \<Rightarrow> run_phase" where
  "choose_phase envelope t e claim =
     (if je_result e \<noteq> None then upload_phase envelope e
      else if over claim \<or> closed claim then Retiring
      else if text_present (je_effectStartedAt e) then Inspecting
      else if field claim [''state''] \<noteq> ''executing'' then Saving (makeResult t (entry_id e) (unknownOutcome t))
      else Beginning)"

definition after_claim :: "wire_envelope \<Rightarrow> string \<Rightarrow> journal_entry \<Rightarrow> json \<Rightarrow> run_phase" where
  "after_claim envelope t e claim =
     (if closed claim \<or> is_unknown_result e \<and> over claim then Retiring
      else if is_unknown_result e \<and> text_present (je_effectStartedAt e) then Recovering e claim
      else choose_phase envelope t e claim)"

text \<open>The answer to a claim.\<close>

definition claim_answer :: "journal_entry \<Rightarrow> wire_envelope \<Rightarrow> agent_error + json \<Rightarrow> run_phase" where
  "claim_answer e request response =
     (case rbind response (\<lambda>body.
             case parse_wire claimResponseSchema (Some body) of Inl m \<Rightarrow> Inl (LocalError m) | Inr claim \<Rightarrow> Inr claim) of
        Inl error \<Rightarrow>
          (case error of
             TransportError code _ \<Rightarrow>
               if code = ''command_expired'' \<and> \<not> claimed (je_claim e) \<and> \<not> text_present (je_effectStartedAt e)
               then Retiring else Failed error
           | LocalError _ \<Rightarrow> Failed error)
      | Inr claim \<Rightarrow>
          (case correlate claim request of
             Inl error \<Rightarrow> Failed error
           | Inr _ \<Rightarrow>
               let command = getOr (value_at (Some claim) [''command'']) JNull
               in if \<not> sameCommand (je_command e) command \<or> string_at (Some command) [''owner'', ''agentId''] \<noteq> Some (je_agentId e)
                  then Failed (TransportError ''claim_owner_conflict'' False)
                  else Recording command))"

text \<open>An inspection or an operation that throws proves nothing.\<close>

definition outcome_result :: "string \<Rightarrow> string \<Rightarrow> lifecycle_result result \<Rightarrow> json" where
  "outcome_result i t outcome = makeResult t i (case outcome of Inl _ \<Rightarrow> unknownOutcome t | Inr r \<Rightarrow> r)"

text \<open>A run continues with an entry of the journal that must be there.\<close>

definition with_entry :: "string \<Rightarrow> journal_store \<Rightarrow> (journal_entry \<Rightarrow> run_phase) \<Rightarrow> run_phase" where
  "with_entry i s f =
     (case receipt_of i (js_memory s) of None \<Rightarrow> Failed (LocalError ''Cannot read properties of undefined'') | Some e \<Rightarrow> f e)"

text \<open>What follows a write: the next phase, or the error it failed with.\<close>

definition written :: "'a result \<times> journal_store \<Rightarrow> ('a \<Rightarrow> journal_store \<Rightarrow> run_phase) \<Rightarrow> run_phase \<times> journal_store" where
  "written out next = (case out of (Inl e, s) \<Rightarrow> (Failed (LocalError e), s) | (Inr x, s) \<Rightarrow> (next x s, s))"

fun run_step :: "wire_envelope \<Rightarrow> string \<Rightarrow> run_phase \<Rightarrow> answer \<Rightarrow> journal_store \<Rightarrow> run_phase \<times> journal_store" where
  "run_step env i (Claiming e request) (ClaimAnswer response) s = (claim_answer e request response, s)"
| "run_step env i (Recording claim) (Wrote now outcome) s =
     written (recordClaim outcome i claim s) (\<lambda>_ s. with_entry i s (\<lambda>e. after_claim env (iso_text now) e claim))"
| "run_step env i Retiring (Wrote now outcome) s = written (retire outcome (iso_text now) i s) (\<lambda>_ s. Finished)"
| "run_step env i (Recovering e claim) (Outcome now outcome) s =
     (case outcome of
        Inr r \<Rightarrow>
          if lr_state r \<noteq> ''unknown'' then (SavingRecovered claim (makeResult (iso_text now) i r), s) else (choose_phase env (iso_text now) e claim, s)
      | Inl _ \<Rightarrow> (choose_phase env (iso_text now) e claim, s))"
| "run_step env i (SavingRecovered claim r) (Wrote now outcome) s =
     written (saveResult outcome i r s) (\<lambda>_ s. with_entry i s (\<lambda>e. choose_phase env (iso_text now) e claim))"
| "run_step env i Beginning (Wrote now outcome) s =
     written (beginEffect outcome (iso_text now) i s) (\<lambda>starts s. with_entry i s (\<lambda>e. if starts then Acting e else Inspecting))"
| "run_step env i (Acting e) (Target now target outcome) s =
     (case persistStopTarget outcome i target s of
        (Inl _, s) \<Rightarrow> (Saving (makeResult (iso_text now) i (unknownOutcome (iso_text now))), s)
      | (Inr _, s) \<Rightarrow> (Acting e, s))"
| "run_step env i (Acting e) (Outcome now outcome) s = (Saving (outcome_result i (iso_text now) outcome), s)"
| "run_step env i Inspecting (Outcome now outcome) s = (Saving (outcome_result i (iso_text now) outcome), s)"
| "run_step env i (Saving r) (Wrote now outcome) s =
     written (saveResult outcome i r s) (\<lambda>_ s. with_entry i s (upload_phase env))"
| "run_step env i (Uploading r request) (UploadAnswer response) s =
     (case rbind response (\<lambda>body.
             case parse_wire acknowledgmentSchema (Some body) of Inl m \<Rightarrow> Inl (LocalError m) | Inr a \<Rightarrow> correlate a request) of
        Inl error \<Rightarrow> (Failed error, s)
      | Inr _ \<Rightarrow> (Acknowledging, s))"
| "run_step env i Acknowledging (Wrote now outcome) s = written (acknowledge outcome (iso_text now) i s) (\<lambda>_ s. Finished)"
| "run_step env i phase answer s = (phase, s)"

section \<open>The agent\<close>

text \<open>What the agent does to the outside: an operation is invoked, a result uploaded, a receipt dropped.\<close>

datatype agent_event =
    Invoked string string
  | Reported string json
  | Dropped string

record command_run =
  ru_id :: string
  ru_project :: string
  ru_envelope :: wire_envelope
  ru_phase :: run_phase

record agent_world =
  aw_store :: journal_store
  aw_runs :: "command_run list"
  aw_log :: "agent_event list"

fun active :: "run_phase \<Rightarrow> bool" where
  "active Finished = False"
| "active (Failed e) = False"
| "active phase = True"

definition events_of :: "string \<Rightarrow> run_phase \<Rightarrow> run_phase \<Rightarrow> agent_event list" where
  "events_of i old phase =
     (case phase of
        Acting e \<Rightarrow> if old = Beginning then [Invoked i (field (je_command e) [''operation''])] else []
      | Uploading r request \<Rightarrow> if (case old of Uploading _ _ \<Rightarrow> True | _ \<Rightarrow> False) then [] else [Reported i r]
      | _ \<Rightarrow> [])"

text \<open>
  The inputs of the agent: a command is delivered, a run of a receipt starts with the envelopes of its
  two requests, a run gets its answer, the journal is pruned, the process crashes and starts again.
\<close>

datatype agent_input =
    Delivered "string result" write_outcome "json option"
  | Started string wire_envelope wire_envelope
  | Answered string answer
  | Pruned write_outcome int
  | Crashed

definition set_store :: "journal_store \<Rightarrow> agent_world \<Rightarrow> agent_world" where
  "set_store s w = w\<lparr>aw_store := s\<rparr>"

definition project_of :: "journal_entry \<Rightarrow> string" where
  "project_of e = field (je_command e) [''localProjectId'']"

definition start_run :: "string \<Rightarrow> wire_envelope \<Rightarrow> wire_envelope \<Rightarrow> agent_world \<Rightarrow> agent_world" where
  "start_run i request envelope w =
     (case receipt_of i (js_memory (aw_store w)) of
        None \<Rightarrow> w
      | Some e \<Rightarrow>
          if settled_entry e \<or> list_ex (\<lambda>r. ru_project r = project_of e) (aw_runs w) then w
          else w\<lparr>aw_runs := aw_runs w @ [\<lparr>ru_id = i, ru_project = project_of e, ru_envelope = envelope, ru_phase = Claiming e request\<rparr>]\<rparr>)"

definition continue_run :: "command_run \<Rightarrow> answer \<Rightarrow> agent_world \<Rightarrow> agent_world" where
  "continue_run r a w =
     (case run_step (ru_envelope r) (ru_id r) (ru_phase r) a (aw_store w) of
        (phase, s) \<Rightarrow>
          \<lparr>aw_store = s,
           aw_runs = filter (\<lambda>r. active (ru_phase r))
             (map (\<lambda>x. if ru_project x = ru_project r then x\<lparr>ru_phase := phase\<rparr> else x) (aw_runs w)),
           aw_log = aw_log w @ events_of (ru_id r) (ru_phase r) phase\<rparr>)"

text \<open>The receipts that a journal lost, in memory or on disk.\<close>

definition lost :: "journal \<Rightarrow> journal \<Rightarrow> string list" where
  "lost j j' = filter (\<lambda>i. receipt_of i j' = None) (map entry_id j)"

definition dropped :: "journal_store \<Rightarrow> journal_store \<Rightarrow> agent_event list" where
  "dropped s s' = map Dropped (lost (js_memory s) (js_memory s') @ lost (js_disk s) (js_disk s'))"

fun agent_step :: "(string \<times> string) option \<Rightarrow> agent_input \<Rightarrow> agent_world \<Rightarrow> agent_world" where
  "agent_step identity (Delivered resolved outcome command) w =
     set_store (snd (receive identity resolved outcome command (aw_store w))) w"
| "agent_step identity (Started i request envelope) w = start_run i request envelope w"
| "agent_step identity (Answered project a) w =
     (case find (\<lambda>r. ru_project r = project) (aw_runs w) of None \<Rightarrow> w | Some r \<Rightarrow> continue_run r a w)"
| "agent_step identity (Pruned outcome now) w =
     (let s = snd (prune_journal outcome now (aw_store w))
      in w\<lparr>aw_store := s, aw_log := aw_log w @ dropped (aw_store w) s\<rparr>)"
| "agent_step identity Crashed w =
     w\<lparr>aw_store := \<lparr>js_memory = js_disk (aw_store w), js_disk = js_disk (aw_store w)\<rparr>, aw_runs := []\<rparr>"

definition new_agent :: agent_world where
  "new_agent = \<lparr>aw_store = \<lparr>js_memory = [], js_disk = []\<rparr>, aw_runs = [], aw_log = []\<rparr>"

fun agent_run :: "(string \<times> string) option \<Rightarrow> agent_input list \<Rightarrow> agent_world \<Rightarrow> agent_world" where
  "agent_run identity [] w = w"
| "agent_run identity (x # xs) w = agent_run identity xs (agent_step identity x w)"

end
