(* ===== verification/AgentLaws.thy ===== *)
theory AgentLaws
  imports AgentExecutor
begin

text \<open>
  What the journal and the runs of the agent keep: an entry once marked stays marked, a known result
  stays, and the invariant of the agent over its inputs.
\<close>

section \<open>What a change keeps\<close>

definition known_result :: "json \<Rightarrow> bool" where
  "known_result r \<longleftrightarrow> string_at (Some r) [''state''] \<noteq> Some ''unknown''"

definition marked :: "journal_entry \<Rightarrow> bool" where
  "marked e \<longleftrightarrow> text_present (je_effectStartedAt e)"

definition entry_keeps :: "journal_entry \<Rightarrow> journal_entry \<Rightarrow> bool" where
  "entry_keeps e e' \<longleftrightarrow>
     je_command e' = je_command e \<and> je_agentId e' = je_agentId e \<and> je_canonicalPath e' = je_canonicalPath e \<and>
     (marked e \<longrightarrow> je_effectStartedAt e' = je_effectStartedAt e) \<and>
     (\<forall>r. je_result e = Some r \<and> known_result r \<longrightarrow> je_result e' = Some r)"

text \<open>Entries stay, and none appears but those that satisfy \<open>B\<close>.\<close>

definition journal_keeps :: "(journal_entry \<Rightarrow> bool) \<Rightarrow> journal \<Rightarrow> journal \<Rightarrow> bool" where
  "journal_keeps B j j' \<longleftrightarrow>
     (\<forall>i e. receipt_of i j = Some e \<longrightarrow> (\<exists>e'. receipt_of i j' = Some e' \<and> entry_keeps e e')) \<and>
     (\<forall>e' \<in> set j'. (\<exists>e \<in> set j. entry_keeps e e') \<or> B e')"

lemma entry_keeps_refl [simp]: "entry_keeps e e"
  by (simp add: entry_keeps_def)

lemma journal_keeps_refl [simp]: "journal_keeps B j j"
  unfolding journal_keeps_def by (meson entry_keeps_refl)

lemma entry_keeps_id: "entry_keeps e e' \<Longrightarrow> entry_id e' = entry_id e"
  by (simp add: entry_keeps_def entry_id_def)

lemma receipt_in: "receipt_of i j = Some e \<Longrightarrow> e \<in> set j"
  by (auto simp: receipt_of_def find_Some_iff)

lemma receipt_id: "receipt_of i j = Some e \<Longrightarrow> entry_id e = i"
  by (auto simp: receipt_of_def find_Some_iff)

lemma change_entry_Inr:
  assumes "change_entry i action j = Inr j'" and "\<And>e e'. action e = Inr e' \<Longrightarrow> entry_id e' = entry_id e"
  shows "\<exists>e e'. receipt_of i j = Some e \<and> action e = Inr e' \<and>
    (\<forall>k. receipt_of k j' = (if k = i then Some e' else receipt_of k j)) \<and> (\<forall>x \<in> set j'. x = e' \<or> x \<in> set j)"
  using assms(1)
proof (induction j arbitrary: j')
  case (Cons x j)
  show ?case
  proof (cases "entry_id x = i")
    case True
    with Cons.prems obtain x' where x': "action x = Inr x'" "j' = x' # j" by (auto simp: rbind_Inr_iff)
    with True assms(2) [OF x'(1)] show ?thesis by (auto simp: receipt_of_def)
  next
    case False
    with Cons.prems obtain js where "change_entry i action j = Inr js" "j' = x # js" by (auto simp: rbind_Inr_iff)
    with Cons.IH False show ?thesis by (fastforce simp: receipt_of_def)
  qed
qed simp

lemma change_entry_keeps:
  assumes "change_entry i action j = Inr j'" and "\<And>e e'. action e = Inr e' \<Longrightarrow> entry_keeps e e'"
  shows "journal_keeps B j j'"
proof -
  from change_entry_Inr [OF assms(1)] assms(2) entry_keeps_id obtain e e' where
    e: "receipt_of i j = Some e" "action e = Inr e'" "\<forall>k. receipt_of k j' = (if k = i then Some e' else receipt_of k j)"
    "\<forall>x \<in> set j'. x = e' \<or> x \<in> set j" by metis
  have "e \<in> set j" by (rule receipt_in [OF e(1)])
  with assms(2) e show ?thesis unfolding journal_keeps_def by (metis entry_keeps_refl option.inject)
qed

text \<open>The changes of an entry.\<close>

lemma entry_changes:
  "claim_entry claim e = Inr e' \<Longrightarrow> entry_keeps e e'" "begin_entry t e = Inr e' \<Longrightarrow> entry_keeps e e'"
  "target_entry target e = Inr e' \<Longrightarrow> entry_keeps e e'" "acknowledge_entry t e = Inr e' \<Longrightarrow> entry_keeps e e'"
  "result_entry i r e = Inr e' \<Longrightarrow> entry_keeps e e'"
  by (auto simp: claim_entry_def begin_entry_def target_entry_def acknowledge_entry_def result_entry_def entry_keeps_def
      marked_def begun_def known_result_def result_state_def split: if_splits)

section \<open>What a store keeps\<close>

definition store_moves :: "(journal_entry \<Rightarrow> bool) \<Rightarrow> journal_store \<Rightarrow> journal_store \<Rightarrow> bool" where
  "store_moves B s s' \<longleftrightarrow> s' = s \<or> (\<exists>j'. journal_keeps B (js_memory s) j' \<and> is_ok (parseState j') \<and>
     (js_memory s' = js_memory s \<or> js_memory s' = j') \<and> (js_disk s' = js_disk s \<or> js_disk s' = j'))"

lemma store_moves_refl [simp]: "store_moves B s s"
  by (simp add: store_moves_def)

lemma parseState_Inr: "parseState j = Inr j' \<Longrightarrow> j' = j"
  by (auto simp: parseState_def rbind_Inr_iff)

lemma update_cases:
  assumes "update outcome action s = (r, s')"
  obtains (refused) e where "r = Inl e" "s' = s"
    | (lost) e j' where "r = Inl e" "action (js_memory s) = Inr j'" "is_ok (parseState j')" "js_memory s' = js_memory s"
        "js_disk s' = js_disk s \<or> js_disk s' = j'"
    | (saved) j' where "r = Inr ()" "action (js_memory s) = Inr j'" "is_ok (parseState j')" "js_memory s' = j'" "js_disk s' = j'"
proof (cases "rbind (action (js_memory s)) parseState")
  case (Inl e)
  with assms refused show thesis by (auto simp: update_def)
next
  case (Inr j')
  from Inr obtain x where x: "action (js_memory s) = Inr x" "parseState x = Inr j'" unfolding rbind_Inr_iff by blast
  from parseState_Inr [OF x(2)] x have ok: "action (js_memory s) = Inr j'" "is_ok (parseState j')" by simp_all
  show thesis
  proof (cases outcome)
    case Written
    with Inr assms have "r = Inr ()" "s' = \<lparr>js_memory = j', js_disk = j'\<rparr>" by (simp_all add: update_def)
    with ok show thesis by (intro saved [of j']) simp_all
  next
    case Unwritten
    with Inr assms have "r = Inl ''EIO: write''" "s' = s" by (simp_all add: update_def)
    with ok show thesis by (intro lost [of _ j']) simp_all
  next
    case Unsynced
    with Inr assms have "r = Inl ''EIO: fsync''" "s' = s\<lparr>js_disk := j'\<rparr>" by (simp_all add: update_def)
    with ok show thesis by (intro lost [of _ j']) simp_all
  qed
qed

lemma update_moves:
  assumes "update outcome action s = (r, s')" and "\<And>j'. action (js_memory s) = Inr j' \<Longrightarrow> journal_keeps B (js_memory s) j'"
  shows "store_moves B s s'"
  using assms(1) by (cases rule: update_cases) (use assms(2) in \<open>auto simp: store_moves_def\<close>)

lemma update_saved: "update outcome action s = (Inr u, s') \<Longrightarrow> js_memory s' = js_disk s' \<and> action (js_memory s) = Inr (js_memory s')"
  by (erule update_cases) auto

lemma change_moves:
  assumes "change outcome i action s = (r, s')" and "\<And>e e'. action e = Inr e' \<Longrightarrow> entry_keeps e e'"
  shows "store_moves B s s'"
  using assms unfolding change_def by (blast intro: update_moves change_entry_keeps)

lemma operations_move:
  "recordClaim outcome i record s = (r, s') \<Longrightarrow> store_moves B s s'"
  "beginEffect outcome t i s = (b, s') \<Longrightarrow> store_moves B s s'"
  "persistStopTarget outcome i target s = (r, s') \<Longrightarrow> store_moves B s s'"
  "saveResult outcome i value s = (r, s') \<Longrightarrow> store_moves B s s'"
  "acknowledge outcome t i s = (r, s') \<Longrightarrow> store_moves B s s'"
  "retire outcome t i s = (r, s') \<Longrightarrow> store_moves B s s'"
  using entry_changes
  by (auto simp: entry_keeps_def [of _ "_\<lparr>je_retiredAt := _\<rparr>"] recordClaim_def beginEffect_def persistStopTarget_def saveResult_def acknowledge_def retire_def marked_def
      split: sum.splits prod.splits intro: change_moves elim!: change_moves)

lemma receipt_append: "receipt_of i (j @ [e]) = (case receipt_of i j of None \<Rightarrow> if entry_id e = i then Some e else None | Some x \<Rightarrow> Some x)"
  by (induction j) (auto simp: receipt_of_def)

text \<open>Whose entries a journal holds.\<close>

definition belongs :: "(string \<times> string) option \<Rightarrow> journal_entry \<Rightarrow> bool" where
  "belongs identity e =
     (case identity of None \<Rightarrow> False
      | Some (environment, agent) \<Rightarrow> je_agentId e = agent \<and> field (je_command e) [''environmentId''] = environment)"

lemma add_receipt_keeps: "add_receipt c a p j = Inr j' \<Longrightarrow> B (receipt c a p) \<Longrightarrow> journal_keeps B j j'"
proof -
  have "\<exists>e \<in> set j. entry_keeps e e'" if "e' \<in> set j" for e' using that by (meson entry_keeps_refl)
  then show "add_receipt c a p j = Inr j' \<Longrightarrow> B (receipt c a p) \<Longrightarrow> journal_keeps B j j'"
    by (auto simp: add_receipt_def journal_keeps_def receipt_append split: option.splits if_splits)
qed

lemma receive_moves:
  assumes "receive identity resolved outcome command s = (r, s')"
  shows "store_moves (belongs identity) s s'"
proof (cases "s' = s")
  case False
  with assms obtain environment agent where i: "identity = Some (environment, agent)"
    by (cases identity) (auto simp: receive_def rbind_Inr_iff split: sum.splits)
  with assms False obtain parsed where p: "parse_wire lifecycleCommandSchema command = Inr parsed"
    by (cases "parse_wire lifecycleCommandSchema command") (auto simp: receive_def)
  from assms False obtain path where up: "update outcome (add_receipt parsed agent path) s = (r, s')"
    and own: "identity = Some (field parsed [''environmentId''], agent)"
    by (auto simp: receive_def i p split: sum.splits option.splits if_splits)
  have "belongs identity (receipt parsed agent path)" by (simp add: own belongs_def receipt_def)
  with up show ?thesis by (blast intro: update_moves add_receipt_keeps)
qed simp

text \<open>A property of an entry that lasts holds in memory and on disk until the entry is dropped.\<close>

definition holds_in :: "string \<Rightarrow> (journal_entry \<Rightarrow> bool) \<Rightarrow> journal \<Rightarrow> bool" where
  "holds_in i P j \<longleftrightarrow> (\<exists>e. receipt_of i j = Some e \<and> P e)"

definition durable :: "string \<Rightarrow> (journal_entry \<Rightarrow> bool) \<Rightarrow> journal_store \<Rightarrow> bool" where
  "durable i P s \<longleftrightarrow> holds_in i P (js_memory s) \<and> holds_in i P (js_disk s)"

definition lasting :: "(journal_entry \<Rightarrow> bool) \<Rightarrow> bool" where
  "lasting P \<longleftrightarrow> (\<forall>e e'. entry_keeps e e' \<and> P e \<longrightarrow> P e')"

lemma lasting_facts: "lasting marked" "known_result r \<Longrightarrow> lasting (\<lambda>e. je_result e = Some r)"
  by (auto simp: lasting_def entry_keeps_def marked_def)

lemma keeps_holds: "journal_keeps B j j' \<Longrightarrow> lasting P \<Longrightarrow> holds_in i P j \<Longrightarrow> holds_in i P j'"
  unfolding holds_in_def journal_keeps_def lasting_def by blast

lemma moves_durable: "store_moves B s s' \<Longrightarrow> lasting P \<Longrightarrow> durable i P s \<Longrightarrow> durable i P s'"
  unfolding store_moves_def durable_def using keeps_holds by metis

lemma saved_durable: "js_memory s = js_disk s \<Longrightarrow> holds_in i P (js_memory s) \<Longrightarrow> durable i P s"
  by (simp add: durable_def)

section \<open>The log\<close>

definition armed :: "string \<Rightarrow> agent_event list \<Rightarrow> bool" where
  "armed i h = fold (\<lambda>x b. case x of Invoked k op \<Rightarrow> b \<or> k = i | Dropped k \<Rightarrow> b \<and> k \<noteq> i | Reported k r \<Rightarrow> b) h False"

definition reported :: "string \<Rightarrow> agent_event list \<Rightarrow> json option" where
  "reported i h = fold (\<lambda>x v. case x of Reported k r \<Rightarrow> if k = i \<and> known_result r then Some r else v
     | Dropped k \<Rightarrow> if k = i then None else v | Invoked k op \<Rightarrow> v) h None"

definition log_entry_ok :: "agent_event list \<Rightarrow> agent_event \<Rightarrow> bool" where
  "log_entry_ok h x \<longleftrightarrow>
     (case x of Invoked i op \<Rightarrow> \<not> armed i h
      | Reported i r \<Rightarrow> known_result r \<longrightarrow> reported i h = None \<or> reported i h = Some r
      | Dropped i \<Rightarrow> True)"

definition agent_log_ok :: "agent_event list \<Rightarrow> bool" where
  "agent_log_ok h \<longleftrightarrow> (\<forall>xs x ys. h = xs @ x # ys \<longrightarrow> log_entry_ok xs x)"

lemma armed_snoc [simp]:
  "armed i [] = False" "armed i (h @ [x]) = (case x of Invoked k op \<Rightarrow> armed i h \<or> k = i | Dropped k \<Rightarrow> armed i h \<and> k \<noteq> i | Reported k r \<Rightarrow> armed i h)"
  by (simp_all add: armed_def split: agent_event.split)

lemma reported_snoc [simp]:
  "reported i [] = None" "reported i (h @ [x]) = (case x of Reported k r \<Rightarrow> if k = i \<and> known_result r then Some r else reported i h
     | Dropped k \<Rightarrow> if k = i then None else reported i h | Invoked k op \<Rightarrow> reported i h)"
  by (simp_all add: reported_def split: agent_event.split)

lemma agent_log_ok_snoc [simp]: "agent_log_ok []" "agent_log_ok (h @ [x]) \<longleftrightarrow> agent_log_ok h \<and> log_entry_ok h x"
proof -
  show "agent_log_ok (h @ [x]) \<longleftrightarrow> agent_log_ok h \<and> log_entry_ok h x"
  proof (intro iffI conjI)
    assume ok: "agent_log_ok (h @ [x])"
    then show "log_entry_ok h x" unfolding agent_log_ok_def by blast
    show "agent_log_ok h" unfolding agent_log_ok_def
    proof (intro allI impI)
      fix xs y ys assume "h = xs @ y # ys"
      then have "h @ [x] = xs @ y # (ys @ [x])" by simp
      with ok show "log_entry_ok xs y" unfolding agent_log_ok_def by blast
    qed
  next
    assume ok: "agent_log_ok h \<and> log_entry_ok h x"
    show "agent_log_ok (h @ [x])" unfolding agent_log_ok_def
    proof (intro allI impI)
      fix xs y ys assume "h @ [x] = xs @ y # ys"
      then show "log_entry_ok xs y" using ok unfolding agent_log_ok_def by (cases ys rule: rev_cases) auto
    qed
  qed
qed (simp add: agent_log_ok_def)

lemma log_ok_drops: "agent_log_ok h \<Longrightarrow> agent_log_ok (h @ map Dropped is)"
  by (induction "is" rule: rev_induct) (simp_all add: log_entry_ok_def flip: append_assoc)

lemma armed_drops: "armed i (h @ map Dropped is) \<longleftrightarrow> armed i h \<and> i \<notin> set is"
  by (induction "is" rule: rev_induct) (auto simp flip: append_assoc)

lemma reported_drops: "reported i (h @ map Dropped is) = (if i \<in> set is then None else reported i h)"
  by (induction "is" rule: rev_induct) (auto simp flip: append_assoc)

text \<open>Between two invocations of a command its receipt was dropped, and so between two known results that differ.\<close>

lemma armed_stays: "armed i h \<Longrightarrow> Dropped i \<notin> set ys \<Longrightarrow> armed i (h @ ys)"
  by (induction ys rule: rev_induct) (auto split: agent_event.split simp flip: append_assoc)

lemma log_invoked_once:
  assumes "agent_log_ok h" "h = xs @ Invoked i op # ys @ Invoked i op' # zs"
  shows "Dropped i \<in> set ys"
proof (rule ccontr)
  assume "Dropped i \<notin> set ys"
  moreover have "armed i (xs @ [Invoked i op])" by simp
  ultimately have "armed i ((xs @ [Invoked i op]) @ ys)" by (rule armed_stays [rotated])
  moreover have "log_entry_ok ((xs @ [Invoked i op]) @ ys) (Invoked i op')" using assms unfolding agent_log_ok_def by simp
  ultimately show False by (simp add: log_entry_ok_def)
qed

lemma reported_stays:
  "agent_log_ok (h @ ys) \<Longrightarrow> reported i h = Some r \<Longrightarrow> Dropped i \<notin> set ys \<Longrightarrow> reported i (h @ ys) = Some r"
  by (induction ys rule: rev_induct) (auto simp: log_entry_ok_def split: agent_event.split simp flip: append_assoc)

lemma log_reported_once:
  assumes "agent_log_ok h" "h = xs @ Reported i r # ys @ Reported i r' # zs" "known_result r" "known_result r'" "Dropped i \<notin> set ys"
  shows "r' = r"
proof -
  have prefix: "agent_log_ok xs" if "agent_log_ok (xs @ zs)" for xs zs using that unfolding agent_log_ok_def by (metis append.assoc append_Cons)
  have "reported i (xs @ [Reported i r]) = Some r" using assms(3) by simp
  moreover have "agent_log_ok ((xs @ [Reported i r]) @ ys)" by (rule prefix [of _ "Reported i r' # zs"]) (use assms in simp)
  ultimately have "reported i ((xs @ [Reported i r]) @ ys) = Some r" using assms(5) reported_stays [of "xs @ [Reported i r]" ys i r] by blast
  moreover have "log_entry_ok ((xs @ [Reported i r]) @ ys) (Reported i r')" using assms(1,2) unfolding agent_log_ok_def by simp
  ultimately show ?thesis using assms(4) by (simp add: log_entry_ok_def)
qed

section \<open>Steps of a run\<close>

lemma change_saved: "change outcome i action s = (Inr u, s') \<Longrightarrow> js_memory s' = js_disk s'"
  unfolding change_def by (drule update_saved) simp

lemma operations_saved:
  "recordClaim outcome i record s = (Inr u, s') \<Longrightarrow> js_memory s' = js_disk s'"
  "beginEffect outcome t i s = (Inr b, s') \<Longrightarrow> js_memory s' = js_disk s'"
  "saveResult outcome i value s = (Inr u, s') \<Longrightarrow> js_memory s' = js_disk s'"
  by (auto simp: recordClaim_def beginEffect_def saveResult_def split: sum.splits prod.splits dest: change_saved)

lemma written_iff: "written out f = (ph, s') \<longleftrightarrow> (\<exists>e. out = (Inl e, s') \<and> ph = Failed (LocalError e)) \<or> (\<exists>x. out = (Inr x, s') \<and> ph = f x s')"
  by (auto simp: written_def split: sum.splits prod.splits)

lemma written_moves: "written out f = (ph, s') \<Longrightarrow> (\<And>r s'. out = (r, s') \<Longrightarrow> store_moves B s s') \<Longrightarrow> store_moves B s s'"
  unfolding written_iff by blast

lemma run_step_moves: "run_step env i ph a s = (ph', s') \<Longrightarrow> store_moves B s s'"
  by (cases "(env, i, ph, a, s)" rule: run_step.cases)
    (auto split: sum.splits prod.splits if_splits elim!: written_moves intro: operations_move)

definition phase_ok :: "run_phase \<Rightarrow> bool" where
  "phase_ok ph = (case ph of Recovering e claim \<Rightarrow> is_unknown_result e | _ \<Rightarrow> True)"

lemma upload_phase_cases: "upload_phase env e = Uploading r q \<Longrightarrow> je_result e = Some r"
  by (auto simp: upload_phase_def split: if_splits option.splits)

lemma choose_phase_uploads: "choose_phase env t e claim = Uploading r q \<Longrightarrow> je_result e = Some r"
  by (auto simp: choose_phase_def split: if_splits dest: upload_phase_cases)

lemma after_claim_uploads: "after_claim env t e claim = Uploading r q \<Longrightarrow> je_result e = Some r"
  by (auto simp: after_claim_def split: if_splits dest: choose_phase_uploads)

lemma with_entry_uploads:
  "with_entry i s f = Uploading r q \<Longrightarrow> (\<And>e. f e = Uploading r q \<Longrightarrow> je_result e = Some r) \<Longrightarrow>
   holds_in i (\<lambda>e. je_result e = Some r) (js_memory s)"
  by (auto simp: with_entry_def holds_in_def split: option.splits)

lemma phases_simple [simp]:
  "phase_ok (upload_phase env e)" "phase_ok (choose_phase env t e claim)" "phase_ok (after_claim env t e claim)"
  "phase_ok (claim_answer e request response)" "(\<And>e. phase_ok (f e)) \<Longrightarrow> phase_ok (with_entry i s f)"
  by (auto simp: phase_ok_def upload_phase_def choose_phase_def after_claim_def claim_answer_def with_entry_def Let_def
      split: option.splits sum.splits agent_error.splits)

lemma simple_phases [simp]:
  "phase_ok Finished" "phase_ok (Failed x)" "phase_ok (Saving r)" "phase_ok (SavingRecovered claim r)" "phase_ok (Acting e)"
  "phase_ok Inspecting" "phase_ok Acknowledging" "phase_ok (Claiming e q)" "phase_ok (Recording claim)" "phase_ok Retiring"
  "phase_ok Beginning" "phase_ok (Uploading r q)" "phase_ok (Recovering e claim) = is_unknown_result e"
  by (simp_all add: phase_ok_def)

lemma run_step_phase: "run_step env i ph a s = (ph', s') \<Longrightarrow> phase_ok ph \<Longrightarrow> phase_ok ph'"
  by (cases "(env, i, ph, a, s)" rule: run_step.cases) (auto simp: written_iff split: sum.splits prod.splits if_splits)

lemma saved_reports:
  assumes "js_memory s = js_disk s" "Uploading r q = with_entry i s f" "\<And>e. f e = Uploading r q \<Longrightarrow> je_result e = Some r"
  shows "durable i (\<lambda>e. je_result e = Some r) s"
  using saved_durable [OF assms(1)] with_entry_uploads [OF assms(2) [symmetric]] assms(3) by blast

text \<open>A known result that goes out is in the journal.\<close>

lemma run_step_reports:
  assumes "run_step env i ph a s = (Uploading r q, s')" "phase_ok ph" "known_result r" "\<And>x y. ph \<noteq> Uploading x y"
  shows "durable i (\<lambda>e. je_result e = Some r) s'"
proof -
  have no_claim: "claim_answer e request response \<noteq> Uploading r q" for e request response
    by (auto simp: claim_answer_def Let_def split: sum.splits agent_error.splits)
  have no_recovery: "choose_phase env t e claim \<noteq> Uploading r q" if "is_unknown_result e" for t e claim
  proof
    assume "choose_phase env t e claim = Uploading r q"
    from choose_phase_uploads [OF this] that assms(3) show False by (simp add: is_unknown_result_def result_state_def known_result_def)
  qed
  have later: "durable i (\<lambda>e. je_result e = Some r) s'"
    if "recordClaim outcome i c s = (Inr u, s') \<or> beginEffect outcome t i s = (Inr b, s') \<or> saveResult outcome i v s = (Inr u, s')"
      "Uploading r q = with_entry i s' f" "\<And>e. f e = Uploading r q \<Longrightarrow> je_result e = Some r"
    for outcome c t b v u f
    using saved_reports [OF _ that(2,3)] that(1) operations_saved by blast
  from assms(1,2,4) show ?thesis
    by (cases "(env, i, ph, a, s)" rule: run_step.cases)
      (auto simp: written_iff no_claim no_recovery split: sum.splits prod.splits if_splits
        elim!: later [rotated] dest: upload_phase_cases choose_phase_uploads after_claim_uploads)
qed

text \<open>An effect begins on an entry that had not begun, and is marked before it does.\<close>

definition executing_claim :: "journal_entry \<Rightarrow> bool" where
  "executing_claim e \<longleftrightarrow> (\<exists>c. je_claim e = Some c \<and> field c [''state''] = ''executing'' \<and> sameCommand (je_command e) c \<and>
     \<not> owned_elsewhere c (je_agentId e))"

lemma checked_claim:
  assumes "check_entries ids j = Inr u" "e \<in> set j" "je_claim e = Some c"
  shows "\<exists>command claim. parse_wire lifecycleCommandSchema (Some (je_command e)) = Inr command \<and>
     parse_wire commandRecordSchema (Some c) = Inr claim \<and> sameCommand command claim \<and> \<not> owned_elsewhere claim (je_agentId e)"
  using assms
proof (induction j arbitrary: ids)
  case (Cons x j)
  from Cons.prems(1) have x: "check_entry ids x = Inr ()" "check_entries (entry_id x # ids) j = Inr u" by (auto simp: rbind_Inr_iff)
  show ?case
  proof (cases "e = x")
    case True
    with x(1) Cons.prems(3) show ?thesis
      by (auto simp: check_entry_def check_claim_def check_that_def rbind_Inr_iff split: if_splits)
  next
    case False
    with Cons.IH [OF x(2)] Cons.prems(2,3) show ?thesis by simp
  qed
qed simp

lemma parsed_fields:
  assumes "faithful_schema s" "parse_wire s (Some v) = Inr w"
  shows "field w ks = field v ks" "present_at (Some w) ks = present_at (Some v) ks"
proof -
  from assms(2) obtain x where x: "s (Some v) ''$'' = Inr x" "w = getOr x JNull" by (auto simp: parse_wire_def rbind_Inr_iff)
  have "equivalent x (Some v)" using assms(1) x(1) by (auto simp: faithful_schema_def)
  then have e: "equivalent (Some w) (Some v)" using x(2) by (cases x) auto
  note reads = scalars_equivalent [OF e]
  show "field w ks = field v ks" by (simp add: field_def reads)
  show "present_at (Some w) ks = present_at (Some v) ks" by (simp add: reads)
qed

lemma begin_effect_starts:
  assumes "beginEffect outcome t i s = (Inr True, s')"
  shows "holds_in i (\<lambda>e. \<not> begun e) (js_memory s) \<and> js_memory s' = js_disk s' \<and>
    holds_in i (\<lambda>e. je_effectStartedAt e = Some t \<and> string_at (je_claim e) [''state''] = Some ''executing'') (js_memory s') \<and>
    is_ok (parseState (js_memory s'))"
proof -
  from assms obtain u where whole: "change outcome i (begin_entry t) s = (Inr u, s')"
    and old: "case receipt_of i (js_memory s) of None \<Rightarrow> False | Some e \<Rightarrow> \<not> begun e"
    by (auto simp: beginEffect_def split: sum.splits prod.splits)
  then obtain e where e: "receipt_of i (js_memory s) = Some e" "\<not> begun e" by (auto split: option.splits)
  from whole have up: "update outcome (change_entry i (begin_entry t)) s = (Inr u, s')" by (simp add: change_def)
  from update_saved [OF up] have saved: "js_memory s' = js_disk s'" "change_entry i (begin_entry t) (js_memory s) = Inr (js_memory s')" by simp_all
  from change_entry_Inr [OF saved(2)] entry_changes(2) entry_keeps_id e obtain e' where
    e': "begin_entry t e = Inr e'" "receipt_of i (js_memory s') = Some e'" by (metis option.inject)
  with e(2) have "je_effectStartedAt e' = Some t \<and> string_at (je_claim e') [''state''] = Some ''executing''"
    by (auto simp: begin_entry_def split: if_splits)
  moreover from up have "is_ok (parseState (js_memory s'))" by (cases rule: update_cases) auto
  ultimately show ?thesis using e e'(2) saved(1) unfolding holds_in_def by blast
qed

lemma run_step_invokes:
  assumes "run_step env i ph a s = (Acting e, s')" "ph = Beginning"
  obtains outcome now where "beginEffect outcome (iso_text now) i s = (Inr True, s')" "receipt_of i (js_memory s') = Some e"
proof -
  from assms obtain now outcome where a: "a = Wrote now outcome"
    and step: "written (beginEffect outcome (iso_text now) i s) (\<lambda>starts s. with_entry i s (\<lambda>e. if starts then Acting e else Inspecting)) = (Acting e, s')"
    by (cases a) auto
  from step obtain b where "beginEffect outcome (iso_text now) i s = (Inr b, s')" "Acting e = with_entry i s' (\<lambda>e. if b then Acting e else Inspecting)"
    by (auto simp: written_iff)
  then show thesis using that [of outcome now] by (cases b) (auto simp: with_entry_def split: option.splits)
qed

section \<open>The invariant of the agent\<close>

definition agent_ok :: "(string \<times> string) option \<Rightarrow> agent_world \<Rightarrow> bool" where
  "agent_ok identity w \<longleftrightarrow>
     agent_log_ok (aw_log w) \<and> (\<forall>i. armed i (aw_log w) \<longrightarrow> durable i marked (aw_store w)) \<and>
     (\<forall>i r. reported i (aw_log w) = Some r \<longrightarrow> known_result r \<and> durable i (\<lambda>e. je_result e = Some r) (aw_store w)) \<and>
     is_ok (parseState (js_memory (aw_store w))) \<and> is_ok (parseState (js_disk (aw_store w))) \<and>
     list_all (belongs identity) (js_memory (aw_store w)) \<and> list_all (belongs identity) (js_disk (aw_store w)) \<and>
     (\<forall>r \<in> set (aw_runs w). phase_ok (ru_phase r))"

lemma moves_belong:
  assumes "store_moves (belongs identity) s s'"
  shows "list_all (belongs identity) (js_memory s) \<and> list_all (belongs identity) (js_disk s) \<Longrightarrow>
    list_all (belongs identity) (js_memory s') \<and> list_all (belongs identity) (js_disk s')"
proof -
  have "belongs identity e'" if "entry_keeps e e'" "belongs identity e" for e e'
    using that by (auto simp: belongs_def entry_keeps_def split: option.splits)
  then have "list_all (belongs identity) j'" if "journal_keeps (belongs identity) j j'" "list_all (belongs identity) j" for j j'
    using that unfolding journal_keeps_def list_all_iff by blast
  with assms show "list_all (belongs identity) (js_memory s) \<and> list_all (belongs identity) (js_disk s) \<Longrightarrow>
    list_all (belongs identity) (js_memory s') \<and> list_all (belongs identity) (js_disk s')"
    unfolding store_moves_def by metis
qed

lemma moves_parse: "store_moves B s s' \<Longrightarrow> is_ok (parseState (js_memory s)) \<Longrightarrow> is_ok (parseState (js_disk s)) \<Longrightarrow>
    is_ok (parseState (js_memory s')) \<and> is_ok (parseState (js_disk s'))"
  by (auto simp: store_moves_def)

lemma moved_ok:
  assumes "agent_ok identity w" "store_moves (belongs identity) (aw_store w) s" "\<forall>r \<in> set runs. phase_ok (ru_phase r)"
  shows "agent_ok identity \<lparr>aw_store = s, aw_runs = runs, aw_log = aw_log w\<rparr>"
  using assms moves_durable [OF assms(2)] moves_parse [OF assms(2)] moves_belong [OF assms(2)] lasting_facts unfolding agent_ok_def by simp

lemma logged_ok:
  assumes ok: "agent_ok identity w" and x: "log_entry_ok (aw_log w) x"
    and invoked: "\<And>i op. x = Invoked i op \<Longrightarrow> durable i marked (aw_store w)"
    and told: "\<And>i r. x = Reported i r \<Longrightarrow> known_result r \<Longrightarrow> durable i (\<lambda>e. je_result e = Some r) (aw_store w)"
  shows "agent_ok identity (w\<lparr>aw_log := aw_log w @ [x]\<rparr>)"
proof (cases x)
  case (Invoked i op)
  with ok x invoked show ?thesis by (auto simp: agent_ok_def)
next
  case (Reported i r)
  with ok x told show ?thesis by (auto simp: agent_ok_def)
next
  case (Dropped i)
  with ok x show ?thesis by (auto simp: agent_ok_def split: if_splits)
qed

lemma iso_text_nonempty: "iso_text ms \<noteq> []"
  by (simp add: iso_text_def Let_def split: prod.splits)

lemma events_of_cases:
  "events_of i old ph = [] \<or>
   (\<exists>e. ph = Acting e \<and> old = Beginning \<and> events_of i old ph = [Invoked i (field (je_command e) [''operation''])]) \<or>
   (\<exists>x q. ph = Uploading x q \<and> (\<forall>y z. old \<noteq> Uploading y z) \<and> events_of i old ph = [Reported i x])"
  by (cases ph; cases old) (simp_all add: events_of_def)

lemma continue_run_ok:
  assumes ok: "agent_ok identity w" and r: "r \<in> set (aw_runs w)"
  shows "agent_ok identity (continue_run r a w)"
proof -
  obtain ph s where step: "run_step (ru_envelope r) (ru_id r) (ru_phase r) a (aw_store w) = (ph, s)" by force
  note moves = run_step_moves [OF step]
  from ok r have r_ok: "phase_ok (ru_phase r)" by (simp add: agent_ok_def)
  from run_step_phase [OF step this] have "phase_ok ph" .
  let ?runs = "filter (\<lambda>r. active (ru_phase r)) (map (\<lambda>x. if ru_project x = ru_project r then x\<lparr>ru_phase := ph\<rparr> else x) (aw_runs w))"
  let ?w = "\<lparr>aw_store = s, aw_runs = ?runs, aw_log = aw_log w\<rparr>"
  have "agent_ok identity ?w" by (rule moved_ok [OF ok moves]) (use ok \<open>phase_ok ph\<close> in \<open>auto simp: agent_ok_def\<close>)
  have step_is: "continue_run r a w = ?w\<lparr>aw_log := aw_log ?w @ events_of (ru_id r) (ru_phase r) ph\<rparr>"
    by (simp add: continue_run_def step)
  from events_of_cases [of "ru_id r" "ru_phase r" ph] consider "events_of (ru_id r) (ru_phase r) ph = []"
    | e where "ph = Acting e" "ru_phase r = Beginning" "events_of (ru_id r) (ru_phase r) ph = [Invoked (ru_id r) (field (je_command e) [''operation''])]"
    | x q where "ph = Uploading x q" "\<And>y z. ru_phase r \<noteq> Uploading y z" "events_of (ru_id r) (ru_phase r) ph = [Reported (ru_id r) x]"
    by blast
  then show ?thesis
  proof cases
    case 1
    with \<open>agent_ok identity ?w\<close> step_is show ?thesis by simp
  next
    case (2 e)
    from run_step_invokes [OF step [unfolded 2(1)] 2(2)] obtain outcome now where
      b: "beginEffect outcome (iso_text now) (ru_id r) (aw_store w) = (Inr True, s)" by blast
    note begins = begin_effect_starts [OF b]
    have "\<not> armed (ru_id r) (aw_log w)"
      using ok begins by (auto simp: agent_ok_def durable_def holds_in_def marked_def begun_def)
    moreover have "durable (ru_id r) marked s"
    proof (rule saved_durable)
      show "holds_in (ru_id r) marked (js_memory s)" using begins iso_text_nonempty by (auto simp: holds_in_def marked_def text_present_def)
    qed (use begins in simp)
    ultimately show ?thesis unfolding step_is 2(3) by (intro logged_ok [OF \<open>agent_ok identity ?w\<close>]) (simp_all add: log_entry_ok_def)
  next
    case (3 x q)
    have d: "known_result x \<Longrightarrow> durable (ru_id r) (\<lambda>e. je_result e = Some x) s"
      by (rule run_step_reports [OF step [unfolded 3(1)] r_ok _ 3(2)])
    have "known_result x \<longrightarrow> reported (ru_id r) (aw_log w) = None \<or> reported (ru_id r) (aw_log w) = Some x"
    proof (intro impI)
      assume x: "known_result x"
      show "reported (ru_id r) (aw_log w) = None \<or> reported (ru_id r) (aw_log w) = Some x"
      proof (cases "reported (ru_id r) (aw_log w)")
        case (Some y)
        with ok have "known_result y" "durable (ru_id r) (\<lambda>e. je_result e = Some y) (aw_store w)" by (auto simp: agent_ok_def)
        with moves_durable [OF moves lasting_facts(2)] have "durable (ru_id r) (\<lambda>e. je_result e = Some y) s" by blast
        with d [OF x] Some show ?thesis by (auto simp: durable_def holds_in_def)
      qed simp
    qed
    with d show ?thesis unfolding step_is 3(3) by (intro logged_ok [OF \<open>agent_ok identity ?w\<close>]) (simp_all add: log_entry_ok_def)
  qed
qed

text \<open>Pruning drops entries and leaves the others as they are.\<close>

lemma checked_distinct: "check_entries ids j = Inr u \<Longrightarrow> distinct (map entry_id j) \<and> set (map entry_id j) \<inter> set ids = {}"
proof (induction j arbitrary: ids)
  case (Cons x j)
  then have "entry_id x \<notin> set ids" "check_entries (entry_id x # ids) j = Inr u"
    by (auto simp: check_entry_def check_that_def rbind_Inr_iff split: if_splits)
  with Cons.IH show ?case by fastforce
qed simp

lemma parsed_distinct: "is_ok (parseState j) \<Longrightarrow> distinct (map entry_id j)"
  using checked_distinct by (auto simp: parseState_def is_ok_iff rbind_Inr_iff)

lemma receipt_filter:
  assumes "distinct (map entry_id j)" "receipt_of i (filter P j) = Some e'"
  shows "receipt_of i j = Some e'"
proof -
  from receipt_in [OF assms(2)] receipt_id [OF assms(2)] have "e' \<in> set j" "entry_id e' = i" by auto
  with assms(1) show ?thesis
    by (induction j) (auto simp: receipt_of_def image_iff)
qed

lemma pruned_holds:
  assumes "distinct (map entry_id j)" "holds_in i P j" "i \<notin> set (lost j (filter Q j))"
  shows "holds_in i P (filter Q j)"
proof -
  from assms(2) obtain e where e: "receipt_of i j = Some e" "P e" by (auto simp: holds_in_def)
  with receipt_in receipt_id have "i \<in> entry_id ` set j" by force
  with assms(3) obtain e' where e': "receipt_of i (filter Q j) = Some e'" by (auto simp: lost_def)
  from receipt_filter [OF assms(1) e'] e e' show ?thesis by (simp add: holds_in_def)
qed

lemma prune_ok:
  assumes ok: "agent_ok identity w"
  shows "agent_ok identity (agent_step identity (Pruned outcome now) w)"
proof -
  let ?s = "aw_store w"
  obtain r s where prune: "prune_journal outcome now ?s = (r, s)" by force
  let ?gone = "lost (js_memory ?s) (js_memory s) @ lost (js_disk ?s) (js_disk s)"
  let ?kept = "filter (\<lambda>e. \<not> outlived now e)"
  from ok have parsed: "is_ok (parseState (js_memory ?s))" "is_ok (parseState (js_disk ?s))" by (simp_all add: agent_ok_def)
  note d = parsed_distinct [OF parsed(1)]
  from prune have cases: "(js_memory s = js_memory ?s \<or> js_memory s = ?kept (js_memory ?s)) \<and>
      (js_disk s = js_disk ?s \<or> js_disk s = ?kept (js_memory ?s)) \<and> is_ok (parseState (js_memory s)) \<and> is_ok (parseState (js_disk s))"
    unfolding prune_journal_def by (cases rule: update_cases) (use parsed in auto)
  have keep: "durable i P s" if "durable i P ?s" "i \<notin> set ?gone" for i P
  proof -
    from that have m: "holds_in i P (js_memory ?s)" "holds_in i P (js_disk ?s)" by (simp_all add: durable_def)
    have kept: "holds_in i P (?kept (js_memory ?s))" if "receipt_of i (?kept (js_memory ?s)) \<noteq> None"
      using pruned_holds [OF d m(1)] that by (auto simp: lost_def)
    have "i \<in> set (map entry_id (js_memory ?s))" "i \<in> set (map entry_id (js_disk ?s))"
      using m receipt_in receipt_id by (force simp: holds_in_def)+
    with that(2) have "receipt_of i (js_memory s) \<noteq> None" "receipt_of i (js_disk s) \<noteq> None" by (auto simp: lost_def)
    with kept m cases show ?thesis unfolding durable_def by metis
  qed
  have step: "agent_step identity (Pruned outcome now) w = w\<lparr>aw_store := s, aw_log := aw_log w @ map Dropped ?gone\<rparr>"
    by (simp add: prune dropped_def Let_def)
  have "list_all (belongs identity) (js_memory s)" "list_all (belongs identity) (js_disk s)"
    using ok cases by (auto simp: agent_ok_def list_all_iff)
  with ok keep cases show ?thesis unfolding step agent_ok_def
    by (auto simp: log_ok_drops armed_drops reported_drops simp del: map_append set_append split: if_splits)
qed

lemma agent_step_ok: "agent_ok identity w \<Longrightarrow> agent_ok identity (agent_step identity x w)"
proof (cases x)
  case (Delivered resolved outcome command)
  assume ok: "agent_ok identity w"
  obtain r s where "receive identity resolved outcome command (aw_store w) = (r, s)" by force
  from moved_ok [OF ok receive_moves [OF this], of "aw_runs w"] this ok Delivered show ?thesis
    by (simp add: set_store_def agent_ok_def)
next
  case (Started i request envelope)
  assume "agent_ok identity w"
  with Started show ?thesis by (auto simp: start_run_def agent_ok_def split: option.splits)
next
  case (Answered project a)
  assume ok: "agent_ok identity w"
  with Answered continue_run_ok [OF ok] show ?thesis by (auto simp: find_Some_iff split: option.splits)
next
  case (Pruned outcome now)
  assume "agent_ok identity w"
  from prune_ok [OF this] Pruned show ?thesis by simp
next
  case Crashed
  assume "agent_ok identity w"
  with Crashed show ?thesis by (simp add: agent_ok_def durable_def)
qed

lemma agent_run_ok: "agent_ok identity w \<Longrightarrow> agent_ok identity (agent_run identity xs w)"
  by (induction xs arbitrary: w) (simp_all add: agent_step_ok)

lemma new_agent_ok: "agent_ok identity new_agent"
  by (simp add: agent_ok_def new_agent_def parseState_def)

end
