(* ===== verification/LifecycleLaws.thy ===== *)
theory LifecycleLaws
  imports AgentLifecycle
begin

text \<open>
  What the local lifecycle does to a project, stated over a driver that keeps a list of the calls it
  gets: starting, stopping and looking, and the return of the waiting loop.
\<close>

section \<open>A driver that keeps its calls\<close>

datatype driver_call =
    StartCall registered_project
  | StopCall registered_project stop_target
  | Kept stop_target
  | Seen inspection

definition kept_call :: "('a \<Rightarrow> driver_call list) \<Rightarrow> ('w \<Rightarrow> 'a result \<times> 'w) \<Rightarrow> 'w \<times> driver_call list \<Rightarrow> 'a result \<times> 'w \<times> driver_call list" where
  "kept_call call f = (\<lambda>(w, l). case f w of (Inl e, w') \<Rightarrow> (Inl e, w', l) | (Inr x, w') \<Rightarrow> (Inr x, w', l @ call x))"

definition kept_first :: "driver_call \<Rightarrow> ('w \<Rightarrow> 'a result \<times> 'w) \<Rightarrow> 'w \<times> driver_call list \<Rightarrow> 'a result \<times> 'w \<times> driver_call list" where
  "kept_first call f = (\<lambda>(w, l). case f w of (r, w') \<Rightarrow> (r, w', l @ [call]))"

definition recording :: "'w runtime_driver \<Rightarrow> ('w \<times> driver_call list) runtime_driver" where
  "recording d =
     \<lparr>dr_resolveManaged = (\<lambda>i. kept_call (\<lambda>_. []) (dr_resolveManaged d i)),
      dr_inspect = (\<lambda>p. kept_call (\<lambda>o'. [Seen o']) (dr_inspect d p)),
      dr_start = (\<lambda>p t. kept_first (StartCall p) (dr_start d p t)),
      dr_stop = (\<lambda>p g t. kept_first (StopCall p g) (dr_stop d p g t)),
      dr_targetExited = (\<lambda>g. kept_call (\<lambda>_. []) (dr_targetExited d g)),
      dr_now = (\<lambda>(w, l). dr_now d w), dr_delay = (\<lambda>ms (w, l). (dr_delay d ms w, l))\<rparr>"

definition recording_journal :: "(stop_target \<Rightarrow> 'w \<Rightarrow> unit result \<times> 'w) \<Rightarrow> stop_target \<Rightarrow> 'w \<times> driver_call list \<Rightarrow> unit result \<times> 'w \<times> driver_call list" where
  "recording_journal persist t = kept_call (\<lambda>_. [Kept t]) (persist t)"

lemma recording_calls:
  "dr_resolveManaged (recording d) i (w, l) = (r, w', l') \<Longrightarrow> l' = l"
  "dr_inspect (recording d) p (w, l) = (Inr seen, w', l') \<Longrightarrow> l' = l @ [Seen seen]"
  "dr_inspect (recording d) p (w, l) = (Inl e, w', l') \<Longrightarrow> l' = l"
  "dr_start (recording d) p t (w, l) = (x, w', l') \<Longrightarrow> l' = l @ [StartCall p]"
  "dr_stop (recording d) p g t (w, l) = (y, w', l') \<Longrightarrow> l' = l @ [StopCall p g]"
  "dr_targetExited (recording d) g (w, l) = (b, w', l') \<Longrightarrow> l' = l"
  "dr_delay (recording d) ms (w, l) = (w', l') \<Longrightarrow> l' = l"
  "recording_journal persist g (w, l) = (Inr u, w', l') \<Longrightarrow> l' = l @ [Kept g]"
  "recording_journal persist g (w, l) = (Inl e, w', l') \<Longrightarrow> l' = l"
  by (auto simp: recording_def kept_call_def kept_first_def recording_journal_def split: prod.splits sum.splits)

text \<open>Looking leaves only what was seen.\<close>

fun seen :: "driver_call \<Rightarrow> bool" where
  "seen (Seen o') = True"
| "seen c = False"

definition only_looks :: "driver_call list \<Rightarrow> driver_call list \<Rightarrow> bool" where
  "only_looks l l' \<longleftrightarrow> (\<exists>ks. l' = l @ ks \<and> list_all seen ks)"

lemma only_looks_simps [simp]: "only_looks l l" "only_looks l (l @ [Seen o'])"
  by (auto simp: only_looks_def)

lemma only_looks_trans: "only_looks l l1 \<Longrightarrow> only_looks l1 l2 \<Longrightarrow> only_looks l l2"
  by (auto simp: only_looks_def)

lemma await_Some:
  "await m f = Some (r, w') \<longleftrightarrow> (\<exists>e w. m = (Inl e, w) \<and> r = Inl e \<and> w' = w) \<or> (\<exists>x w. m = (Inr x, w) \<and> f x w = Some (r, w'))"
  by (auto simp: await_def split: prod.splits sum.splits)

section \<open>Waiting\<close>

definition quiet_test :: "(inspection \<Rightarrow> 'w \<times> driver_call list \<Rightarrow> bool result \<times> 'w \<times> driver_call list) \<Rightarrow> (inspection \<Rightarrow> bool) \<Rightarrow> bool" where
  "quiet_test completed C \<longleftrightarrow>
     (\<forall>o' w l r w' l'. completed o' (w, l) = (r, w', l') \<longrightarrow> l' = l \<and> (r = Inr True \<longrightarrow> C o'))"

text \<open>How a wait ends: a result that succeeds rests on the last thing seen.\<close>

definition rests_on :: "(inspection \<Rightarrow> bool) \<Rightarrow> lifecycle_result result \<Rightarrow> driver_call list \<Rightarrow> bool" where
  "rests_on C r l \<longleftrightarrow> (\<forall>x. r = Inr x \<and> lr_state x = ''succeeded'' \<longrightarrow> (\<exists>ks o'. l = ks @ [Seen o'] \<and> C o'))"

lemma wait_pass_looks:
  assumes q: "quiet_test completed C"
  shows "wait_pass options (recording d) project completed target deadline (w, l) = Inl (r, w', l') \<Longrightarrow>
      only_looks l l' \<and> (\<forall>x. r = Inr (Some x) \<longrightarrow> rests_on C (Inr x) l')"
    "wait_pass options (recording d) project completed target deadline (w, l) = Inr (w', l') \<Longrightarrow> only_looks l l'"
proof -
  have paused: "pause options (recording d) deadline (w, l) = (w', l') \<Longrightarrow> l' = l" for w l w' l'
    unfolding pause_def by (rule recording_calls(7))
  have failed: "rests_on C (Inr (failure sha o' c m)) l" for sha o' c m l by (simp add: rests_on_def failure_def)
  obtain i w1 l1 where look: "dr_inspect (recording d) project (w, l) = (i, w1, l1)" by (metis prod.collapse)
  have l1: "i = Inl e \<Longrightarrow> l1 = l" "i = Inr current \<Longrightarrow> l1 = l @ [Seen current]" for e current
    using look recording_calls(2,3) [of d project w l] by simp_all
  have test: "l2 = k \<and> (b = Inr True \<longrightarrow> C current)" if "completed current (v, k) = (b, w2, l2)" for current b w2 l2 v k
    using q that unfolding quiet_test_def by blast
  have good: "rests_on C (Inr (success sha current)) (l @ [Seen current])" if "C current" for sha current
    using that by (auto simp: rests_on_def)
  show "wait_pass options (recording d) project completed target deadline (w, l) = Inl (r, w', l') \<Longrightarrow>
      only_looks l l' \<and> (\<forall>x. r = Inr (Some x) \<longrightarrow> rests_on C (Inr x) l')"
    unfolding wait_pass_def look
    by (cases i; cases "completed (projr i) (w1, l1)")
      (auto simp: l1 failed dest!: test paused split: sum.splits if_splits intro: good)
  show "wait_pass options (recording d) project completed target deadline (w, l) = Inr (w', l') \<Longrightarrow> only_looks l l'"
    unfolding wait_pass_def look
    by (cases i; cases "completed (projr i) (w1, l1)") (auto simp: l1 dest!: test paused split: sum.splits if_splits)
qed

text \<open>What holds of every way the loop can end.\<close>

lemma wait_until_rule:
  assumes out: "wait_until options d project completed target deadline w = Some out"
    and ends: "\<And>w out. wait_pass options d project completed target deadline w = Inl out \<Longrightarrow> Q w out"
    and again: "\<And>w w' out. wait_pass options d project completed target deadline w = Inr w' \<Longrightarrow> Q w' out \<Longrightarrow> Q w out"
  shows "Q w out"
proof -
  let ?P = "\<lambda>o' d' p c t dl w out. o' = options \<and> d' = d \<and> p = project \<and> c = completed \<and> t = target \<and> dl = deadline \<longrightarrow> Q w out"
  have "?P options d project completed target deadline w out"
  proof (rule wait_until.raw_induct [of ?P, OF _ out])
    fix f o' d' p c t dl w out
    assume later: "\<And>o' d' p c t dl w out. f o' d' p c t dl w = Some out \<Longrightarrow> ?P o' d' p c t dl w out"
      and now: "(case wait_pass o' d' p c t dl w of Inl out \<Rightarrow> Some out | Inr w \<Rightarrow> f o' d' p c t dl w) = Some out"
    show "?P o' d' p c t dl w out"
    proof (intro impI, elim conjE)
      assume same: "o' = options" "d' = d" "p = project" "c = completed" "t = target" "dl = deadline"
      show "Q w out"
      proof (cases "wait_pass o' d' p c t dl w")
        case (Inl x)
        with now same ends show ?thesis by simp
      next
        case (Inr w')
        with now have "f o' d' p c t dl w' = Some out" by simp
        from later [OF this] same have "Q w' out" by simp
        with Inr same again show ?thesis by blast
      qed
    qed
  qed
  then show ?thesis by simp
qed

lemma wait_until_looks:
  assumes q: "quiet_test completed C"
    and out: "wait_until options (recording d) project completed target deadline (w, l) = Some (r, w', l')"
  shows "only_looks l l' \<and> (\<forall>x. r = Inr (Some x) \<longrightarrow> rests_on C (Inr x) l')"
proof -
  let ?Q = "\<lambda>w out. only_looks (snd w) (snd (snd out)) \<and> (\<forall>x. fst out = Inr (Some x) \<longrightarrow> rests_on C (Inr x) (snd (snd out)))"
  have "?Q (w, l) (r, w', l')"
  proof (rule wait_until_rule [OF out])
    fix w :: "'a \<times> driver_call list" and out
    assume "wait_pass options (recording d) project completed target deadline w = Inl out"
    then show "?Q w out" using wait_pass_looks(1) [OF q] by (cases w; cases out) simp
  next
    fix w w' :: "'a \<times> driver_call list" and out
    assume pass: "wait_pass options (recording d) project completed target deadline w = Inr w'" and rest: "?Q w' out"
    obtain v l v' l' where ws: "w = (v, l)" "w' = (v', l')" by (metis prod.collapse)
    from wait_pass_looks(2) [OF q] pass ws have "only_looks l l'" by blast
    with rest only_looks_trans show "?Q w out" by (auto simp: ws)
  qed
  then show ?thesis by simp
qed

section \<open>Starting, stopping, looking\<close>

definition ready_to_start :: "inspection \<Rightarrow> bool" where
  "ready_to_start o' \<longleftrightarrow> \<not> in_invalid o' \<and> is_stopped (in_process o') \<and> in_locksReleased o'"

definition runs_ready :: "inspection \<Rightarrow> bool" where
  "runs_ready o' \<longleftrightarrow> is_running (in_process o') \<and> in_ready o'"

definition fully_stopped :: "inspection \<Rightarrow> bool" where
  "fully_stopped o' \<longleftrightarrow> is_stopped (in_process o') \<and> in_locksReleased o'"

lemma refuse_start_None: "refuse_start sha o' = None \<Longrightarrow> ready_to_start o'"
  by (cases "in_process o'") (auto simp: refuse_start_def ready_to_start_def split: if_splits)

lemma refuse_start_Some: "refuse_start sha o' = Some x \<Longrightarrow> lr_state x = ''succeeded'' \<Longrightarrow> runs_ready o'"
  by (auto simp: refuse_start_def failure_def runs_ready_def split: if_splits)

lemma not_succeeded [simp]: "lr_state (unresolved sha o') \<noteq> ''succeeded''" "lr_state (failure sha o' c m) \<noteq> ''succeeded''"
  by (simp_all add: unresolved_def failure_def)

lemma start_waits: "quiet_test (\<lambda>c w. (Inr (is_running (in_process c) \<and> in_ready c), w)) runs_ready"
  by (simp add: quiet_test_def runs_ready_def)

lemma stop_waits: "quiet_test (stop_completed (recording d) target) fully_stopped"
  by (auto simp: quiet_test_def stop_completed_def fully_stopped_def dest: recording_calls(6) split: if_splits)

lemma rests_seen: "(lr_state x = ''succeeded'' \<Longrightarrow> C o') \<Longrightarrow> rests_on C (Inr x) (l @ [Seen o'])"
  by (auto simp: rests_on_def)

lemma rests_not: "(\<And>x. r = Inr x \<Longrightarrow> lr_state x \<noteq> ''succeeded'') \<Longrightarrow> rests_on C r l"
  by (auto simp: rests_on_def)

text \<open>A rule per call: what must hold where an operation ends.\<close>

definition ends :: "('a result \<Rightarrow> driver_call list \<Rightarrow> bool) \<Rightarrow> ('a result \<times> 'w \<times> driver_call list) option \<Rightarrow> bool" where
  "ends Q m \<longleftrightarrow> (\<forall>r w l. m = Some (r, w, l) \<longrightarrow> Q r l)"

lemma ends_Some: "Q r l \<Longrightarrow> ends Q (Some (r, w, l))"
  by (simp add: ends_def)

lemma ends_await: "(\<And>e w l. m = (Inl e, w, l) \<Longrightarrow> Q (Inl e) l) \<Longrightarrow> (\<And>x w l. m = (Inr x, w, l) \<Longrightarrow> ends Q (f x (w, l))) \<Longrightarrow> ends Q (await m f)"
  by (cases m) (auto simp: await_def ends_def split: sum.splits)

lemma ends_resolve: "(\<And>e. Q (Inl e) l) \<Longrightarrow> (\<And>x w. ends Q (f x (w, l))) \<Longrightarrow> ends Q (await (dr_resolveManaged (recording d) i (v, l)) f)"
  by (rule ends_await) (metis recording_calls(1))+

lemma ends_inspect:
  "(\<And>e. Q (Inl e) l) \<Longrightarrow> (\<And>o' w. ends Q (f o' (w, l @ [Seen o']))) \<Longrightarrow> ends Q (await (dr_inspect (recording d) p (v, l)) f)"
  by (rule ends_await) (metis recording_calls(2,3))+

lemma ends_start:
  "(\<And>e. Q (Inl e) (l @ [StartCall p])) \<Longrightarrow> (\<And>x w. ends Q (f x (w, l @ [StartCall p]))) \<Longrightarrow> ends Q (await (dr_start (recording d) p t (v, l)) f)"
  by (rule ends_await) (metis recording_calls(4))+

lemma ends_stop:
  "(\<And>e. Q (Inl e) (l @ [StopCall p g])) \<Longrightarrow> (\<And>x w. ends Q (f x (w, l @ [StopCall p g]))) \<Longrightarrow> ends Q (await (dr_stop (recording d) p g t (v, l)) f)"
  by (rule ends_await) (metis recording_calls(5))+

lemma ends_exited: "(\<And>e. Q (Inl e) l) \<Longrightarrow> (\<And>x w. ends Q (f x (w, l))) \<Longrightarrow> ends Q (await (dr_targetExited (recording d) g (v, l)) f)"
  by (rule ends_await) (metis recording_calls(6))+

lemma ends_persist:
  "(\<And>e. Q (Inl e) l) \<Longrightarrow> (\<And>x w. ends Q (f x (w, l @ [Kept g]))) \<Longrightarrow> ends Q (await (recording_journal persist g (v, l)) f)"
  by (rule ends_await) (metis recording_calls(8,9))+

lemma ends_wait:
  assumes "quiet_test completed C" "\<And>e l'. only_looks l l' \<Longrightarrow> Q (Inl e) l'"
    and "\<And>x w l'. only_looks l l' \<Longrightarrow> (\<And>y. x = Some y \<Longrightarrow> rests_on C (Inr y) l') \<Longrightarrow> ends Q (f x (w, l'))"
  shows "ends Q (case wait_until options (recording d) p completed target deadline (v, l) of None \<Rightarrow> None | Some out \<Rightarrow> await out f)"
proof (cases "wait_until options (recording d) p completed target deadline (v, l)")
  case (Some out)
  obtain r w l' where out: "out = (r, w, l')" by (metis prod.collapse)
  from wait_until_looks [OF assms(1) Some [unfolded out]] have "only_looks l l'" "\<And>y. r = Inr (Some y) \<Longrightarrow> rests_on C (Inr y) l'" by auto
  with assms(2,3) show ?thesis by (auto simp: Some out intro!: ends_await)
qed (simp add: ends_def)

text \<open>A start looks, and if what it sees is fit to start, starts once and only looks from then on.\<close>

definition start_trace :: "driver_call list \<Rightarrow> lifecycle_result result \<Rightarrow> driver_call list \<Rightarrow> bool" where
  "start_trace l r l' \<longleftrightarrow>
     (only_looks l l' \<or> (\<exists>o' p. ready_to_start o' \<and> only_looks (l @ [Seen o', StartCall p]) l')) \<and> rests_on runs_ready r l'"

lemma start_traces:
  "start_trace l (Inl e) l" "only_looks l l' \<Longrightarrow> start_trace l (Inl e) l'"
  "ready_to_start o' \<Longrightarrow> only_looks (l @ [Seen o', StartCall p]) l' \<Longrightarrow> rests_on runs_ready r l' \<Longrightarrow> start_trace l r l'"
  by (auto simp: start_trace_def intro: rests_not)

lemma started: "only_looks l l' \<Longrightarrow> only_looks l (l' @ [Seen o'])"
  using only_looks_trans only_looks_simps(2) by blast

lemma start_calls: "ends (start_trace l) (start options (recording d) i deadline (v, l))"
  unfolding start_def Let_def
proof (intro ends_resolve ends_inspect)
  fix p o' w
  show "ends (start_trace l) (case refuse_start (lo_sha options) o' of
       Some r \<Rightarrow> Some (Inr r, w, l @ [Seen o'])
     | None \<Rightarrow> await (dr_resolveManaged (recording d) i (w, l @ [Seen o'])) (\<lambda>_ w.
         await (dr_start (recording d) p (deadline_of options (recording d) deadline (v, l)) w) (\<lambda>exitCode w.
         case wait_until options (recording d) p (\<lambda>c w. (Inr (is_running (in_process c) \<and> in_ready c), w)) None
                (deadline_of options (recording d) deadline (v, l)) w of
           None \<Rightarrow> None | Some out \<Rightarrow> await out (after_start options (recording d) p exitCode))))"
  proof (cases "refuse_start (lo_sha options) o'")
    case (Some x)
    have "rests_on runs_ready (Inr x) (l @ [Seen o'])" by (rule rests_seen) (rule refuse_start_Some [OF Some])
    then show ?thesis by (simp add: Some ends_def start_trace_def)
  next
    case None
    from refuse_start_None [OF None] have ready: "ready_to_start o'" .
    have "ends (start_trace l) (after_start options (recording d) p code x (w, l'))"
      if l': "only_looks (l @ [Seen o', StartCall p]) l'" and x: "\<And>y. x = Some y \<Longrightarrow> rests_on runs_ready (Inr y) l'" for code x w l'
    proof (cases x)
      case None
      show ?thesis unfolding after_start_def None option.case
        by (intro ends_inspect ends_Some start_traces(3) [OF ready l'] start_traces(3) [OF ready started [OF l']] rests_not) auto
    next
      case (Some y)
      with x show ?thesis unfolding after_start_def by (auto intro!: ends_Some start_traces(3) [OF ready l'])
    qed
    note waits = this
    have seen: "start_trace l (Inl e) (l @ [Seen o'])" for e by (rule start_traces(2)) simp
    have sent: "start_trace l (Inl e) l'" if "only_looks (l @ [Seen o', StartCall p]) l'" for e l'
      by (rule start_traces(3) [OF ready that]) (simp add: rests_on_def)
    show ?thesis unfolding None option.case
      by (intro ends_resolve seen ends_start ends_wait [OF start_waits]) (auto intro: sent waits)
  qed
qed (auto intro: start_traces)

text \<open>A stop signals at most once, the target it has seen and kept just before.\<close>

definition seen_target :: "inspection \<Rightarrow> stop_target \<Rightarrow> bool" where
  "seen_target o' t \<longleftrightarrow> is_running (in_process o') \<and> in_runtime o' = Some (st_configDir t, st_runtimeProjectId t) \<and>
     pid_of (in_process o') = st_pid t \<and> identity_of (in_process o') = st_processIdentity t"

definition stop_trace :: "stop_target option \<Rightarrow> driver_call list \<Rightarrow> lifecycle_result result \<Rightarrow> driver_call list \<Rightarrow> bool" where
  "stop_trace expected l r l' \<longleftrightarrow>
     (only_looks l l' \<or>
      (\<exists>o' p t. seen_target o' t \<and> (expected = None \<or> expected = Some t) \<and> st_canonicalPath t = rp_canonicalPath p \<and>
         (l' = l @ [Seen o', Kept t] \<or> only_looks (l @ [Seen o', Kept t, StopCall p t]) l'))) \<and>
     rests_on fully_stopped r l'"

lemma stop_looks:
  "only_looks l l' \<Longrightarrow> rests_on fully_stopped r l' \<Longrightarrow> stop_trace expected l r l'"
  by (simp add: stop_trace_def)

lemma sameTarget_iff: "sameTarget t t' \<longleftrightarrow> t = t'"
  by (cases t; cases t') (auto simp: sameTarget_def)

lemma send_stop_calls:
  assumes o': "seen_target o' t" and expected: "expected = None \<or> expected = Some t" "st_canonicalPath t = rp_canonicalPath p"
  shows "ends (stop_trace expected l) (send_stop options (recording d) p t deadline (v, l @ [Seen o', Kept t]))"
proof -
  let ?l = "l @ [Seen o', Kept t, StopCall p t]"
  have sent: "stop_trace expected l r l'" if "only_looks ?l l'" "rests_on fully_stopped r l'" for r l'
    using that o' expected unfolding stop_trace_def by blast
  have failed: "stop_trace expected l (Inl e) l'" if "only_looks ?l l'" for e l'
    by (rule sent [OF that]) (simp add: rests_on_def)
  have looked: "stop_trace expected l (Inr x) (l' @ [Seen seen])" if "only_looks ?l l'" "lr_state x \<noteq> ''succeeded''" for x l' seen
    by (rule sent [OF started [OF that(1)]]) (use that(2) in \<open>simp add: rests_on_def\<close>)
  have waits: "ends (stop_trace expected l) (case x of Some r \<Rightarrow> Some (Inr r, w, l')
       | None \<Rightarrow> await (dr_inspect (recording d) p (w, l')) (\<lambda>current w. Some (Inr (unresolved (lo_sha options) current), w)))"
    if "only_looks ?l l'" "\<And>y. x = Some y \<Longrightarrow> rests_on fully_stopped (Inr y) l'" for x w l'
    using that by (cases x) (auto intro!: ends_Some ends_inspect sent failed looked)
  show ?thesis unfolding send_stop_def
  proof (rule ends_stop)
    fix e show "stop_trace expected l (Inl e) ((l @ [Seen o', Kept t]) @ [StopCall p t])" by (simp add: failed)
  next
    fix x :: "string option" and w
    have "ends (stop_trace expected l) (await (dr_inspect (recording d) p (w, ?l)) (\<lambda>current w. Some (Inr (f current), w)))"
      if "\<And>c. lr_state (f c) \<noteq> ''succeeded''" for f
      by (intro ends_inspect ends_Some failed looked) (simp_all add: that)
    moreover have "ends (stop_trace expected l)
        (case wait_until options (recording d) p (stop_completed (recording d) t) (Some t) deadline (w, ?l) of None \<Rightarrow> None
         | Some out \<Rightarrow> await out (\<lambda>waited w. case waited of Some r \<Rightarrow> Some (Inr r, w)
           | None \<Rightarrow> await (dr_inspect (recording d) p w) (\<lambda>current w. Some (Inr (unresolved (lo_sha options) current), w))))"
      by (rule ends_wait [OF stop_waits]) (erule failed, erule waits, blast)
    ultimately show "ends (stop_trace expected l)
        (if x = Some ''superseded_target''
         then await (dr_inspect (recording d) p (w, (l @ [Seen o', Kept t]) @ [StopCall p t])) (\<lambda>current w.
                Some (Inr (failure (lo_sha options) current ''superseded_target''
                  ''Expected target replaced; no replacement signal sent''), w))
         else if x \<noteq> Some ''signal_sent'' \<and> x \<noteq> Some ''already_stopped''
         then await (dr_inspect (recording d) p (w, (l @ [Seen o', Kept t]) @ [StopCall p t])) (\<lambda>current w.
                Some (Inr (unresolved (lo_sha options) current), w))
         else case wait_until options (recording d) p (stop_completed (recording d) t) (Some t) deadline
                  (w, (l @ [Seen o', Kept t]) @ [StopCall p t]) of None \<Rightarrow> None
              | Some out \<Rightarrow> await out (\<lambda>waited w. case waited of Some r \<Rightarrow> Some (Inr r, w)
                | None \<Rightarrow> await (dr_inspect (recording d) p w) (\<lambda>current w. Some (Inr (unresolved (lo_sha options) current), w))))"
      by simp
  qed
qed

lemma stop_seen: "(lr_state x = ''succeeded'' \<Longrightarrow> fully_stopped o') \<Longrightarrow> stop_trace expected l (Inr x) (l @ [Seen o'])"
  by (rule stop_looks) (auto intro: rests_seen)

lemma stop_failed: "stop_trace expected l (Inl e) (l @ [Seen o'])" "stop_trace expected l (Inl e) l"
  by (auto intro!: stop_looks simp: rests_on_def)

lemma stop_kept:
  assumes "seen_target o' t" "expected = None \<or> expected = Some t" "st_canonicalPath t = rp_canonicalPath p"
  shows "ends (stop_trace expected l)
     (await (recording_journal persist t (w, l @ [Seen o'])) (\<lambda>_ w. send_stop options (recording d) p t dl w))"
  by (rule ends_persist) (use stop_failed(1) send_stop_calls [OF assms] in simp_all)

lemma stop_calls: "ends (stop_trace expected l) (stop options (recording d) (recording_journal persist) i expected deadline (v, l))"
proof -
  have running: "is_running s" if "\<not> is_unknown s" "\<not> is_stopped s" for s using that by (cases s) auto
  show ?thesis unfolding stop_def Let_def
    by (intro ends_resolve ends_inspect stop_failed; cases expected)
      (auto intro!: ends_Some ends_exited stop_seen stop_failed stop_kept running
        simp: fully_stopped_def sameTarget_iff seen_target_def observed_target_def split: option.splits)
qed

text \<open>Recovery only looks.\<close>

lemma reconcile_calls: "ends (\<lambda>r l'. only_looks l l') (reconcile options (recording d) i operation path target (v, l))"
  unfolding reconcile_def Let_def
  by (intro ends_resolve ends_inspect) (auto intro!: ends_Some ends_exited split: option.splits)

section \<open>The loop returns\<close>

text \<open>The clock does not run backwards and a timer waits at least as long as it was set.\<close>

definition timed :: "'w runtime_driver \<Rightarrow> bool" where
  "timed d \<longleftrightarrow>
     (\<forall>p w. dr_now d w \<le> dr_now d (snd (dr_inspect d p w))) \<and> (\<forall>t w. dr_now d w \<le> dr_now d (snd (dr_targetExited d t w))) \<and>
     (\<forall>ms w. dr_now d w + ms \<le> dr_now d (dr_delay d ms w))"

lemma wait_pass_time:
  assumes d: "timed d" and test: "\<And>o' w. dr_now d w \<le> dr_now d (snd (completed o' w))"
    and poll: "\<And>k. lo_pollIntervalMs options = Some k \<Longrightarrow> 0 < k"
    and pass: "wait_pass options d p completed target deadline w = Inr w'"
  shows "dr_now d w < dr_now d w' \<and> dr_now d w' < deadline"
proof -
  from pass obtain o' w1 b w2 where look: "dr_inspect d p w = (Inr o', w1)" "completed o' w1 = (Inr b, w2)"
    and w': "w' = pause options d deadline w2" "dr_now d w' < deadline"
    unfolding wait_pass_def by (auto split: prod.splits sum.splits if_splits)
  have before: "dr_now d w \<le> dr_now d w2" using d test [of w1 o'] look by (metis order_trans snd_conv timed_def)
  have step: "dr_now d w2 + min (getOr (lo_pollIntervalMs options) 100) (max 0 (deadline - dr_now d w2)) \<le> dr_now d w'"
    using d unfolding timed_def w'(1) pause_def by blast
  have "0 < getOr (lo_pollIntervalMs options) 100" using poll by (cases "lo_pollIntervalMs options") auto
  with step w'(2) before show ?thesis by (auto simp: min_def max_def split: if_splits)
qed

lemma wait_until_returns:
  assumes d: "timed d" and test: "\<And>o' w. dr_now d w \<le> dr_now d (snd (completed o' w))"
    and poll: "\<And>k. lo_pollIntervalMs options = Some k \<Longrightarrow> 0 < k"
  shows "\<exists>out. wait_until options d p completed target deadline w = Some out"
proof (induction "nat (deadline - dr_now d w)" arbitrary: w rule: less_induct)
  case less
  show ?case
  proof (cases "wait_pass options d p completed target deadline w")
    case (Inl out)
    then show ?thesis by (subst wait_until.simps) simp
  next
    case (Inr w')
    from wait_pass_time [OF d test poll Inr] have "nat (deadline - dr_now d w') < nat (deadline - dr_now d w)" by linarith
    from less.hyps [OF this] Inr show ?thesis by (subst wait_until.simps) simp
  qed
qed

text \<open>Operations that return, put together from calls that do.\<close>

definition returns :: "'a option \<Rightarrow> bool" where
  "returns m \<longleftrightarrow> (\<exists>out. m = Some out)"

lemma returns_Some [simp]: "returns (Some out)"
  by (simp add: returns_def)

lemma returns_await: "(\<And>x w. returns (f x w)) \<Longrightarrow> returns (await m f)"
  by (cases m; cases "fst m") (auto simp: await_def)

lemma returns_case: "returns m \<Longrightarrow> (\<And>x. returns (f x)) \<Longrightarrow> returns (case m of None \<Rightarrow> None | Some x \<Rightarrow> f x)"
  by (auto simp: returns_def)

lemma returns_option: "returns a \<Longrightarrow> (\<And>x. returns (f x)) \<Longrightarrow> returns (case m of None \<Rightarrow> a | Some x \<Rightarrow> f x)"
  by (cases m) auto

lemma returns_if: "returns a \<Longrightarrow> returns b \<Longrightarrow> returns (if c then a else b)"
  by simp

lemmas returns_rules = returns_Some returns_await returns_if returns_option

lemma after_start_returns: "returns (after_start options d p code x w)"
  unfolding after_start_def by (intro returns_rules)

lemma send_stop_returns:
  assumes d: "timed d" and poll: "\<And>k. lo_pollIntervalMs options = Some k \<Longrightarrow> 0 < k"
  shows "returns (send_stop options d p t deadline w)"
proof -
  have test: "dr_now d w \<le> dr_now d (snd (stop_completed d t o' w))" for o' w
    using d by (simp add: stop_completed_def timed_def)
  have waits: "returns (wait_until options d p (stop_completed d t) (Some t) dl w)" for dl w
    unfolding returns_def by (rule wait_until_returns [OF d test poll])
  show ?thesis unfolding send_stop_def
    by (intro returns_rules returns_case [OF waits])
qed

lemma start_returns:
  assumes d: "timed d" and poll: "\<And>k. lo_pollIntervalMs options = Some k \<Longrightarrow> 0 < k"
  shows "returns (start options d i deadline w)"
proof -
  have waits: "returns (wait_until options d p (\<lambda>c w. (Inr (is_running (in_process c) \<and> in_ready c), w)) None dl w)" for p dl w
    unfolding returns_def by (rule wait_until_returns [OF d _ poll]) simp_all
  show ?thesis unfolding start_def Let_def
    by (intro returns_await returns_option returns_Some returns_case [OF waits] after_start_returns)
qed

lemma stop_returns:
  assumes d: "timed d" and poll: "\<And>k. lo_pollIntervalMs options = Some k \<Longrightarrow> 0 < k"
  shows "returns (stop options d persist i expected deadline w)"
  unfolding stop_def Let_def by (intro returns_rules send_stop_returns [OF d poll])

end
