(* ===== verification/AgentGuarantees.thy ===== *)
theory AgentGuarantees
  imports AgentLaws LifecycleLaws FleetSecurity
begin

text \<open>
  The properties of the management agent: what its journal and its runs guarantee across crashes and
  failing writes, and what the local lifecycle does to a project.
\<close>

section \<open>Samples\<close>

definition sample_owner :: "(string \<times> string) option" where
  "sample_owner = Some (sample_env, sample_agent)"

definition delivered_json :: json where
  "delivered_json = lifecycle_json (command_of_row waiting_row)"

definition claim_json :: "string \<Rightarrow> json" where
  "claim_json requestId =
     JObj [(''protocolVersion'', JNum 1), (''requestId'', JStr requestId), (''environmentId'', JStr sample_env),
       (''sessionId'', JStr sample_session), (''command'', command_json (command_of_row executing_row))]"

definition ack_json :: "string \<Rightarrow> json" where
  "ack_json requestId =
     JObj [(''protocolVersion'', JNum 1), (''requestId'', JStr requestId), (''environmentId'', JStr sample_env),
       (''sessionId'', JStr sample_session), (''receivedAt'', JStr ''2023-11-14T22:13:29.000Z'')]"

definition sample_request :: wire_envelope where
  "sample_request = \<lparr>we_environmentId = sample_env, we_sessionId = sample_session, we_requestId = sample_project\<rparr>"

definition sample_upload :: wire_envelope where
  "sample_upload = sample_request\<lparr>we_requestId := sample_agent\<rparr>"

definition sample_outcome :: lifecycle_result where
  "sample_outcome = \<lparr>lr_state = ''succeeded'', lr_process = Running 7 ''2023-11-14T22:13:25.000Z'' ''p'', lr_diagnostic = None\<rparr>"

text \<open>
  A command is delivered, claimed and begun; its result is saved and uploaded; the agent crashes before
  the acknowledgment arrives, starts again and uploads the result anew.
\<close>

definition claim_inputs :: "agent_input list" where
  "claim_inputs =
     [Delivered (Inr ''/srv/app'') Written (Some delivered_json), Started sample_command sample_request sample_upload,
      Answered ''app'' (ClaimAnswer (Inr (claim_json sample_project))), Answered ''app'' (Wrote sample_time Written)]"

definition begin_input :: agent_input where
  "begin_input = Answered ''app'' (Wrote (sample_time + 1000) Written)"

definition result_inputs :: "agent_input list" where
  "result_inputs =
     [Answered ''app'' (Outcome (sample_time + 4000) (Inr sample_outcome)), Answered ''app'' (Wrote (sample_time + 5000) Written)]"

definition again_inputs :: "agent_input list" where
  "again_inputs =
     [Crashed, Started sample_command sample_request sample_upload,
      Answered ''app'' (ClaimAnswer (Inr (claim_json sample_project))), Answered ''app'' (Wrote (sample_time + 6000) Written)]"

definition sample_wire_result :: json where
  "sample_wire_result = makeResult (iso_text (sample_time + 4000)) sample_command sample_outcome"

definition claimed_entry :: journal_entry where
  "claimed_entry = (receipt delivered_json sample_agent ''/srv/app'')\<lparr>je_claim := Some (command_json (command_of_row executing_row))\<rparr>"

definition begun_entry :: journal_entry where
  "begun_entry = claimed_entry\<lparr>je_effectStartedAt := Some ''2023-11-14T22:13:21.000Z''\<rparr>"

definition finished_entry :: journal_entry where
  "finished_entry = begun_entry\<lparr>je_result := Some sample_wire_result\<rparr>"

definition sample_world :: "journal_entry \<Rightarrow> run_phase \<Rightarrow> agent_event list \<Rightarrow> agent_world" where
  "sample_world e ph events =
     \<lparr>aw_store = \<lparr>js_memory = [e], js_disk = [e]\<rparr>,
      aw_runs = [\<lparr>ru_id = sample_command, ru_project = ''app'', ru_envelope = sample_upload, ru_phase = ph\<rparr>], aw_log = events\<rparr>"

definition began :: agent_event where
  "began = Invoked sample_command ''start''"

definition told :: agent_event where
  "told = Reported sample_command sample_wire_result"

lemma sample_claim_stage: "agent_run sample_owner claim_inputs new_agent = sample_world claimed_entry Beginning []"
  by code_simp

lemma sample_begin_stage:
  "agent_step sample_owner begin_input (sample_world claimed_entry Beginning []) = sample_world begun_entry (Acting begun_entry) [began]"
  by code_simp

lemma sample_result_stage:
  "agent_run sample_owner result_inputs (sample_world begun_entry (Acting begun_entry) [began]) =
     sample_world finished_entry (Uploading sample_wire_result sample_upload) [began, told]"
  by code_simp

lemma sample_again_stage:
  "agent_run sample_owner again_inputs (sample_world finished_entry (Uploading sample_wire_result sample_upload) [began, told]) =
     sample_world finished_entry (Uploading sample_wire_result sample_upload) [began, told, told]"
  by code_simp

lemma agent_run_append: "agent_run identity (xs @ ys) w = agent_run identity ys (agent_run identity xs w)"
  by (induction xs arbitrary: w) simp_all

definition sample_inputs :: "agent_input list" where
  "sample_inputs = claim_inputs @ begin_input # result_inputs @ again_inputs"

lemma sample_inputs_run:
  "agent_run sample_owner sample_inputs new_agent =
     sample_world finished_entry (Uploading sample_wire_result sample_upload) [began, told, told]"
  by (simp add: sample_inputs_def agent_run_append sample_claim_stage sample_begin_stage sample_result_stage sample_again_stage)

section \<open>Commands\<close>

lemma reachable_log: "agent_log_ok (aw_log (agent_run identity inputs new_agent))"
  using agent_run_ok [OF new_agent_ok] by (simp add: agent_ok_def)

text \<open>
  C19. The effect of a command is invoked at most once: whatever is delivered and answered, whichever
  writes fail and however often the agent crashes and starts again, the local operation of a
  command is called a second time only if its receipt was dropped from the journal in between.
\<close>

theorem effect_is_invoked_once:
  assumes "aw_log (agent_run identity inputs new_agent) = earlier @ window @ later" and "Dropped i \<notin> set window"
  shows "length (filter (\<lambda>x. case x of Invoked k op \<Rightarrow> k = i | _ \<Rightarrow> False) window) \<le> 1"
proof (rule ccontr)
  let ?P = "\<lambda>x. case x of Invoked k op \<Rightarrow> k = i | _ \<Rightarrow> False"
  assume many: "\<not> length (filter ?P window) \<le> 1"
  obtain x as ys where window: "window = as @ x # ys" and x: "?P x" and ys: "length (filter ?P ys) = length (filter ?P window) - 1"
  proof -
    from many obtain x xs where "filter ?P window = x # xs" by (cases "filter ?P window") auto
    then show thesis using that by (auto simp: filter_eq_Cons_iff)
  qed
  from many ys obtain y zs where "filter ?P ys = y # zs" by (cases "filter ?P ys") auto
  then obtain bs cs where "ys = bs @ y # cs" "?P y" by (auto simp: filter_eq_Cons_iff)
  with window x obtain op op' where "window = as @ Invoked i op # bs @ Invoked i op' # cs"
    by (auto split: agent_event.splits)
  moreover from this assms(1) log_invoked_once [OF reachable_log, of identity inputs "earlier @ as" i op bs op' "cs @ later"]
  have "Dropped i \<in> set bs" by simp
  ultimately show False using assms(2) by simp
qed

lemma effect_is_invoked_once_witness:
  "length (filter (\<lambda>x. case x of Invoked k op \<Rightarrow> k = sample_command | _ \<Rightarrow> False) (aw_log (agent_run sample_owner sample_inputs new_agent))) \<le> 1 \<and>
   Invoked sample_command ''start'' \<in> set (aw_log (agent_run sample_owner sample_inputs new_agent))"
  using effect_is_invoked_once [of sample_owner sample_inputs "[]" "[began, told, told]" "[]" sample_command]
  by (simp add: sample_inputs_run sample_world_def began_def told_def)

text \<open>
  C20. An effect needs a durable claim: when the operation of a command is invoked, the entry of the
  command, in memory and in the journal file, carries the marker of the effect and a claim for this
  very command that says it is executing and that no other agent owns.
\<close>

theorem effect_needs_a_durable_claim:
  assumes "w = agent_run identity inputs new_agent" and "w' = agent_step identity x w"
    and "aw_log w' = aw_log w @ [Invoked i op]"
  shows "\<exists>e. receipt_of i (js_memory (aw_store w')) = Some e \<and> receipt_of i (js_disk (aw_store w')) = Some e \<and>
    text_present (je_effectStartedAt e) \<and> executing_claim e \<and> op = field (je_command e) [''operation'']"
proof -
  have no_drop: "dropped s s' \<noteq> [Invoked i op]" for s s' by (auto simp: dropped_def append_eq_Cons_conv)
  obtain project a where x: "x = Answered project a"
    using assms(2,3) no_drop by (cases x) (auto simp: set_store_def start_run_def Let_def split: option.splits if_splits)
  obtain r where "find (\<lambda>r. ru_project r = project) (aw_runs w) = Some r"
    using assms(2,3) x by (cases "find (\<lambda>r. ru_project r = project) (aw_runs w)") simp_all
  with assms(2) x have w': "w' = continue_run r a w" by simp
  obtain ph s where step: "run_step (ru_envelope r) (ru_id r) (ru_phase r) a (aw_store w) = (ph, s)" by force
  with w' assms(3) have "events_of (ru_id r) (ru_phase r) ph = [Invoked i op]" and s: "aw_store w' = s" by (simp_all add: continue_run_def)
  with events_of_cases [of "ru_id r" "ru_phase r" ph] obtain e where
    ph: "ph = Acting e" "ru_phase r = Beginning" "i = ru_id r" "op = field (je_command e) [''operation'']" by auto
  from run_step_invokes [OF step [unfolded ph(1)] ph(2)] obtain outcome now where
    b: "beginEffect outcome (iso_text now) (ru_id r) (aw_store w) = (Inr True, s)" "receipt_of (ru_id r) (js_memory s) = Some e" by blast
  note begins = begin_effect_starts [OF b(1)]
  from begins b(2) have e: "je_effectStartedAt e = Some (iso_text now)" "string_at (je_claim e) [''state''] = Some ''executing''"
    by (auto simp: holds_in_def)
  then obtain c where c: "je_claim e = Some c" "field c [''state''] = ''executing''"
    by (cases "je_claim e") (auto simp: string_at_def field_def)
  from begins obtain u where "check_entries [] (js_memory s) = Inr u" by (auto simp: parseState_def is_ok_iff rbind_Inr_iff)
  from checked_claim [OF this receipt_in [OF b(2)] c(1)] obtain command claim where
    p: "parse_wire lifecycleCommandSchema (Some (je_command e)) = Inr command" "parse_wire commandRecordSchema (Some c) = Inr claim"
    and same: "sameCommand command claim" "\<not> owned_elsewhere claim (je_agentId e)" by blast
  have faithful: "faithful_schema lifecycleCommandSchema" "faithful_schema commandRecordSchema" by (simp_all add: schema_intros)
  note same_fields = parsed_fields [OF faithful(1) p(1)] parsed_fields [OF faithful(2) p(2)]
  have "executing_claim e" using c same by (simp add: executing_claim_def sameCommand_def owned_elsewhere_def same_fields)
  with e(1) b(2) begins ph s iso_text_nonempty show ?thesis by (simp add: text_present_def)
qed

lemma effect_needs_a_durable_claim_witness:
  "\<exists>e. receipt_of sample_command (js_disk (aw_store (sample_world begun_entry (Acting begun_entry) [began]))) = Some e \<and> executing_claim e"
proof -
  have "aw_log (sample_world begun_entry (Acting begun_entry) [began]) =
      aw_log (sample_world claimed_entry Beginning []) @ [Invoked sample_command ''start'']"
    by (simp add: sample_world_def began_def)
  from effect_needs_a_durable_claim [OF sample_claim_stage [symmetric] sample_begin_stage [symmetric] this] show ?thesis by blast
qed

text \<open>
  C21. A known result is final: of a command whose receipt is kept, two uploaded results that say it
  succeeded or failed are the same document, whatever crashed or failed between them.
\<close>

theorem known_result_is_final:
  assumes "aw_log (agent_run identity inputs new_agent) = as @ Reported i r # bs @ Reported i r' # cs"
    and "known_result r" and "known_result r'" and "Dropped i \<notin> set bs"
  shows "r' = r"
  by (rule log_reported_once [OF reachable_log assms])

lemma known_result_is_final_witness:
  "known_result sample_wire_result \<and> (\<exists>as bs r. [began, told, told] = as @ Reported sample_command sample_wire_result # bs @ [Reported sample_command r] \<and>
     r = sample_wire_result)"
proof -
  have known: "known_result sample_wire_result" by code_simp
  have log: "aw_log (agent_run sample_owner sample_inputs new_agent) =
      [began] @ Reported sample_command sample_wire_result # [] @ Reported sample_command sample_wire_result # []"
    by (simp add: sample_inputs_run sample_world_def told_def)
  from known_result_is_final [OF log known known] known show ?thesis
    by (intro conjI exI [of _ "[began]"] exI [of _ "[]"] exI [of _ sample_wire_result]) (simp_all add: told_def)
qed

text \<open>
  C22. A crash never locks the agent out: at any moment the journal file is one that opening the
  journal under the enrolled identity accepts, and with it the state from which the agent goes on.
\<close>

theorem journal_survives_a_crash:
  assumes "w = agent_run (Some (environment, agent)) inputs new_agent"
  shows "load (Some (environment, agent)) (js_disk (aw_store w)) = Inr (js_memory (aw_store (agent_step identity Crashed w)))"
proof -
  from agent_run_ok [OF new_agent_ok, of "Some (environment, agent)" inputs] assms have
    disk: "is_ok (parseState (js_disk (aw_store w)))" "list_all (belongs (Some (environment, agent))) (js_disk (aw_store w))"
    by (simp_all add: agent_ok_def)
  then have "parseState (js_disk (aw_store w)) = Inr (js_disk (aw_store w))" using parseState_Inr by (auto simp: is_ok_iff)
  moreover have "\<not> list_ex (\<lambda>e. je_agentId e \<noteq> agent \<or> field (je_command e) [''environmentId''] \<noteq> environment) (js_disk (aw_store w))"
    using disk(2) by (auto simp: belongs_def list_ex_iff list_all_iff)
  ultimately show ?thesis by (simp add: load_def)
qed

lemma journal_survives_a_crash_witness: "load sample_owner [finished_entry] = Inr [finished_entry]"
  using journal_survives_a_crash [OF refl, of sample_env sample_agent sample_inputs]
  by (simp add: sample_owner_def [symmetric] sample_inputs_run) (simp add: sample_world_def)

section \<open>Local projects\<close>

text \<open>
  C24. A start touches a project only when it is safe to: the driver is told to start at most once,
  directly after an inspection that found a valid workflow, no process and released locks, and never
  to stop anything; a start that succeeds has last seen the process running and ready.
\<close>

theorem start_needs_a_stopped_project:
  assumes "start options (recording d) i deadline (w, []) = Some (r, w', calls)"
  shows "(list_all seen calls \<or>
      (\<exists>o' p ks. calls = Seen o' # StartCall p # ks \<and> list_all seen ks \<and>
         \<not> in_invalid o' \<and> is_stopped (in_process o') \<and> in_locksReleased o')) \<and>
    (\<forall>x. r = Inr x \<and> lr_state x = ''succeeded'' \<longrightarrow>
      (\<exists>ks o'. calls = ks @ [Seen o'] \<and> is_running (in_process o') \<and> in_ready o'))"
  using start_calls [of "[]" options d i deadline w] assms
  by (auto simp: ends_def start_trace_def only_looks_def rests_on_def ready_to_start_def runs_ready_def)

text \<open>
  C25. A stop signals only what it has seen and kept: the driver is told to stop at most once, and then a
  target that the inspection just before it showed running, that is the journaled one when there is
  one, and that the journal has kept; a stop that succeeds has last seen no process and no locks.
\<close>

theorem stop_signals_the_kept_target:
  assumes "stop options (recording d) (recording_journal persist) i expected deadline (w, []) = Some (r, w', calls)"
  shows "(list_all seen calls \<or>
      (\<exists>o' p t ks. (calls = [Seen o', Kept t] \<or> calls = Seen o' # Kept t # StopCall p t # ks \<and> list_all seen ks) \<and>
         seen_target o' t \<and> (expected = None \<or> expected = Some t) \<and> st_canonicalPath t = rp_canonicalPath p)) \<and>
    (\<forall>x. r = Inr x \<and> lr_state x = ''succeeded'' \<longrightarrow>
      (\<exists>ks o'. calls = ks @ [Seen o'] \<and> is_stopped (in_process o') \<and> in_locksReleased o'))"
proof -
  have t: "stop_trace expected [] r calls"
    using stop_calls [of expected "[]" options d persist i deadline w] assms unfolding ends_def by blast
  then have success: "rests_on fully_stopped r calls" by (simp add: stop_trace_def)
  from t consider "list_all seen calls"
    | o' p t ks where "seen_target o' t" "expected = None \<or> expected = Some t" "st_canonicalPath t = rp_canonicalPath p"
        "calls = [Seen o', Kept t] \<or> calls = Seen o' # Kept t # StopCall p t # ks \<and> list_all seen ks"
    unfolding stop_trace_def only_looks_def by auto
  then have "list_all seen calls \<or>
      (\<exists>o' p t ks. (calls = [Seen o', Kept t] \<or> calls = Seen o' # Kept t # StopCall p t # ks \<and> list_all seen ks) \<and>
         seen_target o' t \<and> (expected = None \<or> expected = Some t) \<and> st_canonicalPath t = rp_canonicalPath p)"
    by cases blast+
  with success show ?thesis by (simp add: rests_on_def fully_stopped_def)
qed

text \<open>
  C26. Local operations end: with a clock that does not run backwards, timers that wait at least as long
  as they are set, and a positive poll interval, a start and a stop return, whatever the driver
  observes.
\<close>

theorem lifecycle_operations_return:
  assumes "timed d" and "\<forall>k. lo_pollIntervalMs options = Some k \<longrightarrow> 0 < k"
  shows "(\<exists>out. start options d i deadline w = Some out) \<and> (\<exists>out. stop options d persist i expected deadline w = Some out)"
  using start_returns [OF assms(1)] stop_returns [OF assms(1)] assms(2) by (simp add: returns_def)

text \<open>A project that starts and stops when it is told to; its world is the clock and whether it runs.\<close>

definition sample_registered :: registered_project where
  "sample_registered = \<lparr>rp_localProjectId = ''app'', rp_canonicalPath = ''/srv/app'', rp_registeredPath = ''/srv/app''\<rparr>"

definition sample_inspection :: "bool \<Rightarrow> inspection" where
  "sample_inspection up = \<lparr>in_invalid = False, in_process = (if up then Running 7 ''t'' ''p'' else Stopped ''t''),
     in_runtime = (if up then Some (''/srv/app/.runtime'', ''app'') else None), in_ready = up, in_locksReleased = \<not> up\<rparr>"

definition sample_driver :: "(int \<times> bool) runtime_driver" where
  "sample_driver = \<lparr>dr_resolveManaged = (\<lambda>_ w. (Inr sample_registered, w)),
     dr_inspect = (\<lambda>_ w. (Inr (sample_inspection (snd w)), w)), dr_start = (\<lambda>_ _ w. (Inr (Some 0), (fst w, True))),
     dr_stop = (\<lambda>_ _ _ w. (Inr (Some ''signal_sent''), (fst w, False))), dr_targetExited = (\<lambda>_ w. (Inr True, w)),
     dr_now = fst, dr_delay = (\<lambda>ms w. (fst w + ms, snd w))\<rparr>"

definition sample_options :: lifecycle_options where
  "sample_options = \<lparr>lo_timeoutMs = None, lo_pollIntervalMs = None, lo_sha = (\<lambda>s. s)\<rparr>"

lemmas sample_run_defs = recording_def kept_call_def kept_first_def recording_journal_def sample_driver_def sample_inspection_def
  sample_options_def sample_registered_def

lemma sample_start:
  "start sample_options (recording sample_driver) ''app'' None ((0, False), []) =
     Some (Inr (success (\<lambda>s. s) (sample_inspection True)), (0, True),
       [Seen (sample_inspection False), StartCall sample_registered, Seen (sample_inspection True)])"
  by (simp add: start_def Let_def await_def sample_run_defs refuse_start_def after_start_def wait_until.simps wait_pass_def replaced_def)

lemma start_needs_a_stopped_project_witness: "is_stopped (in_process (sample_inspection False)) \<and> is_running (in_process (sample_inspection True))"
  using start_needs_a_stopped_project [OF sample_start] by (auto simp: success_def)

definition sample_stop_target :: stop_target where
  "sample_stop_target = \<lparr>st_canonicalPath = ''/srv/app'', st_configDir = ''/srv/app/.runtime'', st_runtimeProjectId = ''app'',
     st_pid = 7, st_processIdentity = ''p''\<rparr>"

lemma sample_stop:
  "stop sample_options (recording sample_driver) (recording_journal (\<lambda>_ w. (Inr (), w))) ''app'' None None ((0, True), []) =
     Some (Inr (success (\<lambda>s. s) (sample_inspection False)), (0, False),
       [Seen (sample_inspection True), Kept sample_stop_target, StopCall sample_registered sample_stop_target, Seen (sample_inspection False)])"
  by (simp add: stop_def send_stop_def Let_def await_def sample_run_defs sameTarget_iff observed_target_def wait_until.simps
      wait_pass_def replaced_def stop_completed_def sample_stop_target_def)

lemma stop_signals_the_kept_target_witness: "seen_target (sample_inspection True) sample_stop_target"
  using stop_signals_the_kept_target [OF sample_stop] by auto

lemma lifecycle_operations_return_witness: "\<exists>out. stop sample_options sample_driver (\<lambda>_ w. (Inr (), w)) ''app'' None None (0, True) = Some out"
  using lifecycle_operations_return [of sample_driver sample_options]
  by (simp add: timed_def sample_driver_def sample_options_def)

end
