(* ===== verification/FleetInventory.thy ===== *)
theory FleetInventory
  imports FleetSecurity
begin

text \<open>
  The inventory of an environment: the pages of a revision arrive in any order and each once; the last
  one decides which projects are managed and expires the waiting commands of those that are not.
\<close>

section \<open>Settling\<close>

definition keeps_inventory :: "(string \<Rightarrow> fleet_db \<Rightarrow> fleet_error + fleet_db) \<Rightarrow> bool" where
  "keeps_inventory cancel \<longleftrightarrow> (\<forall>i db db'. cancel i db = Inr db' \<longrightarrow> inventory_view db' = inventory_view db)"

lemma invalidateProject_inventory: "keeps_inventory (invalidateProject now)"
  using invalidate_frame(2) other_tables_views unfolding keeps_inventory_def by blast

definition settled :: "string list \<Rightarrow> project_row \<Rightarrow> project_row" where
  "settled ids p = p\<lparr>pj_managed := pj_project_id p \<in> set ids, pj_published := (pj_project_id p \<in> set ids \<or> pj_published p)\<rparr>"

lemma settled_fields [simp]:
  "pj_project_id (settled ids p) = pj_project_id p" "pj_environment_id (settled ids p) = pj_environment_id p"
  "pj_managed (settled ids p) = (pj_project_id p \<in> set ids)" "settled ids (settled ids p) = settled ids p"
  by (simp_all add: settled_def)

lemma settle_projects_rows:
  "keeps_inventory cancel \<Longrightarrow> settle_projects cancel ids rows db = Inr db' \<Longrightarrow>
   projects db' = map (\<lambda>p. if pj_project_id p \<in> pj_project_id ` set rows then settled ids p else p) (projects db) \<and>
   revisions db' = revisions db \<and> pages db' = pages db"
proof (induction rows arbitrary: db)
  case (Cons r rows)
  let ?settle = "\<lambda>db. update_projects (\<lambda>x. pj_project_id x = pj_project_id r)
       (\<lambda>x. x\<lparr>pj_managed := pj_project_id r \<in> set ids, pj_published := (pj_project_id r \<in> set ids \<or> pj_published x)\<rparr>) db"
  from Cons.prems(2) obtain db1 where step:
    "(if pj_managed r \<and> pj_project_id r \<notin> set ids then cancel (pj_project_id r) db else Inr db) = Inr db1"
    "settle_projects cancel ids rows (?settle db1) = Inr db'"
    by (auto simp: rbind_Inr_iff Let_def)
  from step(1) Cons.prems(1) have "inventory_view db1 = inventory_view db" by (auto simp: keeps_inventory_def split: if_splits)
  then have same: "projects db1 = projects db" "revisions db1 = revisions db" "pages db1 = pages db"
    by (simp_all add: inventory_view_def)
  have "projects (?settle db1) = map (\<lambda>p. if pj_project_id p = pj_project_id r then settled ids p else p) (projects db)"
    by (auto simp: update_projects_def update_where_def settled_def same)
  moreover have "revisions (?settle db1) = revisions db" "pages (?settle db1) = pages db"
    by (simp_all add: update_projects_def same)
  moreover have if_settled: "(if c then settled ids q else q) = settled ids p" if "q = settled ids p" for c p q using that by simp
  ultimately show ?case using Cons.IH [OF Cons.prems(1) step(2)] by (auto simp: comp_def)
qed simp

lemma complete_revision_cases:
  assumes keeps: "keeps_inventory cancel" and ok: "complete_revision cancel i ids db = Inr db'"
  shows "projects db' = map (\<lambda>p. if pj_project_id p \<in> pj_project_id ` {q \<in> set (projects db). pj_environment_id q = i}
      then settled ids p else p) (projects db)"
    "revisions db' = update_where (\<lambda>r. rv_environment_id r = i) (\<lambda>r. r\<lparr>rv_complete := True\<rparr>) (revisions db)"
    "pages db' = filter (\<lambda>p. pg_environment_id p \<noteq> i) (pages db)"
  using ok settle_projects_rows [OF keeps] unfolding complete_revision_def
  by (auto simp: rbind_Inr_iff dest!: settle_projects_rows [OF keeps])

text \<open>A completed inventory manages exactly the projects it lists.\<close>

lemma complete_revision_managed:
  assumes "keeps_inventory cancel" "complete_revision cancel i ids db = Inr db'" "p \<in> set (projects db')" "pj_environment_id p = i"
  shows "pj_managed p \<longleftrightarrow> pj_project_id p \<in> set ids"
proof -
  from assms(3) complete_revision_cases(1) [OF assms(1,2)] obtain q where q: "q \<in> set (projects db)"
    "p = (if pj_project_id q \<in> pj_project_id ` {q \<in> set (projects db). pj_environment_id q = i} then settled ids q else q)"
    by auto
  from q(2) assms(4) have "pj_environment_id q = i" by (auto split: if_splits)
  with q have "p = settled ids q" by auto
  then show ?thesis by simp
qed

section \<open>Pages\<close>

definition env_pages :: "string \<Rightarrow> fleet_db \<Rightarrow> page_row list" where
  "env_pages i db = filter (\<lambda>p. pg_environment_id p = i) (pages db)"

definition revision_of :: "string \<Rightarrow> fleet_db \<Rightarrow> revision_row option" where
  "revision_of i db = find (\<lambda>r. rv_environment_id r = i) (revisions db)"

text \<open>Receiving observations changes neither the pages nor which projects there are.\<close>

definition same_projects :: "fleet_db \<Rightarrow> fleet_db \<Rightarrow> bool" where
  "same_projects db db' \<longleftrightarrow> revisions db' = revisions db \<and> pages db' = pages db \<and>
     map (\<lambda>p. (pj_project_id p, pj_environment_id p, pj_managed p)) (projects db') =
     map (\<lambda>p. (pj_project_id p, pj_environment_id p, pj_managed p)) (projects db)"

lemma same_projects_refl [simp]: "same_projects db db"
  by (simp add: same_projects_def)

lemma same_projects_trans: "same_projects db db1 \<Longrightarrow> same_projects db1 db2 \<Longrightarrow> same_projects db db2"
  by (simp add: same_projects_def)

lemma receive_project_same:
  assumes keeps: "keeps_inventory cancel" and ok: "receive_project cancel now i x db = Inr db'"
  shows "same_projects db db'"
proof -
  have u: "same_projects db (update_projects q (\<lambda>r. r\<lparr>pj_observation := a, pj_received_at := b\<rparr>) db)" for q a b
    by (simp add: same_projects_def update_projects_def update_where_def)
  have c: "same_projects db d'" if "cancel k d = Inr d'" "same_projects db d" for k d d'
    using that keeps by (simp add: same_projects_def keeps_inventory_def inventory_view_def)
  from ok show ?thesis unfolding receive_project_def Let_def
    by (auto simp: rbind_Inr_iff split: option.splits if_splits intro: u c)
qed

lemma receive_projects_same: "keeps_inventory cancel \<Longrightarrow> receive_projects cancel now i xs db = Inr db' \<Longrightarrow> same_projects db db'"
  by (induction xs arbitrary: db) (auto simp: rbind_Inr_iff intro: same_projects_trans receive_project_same)

lemma same_projects_pages:
  "same_projects db db' \<Longrightarrow> env_pages i db' = env_pages i db \<and> known_ids i db' = known_ids i db \<and> revision_of i db' = revision_of i db"
  by (simp add: same_projects_def env_pages_def revision_of_def known_ids_def)

lemma known_ids_pages: "known_ids i db = concat (map pg_project_ids (env_pages i db))"
  by (simp add: known_ids_def env_pages_def)

section \<open>The pages of a revision\<close>

definition page_index :: "observation_request \<Rightarrow> int" where
  "page_index r = \<lfloor>getOr (number_at (Some (ob_inventory r)) [''pageIndex'']) 0\<rfloor>"

definition page_total :: "observation_request \<Rightarrow> int" where
  "page_total r = \<lfloor>getOr (number_at (Some (ob_inventory r)) [''pageCount'']) 0\<rfloor>"

definition page_listing :: "observation_request \<Rightarrow> string list" where
  "page_listing r = map (\<lambda>x. field x [''projectId'']) (getOr (jlist (value_at (Some (ob_inventory r)) [''projects''])) [])"

definition page_of :: "string \<Rightarrow> string \<Rightarrow> string \<Rightarrow> int \<Rightarrow> observation_request \<Rightarrow> bool" where
  "page_of i sid v n r \<longleftrightarrow> ob_environmentId r = i \<and> ob_sessionId r = sid \<and> field (ob_inventory r) [''revisionId''] = v \<and>
     page_total r = n \<and> 0 \<le> page_index r \<and> page_index r < n"

definition page_row_of :: "observation_request \<Rightarrow> page_row" where
  "page_row_of r = \<lparr>pg_environment_id = ob_environmentId r, pg_page_index = page_index r, pg_project_ids = page_listing r\<rparr>"

lemma sort_runs_projectId: "field (sort_runs localeCompare x) [''projectId''] = field x [''projectId'']"
proof -
  have "map_of (filter (\<lambda>(k, _). k \<noteq> ''runs'') ys) ''projectId'' = map_of ys ''projectId''" for ys :: "(string \<times> json) list"
    by (induction ys) auto
  then show ?thesis by (cases x) (simp_all add: sort_runs_def jset_def field_def string_at_def rev_filter)
qed

text \<open>A received page is stored; when all have arrived the revision is completed.\<close>

lemma received_page:
  assumes keeps: "keeps_inventory cancel" and i: "i = ob_environmentId request"
    and received: "receiveObservation localeCompare cancel now request db = Inr db'"
  obtains db1 db2 where "open_revision i (ob_sessionId request) (ob_inventory request) db = Inr db1"
    "same_projects db1 db2" "page_index request \<notin> set (map pg_page_index (env_pages i db1))"
    "if int (length (env_pages i db1)) + 1 = page_total request
     then complete_revision cancel i (known_ids i db1 @ page_listing request) (db2\<lparr>pages := pages db2 @ [page_row_of request]\<rparr>) = Inr db'
     else db' = db2\<lparr>pages := pages db2 @ [page_row_of request]\<rparr>"
proof -
  let ?xs = "map (sort_runs localeCompare) (getOr (jlist (value_at (Some (ob_inventory request)) [''projects''])) [])"
  let ?ids = "map (\<lambda>x. field x [''projectId'']) ?xs"
  have ids: "?ids = page_listing request" by (simp add: page_listing_def sort_runs_projectId comp_def)
  from received obtain db1 where opened: "open_revision i (ob_sessionId request) (ob_inventory request) db = Inr db1"
    and rest: "(if \<exists>p \<in> set (pages db1). pg_environment_id p = i \<and> pg_page_index p = page_index request then Inl invalid_inventory
         else let previous = known_ids i db1
              in if managedProjectsPerAgent < int (length previous + length ?ids) \<or> (\<exists>x \<in> set ?ids. x \<in> set previous)
                 then Inl invalid_inventory
                 else rbind (receive_projects cancel now i ?xs db1) (\<lambda>db.
                   let db = db\<lparr>pages := pages db @ [page_row_of request]\<rparr>
                   in if int (length (filter (\<lambda>p. pg_environment_id p = i) (pages db))) = page_total request
                      then complete_revision cancel i (previous @ ?ids) db else Inr db)) = Inr db'"
    unfolding receiveObservation_def Let_def rbind_Inr_iff page_index_def page_total_def page_row_of_def i ids [symmetric] by blast
  from rest have new: "\<not> (\<exists>p \<in> set (pages db1). pg_environment_id p = i \<and> pg_page_index p = page_index request)"
    by (rule contrapos_pn) simp
  from rest new obtain db2 where same: "receive_projects cancel now i ?xs db1 = Inr db2"
    and last: "(if int (length (filter (\<lambda>p. pg_environment_id p = i) (pages db2 @ [page_row_of request]))) = page_total request
       then complete_revision cancel i (known_ids i db1 @ ?ids) (db2\<lparr>pages := pages db2 @ [page_row_of request]\<rparr>)
       else Inr (db2\<lparr>pages := pages db2 @ [page_row_of request]\<rparr>)) = Inr db'"
    by (simp only: if_False Let_def) (auto simp: rbind_Inr_iff split: if_splits)
  note kept = receive_projects_same [OF keeps same]
  have index: "page_index request \<notin> set (map pg_page_index (env_pages i db1))" using new by (auto simp: env_pages_def)
  have len: "int (length (filter (\<lambda>p. pg_environment_id p = i) (pages db2 @ [page_row_of request]))) = int (length (env_pages i db1)) + 1"
    using kept by (simp add: env_pages_def same_projects_def page_row_of_def i)
  show ?thesis by (rule that [OF opened kept index]) (use last [unfolded len ids] in \<open>simp split: if_splits\<close>)
qed

lemma open_revision_new:
  assumes "case revision_of i db of None \<Rightarrow> True | Some c \<Rightarrow> rv_session_id c \<noteq> sid \<or> rv_revision_id c \<noteq> field inventory [''revisionId'']"
    and "open_revision i sid inventory db = Inr db'"
  shows "projects db' = projects db \<and> env_pages i db' = [] \<and>
    revision_of i db' = Some \<lparr>rv_environment_id = i, rv_session_id = sid, rv_revision_id = field inventory [''revisionId''],
      rv_page_count = \<lfloor>getOr (number_at (Some inventory) [''pageCount'']) 0\<rfloor>, rv_complete = False\<rparr>"
  using assms find_upsert [of rv_environment_id i _ "revisions db"]
  by (auto simp: open_revision_def Let_def revision_of_def env_pages_def split: if_splits)

lemma open_revision_again:
  assumes "revision_of i db = Some c" "rv_session_id c = sid" "rv_revision_id c = field inventory [''revisionId'']"
    and "open_revision i sid inventory db = Inr db'"
  shows "db' = db \<and> \<not> rv_complete c"
  using assms by (auto simp: open_revision_def Let_def revision_of_def split: if_splits)

lemma complete_revision_row:
  assumes "keeps_inventory cancel" "complete_revision cancel i ids db = Inr db'"
  shows "revision_of i db' = map_option (\<lambda>r. r\<lparr>rv_complete := True\<rparr>) (revision_of i db)"
  using complete_revision_cases(2) [OF assms] find_update_where [of rv_environment_id "\<lambda>r. r\<lparr>rv_complete := True\<rparr>" i i "revisions db"]
  by (simp add: revision_of_def)

section \<open>A revision page by page\<close>

fun receive_pages ::
  "(string \<Rightarrow> string \<Rightarrow> int) \<Rightarrow> (int \<times> observation_request) list \<Rightarrow> fleet_db \<Rightarrow> fleet_error + fleet_db" where
  "receive_pages localeCompare [] db = Inr db"
| "receive_pages localeCompare ((now, r) # rs) db =
     rbind (receiveObservation localeCompare (invalidateProject now) now r db) (receive_pages localeCompare rs)"

text \<open>Where a revision stands after the pages \<open>ps\<close> of it.\<close>

definition managed_flags :: "fleet_db \<Rightarrow> (string \<times> string \<times> bool) list" where
  "managed_flags db = map (\<lambda>p. (pj_project_id p, pj_environment_id p, pj_managed p)) (projects db)"

definition revision_at :: "string \<Rightarrow> string \<Rightarrow> string \<Rightarrow> int \<Rightarrow> (string \<times> string \<times> bool) list \<Rightarrow> observation_request list \<Rightarrow> fleet_db \<Rightarrow> bool" where
  "revision_at i sid v n flags ps db \<longleftrightarrow>
     (\<exists>c. revision_of i db = Some c \<and> rv_session_id c = sid \<and> rv_revision_id c = v \<and>
        (rv_complete c \<longleftrightarrow> int (length ps) = n)) \<and>
     int (length ps) \<le> n \<and> distinct (map page_index ps) \<and>
     (int (length ps) < n \<longrightarrow> env_pages i db = map page_row_of ps \<and> managed_flags db = flags) \<and>
     (int (length ps) = n \<longrightarrow> (\<forall>p \<in> set (projects db). pj_environment_id p = i \<longrightarrow>
        (pj_managed p \<longleftrightarrow> pj_project_id p \<in> (\<Union>r \<in> set ps. set (page_listing r)))))"

lemma revision_page:
  assumes page: "page_of i sid v n r" and received: "receiveObservation localeCompare (invalidateProject now) now r db = Inr db'"
    and opened: "\<And>d. open_revision i sid (ob_inventory r) db = Inr d \<Longrightarrow> managed_flags d = flags \<and> env_pages i d = map page_row_of ps \<and>
       (\<exists>c. revision_of i d = Some c \<and> rv_session_id c = sid \<and> rv_revision_id c = v \<and> \<not> rv_complete c)"
    and ps: "int (length ps) < n" "distinct (map page_index ps)"
  shows "revision_at i sid v n flags (ps @ [r]) db'"
proof -
  note keeps = invalidateProject_inventory [of now]
  have r: "ob_environmentId r = i" "ob_sessionId r = sid" "page_total r = n" using page by (simp_all add: page_of_def)
  obtain db1 db2 where d1: "open_revision i sid (ob_inventory r) db = Inr db1" and same: "same_projects db1 db2"
    and new: "page_index r \<notin> set (map pg_page_index (env_pages i db1))"
    and last: "if int (length (env_pages i db1)) + 1 = n
     then complete_revision (invalidateProject now) i (known_ids i db1 @ page_listing r) (db2\<lparr>pages := pages db2 @ [page_row_of r]\<rparr>) = Inr db'
     else db' = db2\<lparr>pages := pages db2 @ [page_row_of r]\<rparr>"
    using received_page [OF keeps refl received] unfolding r by metis
  let ?db3 = "db2\<lparr>pages := pages db2 @ [page_row_of r]\<rparr>"
  from opened [OF d1] obtain c where flags: "managed_flags db1 = flags" and rows: "env_pages i db1 = map page_row_of ps"
    and c: "revision_of i db1 = Some c" "rv_session_id c = sid" "rv_revision_id c = v" "\<not> rv_complete c" by blast
  have once: "distinct (map page_index (ps @ [r]))" using new ps(2) by (simp add: rows page_row_of_def image_image)
  have revision: "revision_of i ?db3 = Some c" using same_projects_pages [OF same] c(1) by (simp add: revision_of_def)
  have kept: "env_pages i ?db3 = map page_row_of (ps @ [r])"
    using same_projects_pages [OF same, of i] r(1) by (simp add: env_pages_def rows [unfolded env_pages_def] page_row_of_def)
  have unchanged: "managed_flags ?db3 = flags" using same flags by (simp add: same_projects_def managed_flags_def)
  have listed: "set (known_ids i db1 @ page_listing r) = (\<Union>x \<in> set (ps @ [r]). set (page_listing x))"
    by (auto simp: known_ids_pages rows page_row_of_def)
  show ?thesis
  proof (cases "int (length ps) + 1 = n")
    case True
    with last rows have finished: "complete_revision (invalidateProject now) i (known_ids i db1 @ page_listing r) ?db3 = Inr db'" by simp
    from complete_revision_row [OF keeps finished] revision c have
      "\<exists>c. revision_of i db' = Some c \<and> rv_session_id c = sid \<and> rv_revision_id c = v \<and> rv_complete c" by simp
    moreover note complete_revision_managed [OF keeps finished, unfolded listed]
    ultimately show ?thesis unfolding revision_at_def using True once by auto
  next
    case False
    with last rows have "db' = ?db3" by simp
    with False ps once revision kept unchanged c show ?thesis unfolding revision_at_def by auto
  qed
qed

lemma revision_pages:
  assumes "revision_at i sid v n flags ps db" "list_all (\<lambda>(t, r). page_of i sid v n r) rs"
    and "receive_pages localeCompare rs db = Inr db'"
  shows "revision_at i sid v n flags (ps @ map snd rs) db'"
  using assms
proof (induction rs arbitrary: ps db)
  case (Cons x rs)
  obtain t r where x: "x = (t, r)" by force
  from Cons.prems(2) x have page: "page_of i sid v n r" by simp
  from Cons.prems(3) x obtain db1 where first: "receiveObservation localeCompare (invalidateProject t) t r db = Inr db1"
    and rest: "receive_pages localeCompare rs db1 = Inr db'" by (auto simp: rbind_Inr_iff)
  from Cons.prems(1) obtain c where c: "revision_of i db = Some c" "rv_session_id c = sid" "rv_revision_id c = v"
    "rv_complete c \<longleftrightarrow> int (length ps) = n" and now: "int (length ps) \<le> n" "distinct (map page_index ps)"
    "int (length ps) < n \<longrightarrow> env_pages i db = map page_row_of ps \<and> managed_flags db = flags" unfolding revision_at_def by blast
  have v: "v = field (ob_inventory r) [''revisionId'']" "ob_environmentId r = i" "ob_sessionId r = sid" using page by (simp_all add: page_of_def)
  have same: "d = db \<and> \<not> rv_complete c" if "open_revision i sid (ob_inventory r) db = Inr d" for d
    using open_revision_again [OF c(1,2) _ that] c(3) v(1) by simp
  obtain d where "open_revision i sid (ob_inventory r) db = Inr d"
    using received_page [OF invalidateProject_inventory refl first] unfolding v(2,3) by metis
  with same c(4) now(1) have less: "int (length ps) < n" by fastforce
  have "revision_at i sid v n flags (ps @ [r]) db1"
    by (rule revision_page [OF page first _ less now(2)]) (use same now(3) less c in blast)
  from Cons.IH [OF this _ rest] Cons.prems(2) x show ?case by simp
qed simp

lemma page_indices_fill:
  assumes "distinct (map page_index rs)" "list_all (page_of i sid v n) rs" "int (length rs) = n"
  shows "set (map page_index rs) = {0..<n}"
proof (rule card_subset_eq)
  show "set (map page_index rs) \<subseteq> {0..<n}" using assms(2) by (auto simp: list_all_iff page_of_def)
  show "card (set (map page_index rs)) = card {0..<n}" using distinct_card [OF assms(1)] assms(3) by simp
qed simp

section \<open>Property\<close>

definition sample_page :: "int \<Rightarrow> json list \<Rightarrow> observation_request" where
  "sample_page k xs = \<lparr>ob_environmentId = sample_env, ob_sessionId = sample_session, ob_sequence = k,
     ob_inventory = JObj [(''revisionId'', JStr sample_command), (''pageIndex'', JNum (of_int k)), (''pageCount'', JNum 2),
       (''projects'', JArr xs)]\<rparr>"

definition sample_pages :: "(int \<times> observation_request) list" where
  "sample_pages = [(sample_time + 3000, sample_page 0 [JObj [(''projectId'', JStr sample_project), (''localProjectId'', JStr ''one'')]]),
     (sample_time + 4000, sample_page 1 [])]"

definition identified_world :: "fleet_db \<times> registry" where
  "identified_world = serve sample_server (sample_time + 2500)
     (IdentifyProjects (\<lambda>k. if k = 0 then sample_project else sample_agent) sample_env [''one'', ''two'']) session_world"

definition sample_compare :: "string \<Rightarrow> string \<Rightarrow> int" where
  "sample_compare s t = 0"

lemma revision_result:
  assumes "list_all (\<lambda>(t, r). page_of i sid v n r) rs" and "rs \<noteq> []"
    and "case revision_of i db of None \<Rightarrow> True | Some c \<Rightarrow> rv_session_id c \<noteq> sid \<or> rv_revision_id c \<noteq> v"
    and "receive_pages localeCompare rs db = Inr db'"
  shows "distinct (map (page_index \<circ> snd) rs) \<and> map_option rv_complete (revision_of i db') = Some (int (length rs) = n) \<and>
    (if int (length rs) = n
     then page_index ` snd ` set rs = {0..<n} \<and>
       (\<forall>p \<in> set (projects db'). pj_environment_id p = i \<longrightarrow>
          (pj_managed p \<longleftrightarrow> (\<exists>(t, r) \<in> set rs. pj_project_id p \<in> set (page_listing r))))
     else int (length rs) < n \<and> managed_flags db' = managed_flags db)"
proof -
  from assms(2) obtain t r rest where rs: "rs = (t, r) # rest" by (cases rs) auto
  from assms(1) rs have page: "page_of i sid v n r" and pages: "list_all (\<lambda>(t, r). page_of i sid v n r) rest" by simp_all
  from assms(4) rs obtain db1 where first: "receiveObservation localeCompare (invalidateProject t) t r db = Inr db1"
    and others: "receive_pages localeCompare rest db1 = Inr db'" by (auto simp: rbind_Inr_iff)
  from page have v: "v = field (ob_inventory r) [''revisionId'']" "0 < n" by (simp_all add: page_of_def)
  have "revision_at i sid v n (managed_flags db) ([] @ [r]) db1"
    by (rule revision_page [OF page first]) (use open_revision_new [where i = i and db = db and sid = sid and inventory = "ob_inventory r"] assms(3) v in \<open>auto simp: managed_flags_def\<close>)
  from revision_pages [OF this pages others] have whole: "revision_at i sid v n (managed_flags db) (map snd rs) db'" by (simp add: rs)
  have "list_all (page_of i sid v n) (map snd rs)" using assms(1) by (simp add: list_all_iff case_prod_unfold)
  with whole page_indices_fill [of "map snd rs" i sid v n] show ?thesis
    unfolding revision_at_def by (auto simp: image_image case_prod_unfold comp_def)
qed

text \<open>
  C27. An inventory manages what it lists: of a revision every page is received at most once, in any order
  after the first; while pages are missing no project changes hands, and when all have arrived the
  revision is complete and a project of the environment is managed exactly if a page lists it.
\<close>

theorem inventory_manages_what_it_lists:
  assumes "list_all (\<lambda>(t, r). page_of i sid v n r) rs" and "rs \<noteq> []"
    and "case revision_of i db of None \<Rightarrow> True | Some c \<Rightarrow> rv_session_id c \<noteq> sid \<or> rv_revision_id c \<noteq> v"
    and "receive_pages localeCompare rs db = Inr db'"
  shows "distinct (map (page_index \<circ> snd) rs) \<and> map_option rv_complete (revision_of i db') = Some (int (length rs) = n) \<and>
    (if int (length rs) = n
     then page_index ` snd ` set rs = {0..<n} \<and>
       (\<forall>p \<in> set (projects db'). pj_environment_id p = i \<longrightarrow>
          (pj_managed p \<longleftrightarrow> (\<exists>(t, r) \<in> set rs. pj_project_id p \<in> set (page_listing r))))
     else int (length rs) < n \<and> managed_flags db' = managed_flags db)"
  using revision_result [OF assms] .

lemma inventory_manages_what_it_lists_witness:
  "map (\<lambda>p. (pj_managed p, pj_project_id p = sample_project))
     (projects (case receive_pages sample_compare sample_pages (fst identified_world) of Inr db \<Rightarrow> db | Inl _ \<Rightarrow> empty_db)) =
   [(True, True), (False, False)]"
proof -
  let ?r = "receive_pages sample_compare sample_pages (fst identified_world)"
  have pages: "list_all (\<lambda>(t, r). page_of sample_env sample_session sample_command 2 r) sample_pages" "sample_pages \<noteq> []" by code_simp+
  have new: "revision_of sample_env (fst identified_world) = None" "is_ok ?r" by code_simp+
  then obtain db where db: "?r = Inr db" by (auto simp: is_ok_iff)
  have rows: "map (\<lambda>p. (pj_environment_id p, pj_project_id p))
     (projects (case ?r of Inr db \<Rightarrow> db | Inl _ \<Rightarrow> empty_db)) = [(sample_env, sample_project), (sample_env, sample_agent)]" by code_simp
  have listed: "map (\<lambda>(t, r). page_listing r) sample_pages = [[sample_project], []]" "int (length sample_pages) = 2" by code_simp+
  from inventory_manages_what_it_lists [OF pages _ db] new(1) listed(2) have
    managed: "\<forall>p \<in> set (projects db). pj_environment_id p = sample_env \<longrightarrow>
      (pj_managed p \<longleftrightarrow> (\<exists>(t, r) \<in> set sample_pages. pj_project_id p \<in> set (page_listing r)))" by simp
  from rows db obtain p q where projects: "projects db = [p, q]" "pj_environment_id p = sample_env" "pj_project_id p = sample_project"
    "pj_environment_id q = sample_env" "pj_project_id q = sample_agent" by (auto simp: map_eq_Cons_conv)
  have other: "sample_agent \<noteq> sample_project" by code_simp
  have "(\<exists>(t, r) \<in> set sample_pages. x \<in> set (page_listing r)) \<longleftrightarrow> (\<exists>l \<in> set (map (\<lambda>(t, r). page_listing r) sample_pages). x \<in> set l)" for x
    by auto
  then have "(\<exists>(t, r) \<in> set sample_pages. x \<in> set (page_listing r)) \<longleftrightarrow> x = sample_project" for x by (simp add: listed)
  with managed projects other db show ?thesis by simp
qed

end
