(* ===== verification/AgentForeground.thy ===== *)
theory AgentForeground
  imports FleetInventory
begin

text \<open>
  \<open>packages/management-agent/src/foreground.ts\<close> and \<open>inventory.ts\<close>: the pages in which an agent
  reports its projects, its reaction to a failed connection and the check of the identities it is
  given. Fresh identifiers, the time of the report, the random number and the encoded size of a
  document are parameters.
\<close>

section \<open>Reconnecting\<close>

definition reconnectDelay :: "nat \<Rightarrow> rat \<Rightarrow> int" where
  "reconnectDelay attempt random =
     (let ceiling = min 30000 (1000 * 2 ^ min 30 attempt)
      in \<lfloor>ceiling * (1 / 2 + min 1 (max 0 random) / 2)\<rfloor>)"

text \<open>What follows a failed connection: the session is kept or forgotten, or the agent gives up.\<close>

datatype connection_failure =
    Reconnect bool string
  | GiveUp string

definition after_failure :: "bool \<Rightarrow> string \<Rightarrow> bool \<Rightarrow> connection_failure" where
  "after_failure has_session code retryable =
     (if code = ''unauthenticated'' \<and> has_session then Reconnect False code
      else if \<not> retryable \<and> code \<noteq> ''session_conflict'' then GiveUp code
      else Reconnect has_session code)"

section \<open>Pages\<close>

record page_env =
  pv_environmentId :: string
  pv_sessionId :: string
  pv_requestId :: "nat \<Rightarrow> string"
  pv_revisionId :: string
  pv_observedAt :: string
  pv_encodedBytes :: "json \<Rightarrow> int"

definition inventory_page :: "page_env \<Rightarrow> int \<Rightarrow> json list \<Rightarrow> nat \<Rightarrow> nat \<Rightarrow> json" where
  "inventory_page env sequence entries index n =
     JObj [(''protocolVersion'', JNum 1), (''environmentId'', JStr (pv_environmentId env)),
       (''sessionId'', JStr (pv_sessionId env)), (''requestId'', JStr (pv_requestId env index)),
       (''sequence'', JNum (of_int sequence)), (''observedAt'', JStr (pv_observedAt env)),
       (''inventory'', JObj [(''revisionId'', JStr (pv_revisionId env)), (''pageIndex'', JNum (of_nat index)),
          (''pageCount'', JNum (of_nat n)), (''projects'', JArr entries)])]"

text \<open>The largest page index, n and sequence number are reserved when a page is measured.\<close>

definition too_large :: "page_env \<Rightarrow> json list \<Rightarrow> bool" where
  "too_large env entries \<longleftrightarrow> observationBodyBytes < pv_encodedBytes env (inventory_page env max_safe entries 99 100)"

fun fill_pages :: "page_env \<Rightarrow> json list list \<Rightarrow> json list \<Rightarrow> json list \<Rightarrow> json list list result" where
  "fill_pages env full current [] = Inr (full @ [current])"
| "fill_pages env full current (p # ps) =
     (if too_large env (current @ [p])
      then if current = [] \<or> too_large env [p] then Inl ''observation_too_large''
           else fill_pages env (full @ [current]) [p] ps
      else fill_pages env full (current @ [p]) ps)"

fun parse_pages :: "page_env \<Rightarrow> int \<Rightarrow> nat \<Rightarrow> nat \<Rightarrow> json list list \<Rightarrow> json list result" where
  "parse_pages env sequence index n [] = Inr []"
| "parse_pages env sequence index n (g # gs) =
     rbind (observationRequestSchema (pv_encodedBytes env)
       (Some (inventory_page env (sequence + int index) g index n)) ''$'') (\<lambda>page.
     rbind (parse_pages env sequence (Suc index) n gs) (\<lambda>pages. Inr (getOr page JNull # pages)))"

definition observationPages :: "page_env \<Rightarrow> json list \<Rightarrow> int \<Rightarrow> json list result" where
  "observationPages env reported sequence =
     (if managedProjectsPerAgent < int (length reported) \<or> \<not> distinct (map (\<lambda>p. field p [''projectId'']) reported) \<or>
         \<not> distinct (map (\<lambda>p. field p [''localProjectId'']) reported)
      then Inl ''invalid_inventory''
      else rbind (fill_pages env [] [] reported) (\<lambda>groups. parse_pages env sequence 0 (length groups) groups))"

section \<open>Identities\<close>

text \<open>The identities the fleet allocates are checked against the inventory they are for.\<close>

record project_identity =
  pd_environmentId :: string
  pd_localProjectId :: string
  pd_projectId :: string

definition identities_ok :: "string \<Rightarrow> string list \<Rightarrow> project_identity list \<Rightarrow> bool" where
  "identities_ok environmentId ids allocated \<longleftrightarrow>
     length allocated = length ids \<and> card (set (map pd_localProjectId allocated)) = length ids \<and>
     card (set (map pd_projectId allocated)) = length ids \<and>
     list_all (\<lambda>p. is_ok (uuidSchema (Some (JStr (pd_projectId p))) ''$'') \<and> pd_environmentId p = environmentId \<and>
       pd_localProjectId p \<in> set ids) allocated"

definition snapshot_projects :: "string \<Rightarrow> (string \<times> json) list \<Rightarrow> project_identity list \<Rightarrow> json list result" where
  "snapshot_projects environmentId inventory allocated =
     (if \<not> identities_ok environmentId (map fst inventory) allocated then Inl ''invalid_inventory_identity''
      else case those (map (\<lambda>(i, p). case map_of (rev (map (\<lambda>a. (pd_localProjectId a, pd_projectId a)) allocated)) i of
               None \<Rightarrow> None
             | Some projectId \<Rightarrow>
                 (case projectObservationSchema (Some (jset p ''projectId'' (JStr projectId))) ''$'' of
                    Inl _ \<Rightarrow> None | Inr v \<Rightarrow> v)) inventory) of
             None \<Rightarrow> Inl ''invalid_inventory_identity'' | Some xs \<Rightarrow> Inr xs)"

section \<open>What is reported is what is managed\<close>

lemma fill_pages_concat: "fill_pages env full current ps = Inr groups \<Longrightarrow> concat groups = concat full @ current @ ps"
  by (induction ps arbitrary: full current) (auto split: if_splits)

lemma fill_pages_bound: "fill_pages env full current ps = Inr groups \<Longrightarrow> length groups \<le> length full + 1 + length ps \<and> groups \<noteq> []"
  by (induction ps arbitrary: full current) (fastforce split: if_splits)+

lemma faithful_observation: "observationRequestSchema bytes v p = Inr w \<Longrightarrow> equivalent w v"
proof -
  assume ok: "observationRequestSchema bytes v p = Inr w"
  then have "object_schema observation_fields v p = Inr w" by (auto simp: observationRequestSchema_def schema_fail_def split: option.splits if_splits)
  moreover have "faithful_schema (object_schema observation_fields)" by (simp add: observation_fields_def schema_intros)
  ultimately show ?thesis by (auto simp: faithful_schema_def)
qed

lemma value_at_append: "value_at v (ks @ ls) = value_at (value_at v ks) ls"
  by (induction ks arbitrary: v) simp_all

lemma value_at_nothing: "value_at None ks = None" "ks \<noteq> [] \<Longrightarrow> value_at (Some JNull) ks = None"
proof -
  show none: "value_at None ks = None" for ks by (induction ks) simp_all
  show "ks \<noteq> [] \<Longrightarrow> value_at (Some JNull) ks = None" by (cases ks) (simp_all add: none)
qed

lemma parsed_page:
  assumes "observationRequestSchema bytes (Some (inventory_page env sequence g k n)) ''$'' = Inr w"
  shows "ob_environmentId (observation_of (getOr w JNull)) = pv_environmentId env \<and>
    ob_sessionId (observation_of (getOr w JNull)) = pv_sessionId env \<and>
    field (ob_inventory (observation_of (getOr w JNull))) [''revisionId''] = pv_revisionId env \<and>
    page_index (observation_of (getOr w JNull)) = int k \<and> page_total (observation_of (getOr w JNull)) = int n \<and>
    page_listing (observation_of (getOr w JNull)) = map (\<lambda>p. field p [''projectId'']) g"
proof -
  let ?doc = "inventory_page env sequence g k n" and ?r = "observation_of (getOr w JNull)"
  from faithful_observation [OF assms] obtain j where w: "w = Some j" "equivalent (Some j) (Some ?doc)" by (cases w) auto
  note reads = scalars_equivalent [OF w(2)]
  have deep: "string_at (Some (ob_inventory ?r)) ks = string_at (Some j) (''inventory'' # ks) \<and>
      number_at (Some (ob_inventory ?r)) ks = number_at (Some j) (''inventory'' # ks) \<and>
      strings_at (Some (ob_inventory ?r)) ks m = strings_at (Some j) (''inventory'' # ks) m" if "ks \<noteq> []" for ks m
  proof (cases "value_at (Some j) [''inventory'']")
    case None
    with value_at_nothing [of ks] that show ?thesis by (simp add: observation_of_def w(1) string_at_def number_at_def strings_at_def)
  next
    case (Some x)
    then show ?thesis by (simp add: observation_of_def w(1) string_at_def number_at_def strings_at_def)
  qed
  have listing: "page_listing r = map (\<lambda>v. getOr v []) (strings_at (Some (ob_inventory r)) [''projects''] ''projectId'')" for r
    by (simp add: page_listing_def strings_at_def field_def string_at_def)
  have ids: "jstring (jget j ''environmentId'') = Some (pv_environmentId env)" "jstring (jget j ''sessionId'') = Some (pv_sessionId env)"
    using reads(1) [of "[''environmentId'']"] reads(1) [of "[''sessionId'']"] by (simp_all add: inventory_page_def string_at_def)
  show ?thesis
    unfolding page_index_def page_total_def listing field_def
    by (simp add: deep reads) (simp add: observation_of_def w(1) field_def reads inventory_page_def string_at_def number_at_def strings_at_def ids)
qed

lemma parsed_pages:
  assumes "parse_pages env sequence k n groups = Inr docs"
  shows "list_all2 (\<lambda>d (j, g). page_index (observation_of d) = int j \<and> page_total (observation_of d) = int n \<and>
       ob_environmentId (observation_of d) = pv_environmentId env \<and> ob_sessionId (observation_of d) = pv_sessionId env \<and>
       field (ob_inventory (observation_of d)) [''revisionId''] = pv_revisionId env \<and>
       page_listing (observation_of d) = map (\<lambda>p. field p [''projectId'']) g) docs (zip [k..<k + length groups] groups)"
  using assms
proof (induction groups arbitrary: k docs)
  case (Cons g groups)
  then obtain w rest where w: "observationRequestSchema (pv_encodedBytes env) (Some (inventory_page env (sequence + int k) g k n)) ''$'' = Inr w"
    and rest: "parse_pages env sequence (Suc k) n groups = Inr rest" and docs: "docs = getOr w JNull # rest"
    by (auto simp: rbind_Inr_iff)
  have "zip [k..<k + length (g # groups)] (g # groups) = (k, g) # zip [Suc k..<Suc k + length groups] groups"
    by (simp add: upt_rec [of k] Suc_le_eq)
  with parsed_page [OF w] Cons.IH [OF rest] docs show ?case by simp
qed simp

text \<open>The pages of a report, sent in their order, as the server receives them.\<close>

definition sent_pages :: "int \<Rightarrow> json list \<Rightarrow> (int \<times> observation_request) list" where
  "sent_pages now docs = map (\<lambda>d. (now, observation_of d)) docs"

text \<open>
  C23. What an agent reports is what the fleet manages: the pages an agent makes of its projects, received
  by the server as a new revision, complete an inventory in which the managed projects of the
  environment are exactly the reported ones.
\<close>

theorem reported_projects_are_managed:
  assumes "observationPages env reported sequence = Inr docs"
    and "case revision_of (pv_environmentId env) db of None \<Rightarrow> True
         | Some c \<Rightarrow> rv_session_id c \<noteq> pv_sessionId env \<or> rv_revision_id c \<noteq> pv_revisionId env"
    and "receive_pages localeCompare (sent_pages now docs) db = Inr db'"
  shows "map_option rv_complete (revision_of (pv_environmentId env) db') = Some True \<and>
    (\<forall>p \<in> set (projects db'). pj_environment_id p = pv_environmentId env \<longrightarrow>
       (pj_managed p \<longleftrightarrow> pj_project_id p \<in> set (map (\<lambda>p. field p [''projectId'']) reported)))"
proof -
  from assms(1) obtain groups where groups: "fill_pages env [] [] reported = Inr groups"
    and docs: "parse_pages env sequence 0 (length groups) groups = Inr docs"
    by (auto simp: observationPages_def rbind_Inr_iff split: if_splits)
  note pages = parsed_pages [OF docs]
  have len: "length docs = length groups" using list_all2_lengthD [OF pages] by simp
  have page: "page_index (observation_of (docs ! j)) = int j \<and> page_total (observation_of (docs ! j)) = int (length groups) \<and>
      ob_environmentId (observation_of (docs ! j)) = pv_environmentId env \<and> ob_sessionId (observation_of (docs ! j)) = pv_sessionId env \<and>
      field (ob_inventory (observation_of (docs ! j))) [''revisionId''] = pv_revisionId env \<and>
      page_listing (observation_of (docs ! j)) = map (\<lambda>p. field p [''projectId'']) (groups ! j)" if "j < length docs" for j
    using list_all2_nthD [OF pages that] that by (simp add: len)
  have "list_all (\<lambda>(t, r). page_of (pv_environmentId env) (pv_sessionId env) (pv_revisionId env) (int (length groups)) r) (sent_pages now docs)"
    using page len by (auto simp: sent_pages_def list_all_length page_of_def)
  moreover have "sent_pages now docs \<noteq> []" using fill_pages_bound [OF groups] len by (auto simp: sent_pages_def)
  ultimately have whole: "map_option rv_complete (revision_of (pv_environmentId env) db') = Some True"
    "\<forall>p \<in> set (projects db'). pj_environment_id p = pv_environmentId env \<longrightarrow>
       (pj_managed p \<longleftrightarrow> (\<exists>(t, r) \<in> set (sent_pages now docs). pj_project_id p \<in> set (page_listing r)))"
    using revision_result [of "pv_environmentId env" "pv_sessionId env" "pv_revisionId env" "int (length groups)" "sent_pages now docs" db localeCompare db']
      assms(2,3) len by (simp_all add: sent_pages_def)
  have "(\<exists>(t, r) \<in> set (sent_pages now docs). x \<in> set (page_listing r)) \<longleftrightarrow> x \<in> set (map (\<lambda>p. field p [''projectId'']) (concat groups))" for x
  proof -
    have "(\<exists>(t, r) \<in> set (sent_pages now docs). x \<in> set (page_listing r)) \<longleftrightarrow> (\<exists>j < length docs. x \<in> set (page_listing (observation_of (docs ! j))))"
      unfolding sent_pages_def by (simp add: set_conv_nth [of docs]) blast
    also have "\<dots> \<longleftrightarrow> (\<exists>j < length groups. x \<in> set (map (\<lambda>p. field p [''projectId'']) (groups ! j)))" using page len by auto
    also have "\<dots> \<longleftrightarrow> x \<in> set (map (\<lambda>p. field p [''projectId'']) (concat groups))" by (simp add: set_conv_nth [of groups]) blast
    finally show ?thesis .
  qed
  with whole fill_pages_concat [OF groups] show ?thesis by simp
qed

definition sample_report :: json where
  "sample_report = JObj [(''projectId'', JStr sample_project), (''localProjectId'', JStr ''one''),
     (''canonicalPath'', JStr ''/srv/one''), (''displayName'', JStr ''one''), (''cliVersion'', JStr ''1.0''),
     (''validation'', JObj [(''state'', JStr ''valid'')]),
     (''process'', JObj [(''state'', JStr ''stopped''), (''observedAt'', JStr ''2023-11-14T22:13:20.000Z'')]),
     (''observedAt'', JStr ''2023-11-14T22:13:20.000Z''), (''runs'', JArr [])]"

definition sample_page_env :: page_env where
  "sample_page_env = \<lparr>pv_environmentId = sample_env, pv_sessionId = sample_session, pv_requestId = (\<lambda>_. sample_command),
     pv_revisionId = sample_command, pv_observedAt = ''2023-11-14T22:13:20.000Z'', pv_encodedBytes = (\<lambda>_. 0)\<rparr>"

definition sample_docs :: "json list" where
  "sample_docs = (case observationPages sample_page_env [sample_report] 0 of Inl _ \<Rightarrow> [] | Inr docs \<Rightarrow> docs)"

lemma reported_projects_are_managed_witness:
  "\<exists>db. receive_pages sample_compare (sent_pages (sample_time + 3000) sample_docs) (fst identified_world) = Inr db \<and>
     map_option rv_complete (revision_of sample_env db) = Some True \<and>
     {p \<in> set (projects db). pj_environment_id p = sample_env \<and> pj_managed p \<and> pj_project_id p \<noteq> sample_project} = {}"
proof -
  have "is_ok (observationPages sample_page_env [sample_report] 0)" by code_simp
  then have docs: "observationPages sample_page_env [sample_report] 0 = Inr sample_docs" by (auto simp: is_ok_iff sample_docs_def)
  have "is_ok (receive_pages sample_compare (sent_pages (sample_time + 3000) sample_docs) (fst identified_world))" by code_simp
  then obtain db where db: "receive_pages sample_compare (sent_pages (sample_time + 3000) sample_docs) (fst identified_world) = Inr db"
    by (auto simp: is_ok_iff)
  have env: "pv_environmentId sample_page_env = sample_env" by (simp add: sample_page_env_def)
  have fresh: "revision_of sample_env (fst identified_world) = None" by code_simp
  have "field sample_report [''projectId''] = sample_project" by code_simp
  with reported_projects_are_managed [OF docs _ db] fresh env db show ?thesis by auto
qed

end
