(* ===== verification/Spec2Isabelle.thy ===== *)
theory Spec2Isabelle
  imports Tick Session ProjectLock FleetGuarantees FleetSecurity AgentGuarantees AgentForeground
begin

text \<open>
  A verification development for \<open>github-symphony\<close>: the orchestrator that turns tracker issues
  into agent runs, the worker that carries a run out, and the fleet that manages orchestrators on
  other machines through agents.

  \<^bold>\<open>The program.\<close> The orchestrator (\<open>packages/orchestrator\<close>) ticks over every project, under the
  lock of the project. A tick chooses the current run of every issue, reconciles each active run with
  its worker process, the tracker and the retry budget, and then dispatches new runs while slots are
  free; what it decides is kept in a list of issue orchestration records. The worker
  (\<open>packages/worker\<close>) runs an agent in turns: between turns it reads the tracker through the
  orchestrator, acquires a lease for the turn, and stops when the issue is no longer actionable, the
  agent is stuck, or the tracker or the lease cannot be had. The policy both share is in
  \<open>packages/core\<close>. The fleet server (\<open>packages/fleet-control-plane\<close>) keeps environments, their
  credentials and sessions, the projects they report, lifecycle commands (start and stop) and bounded
  reads in one database. The agent of an environment (\<open>packages/management-agent\<close>) polls it, keeps
  every command in a durable journal, claims it, carries it out on the local project and uploads the
  result. What they send each other is checked against the schemas of
  \<open>packages/management-protocol\<close>.

  \<^bold>\<open>The theories\<close>, in the order of their imports. Shared:
  \<^item> \<open>Prelude\<close>: JavaScript strings, exceptions as values of a sum, JSON, the stable array sort.
  \<^item> \<open>Dates\<close>: \<open>Date.parse\<close> and \<open>toISOString\<close>.
  \<^item> \<open>Numbers\<close>: \<open>Number\<close> of a string, integers and safe integers, environment variables.

  Orchestrator and worker:
  \<^item> \<open>Lifecycle\<close>: \<open>core/src/workflow\<close> (lifecycle, normalization, issue-routable, pickup-labels,
    issue-identity, exit-classification) and the tracked issue of \<open>contracts/tracker-adapter.ts\<close>.
  \<^item> \<open>Orchestration\<close>: the state machine of \<open>contracts/issue-orchestration.ts\<close>, the record list and
    its two writers \<open>upsertIssueOrchestration\<close> and \<open>releaseIssueOrchestration\<close>. The locale
    \<open>issue_store\<close> states what its clients use; it is interpreted on these definitions.
  \<^item> \<open>Retry\<close>: \<open>orchestration/retry-policy.ts\<close> and \<open>orchestrator/src/retained-decisions.ts\<close>.
  \<^item> \<open>Eligibility\<close>: \<open>orchestrator/src/dispatch-eligibility.ts\<close>, run records, the order of
    reconciliation.
  \<^item> \<open>Scheduling\<close>: the order of candidates, the latest run of every issue, rate limits and the
    adaptive poll interval of \<open>orchestrator/src/service.ts\<close>. The locale \<open>collation\<close> states what is
    needed of \<open>localeCompare\<close>.
  \<^item> \<open>Dispatch\<close>: the dispatch half of \<open>reconcileProject\<close>.
  \<^item> \<open>Reconcile\<close>: \<open>reconcileRun\<close> with the methods it calls.
  \<^item> \<open>Tick\<close>: \<open>selectCurrentRunsForReconciliation\<close> and the loop of \<open>reconcileProject\<close> over the
    active runs.
  \<^item> \<open>ProjectLock\<close>: \<open>orchestrator/src/lock.ts\<close>, one file operation a step, so that several processes
    can be interleaved.
  \<^item> \<open>TurnLease\<close>: \<open>worker/src/turn-lease.ts\<close> and the orchestrator's \<open>acquireWorkerTurnLease\<close>.
  \<^item> \<open>Continuation\<close>: \<open>worker/src/thread-resume.ts\<close>, \<open>worker/src/codex-turn-input.ts\<close>.
  \<^item> \<open>Session\<close>: the multi-turn loop of \<open>worker/src/index.ts\<close> with \<open>convergence-detection.ts\<close>,
    \<open>run-phase.ts\<close>, \<open>execution-phase.ts\<close>, \<open>turn-limits.ts\<close>. The locale \<open>loop_rule\<close> is the proof rule
    of that loop, interpreted once per invariant.

  Protocol and fleet server:
  \<^item> \<open>Validation\<close>, \<open>Schemas\<close>: \<open>validation.ts\<close>, \<open>schemas.ts\<close>, \<open>constants.ts\<close>. The locale
    \<open>faithful_schema\<close> is the contract that a schema neither coerces nor defaults, interpreted on the
    documents the two sides exchange.
  \<^item> \<open>FleetStore\<close>: the tables of \<open>migrations.ts\<close> and the transactions of \<open>store.ts\<close>.
  \<^item> \<open>FleetEnrollment\<close>: \<open>enrollment.ts\<close>, \<open>sessions.ts\<close>; \<open>FleetCommands\<close>: \<open>commands.ts\<close>;
    \<open>FleetObservations\<close>: \<open>observations.ts\<close>; \<open>FleetReads\<close>: \<open>reads.ts\<close>; \<open>FleetServer\<close>: their
    composition and the routes of the agents in \<open>server.ts\<close>.
  \<^item> \<open>FleetCommandLaws\<close>, \<open>FleetService\<close>, \<open>FleetGuarantees\<close>: the life cycle of a command as a step
    relation, which every call of the service refines, the databases that calls can reach, and the
    properties over them. \<open>FleetInventory\<close>: the pages of a revision. \<open>FleetReadLaws\<close>: the registry of
    reads as a step relation on its entries.
  \<^item> \<open>FleetAccessFrames\<close>, \<open>FleetAccess\<close>, \<open>FleetHistories\<close>, \<open>FleetSecurity\<close>: frames of the services, the
    consistency of tokens, credentials and sessions over every sequence of requests, the sequence
    numbers and read results such a sequence keeps, and the properties. The locale \<open>inventory_frame\<close>
    is what the writes of the inventory leave of another table, interpreted once for the tables of
    access and once for the sessions.

  Management agent:
  \<^item> \<open>AgentLifecycle\<close>: \<open>lifecycle.ts\<close> over a runtime driver; \<open>AgentJournal\<close>: \<open>journal.ts\<close>;
    \<open>AgentExecutor\<close>: \<open>executor.ts\<close>; \<open>AgentForeground\<close>: the pages of \<open>foreground.ts\<close> and
    \<open>inventory.ts\<close>, and their reception by the fleet server.
  \<^item> \<open>LifecycleLaws\<close>, \<open>AgentLaws\<close>, \<open>AgentGuarantees\<close>: what a lifecycle operation calls, the invariant
    of an agent over its inputs, and the properties.

  \<^bold>\<open>What the lemmas show.\<close> Of the records: a history of writes is accepted exactly when every one is a legal step, a lookup
  after a write finds what was written, and no other issue changes. Of dispatch: concurrency and
  per-state limits hold through a whole phase, held and scheduled issues are passed over, the order
  is the sorted one. Of reconciliation: only the run's own issue is written, a worker is restarted
  only for a due, current, eligible run with a free slot, and an exhausted budget keeps the issue
  from being dispatched. Of the lock: a live owner is never displaced, a stale lock may be taken
  twice. Of a session: every turn is leased, convergence is confirmed, an unreadable tracker bounds
  the turns, an idle agent is stopped; it is called stuck only for the configured number of
  unproductive turns in a row. Of the fleet: commands follow their life cycle, one is
  outstanding per project, results are durable and pruned by their dates alone, history pages
  enumerate every command once, revocation closes an environment until it is enrolled anew, tokens
  work once, an observation is projected once in its session, reads stay bounded and a result that
  has arrived stays while the server runs (a restart empties the registry of reads). Of the agent: an
  effect is invoked at most once and only under a durable claim, across crashes at any point and
  failing writes; a start needs a stopped project and a stop signals the process that was kept. The
  theorems named as properties carry the claim in words; those with a hypothesis have a witness on a
  concrete input.

  \<^bold>\<open>Conventions.\<close> A thrown error is \<open>Inl\<close> of its message or of a \<open>fleet_error\<close>. Numbers that the code
  keeps integral are \<open>int\<close>, numbers read from JSON or text are \<open>rat\<close>. Strings are lists of Latin-1
  code units; the em dash of the identity header is a parameter. Times are milliseconds; an operation
  of the fleet reads the clock once, and an agent journal write is given the text of its time. What
  lies outside the repository or the modelled files is a parameter: \<open>localeCompare\<close>, hashes and
  random identifiers, the HTTP endpoint, processes, git output, the tracker's answers, the workflow
  file, the start of a worker, the runtime driver of a project; \<open>loop_env\<close>, \<open>dispatch_env\<close>,
  \<open>reconcile_env\<close>, \<open>fleet_env\<close>, \<open>page_env\<close> and \<open>runtime_driver\<close> collect them. Writes to the
  orchestrator's store, signals and events are values of the type \<open>effect\<close>, in the order of the
  code; the effects of an operation that throws are not kept. A transaction of the fleet that throws
  leaves the database as it was. A journal write replaces the file or not, may fail either way, and a
  crash keeps the file and loses the memory. Three things are coarser than the code: a run is the same
  record before and after its worker is started, the rewrite of a lock file by its owner is one step,
  and a request goes on where marking the sessions that ran out has failed, which only adds states.

  \<^bold>\<open>Bounds.\<close> No definition runs on fuel that could be too small: loops are structural over the
  candidates, the runs, the rows or the remaining turns (the turn limit is finite), \<open>interpolate\<close>
  terminates because every step consumes a character of the template, and the wait of a lifecycle
  operation, which ends by the clock, is a partial function with a theorem that it returns.

  \<^bold>\<open>Not modelled.\<close> Token usage, rate-limit telemetry and the status snapshot of a run record;
  workspace preparation, hooks and publishing (markers among the effects); the JSON-RPC transport
  of the agent runtimes; the tracker adapters, the CLI, the dashboards, the pages and sockets of the
  fleet server, the operating-system services of the management agent, which are for the most part
  input and output around remote services. The workflow file is read once per reconciliation, where
  the code may read it again.
\<close>

end
